(* ===== verification/Prelude.thy ===== *)
theory Prelude
  imports Main "HOL-Library.Word"
begin

text \<open>
  Shared vocabulary of the development: machine integers, byte strings, Go's
  panics, the clock, and the generic lemmas on lists, options and words that the
  component theories use.

  \<^item> A Go \<open>uint8\<close>, \<open>uint16\<close>, \<open>uint32\<close>, \<open>uint64\<close> is a word of that width, so
    arithmetic wraps as it does in Go.
  \<^item> A Go \<open>string\<close> is a list of (8-bit) characters, a \<open>[]byte\<close> is a list of
    8-bit words; \<open>[]byte(s)\<close> and \<open>string(b)\<close> are the two conversions below.
  \<^item> A run-time panic is a value of \<open>go_panic\<close>, so that an operation that can
    panic returns \<open>go_panic + 'a\<close>.
  \<^item> A \<open>time.Time\<close> is the number of nanoseconds since Go's zero time, so
    \<open>IsZero\<close> is equality with 0; \<open>Sub\<close> saturates at the bounds of
    \<open>time.Duration\<close>, as the standard library documents.
\<close>

unbundle bit_operations_syntax

subsection \<open>Types\<close>

type_synonym u8 = "8 word"
type_synonym u16 = "16 word"
type_synonym u32 = "32 word"
type_synonym u64 = "64 word"
type_synonym bytes = "u8 list"

datatype go_panic = NilDeref | SliceBounds | IndexOutOfRange | PanicMsg string

type_synonym 'a may_panic = "go_panic + 'a"

named_theorems word_simps \<open>facts about the big-endian readers and writers\<close>
named_theorems go_defs \<open>definitions of the Go standard library operations modelled\<close>

subsection \<open>Strings and bytes\<close>

definition byte_of_char :: "char \<Rightarrow> u8" where
  "byte_of_char c = of_nat (of_char c)"

definition char_of_byte :: "u8 \<Rightarrow> char" where
  "char_of_byte b = char_of (unat b)"

definition string_to_bytes :: "string \<Rightarrow> bytes" where
  "string_to_bytes = map byte_of_char"

definition bytes_to_string :: "bytes \<Rightarrow> string" where
  "bytes_to_string = map char_of_byte"

lemma unat_u8_less [simp]: "unat (b :: u8) < 256"
  using unsigned_less [of b, where ?'a = nat] by simp

lemma char_of_byte_of_char [simp]: "char_of_byte (byte_of_char c) = c"
  using nat_of_char_less_256 [of c]
  by (simp add: byte_of_char_def char_of_byte_def unat_of_nat take_bit_nat_eq_self)

lemma byte_of_char_of_byte [simp]: "byte_of_char (char_of_byte b) = b"
  by (simp add: byte_of_char_def char_of_byte_def)

lemma bytes_to_string_to_bytes [simp]: "bytes_to_string (string_to_bytes s) = s"
  by (simp add: bytes_to_string_def string_to_bytes_def comp_def)

lemma string_to_bytes_to_string [simp]: "string_to_bytes (bytes_to_string b) = b"
  by (simp add: bytes_to_string_def string_to_bytes_def comp_def)

lemma length_string_to_bytes [simp]: "length (string_to_bytes s) = length s"
  by (simp add: string_to_bytes_def)

lemma string_to_bytes_eq_Nil [simp]: "string_to_bytes s = [] \<longleftrightarrow> s = []"
  by (simp add: string_to_bytes_def)

subsection \<open>Shifts and masks\<close>

lemma unat_drop_bit: "unat (drop_bit k (v :: 'a :: len word)) = unat v div 2 ^ k"
proof -
  have "unat (drop_bit k v) = drop_bit k (unat v)"
    using unsigned_less [of v, where ?'a = nat]
    by (simp only: unsigned_drop_bit_eq take_bit_nat_eq_self)
  then show ?thesis by (simp only: drop_bit_eq_div)
qed

lemma unat_and_mask: "unat ((v :: 'a :: len word) AND mask n) = unat v mod 2 ^ n"
proof -
  have "unat (v AND mask n) = take_bit n (unat v)"
    by (simp only: unsigned_take_bit_eq flip: take_bit_eq_mask)
  then show ?thesis by (simp only: take_bit_eq_mod)
qed

subsection \<open>Time\<close>

type_synonym gotime = int
type_synonym duration = int

definition maxDuration :: duration where "maxDuration = 2 ^ 63 - 1"
definition minDuration :: duration where "minDuration = - (2 ^ 63)"

text \<open>\<open>t.Sub(u)\<close>: the difference, saturated to the range of an \<open>int64\<close>.\<close>

definition time_Sub :: "gotime \<Rightarrow> gotime \<Rightarrow> duration" where
  "time_Sub t u = max minDuration (min maxDuration (t - u))"

definition Second :: duration where "Second = 1000000000"
definition Minute :: duration where "Minute = 60 * Second"

lemma time_Sub_less_iff:
  assumes "minDuration < d" and "d \<le> maxDuration"
  shows "time_Sub t u < d \<longleftrightarrow> t - u < d"
  using assms by (auto simp: time_Sub_def)

lemma time_Sub_gr_iff:
  assumes "minDuration \<le> d" and "d < maxDuration"
  shows "d < time_Sub t u \<longleftrightarrow> d < t - u"
  using assms by (auto simp: time_Sub_def)

lemma time_Sub_mono: "t \<le> t' \<Longrightarrow> time_Sub t u \<le> time_Sub t' u"
  by (auto simp: time_Sub_def)

subsection \<open>Splitting a list at a separator\<close>

text \<open>The reference splitter: the maximal runs without the separator.\<close>

fun split_on :: "'a \<Rightarrow> 'a list \<Rightarrow> 'a list list" where
  "split_on c [] = [[]]"
| "split_on c (x # xs) =
     (if x = c then [] # split_on c xs
      else (case split_on c xs of [] \<Rightarrow> [[x]] | p # ps \<Rightarrow> (x # p) # ps))"

lemma split_on_not_Nil [simp]: "split_on c xs \<noteq> []"
  by (induction xs) (auto split: list.splits)

lemma split_on_no_sep: "c \<notin> set xs \<Longrightarrow> split_on c xs = [xs]"
  by (induction xs) auto

lemma split_on_append_sep: "split_on c (xs @ c # ys) = split_on c xs @ split_on c ys"
  by (induction xs) (auto split: list.splits)

lemma split_on_append_sep_free [simp]:
  "c \<notin> set xs \<Longrightarrow> split_on c (xs @ c # ys) = xs # split_on c ys"
  by (simp add: split_on_append_sep split_on_no_sep)

lemma length_split_on: "length (split_on c xs) = Suc (count_list xs c)"
  by (induction xs) (auto split: list.splits)

lemma split_on_sep_free: "p \<in> set (split_on c xs) \<Longrightarrow> c \<notin> set p"
proof (induction xs arbitrary: p)
  case (Cons x xs)
  then show ?case by (cases "split_on c xs") (auto split: if_splits)
qed simp

subsection \<open>Systems driven by a sequence of calls\<close>

text \<open>
  The contract every stateful component of the program meets: each of its calls keeps
  an invariant. A component interprets this locale with the model of its own calls.
\<close>

locale event_system =
  fixes step :: "'e \<Rightarrow> 's \<Rightarrow> 's"
    and inv :: "'s \<Rightarrow> bool"
  assumes step_inv: "inv s \<Longrightarrow> inv (step e s)"
begin

lemma run_inv: "inv s \<Longrightarrow> inv (fold step es s)"
  by (induction es arbitrary: s) (auto simp: step_inv)

lemma run_inv_prefix: "inv s \<Longrightarrow> inv (fold step (take n es) s)"
  by (rule run_inv)

end

end
