(* ===== verification/Cache_Key.thy ===== *)
theory Cache_Key
  imports Prelude
begin

text \<open>
  Cache keys (\<open>src/cache_key.go\<close>). A legacy key is \<open>serverName|alpn|version\<close>; a V2
  key is \<open>dest|serverName|alpn|version|chClass\<close>. The builders append to a byte
  buffer, the splitter fills a five-slot buffer and falls back to a growing slice,
  and both are modelled loop by loop; \<open>split_on\<close> is the reference they are
  compared with. \<open>strconv.ParseUint(s, 16, 16)\<close> is modelled with its documented
  results on a syntax error (0) and on a range error (the maximum).
\<close>

subsection \<open>Hexadecimal versions\<close>

definition hexdigits :: string where
  "hexdigits = ''0123456789abcdef''"

fun appendUint16Hex_loop :: "u16 \<Rightarrow> nat list \<Rightarrow> bool \<Rightarrow> string \<Rightarrow> string" where
  "appendUint16Hex_loop v [] started b = b"
| "appendUint16Hex_loop v (shift # shifts) started b =
     (let nibble = drop_bit shift v AND 0xf in
      if \<not> started \<and> nibble = 0 then appendUint16Hex_loop v shifts started b
      else appendUint16Hex_loop v shifts True (b @ [hexdigits ! unat nibble]))"

definition appendUint16Hex :: "string \<Rightarrow> u16 \<Rightarrow> string" where
  "appendUint16Hex b v =
     (let b = b @ ''0x'' in
      if v = 0 then b @ ''0'' else appendUint16Hex_loop v [12, 8, 4, 0] False b)"

definition uint16ToHex :: "u16 \<Rightarrow> string" where
  "uint16ToHex v = appendUint16Hex [] v"

definition trimPrefix :: "string \<Rightarrow> string \<Rightarrow> string" where
  "trimPrefix s prefix =
     (if length prefix \<le> length s \<and> take (length prefix) s = prefix
      then drop (length prefix) s else s)"

definition hex_digit_val :: "char \<Rightarrow> nat option" where
  "hex_digit_val c =
     (let n = of_char c :: nat in
      if 48 \<le> n \<and> n \<le> 57 then Some (n - 48)
      else if 97 \<le> n \<and> n \<le> 102 then Some (n - 87)
      else if 65 \<le> n \<and> n \<le> 70 then Some (n - 55)
      else None)"

fun ParseUint_16_16 :: "nat \<Rightarrow> string \<Rightarrow> nat" where
  "ParseUint_16_16 n [] = n"
| "ParseUint_16_16 n (c # cs) =
     (case hex_digit_val c of
        None \<Rightarrow> 0
      | Some d \<Rightarrow> if 65535 < 16 * n + d then 65535 else ParseUint_16_16 (16 * n + d) cs)"

definition hexToUint16 :: "string \<Rightarrow> u16" where
  "hexToUint16 s = of_nat (ParseUint_16_16 0 (trimPrefix s ''0x''))"

subsection \<open>Building keys\<close>

definition CacheKey :: "string \<Rightarrow> string \<Rightarrow> u16 \<Rightarrow> string" where
  "CacheKey serverName alpn tlsVersion =
     (let b = [];
          b = b @ serverName;
          b = b @ ''|'';
          b = b @ alpn;
          b = b @ ''|''
      in appendUint16Hex b tlsVersion)"

definition CacheKeyV2 :: "string \<Rightarrow> string \<Rightarrow> string \<Rightarrow> u16 \<Rightarrow> string \<Rightarrow> string" where
  "CacheKeyV2 dest serverName alpn tlsVersion chClass =
     (let chClass = (if chClass = '''' then ''-'' else chClass);
          b = [];
          b = b @ dest;
          b = b @ ''|'';
          b = b @ serverName;
          b = b @ ''|'';
          b = b @ alpn;
          b = b @ ''|'';
          b = appendUint16Hex b tlsVersion;
          b = b @ ''|''
      in b @ chClass)"

subsection \<open>Splitting and parsing keys\<close>

text \<open>\<open>s[i:j]\<close> with \<open>i \<le> j \<le> len(s)\<close>.\<close>

definition substr :: "string \<Rightarrow> nat \<Rightarrow> nat \<Rightarrow> string" where
  "substr s i j = take (j - i) (drop i s)"

function splitKey_rest :: "string \<Rightarrow> nat \<Rightarrow> nat \<Rightarrow> string list \<Rightarrow> string list" where
  "splitKey_rest s j start parts =
     (if j < length s then
        if s ! j = CHR ''|'' then splitKey_rest s (j + 1) (j + 1) (parts @ [substr s start j])
        else splitKey_rest s (j + 1) start parts
      else parts @ [substr s start (length s)])"
  by pat_completeness auto
termination
  by (relation "measure (\<lambda>(s, j, start, parts). length s - j)") auto

text \<open>The first loop; \<open>buf\<close> is \<open>buf[:n]\<close>, so \<open>n < len(buf)\<close> is \<open>length buf < 5\<close>.\<close>

function splitKey_loop :: "string \<Rightarrow> nat \<Rightarrow> nat \<Rightarrow> string list \<Rightarrow> string list" where
  "splitKey_loop s i start buf =
     (if i < length s then
        if s ! i = CHR ''|'' then
          if length buf < 5 then splitKey_loop s (i + 1) (i + 1) (buf @ [substr s start i])
          else splitKey_rest s (i + 1) (i + 1) (buf @ [substr s start i])
        else splitKey_loop s (i + 1) start buf
      else buf @ [substr s start (length s)])"
  by pat_completeness auto
termination
  by (relation "measure (\<lambda>(s, i, start, buf). length s - i)") auto

declare splitKey_rest.simps [simp del] splitKey_loop.simps [simp del]

definition splitKey :: "string \<Rightarrow> string list" where
  "splitKey s = splitKey_loop s 0 0 []"

abbreviation (input) VersionTLS10 :: u16 where "VersionTLS10 \<equiv> 0x0301"
abbreviation (input) VersionTLS11 :: u16 where "VersionTLS11 \<equiv> 0x0302"
abbreviation (input) VersionTLS12 :: u16 where "VersionTLS12 \<equiv> 0x0303"
abbreviation (input) VersionTLS13 :: u16 where "VersionTLS13 \<equiv> 0x0304"

definition ParseCacheKey :: "string \<Rightarrow> string \<times> string \<times> u16" where
  "ParseCacheKey key =
     (let parts = splitKey key in
      if 5 \<le> length parts then (parts ! 1, parts ! 2, hexToUint16 (parts ! 3))
      else if 3 \<le> length parts then (parts ! 0, parts ! 1, hexToUint16 (parts ! 2))
      else if length parts = 2 then (parts ! 0, parts ! 1, VersionTLS13)
      else if length parts = 1 then (parts ! 0, [], VersionTLS13)
      else ([], [], 0))"

text \<open>The result is \<open>(dest, serverName, alpn, tlsVersion, chClass, ok)\<close>.\<close>

definition ParseCacheKeyV2 ::
    "string \<Rightarrow> string \<times> string \<times> string \<times> u16 \<times> string \<times> bool" where
  "ParseCacheKeyV2 key =
     (let parts = splitKey key in
      if 5 \<le> length parts
      then (parts ! 0, parts ! 1, parts ! 2, hexToUint16 (parts ! 3), parts ! 4, True)
      else ([], [], [], 0, [], False))"

definition IsLegacyCacheKey :: "string \<Rightarrow> bool" where
  "IsLegacyCacheKey key \<longleftrightarrow> count_list key CHR ''|'' < 4"

fun LastIndexByte_loop :: "string \<Rightarrow> char \<Rightarrow> nat \<Rightarrow> int" where
  "LastIndexByte_loop s c 0 = -1"
| "LastIndexByte_loop s c (Suc i) = (if s ! i = c then int i else LastIndexByte_loop s c i)"

definition LastIndexByte :: "string \<Rightarrow> char \<Rightarrow> int" where
  "LastIndexByte s c = LastIndexByte_loop s c (length s)"

definition isSoftCacheKey :: "string \<Rightarrow> bool" where
  "isSoftCacheKey key =
     (if count_list key CHR ''|'' < 4 then False
      else let idx = LastIndexByte key CHR ''|'' in
        if idx < 0 \<or> int (length key) \<le> idx + 1 then False
        else let ch = drop (nat (idx + 1)) key in
          2 \<le> length ch \<and> ch ! 0 = CHR ''s'' \<and> ch ! 1 = CHR '':'')"

subsection \<open>The splitter computes the reference split\<close>

lemma substr_snoc:
  assumes "start \<le> i" and "i < length s"
  shows "substr s start (i + 1) = substr s start i @ [s ! i]"
proof -
  have "i + 1 - start = Suc (i - start)" using assms by simp
  then show ?thesis
    using assms by (simp add: substr_def take_Suc_conv_app_nth)
qed

lemma drop_eq_substr_append:
  assumes "start \<le> i"
  shows "drop start s = substr s start i @ drop i s"
proof -
  have "drop i s = drop (i - start) (drop start s)" using assms by simp
  then show ?thesis unfolding substr_def by (metis append_take_drop_id)
qed

lemma substr_self [simp]: "substr s i i = []"
  by (simp add: substr_def)

lemma split_on_drop_at_sep:
  assumes "start \<le> i" "i < length s" "s ! i = c" "c \<notin> set (substr s start i)"
  shows "split_on c (drop start s) = substr s start i # split_on c (drop (i + 1) s)"
proof -
  have "drop i s = c # drop (i + 1) s" using assms by (metis Cons_nth_drop_Suc Suc_eq_plus1)
  then show ?thesis using assms drop_eq_substr_append [of start i s] by simp
qed

lemma split_on_drop_end:
  assumes "start \<le> length s" "c \<notin> set (substr s start (length s))"
  shows "split_on c (drop start s) = [substr s start (length s)]"
  using assms drop_eq_substr_append [of start "length s" s] by (simp add: split_on_no_sep)

lemma splitKey_rest_eq:
  assumes "start \<le> j" "j \<le> length s" "CHR ''|'' \<notin> set (substr s start j)"
  shows "splitKey_rest s j start parts = parts @ split_on CHR ''|'' (drop start s)"
  using assms
proof (induction s j start parts rule: splitKey_rest.induct)
  case (1 s j start parts)
  show ?case
  proof (cases "j < length s")
    case True
    show ?thesis
    proof (cases "s ! j = CHR ''|''")
      case sep: True
      then have "splitKey_rest s j start parts =
          (parts @ [substr s start j]) @ split_on CHR ''|'' (drop (j + 1) s)"
        using True "1.IH"(1) by (simp add: splitKey_rest.simps [of s j start parts])
      then show ?thesis using split_on_drop_at_sep [OF "1.prems"(1) True sep "1.prems"(3)] by simp
    next
      case False
      then show ?thesis
        using True "1.IH"(2) "1.prems" substr_snoc [of start j s]
        by (simp add: splitKey_rest.simps [of s j start parts])
    qed
  next
    case False
    then have "j = length s" using "1.prems" by simp
    then show ?thesis
      using "1.prems" split_on_drop_end [of start s "CHR ''|''"]
      by (simp add: splitKey_rest.simps [of s "length s" start parts])
  qed
qed

lemma splitKey_loop_eq:
  assumes "start \<le> i" "i \<le> length s" "CHR ''|'' \<notin> set (substr s start i)"
  shows "splitKey_loop s i start buf = buf @ split_on CHR ''|'' (drop start s)"
  using assms
proof (induction s i start buf rule: splitKey_loop.induct)
  case (1 s i start buf)
  show ?case
  proof (cases "i < length s")
    case True
    show ?thesis
    proof (cases "s ! i = CHR ''|''")
      case sep: True
      have "splitKey_loop s i start buf =
          (buf @ [substr s start i]) @ split_on CHR ''|'' (drop (i + 1) s)"
        using True sep "1.IH"(1) splitKey_rest_eq [of "i + 1" "i + 1" s]
        by (simp add: splitKey_loop.simps [of s i start buf])
      then show ?thesis using split_on_drop_at_sep [OF "1.prems"(1) True sep "1.prems"(3)] by simp
    next
      case False
      then show ?thesis
        using True "1.IH"(2) "1.prems" substr_snoc [of start i s]
        by (simp add: splitKey_loop.simps [of s i start buf])
    qed
  next
    case False
    then have "i = length s" using "1.prems" by simp
    then show ?thesis
      using "1.prems" split_on_drop_end [of start s "CHR ''|''"]
      by (simp add: splitKey_loop.simps [of s "length s" start buf])
  qed
qed

lemma splitKey_eq_split_on: "splitKey s = split_on CHR ''|'' s"
  by (simp add: splitKey_def splitKey_loop_eq)

subsection \<open>Hexadecimal round trip\<close>

lemma hex_digit_val_hexdigits:
  assumes "n < 16"
  shows "hex_digit_val (hexdigits ! n) = Some n"
proof -
  have "n \<in> set [0..<16]" using assms by simp
  then show ?thesis
    by (simp add: upt_rec hexdigits_def hex_digit_val_def) (elim disjE; simp)
qed

lemma nibble_unat:
  "unat (drop_bit k (v :: u16) AND 0xf) = unat v div 2 ^ k mod 16"
  using unat_and_mask [of "drop_bit k v" 4]
  by (simp only: unat_drop_bit) (simp add: mask_eq_exp_minus_1)

text \<open>The emitted digits: the nibbles from the highest to the lowest, leading zeros dropped.\<close>

lemma appendUint16Hex_loop_eq:
  "appendUint16Hex_loop v ks started b =
   b @ map ((!) hexdigits)
     ((if started then id else dropWhile ((=) 0)) (map (\<lambda>k. unat v div 2 ^ k mod 16) ks))"
proof (induction ks arbitrary: started b)
  case (Cons k ks)
  have "drop_bit k v AND 0xf = 0 \<longleftrightarrow> unat v div 2 ^ k mod 16 = 0"
    by (metis nibble_unat unat_0 unat_eq_zero)
  then show ?case by (auto simp: Let_def nibble_unat Cons.IH)
qed simp

declare appendUint16Hex_loop.simps [simp del]

lemma ParseUint_digit:
  assumes "16 * n + d \<le> 65535" and "d < 16"
  shows "ParseUint_16_16 n (hexdigits ! d # cs) = ParseUint_16_16 (16 * n + d) cs"
  using assms by (simp add: hex_digit_val_hexdigits)

lemma ParseUint_four_digits:
  assumes "a < 16" "b < 16" "c < 16" "d < 16"
  shows "ParseUint_16_16 0 (map ((!) hexdigits) (dropWhile ((=) 0) [a, b, c, d])) =
    16 * (16 * (16 * a + b) + c) + d"
  using assms by (auto simp: ParseUint_digit simp del: ParseUint_16_16.simps(2))

lemma nibbles_16:
  assumes "(x :: nat) < 65536"
  shows "16 * (16 * (16 * (x div 4096 mod 16) + x div 256 mod 16) + x div 16 mod 16) + x mod 16 = x"
proof -
  have "x div 4096 mod 16 = x div 4096" using assms by simp
  moreover have "16 * (x div 4096) + x div 256 mod 16 = x div 256"
    using div_mult2_eq [of x 256 16] mult_div_mod_eq [of 16 "x div 256"] by simp
  moreover have "16 * (x div 256) + x div 16 mod 16 = x div 16"
    using div_mult2_eq [of x 16 16] mult_div_mod_eq [of 16 "x div 16"] by simp
  ultimately show ?thesis by simp
qed

lemma appendUint16Hex_append: "appendUint16Hex b v = b @ uint16ToHex v"
  by (simp add: uint16ToHex_def appendUint16Hex_def appendUint16Hex_loop_eq Let_def)

lemma hexToUint16_0x: "hexToUint16 (''0x'' @ t) = of_nat (ParseUint_16_16 0 t)"
  by (simp add: hexToUint16_def trimPrefix_def)

lemma hexToUint16_uint16ToHex: "hexToUint16 (uint16ToHex v) = v"
proof (cases "v = 0")
  case True
  then show ?thesis
    by (simp add: uint16ToHex_def appendUint16Hex_def hexToUint16_def trimPrefix_def hex_digit_val_def)
next
  case False
  have x: "unat v < 65536" using unsigned_less [of v, where ?'a = nat] by simp
  have "uint16ToHex v = ''0x'' @ map ((!) hexdigits) (dropWhile ((=) 0)
      [unat v div 4096 mod 16, unat v div 256 mod 16, unat v div 16 mod 16, unat v mod 16])"
    using False by (simp add: uint16ToHex_def appendUint16Hex_def appendUint16Hex_loop_eq Let_def)
  then have "hexToUint16 (uint16ToHex v) = of_nat
      (16 * (16 * (16 * (unat v div 4096 mod 16) + unat v div 256 mod 16) + unat v div 16 mod 16)
        + unat v mod 16)"
    by (simp only: hexToUint16_0x ParseUint_four_digits)
  also have "\<dots> = (of_nat (unat v) :: u16)" by (simp only: nibbles_16 [OF x])
  finally show ?thesis by simp
qed

lemma hexdigits_no_sep: "n < 16 \<Longrightarrow> hexdigits ! n \<noteq> CHR ''|''"
proof -
  have "hex_digit_val CHR ''|'' = None" by (simp add: hex_digit_val_def)
  then show "n < 16 \<Longrightarrow> hexdigits ! n \<noteq> CHR ''|''"
    using hex_digit_val_hexdigits [of n] by auto
qed

lemma hexdigits_map_no_sep:
  "\<forall>d \<in> set ds. d < 16 \<Longrightarrow> CHR ''|'' \<notin> set (map ((!) hexdigits) (dropWhile P ds))"
  by (force dest: set_dropWhileD hexdigits_no_sep)

lemma uint16ToHex_no_sep [simp]: "CHR ''|'' \<notin> set (uint16ToHex v)"
  using hexdigits_map_no_sep [of "map (\<lambda>k. unat v div 2 ^ k mod 16) [12, 8, 4, 0]" "(=) 0"]
  by (simp only: uint16ToHex_def appendUint16Hex_def appendUint16Hex_loop_eq Let_def) auto

subsection \<open>Structure of the keys\<close>

lemma CacheKey_eq: "CacheKey sn alpn v = sn @ CHR ''|'' # alpn @ CHR ''|'' # uint16ToHex v"
  by (simp add: CacheKey_def appendUint16Hex_append)

lemma CacheKeyV2_eq:
  "CacheKeyV2 d sn alpn v ch =
   d @ CHR ''|'' # sn @ CHR ''|'' # alpn @ CHR ''|'' # uint16ToHex v @ CHR ''|'' #
     (if ch = [] then ''-'' else ch)"
  by (simp add: CacheKeyV2_def appendUint16Hex_append Let_def)

lemma count_list_zero [simp]: "c \<notin> set xs \<Longrightarrow> count_list xs c = 0"
  by (simp add: count_list_0_iff)

lemma CacheKeyV2_not_legacy: "\<not> IsLegacyCacheKey (CacheKeyV2 d sn alpn v ch)"
  by (simp add: IsLegacyCacheKey_def CacheKeyV2_eq)

lemma CacheKey_legacy_iff:
  "IsLegacyCacheKey (CacheKey sn alpn v) \<longleftrightarrow>
   count_list sn CHR ''|'' + count_list alpn CHR ''|'' < 2"
  by (simp add: IsLegacyCacheKey_def CacheKey_eq)

lemma splitKey_CacheKeyV2:
  assumes "CHR ''|'' \<notin> set d \<union> set sn \<union> set alpn \<union> set ch"
  shows "splitKey (CacheKeyV2 d sn alpn v ch) =
    [d, sn, alpn, uint16ToHex v, if ch = [] then ''-'' else ch]"
  using assms by (simp add: splitKey_eq_split_on CacheKeyV2_eq split_on_no_sep)

lemma splitKey_CacheKey:
  assumes "CHR ''|'' \<notin> set sn \<union> set alpn"
  shows "splitKey (CacheKey sn alpn v) = [sn, alpn, uint16ToHex v]"
  using assms by (simp add: splitKey_eq_split_on CacheKey_eq split_on_no_sep)

lemma LastIndexByte_loop_last:
  "\<lbrakk>i < k; s ! i = c; \<forall>j. i < j \<and> j < k \<longrightarrow> s ! j \<noteq> c\<rbrakk> \<Longrightarrow> LastIndexByte_loop s c k = int i"
proof (induction k)
  case (Suc k)
  then show ?case by (cases "i = k") auto
qed simp

lemma LastIndexByte_last:
  assumes "c \<notin> set ys"
  shows "LastIndexByte (xs @ c # ys) c = int (length xs)"
proof -
  have "(xs @ c # ys) ! j \<noteq> c" if "length xs < j" "j < length (xs @ c # ys)" for j
  proof -
    have "(xs @ c # ys) ! j = ys ! (j - Suc (length xs))"
      using that by (simp add: nth_append nth_Cons')
    moreover have "j - Suc (length xs) < length ys" using that by simp
    ultimately show ?thesis using assms by (metis nth_mem)
  qed
  then show ?thesis
    unfolding LastIndexByte_def by (intro LastIndexByte_loop_last) auto
qed

lemma isSoftCacheKey_append:
  assumes "CHR ''|'' \<notin> set ch" and "ch \<noteq> []" and "3 \<le> count_list p CHR ''|''"
  shows "isSoftCacheKey (p @ CHR ''|'' # ch) \<longleftrightarrow> take 2 ch = ''s:''"
proof -
  have "drop (nat (int (length p) + 1)) (p @ CHR ''|'' # ch) = ch"
    by (simp add: nat_add_distrib)
  moreover have "(2 \<le> length ch \<and> ch ! 0 = CHR ''s'' \<and> ch ! 1 = CHR '':'') = (take 2 ch = ''s:'')"
    by (cases ch; cases "tl ch") auto
  ultimately show ?thesis
    using assms by (auto simp: isSoftCacheKey_def LastIndexByte_last Let_def simp del: One_nat_def)
qed

lemma isSoftCacheKey_CacheKeyV2:
  assumes "CHR ''|'' \<notin> set ch"
  shows "isSoftCacheKey (CacheKeyV2 d sn alpn v ch) \<longleftrightarrow> take 2 ch = ''s:''"
proof -
  define p where "p = d @ CHR ''|'' # sn @ CHR ''|'' # alpn @ CHR ''|'' # uint16ToHex v"
  have "CacheKeyV2 d sn alpn v ch = p @ CHR ''|'' # (if ch = [] then ''-'' else ch)"
    by (simp add: CacheKeyV2_eq p_def)
  moreover have "3 \<le> count_list p CHR ''|''" by (simp add: p_def)
  ultimately show ?thesis using assms by (auto simp: isSoftCacheKey_append)
qed

subsection \<open>Properties\<close>

text \<open>
  The splitter with its fixed five-slot buffer and its fall-back path computes the
  reference split at \<open>|\<close> of every string, well formed or not.
\<close>

theorem splitKey_correct: "splitKey s = split_on CHR ''|'' s"
  by (rule splitKey_eq_split_on)

text \<open>
  (C38) Parsing a V2 key returns the components it was built from (an empty class reads
  back as \<open>-\<close>), provided no component contains the separator.
\<close>

theorem cache_key_v2_roundtrip:
  assumes "CHR ''|'' \<notin> set dest \<union> set serverName \<union> set alpn \<union> set chClass"
  shows "ParseCacheKeyV2 (CacheKeyV2 dest serverName alpn tlsVersion chClass) =
    (dest, serverName, alpn, tlsVersion, if chClass = [] then ''-'' else chClass, True)"
  using splitKey_CacheKeyV2 [OF assms]
  by (simp add: ParseCacheKeyV2_def hexToUint16_uint16ToHex)

theorem cache_key_v2_roundtrip_witness:
  "ParseCacheKeyV2 (CacheKeyV2 ''a:443'' ''a.b'' ''h2'' 0x0304 ''c0ffee'') =
    (''a:443'', ''a.b'', ''h2'', 0x0304, ''c0ffee'', True)"
  using cache_key_v2_roundtrip [of "''a:443''" "''a.b''" "''h2''" "''c0ffee''" "0x0304"] by simp

text \<open>
  The generic parser reads both key formats: it returns the server name, the ALPN
  and the version of a legacy key and of a V2 key, provided no component contains the
  separator.
\<close>

theorem cache_key_parse_both:
  assumes "CHR ''|'' \<notin> set dest \<union> set serverName \<union> set alpn \<union> set chClass"
  shows "ParseCacheKey (CacheKey serverName alpn tlsVersion) = (serverName, alpn, tlsVersion) \<and>
    ParseCacheKey (CacheKeyV2 dest serverName alpn tlsVersion chClass) = (serverName, alpn, tlsVersion)"
  using assms splitKey_CacheKeyV2 [OF assms] splitKey_CacheKey [of serverName alpn]
  by (simp add: ParseCacheKey_def hexToUint16_uint16ToHex)

theorem cache_key_parse_both_witness:
  "ParseCacheKey (CacheKey ''a.b'' [] 0x0303) = (''a.b'', [], 0x0303) \<and>
   ParseCacheKey (CacheKeyV2 ''a:443'' ''a.b'' [] 0x0303 ''c0ffee'') = (''a.b'', [], 0x0303)"
  using cache_key_parse_both [of "''a:443''" "''a.b''" "[]" "''c0ffee''" "0x0303"] by simp

text \<open>
  A V2 key is never taken for a legacy key, and it is taken for a soft key exactly
  when its class starts with \<open>s:\<close>, whatever the destination, server name and ALPN are
  (they may contain separators).
\<close>

theorem cache_key_v2_classified:
  assumes "CHR ''|'' \<notin> set chClass"
  shows "\<not> IsLegacyCacheKey (CacheKeyV2 dest serverName alpn tlsVersion chClass) \<and>
    (isSoftCacheKey (CacheKeyV2 dest serverName alpn tlsVersion chClass) \<longleftrightarrow> take 2 chClass = ''s:'')"
  using CacheKeyV2_not_legacy isSoftCacheKey_CacheKeyV2 [OF assms] by blast

theorem cache_key_v2_classified_witness:
  "isSoftCacheKey (CacheKeyV2 ''a|b'' ''x|y'' ''h2'' 0x0304 ''s:c0ffee'') \<and>
   \<not> isSoftCacheKey (CacheKeyV2 ''a|b'' ''x|y'' ''h2'' 0x0304 ''c0ffee'')"
  using cache_key_v2_classified [of "''s:c0ffee''" "''a|b''" "''x|y''" "''h2''" "0x0304"]
    cache_key_v2_classified [of "''c0ffee''" "''a|b''" "''x|y''" "''h2''" "0x0304"] by simp

text \<open>
  A legacy key is recognised as legacy exactly when its server name and ALPN hold
  fewer than two separators between them: an ALPN value with two separators makes the
  legacy key pass for a V2 key.
\<close>

theorem cache_key_legacy_recognised:
  "IsLegacyCacheKey (CacheKey serverName alpn tlsVersion) \<longleftrightarrow>
   count_list serverName CHR ''|'' + count_list alpn CHR ''|'' < 2"
  by (rule CacheKey_legacy_iff)

end
