(* ===== verification/Fidelity.thy ===== *)
theory Fidelity
  imports Prelude
begin

text \<open>
  Record-length fidelity and destination capability (\<open>src/fidelity.go\<close>).
  A record-length vector is Go's \<open>[7]int\<close>: a list of seven integers, R0 to R6. The
  capability of a camouflage destination is a small state machine driven by capture
  results; its table \<open>destCaps\<close> is a map that is created lazily by \<open>getDestCap\<close>.
  The substring search used to classify capture errors is modelled loop by loop.
\<close>

subsection \<open>Record modes and record lengths\<close>

type_synonym lens = "int list"

abbreviation (input) RecordModeSplit :: u8 where "RecordModeSplit \<equiv> 0"
abbreviation (input) RecordModeCoalesced :: u8 where "RecordModeCoalesced \<equiv> 1"
abbreviation (input) recordHeaderLen :: int where "recordHeaderLen \<equiv> 5"
abbreviation (input) maxTLSRecordPayload :: int where "maxTLSRecordPayload \<equiv> 16384"

definition CHClassVersion :: u8 where "CHClassVersion = 3"

definition InferRecordMode :: "lens \<Rightarrow> u8" where
  "InferRecordMode lens = (if 512 < lens ! 2 then RecordModeCoalesced else RecordModeSplit)"

text \<open>One turn of the loop over the slots: does the loop go on?\<close>

definition record_len_ok :: "u8 \<Rightarrow> nat \<Rightarrow> int \<Rightarrow> bool" where
  "record_len_ok mode i l =
     (if l = 0 then
        if i = 6 then True
        else if mode = RecordModeCoalesced \<and> 3 \<le> i \<and> i \<le> 5 then True
        else True
      else \<not> (l < recordHeaderLen \<or> maxTLSRecordPayload < l))"

definition ValidateRecordLensMode :: "lens \<Rightarrow> u8 \<Rightarrow> bool" where
  "ValidateRecordLensMode lens mode =
     (if \<not> list_all (\<lambda>(i, l). record_len_ok mode i l) (enumerate 0 lens) then False
      else if lens ! 0 \<noteq> 0 \<and> (lens ! 0 < recordHeaderLen \<or> maxTLSRecordPayload < lens ! 0) then False
      else if lens ! 1 \<noteq> 0 \<and> lens ! 1 \<noteq> 6 then False
      else if mode = RecordModeCoalesced \<and> lens ! 2 \<noteq> 0 \<and> lens ! 2 \<le> 512 then False
      else True)"

definition ValidateRecordLens :: "lens \<Rightarrow> bool" where
  "ValidateRecordLens lens = ValidateRecordLensMode lens (InferRecordMode lens)"

subsection \<open>Destination capability\<close>

datatype dest_cap_state =
  DestCapUnknown | DestCapTLS13Ready | DestCapDegraded | DestCapUnsuitable | DestCapOffline

abbreviation (input) destCapUnsuitableAfter :: int where "destCapUnsuitableAfter \<equiv> 3"
abbreviation (input) destCapDegradedAfter :: int where "destCapDegradedAfter \<equiv> 2"
abbreviation (input) destCapOfflineAfter :: int where "destCapOfflineAfter \<equiv> 3"
definition destCapCooldown :: duration where "destCapCooldown = 5 * Minute"

text \<open>The Unix epoch, counted from Go's zero time.\<close>

definition unixEpoch :: gotime where "unixEpoch = 62135596800 * Second"
definition UnixNano :: "gotime \<Rightarrow> int" where "UnixNano t = t - unixEpoch"
definition time_Unix0 :: "int \<Rightarrow> gotime" where "time_Unix0 u = u + unixEpoch"

text \<open>The counters are \<open>atomic.Int32\<close>: they wrap around and are compared as signed.\<close>

record destCapability =
  dc_state :: dest_cap_state
  dc_failTLS13 :: "32 word"
  dc_failDial :: "32 word"
  dc_failSoft :: "32 word"
  dc_updated :: int

definition newDestCap :: destCapability where
  "newDestCap = \<lparr>dc_state = DestCapUnknown, dc_failTLS13 = 0, dc_failDial = 0, dc_failSoft = 0,
     dc_updated = 0\<rparr>"

type_synonym destCaps = "string \<rightharpoonup> destCapability"

text \<open>\<open>LoadOrStore\<close> of a fresh capability; the empty destination has none.\<close>

definition getDestCap :: "destCaps \<Rightarrow> string \<Rightarrow> destCapability option \<times> destCaps" where
  "getDestCap caps dest =
     (if dest = '''' then (None, caps)
      else case caps dest of
        Some d \<Rightarrow> (Some d, caps)
      | None \<Rightarrow> (Some newDestCap, caps(dest \<mapsto> newDestCap)))"

definition DestCapabilityState ::
    "gotime \<Rightarrow> destCaps \<Rightarrow> string \<Rightarrow> dest_cap_state \<times> destCaps" where
  "DestCapabilityState now caps dest =
     (case getDestCap caps dest of
        (None, caps) \<Rightarrow> (DestCapUnknown, caps)
      | (Some d, caps) \<Rightarrow>
          let st = dc_state d in
          if st = DestCapUnsuitable \<or> st = DestCapOffline \<or> st = DestCapDegraded then
            let u = dc_updated d in
            if 0 < u \<and> destCapCooldown < time_Sub now (time_Unix0 u) then
              (DestCapUnknown, caps(dest \<mapsto>
                 d\<lparr>dc_state := DestCapUnknown, dc_failTLS13 := 0, dc_failDial := 0, dc_failSoft := 0\<rparr>))
            else (st, caps)
          else (st, caps))"

definition NoteDestTLS13Ready :: "gotime \<Rightarrow> destCaps \<Rightarrow> string \<Rightarrow> destCaps" where
  "NoteDestTLS13Ready now caps dest =
     (case getDestCap caps dest of
        (None, caps) \<Rightarrow> caps
      | (Some d, caps) \<Rightarrow> caps(dest \<mapsto>
          d\<lparr>dc_failTLS13 := 0, dc_failDial := 0, dc_failSoft := 0,
            dc_state := DestCapTLS13Ready, dc_updated := UnixNano now\<rparr>))"

text \<open>The update of one capability by a failed capture (the body of the \<open>switch\<close>).\<close>

definition note_failure :: "string \<Rightarrow> destCapability \<Rightarrow> destCapability" where
  "note_failure reason d =
     (if reason = ''dial'' then
        let n = dc_failDial d + 1; d = d\<lparr>dc_failDial := n\<rparr> in
        if destCapOfflineAfter \<le> sint n then d\<lparr>dc_state := DestCapOffline\<rparr> else d
      else if reason = ''not_tls13'' \<or> reason = ''bad_shape'' then
        let n = dc_failTLS13 d + 1; d = d\<lparr>dc_failTLS13 := n\<rparr> in
        if destCapUnsuitableAfter \<le> sint n then d\<lparr>dc_state := DestCapUnsuitable\<rparr>
        else if destCapDegradedAfter \<le> sint n then d\<lparr>dc_state := DestCapDegraded\<rparr> else d
      else
        let n = dc_failSoft d + 1; d = d\<lparr>dc_failSoft := n\<rparr> in
        if destCapDegradedAfter \<le> sint n then
          let cur = dc_state d in
          if cur \<noteq> DestCapUnsuitable \<and> cur \<noteq> DestCapOffline
          then d\<lparr>dc_state := DestCapDegraded\<rparr> else d
        else d)"

definition NoteDestCaptureFailure :: "gotime \<Rightarrow> destCaps \<Rightarrow> string \<Rightarrow> string \<Rightarrow> destCaps" where
  "NoteDestCaptureFailure now caps dest reason =
     (case getDestCap caps dest of
        (None, caps) \<Rightarrow> caps
      | (Some d, caps) \<Rightarrow> caps(dest \<mapsto> note_failure reason (d\<lparr>dc_updated := UnixNano now\<rparr>)))"

definition DestAllowsAmortize :: "gotime \<Rightarrow> destCaps \<Rightarrow> string \<Rightarrow> bool \<times> destCaps" where
  "DestAllowsAmortize now caps dest =
     (case DestCapabilityState now caps dest of (st, caps) \<Rightarrow>
        (case st of DestCapUnsuitable \<Rightarrow> False | DestCapOffline \<Rightarrow> False | _ \<Rightarrow> True, caps))"

definition DestShouldMirrorOnly :: "gotime \<Rightarrow> destCaps \<Rightarrow> string \<Rightarrow> bool \<times> destCaps" where
  "DestShouldMirrorOnly now caps dest =
     (case DestCapabilityState now caps dest of (st, caps) \<Rightarrow> (st = DestCapUnsuitable, caps))"

subsection \<open>Classifying capture errors\<close>

function indexBytes_inner :: "bytes \<Rightarrow> bytes \<Rightarrow> nat \<Rightarrow> nat \<Rightarrow> bool" where
  "indexBytes_inner s sub i j =
     (if j < length sub then
        if s ! (i + j) \<noteq> sub ! j then False else indexBytes_inner s sub i (j + 1)
      else True)"
  by pat_completeness auto
termination
  by (relation "measure (\<lambda>(s, sub, i, j). length sub - j)") auto

function indexBytes_loop :: "bytes \<Rightarrow> bytes \<Rightarrow> nat \<Rightarrow> int" where
  "indexBytes_loop s sub i =
     (if i + length sub \<le> length s then
        if indexBytes_inner s sub i 0 then int i else indexBytes_loop s sub (i + 1)
      else -1)"
  by pat_completeness auto
termination
  by (relation "measure (\<lambda>(s, sub, i). Suc (length s) - i)") auto

declare indexBytes_inner.simps [simp del] indexBytes_loop.simps [simp del]

definition indexBytes :: "bytes \<Rightarrow> bytes \<Rightarrow> int" where
  "indexBytes s sub = (if length sub = 0 then 0 else indexBytes_loop s sub 0)"

text \<open>\<open>if c >= 'A' && c <= 'Z' { c += 'a' - 'A' }\<close>\<close>

definition foldByte :: "u8 \<Rightarrow> u8" where
  "foldByte c = (if 65 \<le> c \<and> c \<le> 90 then c + 32 else c)"

definition indexFold :: "string \<Rightarrow> string \<Rightarrow> int" where
  "indexFold s sub =
     (let ls = map foldByte (string_to_bytes s);
          lsub = map foldByte (string_to_bytes sub)
      in indexBytes ls lsub)"

definition containsFold :: "string \<Rightarrow> string \<Rightarrow> bool" where
  "containsFold s sub \<longleftrightarrow>
     length sub \<le> length s \<and> (s = sub \<or> length sub = 0 \<or> 0 \<le> indexFold s sub)"

text \<open>The error is its message, or \<open>None\<close> for \<open>nil\<close>.\<close>

definition classifyCaptureError :: "string option \<Rightarrow> string" where
  "classifyCaptureError err =
     (case err of
        None \<Rightarrow> ''bad_shape''
      | Some s \<Rightarrow>
          if containsFold s ''invalid ServerHello'' \<or> containsFold s ''unexpected record type''
             \<or> containsFold s ''version''
          then ''not_tls13''
          else if containsFold s ''timeout'' \<or> containsFold s ''deadline'' then ''timeout''
          else if containsFold s ''dial'' \<or> containsFold s ''connection refused'' then ''dial''
          else ''bad_shape'')"

subsection \<open>What a valid record-length vector is\<close>

text \<open>The slot test does not depend on the mode or the slot: an empty slot always passes.\<close>

lemma record_len_ok_iff: "record_len_ok mode i l \<longleftrightarrow> l = 0 \<or> 5 \<le> l \<and> l \<le> 16384"
  by (auto simp: record_len_ok_def)

lemma InferRecordMode_coalesced_iff: "InferRecordMode lens = RecordModeCoalesced \<longleftrightarrow> 512 < lens ! 2"
  by (simp add: InferRecordMode_def)

lemma ValidateRecordLens_iff:
  assumes "length lens = 7"
  shows "ValidateRecordLens lens \<longleftrightarrow>
    (\<forall>i < 7. lens ! i = 0 \<or> 5 \<le> lens ! i \<and> lens ! i \<le> 16384) \<and> (lens ! 1 = 0 \<or> lens ! 1 = 6)"
proof -
  have "list_all (\<lambda>(i, l). record_len_ok m i l) (enumerate 0 lens) \<longleftrightarrow>
      (\<forall>i < 7. lens ! i = 0 \<or> 5 \<le> lens ! i \<and> lens ! i \<le> 16384)" for m
    using assms by (auto simp: list_all_length record_len_ok_iff nth_enumerate_eq)
  moreover have "\<not> (lens ! 0 \<noteq> 0 \<and> (lens ! 0 < 5 \<or> 16384 < lens ! 0))"
    if "\<forall>i < 7. lens ! i = 0 \<or> 5 \<le> lens ! i \<and> lens ! i \<le> 16384"
    using that by force
  ultimately show ?thesis
    by (auto simp: ValidateRecordLens_def ValidateRecordLensMode_def InferRecordMode_coalesced_iff)
qed

subsection \<open>The substring search finds the first occurrence\<close>

text \<open>\<open>sub\<close> occurs in \<open>s\<close> at \<open>i\<close>.\<close>

definition occurs_at :: "bytes \<Rightarrow> bytes \<Rightarrow> nat \<Rightarrow> bool" where
  "occurs_at s sub i \<longleftrightarrow> i + length sub \<le> length s \<and> take (length sub) (drop i s) = sub"

lemma indexBytes_inner_iff:
  assumes "i + length sub \<le> length s" "j \<le> length sub"
  shows "indexBytes_inner s sub i j \<longleftrightarrow> (\<forall>k. j \<le> k \<and> k < length sub \<longrightarrow> s ! (i + k) = sub ! k)"
  using assms
proof (induction s sub i j rule: indexBytes_inner.induct)
  case (1 s sub i j)
  show ?case
  proof (cases "j < length sub \<and> s ! (i + j) = sub ! j")
    case True
    then have "indexBytes_inner s sub i j \<longleftrightarrow> indexBytes_inner s sub i (j + 1)"
      by (simp add: indexBytes_inner.simps [of s sub i j])
    also have "\<dots> \<longleftrightarrow> (\<forall>k. j + 1 \<le> k \<and> k < length sub \<longrightarrow> s ! (i + k) = sub ! k)"
      using "1.IH" True "1.prems" by simp
    also have "\<dots> \<longleftrightarrow> (\<forall>k. j \<le> k \<and> k < length sub \<longrightarrow> s ! (i + k) = sub ! k)"
      using True by (auto simp: Suc_le_eq) (metis le_neq_implies_less)
    finally show ?thesis .
  next
    case False
    then show ?thesis using "1.prems" by (auto simp: indexBytes_inner.simps [of s sub i j])
  qed
qed

lemma indexBytes_inner_occurs:
  assumes "i + length sub \<le> length s"
  shows "indexBytes_inner s sub i 0 \<longleftrightarrow> occurs_at s sub i"
  using assms by (auto simp: indexBytes_inner_iff occurs_at_def list_eq_iff_nth_eq)

lemma indexBytes_loop_spec:
  "(indexBytes_loop s sub i = -1 \<and> (\<forall>k \<ge> i. \<not> occurs_at s sub k)) \<or>
   (\<exists>k \<ge> i. indexBytes_loop s sub i = int k \<and> occurs_at s sub k \<and>
      (\<forall>m. i \<le> m \<and> m < k \<longrightarrow> \<not> occurs_at s sub m))"
proof (induction s sub i rule: indexBytes_loop.induct)
  case (1 s sub i)
  show ?case
  proof (cases "i + length sub \<le> length s \<and> \<not> occurs_at s sub i")
    case True
    then have eq: "indexBytes_loop s sub i = indexBytes_loop s sub (i + 1)"
      by (simp add: indexBytes_loop.simps [of s sub i] indexBytes_inner_occurs)
    have less: "\<not> occurs_at s sub m" if "i \<le> m" "i + 1 \<le> m \<Longrightarrow> \<not> occurs_at s sub m" for m
      using True that by (cases "m = i") auto
    have IH: "(indexBytes_loop s sub (i + 1) = -1 \<and> (\<forall>k \<ge> i + 1. \<not> occurs_at s sub k)) \<or>
        (\<exists>k \<ge> i + 1. indexBytes_loop s sub (i + 1) = int k \<and> occurs_at s sub k \<and>
          (\<forall>m. i + 1 \<le> m \<and> m < k \<longrightarrow> \<not> occurs_at s sub m))"
      using "1.IH" True by (simp add: indexBytes_inner_occurs)
    then show ?thesis
    proof (elim disjE exE conjE)
      fix k assume k: "i + 1 \<le> k" "indexBytes_loop s sub (i + 1) = int k" "occurs_at s sub k"
        "\<forall>m. i + 1 \<le> m \<and> m < k \<longrightarrow> \<not> occurs_at s sub m"
      then have "i \<le> k" "\<forall>m. i \<le> m \<and> m < k \<longrightarrow> \<not> occurs_at s sub m" using less by auto
      then show ?thesis using eq k by auto
    qed (use eq less in auto)
  next
    case False
    then show ?thesis
      by (auto simp: indexBytes_loop.simps [of s sub i] indexBytes_inner_occurs occurs_at_def)
  qed
qed

lemma indexBytes_nonneg_iff: "0 \<le> indexBytes s sub \<longleftrightarrow> (\<exists>i. occurs_at s sub i)"
proof (cases "sub = []")
  case True
  then show ?thesis by (auto simp: indexBytes_def occurs_at_def)
next
  case False
  then show ?thesis using indexBytes_loop_spec [of s sub 0] by (auto simp: indexBytes_def)
qed

subsection \<open>The capability state machine\<close>

datatype dest_event =
    EvReady string
  | EvFailure string string
  | EvQuery string

definition dest_step :: "gotime \<times> dest_event \<Rightarrow> destCaps \<Rightarrow> destCaps" where
  "dest_step ev caps =
     (case ev of
        (now, EvReady dest) \<Rightarrow> NoteDestTLS13Ready now caps dest
      | (now, EvFailure dest reason) \<Rightarrow> NoteDestCaptureFailure now caps dest reason
      | (now, EvQuery dest) \<Rightarrow> snd (DestCapabilityState now caps dest))"

text \<open>
  The specification: the shape failures of a destination since it was last seen to speak TLS 1.3 or
  last cooled down, counted beside a run. It cools down when it is asked for while it is degraded,
  unsuitable or offline and the last report on it is older than the cool-down.
\<close>

definition cools_down :: "gotime \<Rightarrow> destCaps \<Rightarrow> string \<Rightarrow> bool" where
  "cools_down now caps dest =
     (case caps dest of
        None \<Rightarrow> False
      | Some d \<Rightarrow> dc_state d \<in> {DestCapUnsuitable, DestCapOffline, DestCapDegraded} \<and>
          0 < dc_updated d \<and> destCapCooldown < time_Sub now (time_Unix0 (dc_updated d)))"

definition shape_step :: "string \<Rightarrow> gotime \<times> dest_event \<Rightarrow> destCaps \<times> int \<Rightarrow> destCaps \<times> int" where
  "shape_step dest ev s =
     (dest_step ev (fst s),
      case ev of
        (now, EvReady d) \<Rightarrow> if d = dest then 0 else snd s
      | (now, EvFailure d reason) \<Rightarrow>
          if d = dest \<and> reason \<in> {''not_tls13'', ''bad_shape''} then snd s + 1 else snd s
      | (now, EvQuery d) \<Rightarrow> if d = dest \<and> cools_down now (fst s) dest then 0 else snd s)"

definition shape_failures :: "string \<Rightarrow> (gotime \<times> dest_event) list \<Rightarrow> int" where
  "shape_failures dest evs = snd (fold (shape_step dest) evs (Map.empty, 0))"

lemma shape_run_caps: "fst (fold (shape_step dest) evs s) = fold dest_step evs (fst s)"
  by (induction evs arbitrary: s) (simp_all add: shape_step_def)

text \<open>The counter is the count, modulo its width, and only three of them make a destination unsuitable.\<close>

definition cap_counts :: "int \<Rightarrow> destCapability \<Rightarrow> bool" where
  "cap_counts n d \<longleftrightarrow> dc_failTLS13 d = word_of_int n \<and> (dc_state d = DestCapUnsuitable \<longrightarrow> 3 \<le> n)"

definition shape_inv :: "string \<Rightarrow> destCaps \<times> int \<Rightarrow> bool" where
  "shape_inv dest s \<longleftrightarrow> dest = [] \<or>
     0 \<le> snd s \<and> (case fst s dest of None \<Rightarrow> snd s = 0 | Some d \<Rightarrow> cap_counts (snd s) d)"

lemma sint_word_of_int_le:
  assumes "0 \<le> n"
  shows "sint (word_of_int n :: 32 word) \<le> n"
proof -
  have "sint (word_of_int n :: 32 word) = signed_take_bit 31 n" by (simp add: sint_sbintrunc')
  also have "\<dots> \<le> take_bit 32 n" by (simp add: signed_take_bit_eq_take_bit_minus)
  also have "\<dots> \<le> n" using assms by (simp add: take_bit_int_less_eq_self_iff)
  finally show ?thesis .
qed

lemma note_failure_counts:
  assumes "cap_counts n d" "0 \<le> n"
  shows "cap_counts (if reason \<in> {''not_tls13'', ''bad_shape''} then n + 1 else n) (note_failure reason d)"
  using assms sint_word_of_int_le [of "n + 1"]
  by (auto simp: cap_counts_def note_failure_def Let_def)

lemma cap_counts_new [simp]: "cap_counts 0 newDestCap"
  by (simp add: cap_counts_def newDestCap_def)

lemma cap_counts_updated [simp]: "cap_counts n (d\<lparr>dc_updated := u\<rparr>) = cap_counts n d"
  by (simp add: cap_counts_def)

interpretation shapes: event_system "shape_step dest" "shape_inv dest" for dest
proof
  fix s :: "destCaps \<times> int" and ev :: "gotime \<times> dest_event"
  assume inv: "shape_inv dest s"
  obtain now e where ev: "ev = (now, e)" by (cases ev)
  show "shape_inv dest (shape_step dest ev s)"
  proof (cases e)
    case (EvReady d)
    then show ?thesis using inv
      by (auto simp: ev shape_inv_def shape_step_def dest_step_def NoteDestTLS13Ready_def getDestCap_def cap_counts_def
          split: option.splits)
  next
    case (EvFailure d reason)
    have "cap_counts (if reason \<in> {''not_tls13'', ''bad_shape''} then snd s + 1 else snd s)
        (note_failure reason (c\<lparr>dc_updated := u\<rparr>))" if "cap_counts (snd s) c" "0 \<le> snd s" for c u
      by (rule note_failure_counts) (use that in simp_all)
    from this [of newDestCap] this show ?thesis using inv
      by (auto simp: EvFailure ev shape_inv_def shape_step_def dest_step_def NoteDestCaptureFailure_def getDestCap_def
          split: option.splits if_splits)
  next
    case (EvQuery d)
    then show ?thesis using inv
      by (auto simp: ev shape_inv_def shape_step_def dest_step_def DestCapabilityState_def getDestCap_def cools_down_def
          Let_def cap_counts_def newDestCap_def split: option.splits if_splits)
  qed
qed

subsection \<open>Properties\<close>

text \<open>
  (C39) A destination is put in mirror-only mode (an authenticated client is mirrored too) only after
  three captures whose shape was not TLS 1.3, counted since the last time the destination was seen
  to complete a TLS 1.3 handshake or was asked for after a cool-down of five minutes without a
  report, and only as long as that cool-down has not passed: whatever the sequence of successes,
  failures and queries of this and of other destinations, and whenever it is asked.
\<close>

theorem mirror_only_needs_shape_failures:
  assumes "fst (DestShouldMirrorOnly now (fold dest_step evs Map.empty) dest)"
  shows "3 \<le> shape_failures dest evs \<and> \<not> cools_down now (fold dest_step evs Map.empty) dest"
proof -
  let ?caps = "fold dest_step evs Map.empty"
  have inv: "shape_inv dest (fold (shape_step dest) evs (Map.empty, 0))"
    by (rule shapes.run_inv) (simp add: shape_inv_def)
  have st: "fst (DestCapabilityState now ?caps dest) = DestCapUnsuitable"
    using assms by (simp add: DestShouldMirrorOnly_def split: prod.splits)
  then obtain d where d: "dest \<noteq> []" "?caps dest = Some d" "dc_state d = DestCapUnsuitable" "\<not> cools_down now ?caps dest"
    by (auto simp: DestCapabilityState_def getDestCap_def newDestCap_def cools_down_def Let_def
        split: if_splits option.splits)
  then show ?thesis
    using inv by (simp add: shape_inv_def cap_counts_def shape_failures_def shape_run_caps)
qed

theorem mirror_only_needs_shape_failures_witness:
  "\<exists>evs. fst (DestShouldMirrorOnly 5 (fold dest_step evs Map.empty) ''a'') \<and> 3 \<le> shape_failures ''a'' evs"
proof -
  let ?evs = "[(1, EvReady ''a''), (2, EvFailure ''a'' ''bad_shape''),
     (3, EvFailure ''a'' ''not_tls13''), (4, EvFailure ''a'' ''bad_shape'')]"
  have m: "fst (DestShouldMirrorOnly 5 (fold dest_step ?evs Map.empty) ''a'')"
    by (simp add: DestShouldMirrorOnly_def DestCapabilityState_def dest_step_def getDestCap_def
      newDestCap_def NoteDestTLS13Ready_def NoteDestCaptureFailure_def note_failure_def
      UnixNano_def unixEpoch_def Second_def)
  with mirror_only_needs_shape_failures [OF m] show ?thesis by blast
qed

text \<open>
  A record-length vector is accepted exactly when every slot is empty or between
  a record header and the largest record, and the change-cipher-spec slot is empty or
  six bytes long; the mode inferred from the vector adds no further condition.
\<close>

theorem validate_record_lens_spec:
  assumes "length lens = 7"
  shows "ValidateRecordLens lens \<longleftrightarrow>
    (\<forall>i < 7. lens ! i = 0 \<or> 5 \<le> lens ! i \<and> lens ! i \<le> 16384) \<and> (lens ! 1 = 0 \<or> lens ! 1 = 6)"
  using assms by (rule ValidateRecordLens_iff)

theorem validate_record_lens_spec_witness:
  "length [90, 6, 1200, 0, 0, 0, 0 :: int] = 7 \<and> ValidateRecordLens [90, 6, 1200, 0, 0, 0, 0]"
proof -
  have "\<forall>i < 7. [90, 6, 1200, 0, 0, 0, 0 :: int] ! i = 0 \<or>
      5 \<le> [90, 6, 1200, 0, 0, 0, 0 :: int] ! i \<and> [90, 6, 1200, 0, 0, 0, 0 :: int] ! i \<le> 16384"
    by (simp add: All_less_Suc numeral_eq_Suc)
  then show ?thesis using validate_record_lens_spec [of "[90, 6, 1200, 0, 0, 0, 0]"] by simp
qed

text \<open>
  The case-folding substring search behind the error classification is exact: it
  reports a match exactly when the folded pattern is a contiguous part of the folded
  text.
\<close>

theorem containsFold_spec:
  "containsFold s sub \<longleftrightarrow>
   (\<exists>i. occurs_at (map foldByte (string_to_bytes s)) (map foldByte (string_to_bytes sub)) i)"
proof -
  have self: "occurs_at x x 0" for x by (simp add: occurs_at_def)
  have len: "length sub \<le> length s"
    if "occurs_at (map foldByte (string_to_bytes s)) (map foldByte (string_to_bytes sub)) i" for i
    using that by (simp add: occurs_at_def)
  show ?thesis
    using self len by (auto simp: containsFold_def indexFold_def Let_def indexBytes_nonneg_iff occurs_at_def)
qed

end
