(* ===== verification/Handshake_Types.thy ===== *)
theory Handshake_Types
  imports Prelude
begin

text \<open>
  The data of the TLS handshake that several components share: the protocol constants
  of \<open>src/common.go\<close> and the \<open>ClientHello\<close> and \<open>ServerHello\<close> structs of
  \<open>src/handshake_messages.go\<close>. A slice whose nil-ness the code tests
  (\<open>original\<close>, \<open>quicTransportParameters\<close>) is an option; any other slice is a list.
\<close>

subsection \<open>Constants of \<open>common.go\<close>\<close>

abbreviation (input) CurveP256 :: u16 where "CurveP256 \<equiv> 23"
abbreviation (input) X25519 :: u16 where "X25519 \<equiv> 29"
abbreviation (input) X25519MLKEM768 :: u16 where "X25519MLKEM768 \<equiv> 4588"

abbreviation (input) PSSWithSHA256 :: u16 where "PSSWithSHA256 \<equiv> 0x0804"
abbreviation (input) PSSWithSHA384 :: u16 where "PSSWithSHA384 \<equiv> 0x0805"
abbreviation (input) PSSWithSHA512 :: u16 where "PSSWithSHA512 \<equiv> 0x0806"
abbreviation (input) ECDSAWithP256AndSHA256 :: u16 where "ECDSAWithP256AndSHA256 \<equiv> 0x0403"
abbreviation (input) ECDSAWithP384AndSHA384 :: u16 where "ECDSAWithP384AndSHA384 \<equiv> 0x0503"
abbreviation (input) ECDSAWithP521AndSHA512 :: u16 where "ECDSAWithP521AndSHA512 \<equiv> 0x0603"
abbreviation (input) Ed25519 :: u16 where "Ed25519 \<equiv> 0x0807"

abbreviation (input) recordTypeChangeCipherSpec :: u8 where "recordTypeChangeCipherSpec \<equiv> 20"
abbreviation (input) recordTypeAlert :: u8 where "recordTypeAlert \<equiv> 21"
abbreviation (input) recordTypeHandshake :: u8 where "recordTypeHandshake \<equiv> 22"
abbreviation (input) recordTypeApplicationData :: u8 where "recordTypeApplicationData \<equiv> 23"

abbreviation (input) VersionTLS10 :: u16 where "VersionTLS10 \<equiv> 0x0301"
abbreviation (input) VersionTLS11 :: u16 where "VersionTLS11 \<equiv> 0x0302"
abbreviation (input) VersionTLS12 :: u16 where "VersionTLS12 \<equiv> 0x0303"
abbreviation (input) VersionTLS13 :: u16 where "VersionTLS13 \<equiv> 0x0304"
abbreviation (input) VersionSSL30 :: u16 where "VersionSSL30 \<equiv> 0x0300"
abbreviation (input) typeHelloRequest :: u8 where "typeHelloRequest \<equiv> 0"
abbreviation (input) typeClientHello :: u8 where "typeClientHello \<equiv> 1"
abbreviation (input) typeServerHello :: u8 where "typeServerHello \<equiv> 2"
abbreviation (input) typeNewSessionTicket :: u8 where "typeNewSessionTicket \<equiv> 4"
abbreviation (input) typeEndOfEarlyData :: u8 where "typeEndOfEarlyData \<equiv> 5"
abbreviation (input) typeEncryptedExtensions :: u8 where "typeEncryptedExtensions \<equiv> 8"
abbreviation (input) typeCertificate :: u8 where "typeCertificate \<equiv> 11"
abbreviation (input) typeServerKeyExchange :: u8 where "typeServerKeyExchange \<equiv> 12"
abbreviation (input) typeCertificateRequest :: u8 where "typeCertificateRequest \<equiv> 13"
abbreviation (input) typeServerHelloDone :: u8 where "typeServerHelloDone \<equiv> 14"
abbreviation (input) typeCertificateVerify :: u8 where "typeCertificateVerify \<equiv> 15"
abbreviation (input) typeClientKeyExchange :: u8 where "typeClientKeyExchange \<equiv> 16"
abbreviation (input) typeFinished :: u8 where "typeFinished \<equiv> 20"
abbreviation (input) typeCertificateStatus :: u8 where "typeCertificateStatus \<equiv> 22"
abbreviation (input) typeKeyUpdate :: u8 where "typeKeyUpdate \<equiv> 24"
abbreviation (input) typeMessageHash :: u8 where "typeMessageHash \<equiv> 254"
abbreviation (input) extensionServerName :: u16 where "extensionServerName \<equiv> 0"
abbreviation (input) extensionStatusRequest :: u16 where "extensionStatusRequest \<equiv> 5"
abbreviation (input) extensionSupportedCurves :: u16 where "extensionSupportedCurves \<equiv> 10"
abbreviation (input) extensionSupportedPoints :: u16 where "extensionSupportedPoints \<equiv> 11"
abbreviation (input) extensionSignatureAlgorithms :: u16 where "extensionSignatureAlgorithms \<equiv> 13"
abbreviation (input) extensionALPN :: u16 where "extensionALPN \<equiv> 16"
abbreviation (input) extensionSCT :: u16 where "extensionSCT \<equiv> 18"
abbreviation (input) extensionExtendedMasterSecret :: u16 where "extensionExtendedMasterSecret \<equiv> 23"
abbreviation (input) extensionSessionTicket :: u16 where "extensionSessionTicket \<equiv> 35"
abbreviation (input) extensionPreSharedKey :: u16 where "extensionPreSharedKey \<equiv> 41"
abbreviation (input) extensionEarlyData :: u16 where "extensionEarlyData \<equiv> 42"
abbreviation (input) extensionSupportedVersions :: u16 where "extensionSupportedVersions \<equiv> 43"
abbreviation (input) extensionCookie :: u16 where "extensionCookie \<equiv> 44"
abbreviation (input) extensionPSKModes :: u16 where "extensionPSKModes \<equiv> 45"
abbreviation (input) extensionCertificateAuthorities :: u16 where "extensionCertificateAuthorities \<equiv> 47"
abbreviation (input) extensionSignatureAlgorithmsCert :: u16 where "extensionSignatureAlgorithmsCert \<equiv> 50"
abbreviation (input) extensionKeyShare :: u16 where "extensionKeyShare \<equiv> 51"
abbreviation (input) extensionQUICTransportParameters :: u16 where "extensionQUICTransportParameters \<equiv> 57"
abbreviation (input) extensionRenegotiationInfo :: u16 where "extensionRenegotiationInfo \<equiv> 0xff01"
abbreviation (input) extensionECHOuterExtensions :: u16 where "extensionECHOuterExtensions \<equiv> 0xfd00"
abbreviation (input) extensionEncryptedClientHello :: u16 where "extensionEncryptedClientHello \<equiv> 0xfe0d"
abbreviation (input) scsvRenegotiation :: u16 where "scsvRenegotiation \<equiv> 0x00ff"
abbreviation (input) alertUnexpectedMessage :: u8 where "alertUnexpectedMessage \<equiv> 10"
abbreviation (input) alertDecodeError :: u8 where "alertDecodeError \<equiv> 50"
abbreviation (input) statusTypeOCSP :: u8 where "statusTypeOCSP \<equiv> 1"

text \<open>TLS 1.3 suites the program implements (the keys of \<open>cipherSuiteTLS13Map\<close>).\<close>

definition cipherSuitesTLS13 :: "u16 list" where
  "cipherSuitesTLS13 = [0x1301, 0x1303, 0x1302]"

definition cipherSuiteTLS13ByID :: "u16 \<Rightarrow> u16 option" where
  "cipherSuiteTLS13ByID suite = (if suite \<in> set cipherSuitesTLS13 then Some suite else None)"

subsection \<open>Structs\<close>

record keyShare =
  ks_group :: u16
  ks_data :: bytes

record pskIdentity =
  psk_label :: bytes
  psk_obfuscatedTicketAge :: u32

record clientHelloMsg =
  ch_original :: "bytes option"
  ch_vers :: u16
  ch_random :: bytes
  ch_sessionId :: bytes
  ch_cipherSuites :: "u16 list"
  ch_compressionMethods :: bytes
  ch_serverName :: string
  ch_ocspStapling :: bool
  ch_supportedCurves :: "u16 list"
  ch_supportedPoints :: bytes
  ch_ticketSupported :: bool
  ch_sessionTicket :: bytes
  ch_supportedSignatureAlgorithms :: "u16 list"
  ch_supportedSignatureAlgorithmsCert :: "u16 list"
  ch_secureRenegotiationSupported :: bool
  ch_secureRenegotiation :: bytes
  ch_extendedMasterSecret :: bool
  ch_alpnProtocols :: "string list"
  ch_scts :: bool
  ch_supportedVersions :: "u16 list"
  ch_cookie :: bytes
  ch_keyShares :: "keyShare list"
  ch_earlyData :: bool
  ch_pskModes :: bytes
  ch_pskIdentities :: "pskIdentity list"
  ch_pskBinders :: "bytes list"
  ch_quicTransportParameters :: "bytes option"
  ch_encryptedClientHello :: bytes
  ch_extensions :: "u16 list"

record serverHelloMsg =
  sh_original :: "bytes option"
  sh_vers :: u16
  sh_random :: bytes
  sh_sessionId :: bytes
  sh_cipherSuite :: u16
  sh_compressionMethod :: u8
  sh_ocspStapling :: bool
  sh_ticketSupported :: bool
  sh_secureRenegotiationSupported :: bool
  sh_secureRenegotiation :: bytes
  sh_extendedMasterSecret :: bool
  sh_alpnProtocol :: string
  sh_scts :: "bytes list"
  sh_supportedVersion :: u16
  sh_serverShare :: keyShare
  sh_selectedIdentityPresent :: bool
  sh_selectedIdentity :: u16
  sh_supportedPoints :: bytes
  sh_encryptedClientHello :: bytes
  sh_serverNameAck :: bool
  sh_cookie :: bytes
  sh_selectedGroup :: u16

text \<open>The zero values \<open>clientHelloMsg{original: data}\<close> and \<open>serverHelloMsg{original: data}\<close>.\<close>

definition clientHelloMsg_zero :: "bytes option \<Rightarrow> clientHelloMsg" where
  "clientHelloMsg_zero data = \<lparr>ch_original = data, ch_vers = 0, ch_random = [], ch_sessionId = [],
     ch_cipherSuites = [], ch_compressionMethods = [], ch_serverName = [], ch_ocspStapling = False,
     ch_supportedCurves = [], ch_supportedPoints = [], ch_ticketSupported = False,
     ch_sessionTicket = [], ch_supportedSignatureAlgorithms = [],
     ch_supportedSignatureAlgorithmsCert = [], ch_secureRenegotiationSupported = False,
     ch_secureRenegotiation = [], ch_extendedMasterSecret = False, ch_alpnProtocols = [],
     ch_scts = False, ch_supportedVersions = [], ch_cookie = [], ch_keyShares = [],
     ch_earlyData = False, ch_pskModes = [], ch_pskIdentities = [], ch_pskBinders = [],
     ch_quicTransportParameters = None, ch_encryptedClientHello = [], ch_extensions = []\<rparr>"

definition serverHelloMsg_zero :: "bytes option \<Rightarrow> serverHelloMsg" where
  "serverHelloMsg_zero data = \<lparr>sh_original = data, sh_vers = 0, sh_random = [], sh_sessionId = [],
     sh_cipherSuite = 0, sh_compressionMethod = 0, sh_ocspStapling = False,
     sh_ticketSupported = False, sh_secureRenegotiationSupported = False,
     sh_secureRenegotiation = [], sh_extendedMasterSecret = False, sh_alpnProtocol = [],
     sh_scts = [], sh_supportedVersion = 0, sh_serverShare = \<lparr>ks_group = 0, ks_data = []\<rparr>,
     sh_selectedIdentityPresent = False, sh_selectedIdentity = 0, sh_supportedPoints = [],
     sh_encryptedClientHello = [], sh_serverNameAck = False, sh_cookie = [], sh_selectedGroup = 0\<rparr>"

end
