(* ===== verification/Amortize.thy ===== *)
theory Amortize
  imports Cache_Key Fidelity Handshake_Types "HOL-Library.Multiset"
begin

text \<open>
  Profiles and ClientHello classes (\<open>src/amortize.go\<close>, the profile struct of
  \<open>src/tls.go\<close>, the soft class of \<open>src/dest_cert_meta.go\<close>). \<open>ClassifyClientHello\<close>
  folds an FNV-1a hash over a normalised view of the ClientHello; the lemmas show that
  the view forgets exactly the ordering it claims to forget and that the printed class
  is an injective image of the hash.
\<close>

subsection \<open>Modes and paths\<close>

text \<open>\<open>AmortizeMode\<close> is a Go int: \<open>AmortizeOther\<close> stands for its values without a name.\<close>

datatype AmortizeMode =
    AmortizeDefault | AmortizeL0 | AmortizeL1 | AmortizeL2 | AmortizeAuto | AmortizeOther int

datatype AmortizePath = PathL0 | PathL1 | PathL2

definition DefaultAmortizeMode :: AmortizeMode where "DefaultAmortizeMode = AmortizeL2"
abbreviation (input) MinL2Evidence :: int where "MinL2Evidence \<equiv> 2"
abbreviation (input) MaxL2FailWindow :: int where "MaxL2FailWindow \<equiv> 2"
definition MaxL2ProfileAge :: duration where "MaxL2ProfileAge = 10 * Minute"
definition QuarantineCooldown :: duration where "QuarantineCooldown = 5 * Minute"
definition ProfileTTL :: duration where "ProfileTTL = 30 * Minute"

definition ResolveAmortizeMode :: "AmortizeMode \<Rightarrow> AmortizeMode" where
  "ResolveAmortizeMode mode =
     (case mode of
        AmortizeDefault \<Rightarrow> DefaultAmortizeMode
      | AmortizeOther _ \<Rightarrow> DefaultAmortizeMode
      | _ \<Rightarrow> mode)"

subsection \<open>Profiles\<close>

record DestCertMeta =
  cm_CN :: string
  cm_DNSNames :: "string list"
  cm_Organization :: string
  cm_NotBefore :: gotime
  cm_NotAfter :: gotime
  cm_ChainDepth :: int
  cm_ChainLens :: "int list"
  cm_LeafLen :: int
  cm_Updated :: gotime
  cm_IssuerCN :: string
  cm_IssuerOrg :: string
  cm_IssuerCountry :: string
  cm_IntermediateNames :: "string list"

record RealityProfile =
  rp_RecordLens :: lens
  rp_Fingerprint :: u64
  rp_CipherSuite :: u16
  rp_ALPN :: string
  rp_TLSVersion :: u16
  rp_RecordCount :: int
  rp_CapturedAt :: gotime
  rp_RecordMode :: u8
  rp_Dest :: string
  rp_ServerName :: string
  rp_CHClass :: string
  rp_KeyShareGroup :: u16
  rp_AcceptsHRR :: bool
  rp_ShapeHash :: u64
  rp_ServerHelloTemplate :: bytes
  rp_Evidence :: int
  rp_LiveEvidence :: int
  rp_Stability :: int
  rp_Source :: string
  rp_CHClassVer :: u8
  rp_CertMeta :: "DestCertMeta option"

definition IsExpired :: "gotime \<Rightarrow> RealityProfile \<Rightarrow> bool" where
  "IsExpired now p \<longleftrightarrow> ProfileTTL < time_Sub now (rp_CapturedAt p)"

text \<open>A pointer to a profile may be nil: \<open>None\<close>.\<close>

definition profileL2Eligible :: "gotime \<Rightarrow> RealityProfile option \<Rightarrow> bool" where
  "profileL2Eligible now pp =
     (case pp of
        None \<Rightarrow> False
      | Some p \<Rightarrow>
          if rp_Source p = ''probe'' then False
          else
            let live = rp_LiveEvidence p;
                live = (if live \<le> 0 then rp_Evidence p else live)
            in
            if live < MinL2Evidence then False
            else if rp_AcceptsHRR p then False
            else if rp_KeyShareGroup p = 0 \<or> rp_CipherSuite p = 0 then False
            else if length (rp_ServerHelloTemplate p) = 0 then False
            else if \<not> ValidateRecordLens (rp_RecordLens p) \<or> rp_RecordLens p ! 0 = 0 then False
            else if rp_ShapeHash p = 0 then False
            else if rp_CapturedAt p = 0 \<or> MaxL2ProfileAge < time_Sub now (rp_CapturedAt p) then False
            else True)"

text \<open>\<open>CacheKeyFromProfile\<close> of \<open>src/cache_key.go\<close>.\<close>

definition CacheKeyFromProfile :: "string \<Rightarrow> RealityProfile option \<Rightarrow> string" where
  "CacheKeyFromProfile serverName pp =
     (case pp of
        None \<Rightarrow> CacheKey serverName [] VersionTLS13
      | Some p \<Rightarrow>
          if rp_Dest p \<noteq> [] \<or> rp_CHClass p \<noteq> [] then
            let sn = (if rp_ServerName p \<noteq> [] then rp_ServerName p else serverName)
            in CacheKeyV2 (rp_Dest p) sn (rp_ALPN p) (rp_TLSVersion p) (rp_CHClass p)
          else CacheKey serverName (rp_ALPN p) (rp_TLSVersion p))"

subsection \<open>FNV-1a hashing\<close>

definition fnv64Offset :: u64 where "fnv64Offset = 14695981039346656037"
definition fnv64Prime :: u64 where "fnv64Prime = 1099511628211"

definition mixByte :: "u8 \<Rightarrow> u64 \<Rightarrow> u64" where
  "mixByte b h = (h XOR ucast b) * fnv64Prime"

definition mixU16 :: "u16 \<Rightarrow> u64 \<Rightarrow> u64" where
  "mixU16 v h =
     (let h = (h XOR ucast (drop_bit 8 v)) * fnv64Prime
      in (h XOR ucast (v AND 0xff)) * fnv64Prime)"

definition computeFingerprint :: "u16 \<Rightarrow> string \<Rightarrow> int \<Rightarrow> int \<Rightarrow> u64" where
  "computeFingerprint cipherSuite alpn serverHelloLen extensionsLen =
     (let h = mixU16 cipherSuite fnv64Offset;
          h = fold mixByte (string_to_bytes alpn) h;
          h = mixU16 (of_int serverHelloLen) h
      in mixU16 (of_int extensionsLen) h)"

definition computeShapeHash :: "u16 \<Rightarrow> u16 \<Rightarrow> int \<Rightarrow> int \<Rightarrow> u64" where
  "computeShapeHash cipherSuite grp r0Len templateLen =
     (let h = mixU16 cipherSuite fnv64Offset;
          h = mixU16 grp h;
          h = mixU16 (of_int r0Len) h
      in mixU16 (of_int templateLen) h)"

text \<open>The buffer is filled from its end; \<open>acc\<close> is \<open>buf[i:]\<close>.\<close>

function formatUint64Hex_loop :: "u64 \<Rightarrow> string \<Rightarrow> string" where
  "formatUint64Hex_loop v acc =
     (if 0 < v then formatUint64Hex_loop (drop_bit 4 v) (hexdigits ! unat (v AND 0xf) # acc)
      else acc)"
  by pat_completeness auto
termination
proof (relation "measure (\<lambda>(v, acc). unat v)")
  fix v :: u64 and acc :: string
  assume "0 < v"
  then have "0 < unat v" by (simp add: word_less_nat_alt)
  moreover have "unat (drop_bit 4 v) = unat v div 16" by (simp only: unat_drop_bit) simp
  ultimately show "((drop_bit 4 v, hexdigits ! unat (v AND 0xf) # acc), v, acc) \<in> measure (\<lambda>(v, acc). unat v)"
    by simp
qed simp

declare formatUint64Hex_loop.simps [simp del]

definition formatUint64Hex :: "u64 \<Rightarrow> string" where
  "formatUint64Hex v = (if v = 0 then ''0'' else formatUint64Hex_loop v [])"

subsection \<open>Classifying a ClientHello\<close>

definition isGREASE :: "u16 \<Rightarrow> bool" where
  "isGREASE v \<longleftrightarrow> v AND 0x0f0f = 0x0a0a \<and> drop_bit 8 v = v AND 0xff"

definition clientALPN :: "clientHelloMsg option \<Rightarrow> string" where
  "clientALPN ch = (case ch of None \<Rightarrow> [] | Some ch \<Rightarrow>
     (case ch_alpnProtocols ch of [] \<Rightarrow> [] | p # _ \<Rightarrow> p))"

definition clientHasKeyShare :: "clientHelloMsg option \<Rightarrow> u16 \<Rightarrow> bool" where
  "clientHasKeyShare ch grp = (case ch of None \<Rightarrow> False | Some ch \<Rightarrow>
     list_ex (\<lambda>ks. ks_group ks = grp) (ch_keyShares ch))"

definition clientOffersCipher :: "clientHelloMsg option \<Rightarrow> u16 \<Rightarrow> bool" where
  "clientOffersCipher ch suite = (case ch of None \<Rightarrow> False | Some ch \<Rightarrow>
     list_ex (\<lambda>cs. cs = suite) (ch_cipherSuites ch))"

text \<open>The loop over the suites: \<open>seen\<close> is \<open>seenSuite\<close>, \<open>suites\<close> is \<open>suites[:nSuites]\<close>.\<close>

fun collect_suites :: "u16 list \<Rightarrow> bool list \<Rightarrow> u16 list \<Rightarrow> u16 list" where
  "collect_suites [] seen suites = suites"
| "collect_suites (cs # css) seen suites =
     (if isGREASE cs then collect_suites css seen suites
      else
        let idx = (if cs = 0x1301 then 0 else if cs = 0x1302 then 1
                   else if cs = 0x1303 then 2 else -1 :: int) in
        if 0 \<le> idx \<and> \<not> seen ! nat idx
        then collect_suites css (seen[nat idx := True]) (suites @ [cs])
        else collect_suites css seen suites)"

text \<open>The exchange sort, with its two index loops.\<close>

definition sort_step :: "nat \<Rightarrow> nat \<Rightarrow> u16 list \<Rightarrow> u16 list" where
  "sort_step i j s = (if s ! j < s ! i then s[i := s ! j, j := s ! i] else s)"

definition sort_suites :: "u16 list \<Rightarrow> u16 list" where
  "sort_suites s =
     fold (\<lambda>i s. fold (sort_step i) [i + 1 ..< length s] s) [0 ..< length s] s"

definition has_group :: "u16 \<Rightarrow> clientHelloMsg \<Rightarrow> bool" where
  "has_group g ch \<longleftrightarrow>
     list_ex (\<lambda>ks. ks_group ks = g) (ch_keyShares ch) \<or>
     list_ex (\<lambda>c. \<not> isGREASE c \<and> c = g) (ch_supportedCurves ch)"

definition has_sigalg :: "u16 list \<Rightarrow> clientHelloMsg \<Rightarrow> bool" where
  "has_sigalg algs ch \<longleftrightarrow>
     list_ex (\<lambda>sa. \<not> isGREASE sa \<and> sa \<in> set algs) (ch_supportedSignatureAlgorithms ch)"

definition mixBool :: "bool \<Rightarrow> u64 \<Rightarrow> u64" where
  "mixBool b = mixByte (if b then 1 else 0)"

definition extBits :: "clientHelloMsg \<Rightarrow> u8" where
  "extBits ch =
     (if 0 < length (ch_serverName ch) then push_bit 0 1 else 0) OR
     (if 0 < length (ch_alpnProtocols ch) then push_bit 1 1 else 0) OR
     (if 0 < length (ch_supportedVersions ch) then push_bit 2 1 else 0) OR
     (if 0 < length (ch_keyShares ch) then push_bit 3 1 else 0) OR
     (if 0 < length (ch_pskIdentities ch) \<or> 0 < length (ch_pskModes ch) then push_bit 4 1 else 0) OR
     (if 0 < length (ch_encryptedClientHello ch) then push_bit 5 1 else 0) OR
     (if ch_scts ch then push_bit 6 1 else 0) OR
     (if ch_ocspStapling ch then push_bit 7 1 else 0)"

definition ClassifyClientHello :: "clientHelloMsg option \<Rightarrow> string" where
  "ClassifyClientHello chp =
     (case chp of
        None \<Rightarrow> ''empty''
      | Some ch \<Rightarrow>
          let h = fnv64Offset;
              h = mixByte CHClassVersion h;
              h = fold mixByte (string_to_bytes (clientALPN (Some ch))) h;
              h = mixByte 0 h;
              suites = sort_suites (collect_suites (ch_cipherSuites ch) [False, False, False] []);
              h = fold mixU16 suites h;
              h = mixByte (of_nat (length suites)) h;
              h = mixBool (has_group X25519 ch) h;
              h = mixBool (has_group X25519MLKEM768 ch) h;
              h = mixBool (has_group CurveP256 ch) h;
              h = mixBool (has_sigalg [Ed25519] ch) h;
              h = mixBool (has_sigalg [ECDSAWithP256AndSHA256, ECDSAWithP384AndSHA384,
                     ECDSAWithP521AndSHA512] ch) h;
              h = mixBool (has_sigalg [PSSWithSHA256, PSSWithSHA384, PSSWithSHA512] ch) h;
              h = mixByte (extBits ch) h;
              has13 = list_ex (\<lambda>v. v = VersionTLS13) (ch_supportedVersions ch);
              h = (if has13 then mixU16 VersionTLS13 h else h)
          in formatUint64Hex h)"

definition SoftClassifyClientHello :: "clientHelloMsg option \<Rightarrow> string" where
  "SoftClassifyClientHello chp =
     (case chp of
        None \<Rightarrow> []
      | Some ch \<Rightarrow>
          if \<not> ch_scts ch \<and> \<not> ch_ocspStapling ch \<and> length (ch_encryptedClientHello ch) = 0
          then ''s:'' @ ClassifyClientHello (Some ch)
          else
            let tmp = (if ch_scts ch \<or> ch_ocspStapling ch
                       then ch\<lparr>ch_scts := True, ch_ocspStapling := False\<rparr>
                       else ch\<lparr>ch_scts := False, ch_ocspStapling := False\<rparr>);
                tmp = tmp\<lparr>ch_encryptedClientHello := []\<rparr>
            in ''s:'' @ ClassifyClientHello (Some tmp))"

definition SoftClassifyFromExact :: "clientHelloMsg option \<Rightarrow> string \<Rightarrow> string" where
  "SoftClassifyFromExact chp exactClass =
     (case chp of
        None \<Rightarrow> []
      | Some ch \<Rightarrow>
          if exactClass \<noteq> [] \<and> \<not> ch_scts ch \<and> \<not> ch_ocspStapling ch
             \<and> length (ch_encryptedClientHello ch) = 0
          then ''s:'' @ exactClass
          else SoftClassifyClientHello (Some ch))"

subsection \<open>Wrapping a handshake message in a record\<close>

definition wrapHandshakeRecord :: "bytes \<Rightarrow> u16 \<Rightarrow> bytes" where
  "wrapHandshakeRecord msg legacyVersion =
     (let legacyVersion = (if legacyVersion = 0 then VersionTLS10 else legacyVersion);
          n = length msg
      in [recordTypeHandshake, ucast (drop_bit 8 legacyVersion), ucast legacyVersion,
          of_nat (n div 256), of_nat n] @ msg)"

subsection \<open>Suites: the loops compute the sorted set\<close>

definition add_suite :: "u16 \<Rightarrow> u16 list \<Rightarrow> u16 list" where
  "add_suite c acc = (if c \<in> {0x1301, 0x1302, 0x1303} \<and> c \<notin> set acc then acc @ [c] else acc)"

lemma collect_suites_eq:
  "collect_suites cs [0x1301 \<in> set acc, 0x1302 \<in> set acc, 0x1303 \<in> set acc] acc =
   fold add_suite cs acc"
proof (induction cs arbitrary: acc)
  case (Cons c cs)
  have "\<not> isGREASE c" if "c \<in> {0x1301, 0x1302, 0x1303}" using that by (auto simp: isGREASE_def)
  then have "collect_suites (c # cs) [0x1301 \<in> set acc, 0x1302 \<in> set acc, 0x1303 \<in> set acc] acc =
    collect_suites cs [0x1301 \<in> set (add_suite c acc), 0x1302 \<in> set (add_suite c acc),
      0x1303 \<in> set (add_suite c acc)] (add_suite c acc)"
    by (simp add: Let_def add_suite_def)
  then show ?case using Cons by simp
qed simp

lemma fold_add_suite:
  "set (fold add_suite cs acc) = set acc \<union> (set cs \<inter> {0x1301, 0x1302, 0x1303})"
  "distinct acc \<Longrightarrow> distinct (fold add_suite cs acc)"
  by (induction cs arbitrary: acc) (simp_all add: add_suite_def, blast)

lemma sort_suites_small:
  assumes "length s \<le> 3"
  shows "sorted (sort_suites s) \<and> mset (sort_suites s) = mset s"
proof -
  consider "s = []" | a where "s = [a]" | a b where "s = [a, b]" | a b c where "s = [a, b, c]"
    using assms by (cases s rule: remdups_adj.cases; case_tac "tl (tl s)") auto
  then show ?thesis
    by cases (auto simp: sort_suites_def sort_step_def upt_rec numeral_2_eq_2)
qed

lemma classify_suites:
  "sort_suites (collect_suites cs [False, False, False] []) =
   sorted_list_of_set (set cs \<inter> {0x1301, 0x1302, 0x1303})"
proof -
  let ?c = "collect_suites cs [False, False, False] []"
  have c: "set ?c = set cs \<inter> {0x1301, 0x1302, 0x1303}" "distinct ?c"
    using collect_suites_eq [of cs "[]"] by (simp_all add: fold_add_suite)
  have "card (set ?c) \<le> card {0x1301, 0x1302, 0x1303 :: u16}"
    unfolding c(1) by (intro card_mono) auto
  then have "length ?c \<le> 3" using c(2) by (simp add: distinct_card)
  from sort_suites_small [OF this] have "sort_suites ?c = sort ?c"
    by (metis properties_for_sort)
  then show ?thesis using c by (simp add: sorted_list_of_set_sort_remdups distinct_remdups_id flip: c(1))
qed

subsection \<open>GREASE values\<close>

definition grease_values :: "u16 list" where
  "grease_values = [0x0a0a, 0x1a1a, 0x2a2a, 0x3a3a, 0x4a4a, 0x5a5a, 0x6a6a, 0x7a7a,
     0x8a8a, 0x9a9a, 0xaaaa, 0xbaba, 0xcaca, 0xdada, 0xeaea, 0xfafa]"

lemma isGREASE_unat:
  assumes "isGREASE v"
  obtains k where "k < 16" "unat v = 4112 * k + 2570"
proof -
  have "v AND 0xf = (v AND 0x0f0f) AND 0xf" by (simp add: and.assoc)
  also have "\<dots> = 0xa" using assms by (simp add: isGREASE_def)
  finally have lo: "unat v mod 16 = 10"
    using unat_and_mask [of v 4] by (simp add: mask_eq_exp_minus_1)
  have "unat (drop_bit 8 v) = unat (v AND 0xff)" using assms by (simp only: isGREASE_def)
  then have hi: "unat v div 256 = unat v mod 256"
    using unat_and_mask [of v 8] by (simp only: unat_drop_bit) (simp add: mask_eq_exp_minus_1)
  have "unat v < 65536" using unsigned_less [of v, where ?'a = nat] by simp
  then have b: "unat v div 256 div 16 < 16" by (simp flip: div_mult2_eq)
  have v: "unat v = 257 * (unat v div 256)" using div_mult_mod_eq [of "unat v" 256] hi by simp
  moreover have "(257 * m) mod 16 = m mod 16" for m :: nat
    using mod_mult_self4 [of 16 "16 * m" m] by (simp add: algebra_simps)
  ultimately have "unat v div 256 mod 16 = 10" using lo by metis
  then have "unat v div 256 = 16 * (unat v div 256 div 16) + 10"
    using div_mult_mod_eq [of "unat v div 256" 16] by simp
  with v have "unat v = 4112 * (unat v div 256 div 16) + 2570" by simp
  with b that show thesis by blast
qed

lemma grease_values_nth: "k < 16 \<Longrightarrow> unat (grease_values ! k) = 4112 * k + 2570"
proof -
  assume "k < 16"
  then have "k \<in> set [0..<16]" by simp
  then show ?thesis by (simp add: upt_rec grease_values_def) (elim disjE; simp)
qed

lemma isGREASE_iff: "isGREASE v \<longleftrightarrow> v \<in> set grease_values"
proof
  assume "isGREASE v"
  then obtain k where k: "k < 16" "unat v = 4112 * k + 2570" by (rule isGREASE_unat)
  then have "v = grease_values ! k"
    using grease_values_nth [of k] by (simp add: word_unat_eq_iff)
  moreover have "length grease_values = 16" by (simp add: grease_values_def)
  ultimately show "v \<in> set grease_values" using k(1) by simp
next
  assume "v \<in> set grease_values"
  moreover have "\<forall>v \<in> set grease_values. isGREASE v" by (simp add: grease_values_def isGREASE_def)
  ultimately show "isGREASE v" by blast
qed

subsection \<open>The printed hash\<close>

fun hex_value :: "nat \<Rightarrow> string \<Rightarrow> nat option" where
  "hex_value n [] = Some n"
| "hex_value n (c # cs) =
     (case hex_digit_val c of None \<Rightarrow> None | Some d \<Rightarrow> hex_value (16 * n + d) cs)"

lemma formatUint64Hex_loop_append: "formatUint64Hex_loop v acc = formatUint64Hex_loop v [] @ acc"
proof (induction "unat v" arbitrary: v acc rule: less_induct)
  case less
  show ?case
  proof (cases "v = 0")
    case True
    then show ?thesis by (simp add: formatUint64Hex_loop.simps [of 0])
  next
    case False
    let ?w = "drop_bit 4 v" and ?d = "hexdigits ! unat (v AND 0xf)"
    have step: "formatUint64Hex_loop v acc = formatUint64Hex_loop ?w (?d # acc)" for acc
      using False formatUint64Hex_loop.simps [of v acc] by (simp add: word_gt_0)
    have "unat ?w < unat v" using False by (simp only: unat_drop_bit) (simp add: unat_gt_0)
    note IH = less [OF this]
    show ?thesis by (simp only: step IH [of "?d # acc"] IH [of "[?d]"]) simp
  qed
qed

lemma formatUint64Hex_loop_snoc:
  assumes "0 < v"
  shows "formatUint64Hex_loop v [] =
    formatUint64Hex_loop (drop_bit 4 v) [] @ [hexdigits ! (unat v mod 16)]"
proof -
  have "formatUint64Hex_loop v [] =
      formatUint64Hex_loop (drop_bit 4 v) [hexdigits ! unat (v AND 0xf)]"
    using assms formatUint64Hex_loop.simps [of v "[]"] by simp
  also have "unat (v AND 0xf) = unat v mod 16"
    using unat_and_mask [of v 4] by (simp add: mask_eq_exp_minus_1)
  finally show ?thesis using formatUint64Hex_loop_append by metis
qed

lemma hex_value_append:
  "hex_value n (xs @ ys) = (case hex_value n xs of None \<Rightarrow> None | Some m \<Rightarrow> hex_value m ys)"
  by (induction n xs rule: hex_value.induct) (auto split: option.splits)

lemma hex_value_loop: "hex_value 0 (formatUint64Hex_loop v []) = Some (unat v)"
proof (induction "unat v" arbitrary: v rule: less_induct)
  case less
  show ?case
  proof (cases "v = 0")
    case True
    then show ?thesis by (simp add: formatUint64Hex_loop.simps)
  next
    case False
    have d: "unat (drop_bit 4 v) = unat v div 16" by (simp only: unat_drop_bit) simp
    have "unat v div 16 < unat v" using False by (simp add: unat_gt_0)
    then have "hex_value 0 (formatUint64Hex_loop (drop_bit 4 v) []) = Some (unat v div 16)"
      using less [of "drop_bit 4 v"] by (simp only: d)
    then show ?thesis using False
      by (simp add: formatUint64Hex_loop_snoc word_gt_0 hex_value_append hex_digit_val_hexdigits)
  qed
qed

lemma hex_value_formatUint64Hex: "hex_value 0 (formatUint64Hex v) = Some (unat v)"
  by (simp add: formatUint64Hex_def hex_value_loop hex_digit_val_def)

lemma formatUint64Hex_loop_length:
  "unat v < 16 ^ k \<Longrightarrow> length (formatUint64Hex_loop v []) \<le> k"
proof (induction k arbitrary: v)
  case (Suc k)
  have d: "unat (drop_bit 4 v) = unat v div 16" by (simp only: unat_drop_bit) simp
  then have "unat (drop_bit 4 v) < 16 ^ k" using Suc.prems by (simp only: d) simp
  from Suc.IH [OF this] show ?case
    by (cases "v = 0")
      (simp_all add: formatUint64Hex_loop_snoc word_gt_0 formatUint64Hex_loop.simps [of 0])
qed (simp add: unat_eq_0 formatUint64Hex_loop.simps [of 0])

lemma formatUint64Hex_loop_digits: "set (formatUint64Hex_loop v []) \<subseteq> set hexdigits"
proof (induction "unat v" arbitrary: v rule: less_induct)
  case less
  show ?case
  proof (cases "v = 0")
    case False
    have d: "unat (drop_bit 4 v) = unat v div 16" by (simp only: unat_drop_bit) simp
    have "unat v div 16 < unat v" using False by (simp add: unat_gt_0)
    then have "set (formatUint64Hex_loop (drop_bit 4 v) []) \<subseteq> set hexdigits"
      using less [of "drop_bit 4 v"] by (simp only: d)
    moreover have "length hexdigits = 16" by (simp add: hexdigits_def)
    then have "hexdigits ! (unat v mod 16) \<in> set hexdigits" by simp
    ultimately show ?thesis using False
      by (simp add: formatUint64Hex_loop_snoc word_gt_0)
  qed (simp add: formatUint64Hex_loop.simps)
qed

lemma formatUint64Hex_digits: "set (formatUint64Hex v) \<subseteq> set hexdigits"
  using formatUint64Hex_loop_digits [of v] by (auto simp: formatUint64Hex_def hexdigits_def)

lemma formatUint64Hex_length: "length (formatUint64Hex v) \<le> 16"
  using formatUint64Hex_loop_length [of v 16] unsigned_less [of v, where ?'a = nat]
  by (simp add: formatUint64Hex_def)

lemma formatUint64Hex_inj: "formatUint64Hex v = formatUint64Hex w \<longleftrightarrow> v = w"
  using hex_value_formatUint64Hex [of v] hex_value_formatUint64Hex [of w]
  by (metis option.inject word_unat_eq_iff)

lemma formatUint64Hex_not_Nil: "formatUint64Hex v \<noteq> []"
  using hex_value_formatUint64Hex [of v] hex_value_formatUint64Hex [of 0]
  by (auto simp: formatUint64Hex_def unat_eq_0)

subsection \<open>Classes as components of keys\<close>

lemma ClassifyClientHello_chars:
  "set (ClassifyClientHello ch) \<subseteq> set hexdigits \<union> set ''empty''"
  using formatUint64Hex_digits by (auto simp: ClassifyClientHello_def Let_def split: option.splits)

lemma ClassifyClientHello_no_sep [simp]: "CHR ''|'' \<notin> set (ClassifyClientHello ch)"
  using ClassifyClientHello_chars [of ch] by (auto simp: hexdigits_def)

lemma ClassifyClientHello_not_soft [simp]: "take 2 (ClassifyClientHello ch) \<noteq> ''s:''"
proof
  assume "take 2 (ClassifyClientHello ch) = ''s:''"
  then have "CHR ''s'' \<in> set (ClassifyClientHello ch)"
    using set_take_subset [of 2 "ClassifyClientHello ch"] by auto
  then show False using ClassifyClientHello_chars [of ch] by (auto simp: hexdigits_def)
qed

lemma ClassifyClientHello_not_Nil [simp]: "ClassifyClientHello ch \<noteq> []"
  by (auto simp: ClassifyClientHello_def Let_def formatUint64Hex_not_Nil split: option.splits)

lemma SoftClassifyClientHello_eq:
  "SoftClassifyClientHello (Some ch) = ''s:'' @ ClassifyClientHello (Some
     (ch\<lparr>ch_scts := ch_scts ch \<or> ch_ocspStapling ch, ch_ocspStapling := False,
         ch_encryptedClientHello := []\<rparr>))"
  by (cases ch) (auto simp: SoftClassifyClientHello_def)

lemma SoftClassifyFromExact_eq:
  "SoftClassifyFromExact ch (ClassifyClientHello ch) = SoftClassifyClientHello ch"
  by (cases ch) (auto simp: SoftClassifyFromExact_def SoftClassifyClientHello_def)

lemma ClassifyClientHello_normal:
  "ClassifyClientHello (Some ch) = formatUint64Hex
     (let suites = sorted_list_of_set (set (ch_cipherSuites ch) \<inter> {0x1301, 0x1302, 0x1303});
          groups = ks_group ` set (ch_keyShares ch) \<union> {c \<in> set (ch_supportedCurves ch). \<not> isGREASE c};
          sigs = {c \<in> set (ch_supportedSignatureAlgorithms ch). \<not> isGREASE c}
      in (\<lambda>h. if VersionTLS13 \<in> set (ch_supportedVersions ch) then mixU16 VersionTLS13 h else h)
         (mixByte (extBits ch)
         (mixBool (sigs \<inter> {PSSWithSHA256, PSSWithSHA384, PSSWithSHA512} \<noteq> {})
         (mixBool (sigs \<inter> {ECDSAWithP256AndSHA256, ECDSAWithP384AndSHA384, ECDSAWithP521AndSHA512} \<noteq> {})
         (mixBool (sigs \<inter> {Ed25519} \<noteq> {})
         (mixBool (CurveP256 \<in> groups) (mixBool (X25519MLKEM768 \<in> groups) (mixBool (X25519 \<in> groups)
         (mixByte (of_nat (length suites)) (fold mixU16 suites
         (mixByte 0 (fold mixByte (string_to_bytes (clientALPN (Some ch)))
            (mixByte CHClassVersion fnv64Offset)))))))))))))"
proof -
  have g: "has_group g ch \<longleftrightarrow> g \<in> ks_group ` set (ch_keyShares ch) \<union>
      {c \<in> set (ch_supportedCurves ch). \<not> isGREASE c}" for g
    by (auto simp: has_group_def list_ex_iff)
  have s: "has_sigalg algs ch \<longleftrightarrow>
      {c \<in> set (ch_supportedSignatureAlgorithms ch). \<not> isGREASE c} \<inter> set algs \<noteq> {}" for algs
    by (auto simp: has_sigalg_def list_ex_iff)
  have v: "list_ex (\<lambda>v. v = VersionTLS13) (ch_supportedVersions ch) \<longleftrightarrow>
      VersionTLS13 \<in> set (ch_supportedVersions ch)"
    by (auto simp: list_ex_iff)
  show ?thesis
    by (simp only: ClassifyClientHello_def option.case Let_def classify_suites g s v set_simps)
qed

lemma SoftClassify_no_sep: "CHR ''|'' \<notin> set (SoftClassifyClientHello ch)"
  by (cases ch) (simp_all add: SoftClassifyClientHello_def)

lemma of_nat_byte_unat: "unat (of_nat n :: u8) = n mod 256"
  by (simp add: unsigned_of_nat take_bit_eq_mod)

subsection \<open>Properties\<close>

text \<open>(C40) The class of a ClientHello does not depend on the order or multiplicity of its
  cipher suites, supported groups, signature algorithms and key shares, on GREASE values in
  the first three, on the key-share bytes, or on the random, the session id and the order of
  its extensions: two hellos that differ only there have the same class.\<close>

theorem classify_order_independent:
  assumes "set cs - set grease_values = set (ch_cipherSuites ch) - set grease_values"
    and "set gs - set grease_values = set (ch_supportedCurves ch) - set grease_values"
    and "set sa - set grease_values =
      set (ch_supportedSignatureAlgorithms ch) - set grease_values"
    and "ks_group ` set ks = ks_group ` set (ch_keyShares ch)"
  shows "ClassifyClientHello (Some (ch\<lparr>ch_cipherSuites := cs, ch_supportedCurves := gs,
      ch_supportedSignatureAlgorithms := sa, ch_keyShares := ks, ch_random := r,
      ch_sessionId := sid, ch_extensions := es\<rparr>)) = ClassifyClientHello (Some ch)"
proof -
  have "set cs \<inter> {0x1301, 0x1302, 0x1303} = (set cs - set grease_values) \<inter> {0x1301, 0x1302, 0x1303}"
    for cs :: "u16 list" by (auto simp: grease_values_def)
  then have cs: "set cs \<inter> {0x1301, 0x1302, 0x1303} = set (ch_cipherSuites ch) \<inter> {0x1301, 0x1302, 0x1303}"
    using assms(1) by metis
  have "ks = [] \<longleftrightarrow> ch_keyShares ch = []" using assms(4) by auto
  then have "extBits (ch\<lparr>ch_cipherSuites := cs, ch_supportedCurves := gs,
      ch_supportedSignatureAlgorithms := sa, ch_keyShares := ks, ch_random := r,
      ch_sessionId := sid, ch_extensions := es\<rparr>) = extBits ch"
    by (simp add: extBits_def)
  moreover have "{c \<in> set xs. \<not> isGREASE c} = set xs - set grease_values" for xs
    by (auto simp: isGREASE_iff)
  ultimately show ?thesis
    by (simp add: ClassifyClientHello_normal clientALPN_def Let_def cs assms(2-4))
qed

theorem classify_order_independent_witness:
  "ClassifyClientHello (Some (clientHelloMsg_zero None\<lparr>ch_cipherSuites := [0x1a1a, 0x1303, 0x1301],
     ch_supportedCurves := [0x2a2a, 29], ch_supportedSignatureAlgorithms := [],
     ch_keyShares := [\<lparr>ks_group = 29, ks_data = [1]\<rparr>], ch_random := [7],
     ch_sessionId := [8], ch_extensions := [0, 10]\<rparr>)) =
   ClassifyClientHello (Some (clientHelloMsg_zero None\<lparr>ch_cipherSuites := [0x1301, 0x1303],
     ch_supportedCurves := [29, 0x3a3a], ch_keyShares := [\<lparr>ks_group = 29, ks_data = [2]\<rparr>]\<rparr>))"
  by (rule trans [OF _ classify_order_independent [of "[0x1a1a, 0x1303, 0x1301]"
        "clientHelloMsg_zero None\<lparr>ch_cipherSuites := [0x1301, 0x1303],
          ch_supportedCurves := [29, 0x3a3a], ch_keyShares := [\<lparr>ks_group = 29, ks_data = [2]\<rparr>]\<rparr>"
        "[0x2a2a, 29]" "[]" "[\<lparr>ks_group = 29, ks_data = [1]\<rparr>]" "[0, 10]" "[8]" "[7]"]])
    (auto simp: clientHelloMsg_zero_def grease_values_def)

text \<open>Soft classes never meet exact ones: a V2 key built from \<open>ClassifyClientHello\<close>
  is never a soft key, and a V2 key built from \<open>SoftClassifyClientHello\<close> always is,
  whatever destination, name, protocol and version the keys have. The shortcut
  \<open>SoftClassifyFromExact\<close> returns the same soft class.\<close>

theorem soft_exact_keys_disjoint:
  "\<not> isSoftCacheKey (CacheKeyV2 dest sn alpn v (ClassifyClientHello chp)) \<and>
   isSoftCacheKey (CacheKeyV2 dest' sn' alpn' v' (SoftClassifyClientHello (Some ch))) \<and>
   SoftClassifyFromExact chp (ClassifyClientHello chp) = SoftClassifyClientHello chp"
  using SoftClassify_no_sep [of "Some ch"]
  by (simp add: isSoftCacheKey_CacheKeyV2 SoftClassifyFromExact_eq SoftClassifyClientHello_eq)

text \<open>The soft class ignores an ECH extension and only sees whether one of SCT and OCSP
  is offered: hellos that agree on everything else share it.\<close>

theorem soft_class_collapses:
  assumes "(sct \<or> ocsp) = (sct' \<or> ocsp')"
  shows "SoftClassifyClientHello (Some (ch\<lparr>ch_scts := sct, ch_ocspStapling := ocsp,
      ch_encryptedClientHello := ech\<rparr>)) =
    SoftClassifyClientHello (Some (ch\<lparr>ch_scts := sct', ch_ocspStapling := ocsp',
      ch_encryptedClientHello := ech'\<rparr>))"
  using assms by (cases ch) (simp add: SoftClassifyClientHello_eq)

theorem soft_class_collapses_witness:
  "SoftClassifyClientHello (Some (clientHelloMsg_zero None\<lparr>ch_scts := True,
      ch_ocspStapling := False, ch_encryptedClientHello := [1]\<rparr>)) =
    SoftClassifyClientHello (Some (clientHelloMsg_zero None\<lparr>ch_scts := False,
      ch_ocspStapling := True, ch_encryptedClientHello := []\<rparr>))"
  by (rule soft_class_collapses) simp

text \<open>\<open>formatUint64Hex\<close> never runs out of its sixteen bytes, its text reads back as the
  value, and so different hashes print differently.\<close>

theorem formatUint64Hex_correct:
  "length (formatUint64Hex v) \<le> 16 \<and> hex_value 0 (formatUint64Hex v) = Some (unat v) \<and>
   (formatUint64Hex v = formatUint64Hex w \<longleftrightarrow> v = w)"
  by (simp add: formatUint64Hex_length hex_value_formatUint64Hex formatUint64Hex_inj)

text \<open>A wrapped handshake message is a record of type 22 whose body is the message; its
  length field is the length of the message modulo 65536, so it is right exactly for
  messages shorter than 64 KiB.\<close>

theorem wrapHandshakeRecord_correct:
  "let r = wrapHandshakeRecord msg v in
   r ! 0 = 22 \<and> drop 5 r = msg \<and> length r = length msg + 5 \<and>
   256 * unat (r ! 3) + unat (r ! 4) = length msg mod 65536 \<and>
   256 * unat (r ! 1) + unat (r ! 2) = (if v = 0 then 0x0301 else unat v)"
proof -
  have b: "256 * (n div 256 mod 256) + n mod 256 = n mod 65536" for n :: nat
    using mod_mult2_eq [of n 256 256] by simp
  have u: "unat (ucast w :: u8) = unat w mod 256" for w :: u16
    by (simp add: unsigned_ucast_eq take_bit_eq_mod)
  have "256 * unat (ucast (drop_bit 8 w) :: u8) + unat (ucast w :: u8) = unat w" for w :: u16
    using b [of "unat w"] unsigned_less [of w, where ?'a = nat]
    by (simp only: u unat_drop_bit) simp
  note w = this
  show ?thesis using w [of v] w [of "VersionTLS10"] b [of "length msg"]
    by (cases "v = 0") (simp_all add: wrapHandshakeRecord_def Let_def of_nat_byte_unat)
qed

end
