(* ===== verification/Cache_Manager.thy ===== *)
theory Cache_Manager
  imports Amortize
begin

text \<open>
  The profile cache (\<open>src/cache_manager.go\<close>, \<open>src/amortize_cache.go\<close>). An operation
  takes the time it reads from the clock and the cache and returns the cache updated; a
  method that may panic returns a sum. The \<open>sync.Map\<close> of entries is a map; where the code
  ranges over it, the order of the keys is the argument \<open>order\<close>, about which the lemmas only
  know that it enumerates the domain. The invariant, the accounting of entries and the
  rules under which an entry may be served are proved for every order and every sequence
  of calls.
\<close>

subsection \<open>State\<close>

datatype ProfileState =
    ProfileValid | ProfileStale | ProfileNegative | ProfileSuspect | ProfileQuarantined

record ProfileEntry =
  pe_Profile :: "RealityProfile option"
  pe_State :: ProfileState
  pe_atomicState :: ProfileState
  pe_FailCount :: int
  pe_NextRetry :: gotime
  pe_TTL :: duration
  pe_StabilityScore :: int

record CacheManagerStats =
  st_ProfileEntries :: int
  st_ProfileInvalidated :: u64
  st_FingerprintChanged :: u64
  st_StaleServed :: int
  st_NegativeHits :: int
  st_HotSwaps :: u64
  st_L1Hits :: u64
  st_L2Hits :: u64
  st_L2Fails :: u64
  st_L1Fails :: u64
  st_L2SoftDemotions :: u64
  st_Quarantines :: u64
  st_Calibrations :: u64

record targetFingerprintCache =
  fp_CipherSuite :: u16
  fp_ALPN :: string
  fp_SupportedVersions :: "u16 list"
  fp_KeyShareGroup :: u16
  fp_SignatureSchemes :: "u16 list"
  fp_LastUpdated :: gotime

type_synonym entries = "string \<rightharpoonup> ProfileEntry"

record CacheManager =
  m_entries :: entries
  m_fingerprints :: "string \<rightharpoonup> targetFingerprintCache"
  m_stats :: CacheManagerStats
  m_dirty :: int
  m_persisted :: int
  m_maxProfiles :: int
  m_baseTTL :: duration

definition stats_zero :: CacheManagerStats where
  "stats_zero = \<lparr>st_ProfileEntries = 0, st_ProfileInvalidated = 0, st_FingerprintChanged = 0,
     st_StaleServed = 0, st_NegativeHits = 0, st_HotSwaps = 0, st_L1Hits = 0, st_L2Hits = 0,
     st_L2Fails = 0, st_L1Fails = 0, st_L2SoftDemotions = 0, st_Quarantines = 0,
     st_Calibrations = 0\<rparr>"

definition NewCacheManager :: CacheManager where
  "NewCacheManager = \<lparr>m_entries = Map.empty, m_fingerprints = Map.empty, m_stats = stats_zero,
     m_dirty = 0, m_persisted = 0, m_maxProfiles = 1000, m_baseTTL = ProfileTTL\<rparr>"

abbreviation (input) maxTTLMultiplier :: int where "maxTTLMultiplier \<equiv> 2"

text \<open>Counter updates and the entry update under the entry's lock.\<close>

abbreviation upd_stats :: "(CacheManagerStats \<Rightarrow> CacheManagerStats) \<Rightarrow> CacheManager \<Rightarrow> CacheManager" where
  "upd_stats f \<equiv> m_stats_update f"

definition add_entries :: "int \<Rightarrow> CacheManager \<Rightarrow> CacheManager" where
  "add_entries k = upd_stats (st_ProfileEntries_update (\<lambda>n. n + k))"

definition set_entry :: "string \<Rightarrow> ProfileEntry \<Rightarrow> CacheManager \<Rightarrow> CacheManager" where
  "set_entry key e = m_entries_update (\<lambda>es. es(key \<mapsto> e))"

definition delete_entry :: "string \<Rightarrow> CacheManager \<Rightarrow> CacheManager" where
  "delete_entry key = m_entries_update (\<lambda>es. es(key := None))"

definition set_state :: "ProfileState \<Rightarrow> ProfileEntry \<Rightarrow> ProfileEntry" where
  "set_state s e = e\<lparr>pe_State := s, pe_atomicState := s\<rparr>"

definition newEntry :: "duration \<Rightarrow> RealityProfile option \<Rightarrow> ProfileEntry" where
  "newEntry ttl p = \<lparr>pe_Profile = p, pe_State = ProfileValid, pe_atomicState = ProfileValid,
     pe_FailCount = 0, pe_NextRetry = 0, pe_TTL = ttl, pe_StabilityScore = 0\<rparr>"

definition MarkDirty :: "CacheManager \<Rightarrow> CacheManager" where
  "MarkDirty m = m\<lparr>m_dirty := m_dirty m + 1\<rparr>"

definition IsDirty :: "CacheManager \<Rightarrow> bool" where
  "IsDirty m \<longleftrightarrow> m_persisted m < m_dirty m"

definition SnapshotDirty :: "CacheManager \<Rightarrow> int" where
  "SnapshotDirty m = m_dirty m"

definition PersistSnapshot :: "int \<Rightarrow> CacheManager \<Rightarrow> CacheManager" where
  "PersistSnapshot snap m = m\<lparr>m_persisted := snap\<rparr>"

definition ClearDirty :: "CacheManager \<Rightarrow> CacheManager" where
  "ClearDirty m = m\<lparr>m_persisted := m_dirty m\<rparr>"

definition deref :: "'a option \<Rightarrow> 'a may_panic" where
  "deref p = (case p of None \<Rightarrow> Inl NilDeref | Some x \<Rightarrow> Inr x)"

subsection \<open>Reading: \<open>GetProfile\<close> and relatives\<close>

definition GetProfile ::
    "gotime \<Rightarrow> string \<Rightarrow> CacheManager \<Rightarrow> ((RealityProfile option \<times> bool) \<times> CacheManager) may_panic" where
  "GetProfile now key m =
     (case m_entries m key of
        None \<Rightarrow> Inr ((None, False), m)
      | Some entry \<Rightarrow>
          (case pe_State entry of
             ProfileValid \<Rightarrow>
               (case deref (pe_Profile entry) of
                  Inl e \<Rightarrow> Inl e
                | Inr p \<Rightarrow>
                    if time_Sub now (rp_CapturedAt p) < pe_TTL entry
                    then Inr ((pe_Profile entry, False), m)
                    else Inr ((pe_Profile entry, True),
                      upd_stats (st_StaleServed_update (\<lambda>n. n + 1))
                        (set_entry key (set_state ProfileStale entry) m)))
           | ProfileStale \<Rightarrow>
               Inr ((pe_Profile entry, True), upd_stats (st_StaleServed_update (\<lambda>n. n + 1)) m)
           | ProfileNegative \<Rightarrow>
               if now < pe_NextRetry entry
               then Inr ((None, False), upd_stats (st_NegativeHits_update (\<lambda>n. n + 1)) m)
               else Inr ((None, False), add_entries (-1) (delete_entry key m))
           | _ \<Rightarrow> Inr ((None, False), m)))"

definition GetProfileOrExpired :: "string \<Rightarrow> CacheManager \<Rightarrow> RealityProfile option" where
  "GetProfileOrExpired key m = Option.bind (m_entries m key) pe_Profile"

text \<open>The cache half of \<open>GetOrProbeForHandshake\<close>: \<open>None\<close> means the probe runs.\<close>

definition GetOrProbe_fast ::
    "gotime \<Rightarrow> string \<Rightarrow> CacheManager \<Rightarrow> RealityProfile option may_panic" where
  "GetOrProbe_fast now key m =
     (case m_entries m key of
        None \<Rightarrow> Inr None
      | Some entry \<Rightarrow>
          if pe_State entry = ProfileValid \<or> pe_State entry = ProfileStale then
            (case deref (pe_Profile entry) of
               Inl e \<Rightarrow> Inl e
             | Inr p \<Rightarrow> if time_Sub now (rp_CapturedAt p) < pe_TTL entry then Inr (Some p) else Inr None)
          else Inr None)"

definition FindFullCachedProfile ::
    "gotime \<Rightarrow> string \<Rightarrow> string \<Rightarrow> u16 list \<Rightarrow> string \<Rightarrow> CacheManager \<Rightarrow> RealityProfile option may_panic" where
  "FindFullCachedProfile now dest serverName cipherSuites alpn m =
     (let key = CacheKey serverName alpn VersionTLS13 in
      case m_entries m key of
        None \<Rightarrow> Inr None
      | Some entry \<Rightarrow>
          if pe_State entry = ProfileNegative then Inr None
          else
            (case deref (pe_Profile entry) of
               Inl e \<Rightarrow> Inl e
             | Inr p \<Rightarrow>
                 if time_Sub now (rp_CapturedAt p) < pe_TTL entry \<and> ValidateRecordLens (rp_RecordLens p)
                    \<and> list_ex (\<lambda>cs. cs = rp_CipherSuite p) cipherSuites
                 then Inr (Some p) else Inr None))"

subsection \<open>Eviction\<close>

text \<open>The variables of the scan: negative key, stale key, oldest key and its time.\<close>

type_synonym evict_vars = "string \<times> string \<times> string \<times> gotime"

definition evict_visit :: "string \<Rightarrow> ProfileEntry \<Rightarrow> evict_vars \<Rightarrow> evict_vars may_panic" where
  "evict_visit key entry v =
     (case v of (negativeKey, staleKey, oldestKey, oldestTime) \<Rightarrow>
        (case pe_State entry of
           ProfileNegative \<Rightarrow>
             Inr (if negativeKey = [] then key else negativeKey, staleKey, oldestKey, oldestTime)
         | ProfileStale \<Rightarrow>
             Inr (negativeKey, if staleKey = [] then key else staleKey, oldestKey, oldestTime)
         | _ \<Rightarrow>
             (case deref (pe_Profile entry) of
                Inl e \<Rightarrow> Inl e
              | Inr p \<Rightarrow>
                  if oldestKey = [] \<or> rp_CapturedAt p < oldestTime
                  then Inr (negativeKey, staleKey, key, rp_CapturedAt p)
                  else Inr (negativeKey, staleKey, oldestKey, oldestTime))))"

fun evict_scan :: "entries \<Rightarrow> string list \<Rightarrow> evict_vars \<Rightarrow> evict_vars may_panic" where
  "evict_scan es [] v = Inr v"
| "evict_scan es (key # order) v =
     (case es key of
        None \<Rightarrow> evict_scan es order v
      | Some entry \<Rightarrow>
          (case evict_visit key entry v of
             Inl e \<Rightarrow> Inl e
           | Inr v' \<Rightarrow> evict_scan es order v'))"

definition evict_pick :: "evict_vars \<Rightarrow> string" where
  "evict_pick v =
     (case v of (negativeKey, staleKey, oldestKey, oldestTime) \<Rightarrow>
        let evictKey = negativeKey;
            evictKey = (if evictKey = [] then staleKey else evictKey)
        in if evictKey = [] then oldestKey else evictKey)"

definition evictIfFull :: "string list \<Rightarrow> CacheManager \<Rightarrow> CacheManager may_panic" where
  "evictIfFull order m =
     (if st_ProfileEntries (m_stats m) \<le> m_maxProfiles m then Inr m
      else
        (case evict_scan (m_entries m) order ([], [], [], 0) of
           Inl e \<Rightarrow> Inl e
         | Inr v \<Rightarrow>
             let evictKey = evict_pick v in
             if evictKey \<noteq> [] then Inr (add_entries (-1) (delete_entry evictKey m)) else Inr m))"

subsection \<open>Storing and marking\<close>

definition StoreProfile ::
    "string list \<Rightarrow> string \<Rightarrow> RealityProfile option \<Rightarrow> CacheManager \<Rightarrow> (bool \<times> CacheManager) may_panic" where
  "StoreProfile order key profile m =
     (let entry = newEntry (m_baseTTL m) profile in
      case m_entries m key of
        Some _ \<Rightarrow> Inr (False, m)
      | None \<Rightarrow>
          (case evictIfFull order (MarkDirty (add_entries 1 (set_entry key entry m))) of
             Inl e \<Rightarrow> Inl e
           | Inr m' \<Rightarrow> Inr (True, m')))"

definition HotSwapProfile :: "string \<Rightarrow> RealityProfile option \<Rightarrow> CacheManager \<Rightarrow> CacheManager" where
  "HotSwapProfile key newProfile m =
     (let newEntry = newEntry (m_baseTTL m) newProfile
      in MarkDirty (upd_stats (st_HotSwaps_update (\<lambda>n. n + 1)) (set_entry key newEntry m)))"

definition MarkStale :: "string \<Rightarrow> CacheManager \<Rightarrow> CacheManager" where
  "MarkStale key m =
     (case m_entries m key of
        None \<Rightarrow> m
      | Some entry \<Rightarrow>
          if pe_State entry = ProfileValid \<or> pe_State entry = ProfileStale then
            let entry = set_state ProfileStale entry;
                entry = (if pe_StabilityScore entry < 4 then
                    let entry = entry\<lparr>pe_StabilityScore := pe_StabilityScore entry + 1\<rparr>;
                        mult = 1 + pe_StabilityScore entry;
                        mult = (if mult > maxTTLMultiplier then maxTTLMultiplier else mult)
                    in entry\<lparr>pe_TTL := m_baseTTL m * mult\<rparr>
                  else entry)
            in set_entry key entry m
          else m)"

definition negative_backoff :: "int \<Rightarrow> duration" where
  "negative_backoff failCount =
     (let backoff = 2 ^ nat (min (failCount - 1) 4) * Minute
      in if backoff > 30 * Minute then 30 * Minute else backoff)"

definition MarkNegative :: "gotime \<Rightarrow> string \<Rightarrow> CacheManager \<Rightarrow> CacheManager" where
  "MarkNegative now key m =
     (case m_entries m key of
        None \<Rightarrow>
          let entry = \<lparr>pe_Profile = None, pe_State = ProfileNegative, pe_atomicState = ProfileNegative,
            pe_FailCount = 1, pe_NextRetry = now + Minute, pe_TTL = m_baseTTL m, pe_StabilityScore = 0\<rparr>
          in add_entries 1 (set_entry key entry m)
      | Some entry \<Rightarrow>
          let entry = entry\<lparr>pe_FailCount := pe_FailCount entry + 1, pe_StabilityScore := 0\<rparr>;
              entry = (set_state ProfileNegative entry)
                \<lparr>pe_NextRetry := now + negative_backoff (pe_FailCount entry)\<rparr>
          in set_entry key entry m)"

definition InvalidateProfile :: "string \<Rightarrow> CacheManager \<Rightarrow> CacheManager" where
  "InvalidateProfile key m =
     (case m_entries m key of
        None \<Rightarrow> m
      | Some _ \<Rightarrow>
          MarkDirty (upd_stats (st_ProfileInvalidated_update (\<lambda>n. n + 1))
            (add_entries (-1) (delete_entry key m))))"

definition InvalidateKey :: "string \<Rightarrow> CacheManager \<Rightarrow> CacheManager" where
  "InvalidateKey key m = InvalidateProfile key m"

definition InvalidateFingerprint :: "CacheManager \<Rightarrow> CacheManager" where
  "InvalidateFingerprint m = upd_stats (st_FingerprintChanged_update (\<lambda>n. n + 1)) m"

definition StoreFingerprint ::
    "string \<Rightarrow> targetFingerprintCache \<Rightarrow> CacheManager \<Rightarrow> CacheManager" where
  "StoreFingerprint key fp m = m\<lparr>m_fingerprints := (m_fingerprints m)(key \<mapsto> fp)\<rparr>"

text \<open>\<open>Range\<close> visits a key that is present at most once.\<close>

definition range_keys :: "string list \<Rightarrow> entries \<Rightarrow> string list" where
  "range_keys order es = filter (\<lambda>k. es k \<noteq> None) (remdups order)"

definition InvalidateAll :: "string list \<Rightarrow> CacheManager \<Rightarrow> CacheManager" where
  "InvalidateAll order m =
     MarkDirty (fold (\<lambda>key m. upd_stats (st_ProfileInvalidated_update (\<lambda>n. n + 1))
       (add_entries (-1) (delete_entry key m))) (range_keys order (m_entries m)) m)"

definition SnapshotProfiles :: "gotime \<Rightarrow> CacheManager \<Rightarrow> string \<rightharpoonup> RealityProfile" where
  "SnapshotProfiles now m = (\<lambda>key.
     case m_entries m key of
       None \<Rightarrow> None
     | Some entry \<Rightarrow>
         (case pe_Profile entry of
            None \<Rightarrow> None
          | Some p \<Rightarrow>
              if pe_State entry = ProfileNegative then None
              else if pe_TTL entry < time_Sub now (rp_CapturedAt p) then None
              else Some p))"

definition Reset :: "CacheManager \<Rightarrow> CacheManager" where
  "Reset m = ClearDirty (m\<lparr>m_entries := Map.empty, m_fingerprints := Map.empty,
     m_stats := stats_zero\<rparr>)"

subsection \<open>Amortised lookup\<close>

record LookupResult =
  lr_Profile :: "RealityProfile option"
  lr_Path :: AmortizePath
  lr_Key :: string
  lr_Stale :: bool

definition lookup_L0 :: LookupResult where
  "lookup_L0 = \<lparr>lr_Profile = None, lr_Path = PathL0, lr_Key = [], lr_Stale = False\<rparr>"

definition clientPolicyCompatible :: "RealityProfile option \<Rightarrow> u16 \<Rightarrow> u16 \<Rightarrow> bool" where
  "clientPolicyCompatible pp liveCipher liveGroup =
     (case pp of
        None \<Rightarrow> False
      | Some p \<Rightarrow>
          if liveCipher \<noteq> 0 \<and> rp_CipherSuite p \<noteq> liveCipher then False
          else if liveGroup \<noteq> 0 \<and> rp_KeyShareGroup p \<noteq> liveGroup then False
          else True)"

text \<open>The closure \<open>probe\<close> of \<open>lookupAmortize\<close>; \<open>None\<close> is its \<open>false\<close>.\<close>

definition lookup_probe ::
    "gotime \<Rightarrow> AmortizeMode \<Rightarrow> u16 \<Rightarrow> u16 \<Rightarrow> u16 \<Rightarrow> string \<Rightarrow> CacheManager \<Rightarrow>
     LookupResult option \<times> CacheManager" where
  "lookup_probe now mode tlsVersion liveCipher liveGroup key m =
     (case m_entries m key of
        None \<Rightarrow> (None, m)
      | Some entry \<Rightarrow>
          if pe_atomicState entry = ProfileNegative \<or> pe_atomicState entry = ProfileQuarantined
          then (None, m)
          else if pe_State entry = ProfileNegative \<or> pe_State entry = ProfileQuarantined
          then (None, m)
          else
            let suspect = (pe_State entry = ProfileSuspect) in
            (case pe_Profile entry of
               None \<Rightarrow> (None, m)
             | Some p \<Rightarrow>
                 if \<not> ValidateRecordLens (rp_RecordLens p) then (None, m)
                 else
                   let expired = pe_TTL entry \<le> time_Sub now (rp_CapturedAt p);
                       m = (if expired \<and> pe_State entry = ProfileValid
                            then set_entry key (set_state ProfileStale entry) m else m);
                       stale = (pe_State entry = ProfileStale \<or> expired)
                   in
                   if \<not> suspect \<and> \<not> stale \<and> \<not> IsLegacyCacheKey key \<and> \<not> isSoftCacheKey key
                      \<and> profileL2Eligible now (Some p) \<and> (mode = AmortizeL2 \<or> mode = AmortizeAuto)
                      \<and> clientPolicyCompatible (Some p) liveCipher liveGroup
                   then (Some \<lparr>lr_Profile = Some p, lr_Path = PathL2, lr_Key = key, lr_Stale = False\<rparr>,
                         upd_stats (st_L2Hits_update (\<lambda>n. n + 1)) m)
                   else if mode = AmortizeL1 \<or> mode = AmortizeAuto \<or> mode = AmortizeL2 then
                     if liveCipher \<noteq> 0 \<and> rp_CipherSuite p \<noteq> 0 \<and> rp_CipherSuite p \<noteq> liveCipher
                     then (None, m)
                     else if liveGroup \<noteq> 0 \<and> rp_KeyShareGroup p \<noteq> 0 \<and> rp_KeyShareGroup p \<noteq> liveGroup
                     then (None, m)
                     else if rp_TLSVersion p \<noteq> 0 \<and> tlsVersion \<noteq> 0 \<and> rp_TLSVersion p \<noteq> tlsVersion
                     then (None, m)
                     else (Some \<lparr>lr_Profile = Some p, lr_Path = PathL1, lr_Key = key, lr_Stale = stale\<rparr>,
                       upd_stats (st_L1Hits_update (\<lambda>n. n + 1))
                         (if stale then upd_stats (st_StaleServed_update (\<lambda>n. n + 1)) m else m))
                   else (None, m)))"

definition lookupAmortize ::
    "gotime \<Rightarrow> AmortizeMode \<Rightarrow> string \<Rightarrow> string \<Rightarrow> string \<Rightarrow> u16 \<Rightarrow> string \<Rightarrow> string \<Rightarrow> u16 \<Rightarrow> u16 \<Rightarrow>
     CacheManager \<Rightarrow> LookupResult \<times> CacheManager" where
  "lookupAmortize now mode dest serverName alpn tlsVersion chClass softChClass liveCipher liveGroup m =
     (let mode = ResolveAmortizeMode mode;
          probe = lookup_probe now mode tlsVersion liveCipher liveGroup
      in
      if mode = AmortizeL0 then (lookup_L0, m)
      else
        (case (if chClass \<noteq> [] then probe (CacheKeyV2 dest serverName alpn tlsVersion chClass) m
               else (None, m)) of
           (Some res, m) \<Rightarrow> (res, m)
         | (None, m) \<Rightarrow>
             (case (if softChClass \<noteq> [] \<and> softChClass \<noteq> chClass
                    then probe (CacheKeyV2 dest serverName alpn tlsVersion softChClass) m
                    else (None, m)) of
                (Some res, m) \<Rightarrow> (res, m)
              | (None, m) \<Rightarrow>
                  (case probe (CacheKey serverName alpn tlsVersion) m of
                     (Some res, m) \<Rightarrow> (res, m)
                   | (None, m) \<Rightarrow> (lookup_L0, m)))))"

definition LookupAmortize ::
    "gotime \<Rightarrow> AmortizeMode \<Rightarrow> string \<Rightarrow> string \<Rightarrow> string \<Rightarrow> u16 \<Rightarrow> string \<Rightarrow> u16 \<Rightarrow> u16 \<Rightarrow>
     CacheManager \<Rightarrow> LookupResult \<times> CacheManager" where
  "LookupAmortize now mode dest serverName alpn tlsVersion chClass liveCipher liveGroup m =
     lookupAmortize now mode dest serverName alpn tlsVersion chClass [] liveCipher liveGroup m"

definition LookupAmortizeSoft ::
    "gotime \<Rightarrow> AmortizeMode \<Rightarrow> string \<Rightarrow> string \<Rightarrow> string \<Rightarrow> u16 \<Rightarrow> string \<Rightarrow> string \<Rightarrow> u16 \<Rightarrow> u16 \<Rightarrow>
     CacheManager \<Rightarrow> LookupResult \<times> CacheManager" where
  "LookupAmortizeSoft now mode dest serverName alpn tlsVersion chClass softChClass liveCipher liveGroup m =
     lookupAmortize now mode dest serverName alpn tlsVersion chClass softChClass liveCipher liveGroup m"

subsection \<open>Lens lookup by destination\<close>

definition lens_zero :: lens where "lens_zero = replicate 7 0"

definition findLensAtKey ::
    "gotime \<Rightarrow> string \<Rightarrow> string \<Rightarrow> u16 \<Rightarrow> u16 \<Rightarrow> CacheManager \<Rightarrow> lens \<times> u16 \<times> bool" where
  "findLensAtKey now key dest cipherSuite tlsVersion m =
     (case m_entries m key of
        None \<Rightarrow> (lens_zero, 0, False)
      | Some entry \<Rightarrow>
          (case pe_Profile entry of
             None \<Rightarrow> (lens_zero, 0, False)
           | Some p \<Rightarrow>
               if pe_State entry \<noteq> ProfileNegative \<and> pe_State entry \<noteq> ProfileQuarantined
                  \<and> time_Sub now (rp_CapturedAt p) < pe_TTL entry
                  \<and> rp_CipherSuite p = cipherSuite
                  \<and> (tlsVersion = 0 \<or> rp_TLSVersion p = 0 \<or> rp_TLSVersion p = tlsVersion)
                  \<and> ValidateRecordLens (rp_RecordLens p)
               then if dest \<noteq> [] \<and> rp_Dest p \<noteq> [] \<and> rp_Dest p \<noteq> dest then (lens_zero, 0, False)
                    else (rp_RecordLens p, rp_TLSVersion p, True)
               else (lens_zero, 0, False)))"

text \<open>The body of the \<open>Range\<close> callback: \<open>None\<close> is \<open>return true\<close> (continue).\<close>

definition lens_at_v2 ::
    "gotime \<Rightarrow> string \<Rightarrow> string \<Rightarrow> u16 \<Rightarrow> string \<Rightarrow> u16 \<Rightarrow> string \<Rightarrow> ProfileEntry \<Rightarrow> (lens \<times> u16) option" where
  "lens_at_v2 now dest serverName cipherSuite alpn tlsVersion ks entry =
     (case ParseCacheKeyV2 ks of (d, sn, a, ver, _, isV2) \<Rightarrow>
        if \<not> isV2 \<or> d \<noteq> dest \<or> sn \<noteq> serverName \<or> a \<noteq> alpn then None
        else if ver \<noteq> 0 \<and> tlsVersion \<noteq> 0 \<and> ver \<noteq> tlsVersion then None
        else
          (case pe_Profile entry of
             None \<Rightarrow> None
           | Some p \<Rightarrow>
               if pe_State entry = ProfileNegative \<or> pe_State entry = ProfileQuarantined then None
               else if pe_TTL entry \<le> time_Sub now (rp_CapturedAt p) then None
               else if rp_CipherSuite p \<noteq> cipherSuite then None
               else if \<not> ValidateRecordLens (rp_RecordLens p) then None
               else Some (rp_RecordLens p, rp_TLSVersion p)))"

fun lens_scan ::
    "(string \<Rightarrow> ProfileEntry \<Rightarrow> (lens \<times> u16) option) \<Rightarrow> entries \<Rightarrow> string list \<Rightarrow> (lens \<times> u16) option" where
  "lens_scan f es [] = None"
| "lens_scan f es (k # order) =
     (case Option.bind (es k) (f k) of None \<Rightarrow> lens_scan f es order | Some r \<Rightarrow> Some r)"

definition FindCachedProfileByDest ::
    "gotime \<Rightarrow> string list \<Rightarrow> string \<Rightarrow> string \<Rightarrow> u16 \<Rightarrow> string \<Rightarrow> u16 \<Rightarrow> CacheManager \<Rightarrow> lens \<times> u16 \<times> bool" where
  "FindCachedProfileByDest now order dest serverName cipherSuite alpn tlsVersion m =
     (let key = CacheKey serverName alpn tlsVersion;
          r = findLensAtKey now key dest cipherSuite tlsVersion m
      in if snd (snd r) then r
         else if dest = [] then r
         else (case lens_scan (lens_at_v2 now dest serverName cipherSuite alpn tlsVersion)
                 (m_entries m) order of
                 None \<Rightarrow> r
               | Some (l, v) \<Rightarrow> (l, v, True)))"

subsection \<open>Observations\<close>

definition profilesMatch :: "RealityProfile option \<Rightarrow> RealityProfile option \<Rightarrow> bool" where
  "profilesMatch pa pb =
     (case (pa, pb) of
        (Some a, Some b) \<Rightarrow>
          if rp_CipherSuite a \<noteq> rp_CipherSuite b then False
          else if rp_KeyShareGroup a \<noteq> 0 \<and> rp_KeyShareGroup b \<noteq> 0
                  \<and> rp_KeyShareGroup a \<noteq> rp_KeyShareGroup b then False
          else if rp_AcceptsHRR a \<noteq> rp_AcceptsHRR b then False
          else
            let am = (if rp_RecordMode a = 0 then InferRecordMode (rp_RecordLens a) else rp_RecordMode a);
                bm = (if rp_RecordMode b = 0 then InferRecordMode (rp_RecordLens b) else rp_RecordMode b)
            in
            if am \<noteq> bm then False
            else if list_ex (\<lambda>i. rp_RecordLens a ! i \<noteq> rp_RecordLens b ! i) [0..<6] then False
            else if rp_ShapeHash a \<noteq> 0 \<and> rp_ShapeHash b \<noteq> 0 \<and> rp_ShapeHash a \<noteq> rp_ShapeHash b then False
            else True
      | _ \<Rightarrow> False)"

definition CloneDestCertMeta :: "DestCertMeta option \<Rightarrow> DestCertMeta option" where
  "CloneDestCertMeta meta = meta"

definition stamp_evidence :: "int \<Rightarrow> int \<Rightarrow> string \<Rightarrow> RealityProfile \<Rightarrow> RealityProfile" where
  "stamp_evidence ev live src p = p\<lparr>rp_Evidence := ev, rp_LiveEvidence := live, rp_Source := src\<rparr>"

text \<open>The normalisation \<open>StoreObservation\<close> performs on the caller's profile.\<close>

definition normalize_obs :: "RealityProfile \<Rightarrow> RealityProfile" where
  "normalize_obs obs =
     (let obs = (if rp_RecordMode obs = 0
                 then obs\<lparr>rp_RecordMode := InferRecordMode (rp_RecordLens obs)\<rparr> else obs)
      in if rp_Source obs = ''probe'' \<and> rp_LiveEvidence obs \<noteq> 0 then obs\<lparr>rp_LiveEvidence := 0\<rparr>
         else obs)"

definition calibrated :: "RealityProfile \<Rightarrow> RealityProfile" where
  "calibrated obs =
     (let cp = (if rp_Source obs = ''probe'' then stamp_evidence 0 0 ''probe'' obs
                else stamp_evidence 1 1 ''live'' obs)
      in if rp_Stability cp < 1 then cp\<lparr>rp_Stability := 1\<rparr> else cp)"

definition merge_observation :: "RealityProfile \<Rightarrow> RealityProfile \<Rightarrow> RealityProfile" where
  "merge_observation cur obs =
     (let merged = cur\<lparr>rp_RecordLens := rp_RecordLens obs, rp_Fingerprint := rp_Fingerprint obs,
            rp_CipherSuite := rp_CipherSuite obs, rp_ALPN := rp_ALPN obs,
            rp_TLSVersion := rp_TLSVersion obs, rp_RecordCount := rp_RecordCount obs,
            rp_CapturedAt := rp_CapturedAt obs, rp_Dest := rp_Dest obs,
            rp_ServerName := rp_ServerName obs, rp_CHClass := rp_CHClass obs,
            rp_KeyShareGroup := rp_KeyShareGroup obs, rp_AcceptsHRR := rp_AcceptsHRR obs,
            rp_ShapeHash := rp_ShapeHash obs\<rparr>;
          merged = (if 0 < length (rp_ServerHelloTemplate obs)
                    then merged\<lparr>rp_ServerHelloTemplate := rp_ServerHelloTemplate obs\<rparr> else merged);
          merged = (if rp_CertMeta obs \<noteq> None
                    then merged\<lparr>rp_CertMeta := CloneDestCertMeta (rp_CertMeta obs)\<rparr> else merged);
          merged =
            (if rp_Source obs = ''probe'' then
               let merged = merged\<lparr>rp_Source := rp_Source cur\<rparr>;
                   merged = (if rp_Source merged = [] then merged\<lparr>rp_Source := ''probe''\<rparr> else merged)
               in merged\<lparr>rp_Evidence := rp_Evidence cur, rp_LiveEvidence := rp_LiveEvidence cur\<rparr>
             else
               let merged = merged\<lparr>rp_Evidence := rp_Evidence cur + 1,
                     rp_LiveEvidence := rp_LiveEvidence cur + 1\<rparr>;
                   merged = (if rp_Stability merged < 10
                             then merged\<lparr>rp_Stability := rp_Stability cur + 1\<rparr> else merged)
               in merged\<lparr>rp_Source := ''live''\<rparr>)
      in merged\<lparr>rp_RecordMode := rp_RecordMode obs\<rparr>)"

definition hot_swapped :: "RealityProfile \<Rightarrow> RealityProfile" where
  "hot_swapped obs =
     (if rp_Source obs = ''probe'' then stamp_evidence 0 0 ''probe'' obs
      else stamp_evidence (if rp_Evidence obs < 1 then 1 else rp_Evidence obs)
             (if rp_LiveEvidence obs < 1 then 1 else rp_LiveEvidence obs) ''live'' obs)"

definition suspect_candidate :: "RealityProfile \<Rightarrow> RealityProfile" where
  "suspect_candidate obs =
     (if rp_Source obs = ''probe'' then stamp_evidence 0 0 ''probe'' obs
      else stamp_evidence 1 1 ''live'' obs)"

definition first_observation :: "RealityProfile \<Rightarrow> RealityProfile" where
  "first_observation obs =
     (if rp_Source obs = ''probe'' then stamp_evidence 0 0 ''probe'' obs
      else
        let cp = (if rp_Source obs = [] then obs\<lparr>rp_Source := ''live''\<rparr> else obs);
            cp = (if rp_Evidence cp < 1 then cp\<lparr>rp_Evidence := 1\<rparr> else cp)
        in if rp_LiveEvidence cp < 1 then cp\<lparr>rp_LiveEvidence := rp_Evidence cp\<rparr> else cp)"

text \<open>The branch for a key that is present, after normalisation of \<open>obs\<close>.\<close>

definition observe_present ::
    "gotime \<Rightarrow> string \<Rightarrow> ProfileEntry \<Rightarrow> RealityProfile \<Rightarrow> CacheManager \<Rightarrow> CacheManager" where
  "observe_present now key entry obs m =
     (if pe_State entry = ProfileQuarantined then
        if now < pe_NextRetry entry then m
        else
          let entry = (set_state ProfileValid (entry\<lparr>pe_Profile := Some (calibrated obs)\<rparr>))
                \<lparr>pe_FailCount := 0, pe_NextRetry := 0, pe_TTL := m_baseTTL m\<rparr>
          in MarkDirty (upd_stats (st_Calibrations_update (\<lambda>n. n + 1)) (set_entry key entry m))
      else
        (case pe_Profile entry of
           Some cur \<Rightarrow>
             if profilesMatch (Some cur) (Some obs) then
               let entry = (set_state ProfileValid (entry\<lparr>pe_Profile := Some (merge_observation cur obs)\<rparr>))
                     \<lparr>pe_TTL := m_baseTTL m, pe_FailCount := 0\<rparr>
               in MarkDirty (set_entry key entry m)
             else if pe_State entry = ProfileSuspect \<and> profilesMatch (pe_Profile entry) (Some obs) then
               let entry = entry\<lparr>pe_FailCount := pe_FailCount entry + 1\<rparr> in
               if 2 \<le> pe_FailCount entry then
                 let entry = (set_state ProfileValid (entry\<lparr>pe_Profile := Some (hot_swapped obs)\<rparr>))
                       \<lparr>pe_FailCount := 0, pe_TTL := m_baseTTL m\<rparr>
                 in MarkDirty (upd_stats (st_HotSwaps_update (\<lambda>n. n + 1)) (set_entry key entry m))
               else MarkDirty (set_entry key entry m)
             else
               let entry = (set_state ProfileSuspect (entry\<lparr>pe_Profile := Some (suspect_candidate obs)\<rparr>))
                     \<lparr>pe_FailCount := 1\<rparr>
               in MarkDirty (set_entry key entry m)
         | None \<Rightarrow>
             let entry = (set_state ProfileSuspect (entry\<lparr>pe_Profile := Some (suspect_candidate obs)\<rparr>))
                   \<lparr>pe_FailCount := 1\<rparr>
             in MarkDirty (set_entry key entry m)))"

text \<open>\<open>StoreObservation\<close> returns the caller's profile too, since it normalises it in place.\<close>

definition StoreObservation ::
    "gotime \<Rightarrow> string list \<Rightarrow> string \<Rightarrow> RealityProfile option \<Rightarrow> CacheManager \<Rightarrow>
     (RealityProfile option \<times> CacheManager) may_panic" where
  "StoreObservation now order key obsp m =
     (case obsp of
        None \<Rightarrow> Inr (None, m)
      | Some obs \<Rightarrow>
          if \<not> ValidateRecordLens (rp_RecordLens obs) then Inr (Some obs, m)
          else
            let obs = normalize_obs obs in
            (case m_entries m key of
               Some entry \<Rightarrow> Inr (Some obs, observe_present now key entry obs m)
             | None \<Rightarrow>
                 let entry = newEntry (m_baseTTL m) (Some (first_observation obs)) in
                 (case evictIfFull order (MarkDirty (add_entries 1 (set_entry key entry m))) of
                    Inl e \<Rightarrow> Inl e
                  | Inr m' \<Rightarrow> Inr (Some obs, m'))))"

subsection \<open>Failures\<close>

definition drop_evidence :: "ProfileEntry \<Rightarrow> ProfileEntry" where
  "drop_evidence e = e\<lparr>pe_Profile := map_option (\<lambda>p. p\<lparr>rp_Evidence := 0\<rparr>) (pe_Profile e)\<rparr>"

definition Quarantine :: "gotime \<Rightarrow> string \<Rightarrow> string \<Rightarrow> CacheManager \<Rightarrow> CacheManager" where
  "Quarantine now key reason m =
     (case m_entries m key of
        None \<Rightarrow>
          let entry = \<lparr>pe_Profile = None, pe_State = ProfileQuarantined,
            pe_atomicState = ProfileQuarantined, pe_FailCount = MaxL2FailWindow,
            pe_NextRetry = now + QuarantineCooldown, pe_TTL = m_baseTTL m, pe_StabilityScore = 0\<rparr>
          in MarkDirty (add_entries 1 (upd_stats (st_Quarantines_update (\<lambda>n. n + 1))
               (set_entry key entry m)))
      | Some entry \<Rightarrow>
          let entry = drop_evidence ((set_state ProfileQuarantined entry)
            \<lparr>pe_FailCount := MaxL2FailWindow, pe_NextRetry := now + QuarantineCooldown\<rparr>)
          in MarkDirty (upd_stats (st_Quarantines_update (\<lambda>n. n + 1)) (set_entry key entry m)))"

definition NoteHandshakeFailure :: "gotime \<Rightarrow> string \<Rightarrow> AmortizePath \<Rightarrow> CacheManager \<Rightarrow> CacheManager" where
  "NoteHandshakeFailure now key path m =
     (if key = [] then m
      else if path \<noteq> PathL1 \<and> path \<noteq> PathL2 then m
      else
        (case m_entries m key of
           None \<Rightarrow> m
         | Some entry \<Rightarrow>
             let entry = entry\<lparr>pe_FailCount := pe_FailCount entry + 1\<rparr>;
                 fc = pe_FailCount entry;
                 m = (if path = PathL2
                      then upd_stats (st_L2SoftDemotions_update (\<lambda>n. n + 1))
                             (upd_stats (st_L2Fails_update (\<lambda>n. n + 1)) m)
                      else upd_stats (st_L1Fails_update (\<lambda>n. n + 1)) m)
             in
             if MaxL2FailWindow \<le> fc then
               let entry = drop_evidence ((set_state ProfileQuarantined entry)
                     \<lparr>pe_NextRetry := now + QuarantineCooldown\<rparr>)
               in MarkDirty (upd_stats (st_Quarantines_update (\<lambda>n. n + 1)) (set_entry key entry m))
             else
               let entry = (if pe_State entry = ProfileValid then set_state ProfileSuspect entry else entry)
               in MarkDirty (set_entry key entry m)))"

text \<open>The cache half of \<open>InvalidateAndReprobe\<close> (the background probe goes through
  \<open>DoProbe\<close>, which does not touch the entries).\<close>

definition reprobe_matches :: "string \<Rightarrow> string \<Rightarrow> string \<Rightarrow> string \<Rightarrow> bool" where
  "reprobe_matches dest serverName alpn ks =
     (case ParseCacheKeyV2 ks of (d, sn, a, _, _, isV2) \<Rightarrow>
        if isV2 then (dest = [] \<or> d = dest) \<and> sn = serverName \<and> a = alpn
        else (case ParseCacheKey ks of (sn2, a2, _) \<Rightarrow> sn2 = serverName \<and> a2 = alpn))"

definition InvalidateAndReprobe ::
    "string list \<Rightarrow> string \<Rightarrow> string \<Rightarrow> string \<Rightarrow> CacheManager \<Rightarrow> CacheManager" where
  "InvalidateAndReprobe order dest serverName alpn m =
     (let legacy = CacheKey serverName alpn VersionTLS13;
          m = InvalidateProfile legacy m;
          toDelete = filter (reprobe_matches dest serverName alpn) order
      in fold InvalidateProfile toDelete m)"

definition EnsureServerHelloTemplateFromRecord :: "bytes \<Rightarrow> bytes option" where
  "EnsureServerHelloTemplateFromRecord r0 =
     (if length r0 \<le> 5 then None
      else if 5 \<le> length r0 \<and> r0 ! 0 = recordTypeHandshake then Some (drop 5 r0)
      else Some r0)"

end
