(* ===== verification/Cache_Safety.thy ===== *)
theory Cache_Safety
  imports Cache_Manager
begin

text \<open>
  What the profile cache guarantees: the invariant of its entries, the accounting of its
  entry counter, when an entry may be served without dialling the destination, what
  quarantine blocks, what eviction removes and when the cache cannot panic. The calls of
  the cache are the events of a system, so that the guarantees hold for every sequence of
  calls with every reading of the clock.
\<close>

named_theorems cache_defs \<open>the primitive updates of the cache\<close>

declare MarkDirty_def [cache_defs] add_entries_def [cache_defs] set_entry_def [cache_defs]
  delete_entry_def [cache_defs] set_state_def [cache_defs] newEntry_def [cache_defs]
  drop_evidence_def [cache_defs] Let_def [cache_defs]

subsection \<open>Events\<close>

datatype cache_event =
    EvGetProfile gotime string
  | EvStoreProfile "string list" string RealityProfile
  | EvHotSwap string RealityProfile
  | EvMarkStale string
  | EvMarkNegative gotime string
  | EvInvalidate string
  | EvInvalidateAll "string list"
  | EvReprobe "string list" string string string
  | EvLookup gotime AmortizeMode string string string u16 string string u16 u16
  | EvObserve gotime "string list" string RealityProfile
  | EvQuarantine gotime string
  | EvFailure gotime string AmortizePath
  | EvPersist int

definition cache_step :: "cache_event \<Rightarrow> CacheManager \<Rightarrow> CacheManager may_panic" where
  "cache_step ev m =
     (case ev of
        EvGetProfile now key \<Rightarrow> map_sum id snd (GetProfile now key m)
      | EvStoreProfile order key p \<Rightarrow> map_sum id snd (StoreProfile order key (Some p) m)
      | EvHotSwap key p \<Rightarrow> Inr (HotSwapProfile key (Some p) m)
      | EvMarkStale key \<Rightarrow> Inr (MarkStale key m)
      | EvMarkNegative now key \<Rightarrow> Inr (MarkNegative now key m)
      | EvInvalidate key \<Rightarrow> Inr (InvalidateProfile key m)
      | EvInvalidateAll order \<Rightarrow> Inr (InvalidateAll order m)
      | EvReprobe order dest sn alpn \<Rightarrow> Inr (InvalidateAndReprobe order dest sn alpn m)
      | EvLookup now mode dest sn alpn ver ch soft lc lg \<Rightarrow>
          Inr (snd (lookupAmortize now mode dest sn alpn ver ch soft lc lg m))
      | EvObserve now order key obs \<Rightarrow> map_sum id snd (StoreObservation now order key (Some obs) m)
      | EvQuarantine now key \<Rightarrow> Inr (Quarantine now key [] m)
      | EvFailure now key path \<Rightarrow> Inr (NoteHandshakeFailure now key path m)
      | EvPersist snap \<Rightarrow> Inr (PersistSnapshot snap m))"

text \<open>A panic ends the run.\<close>

definition cache_run_step :: "cache_event \<Rightarrow> CacheManager may_panic \<Rightarrow> CacheManager may_panic" where
  "cache_run_step ev r = (case r of Inl e \<Rightarrow> Inl e | Inr m \<Rightarrow> cache_step ev m)"

definition cache_run :: "cache_event list \<Rightarrow> CacheManager \<Rightarrow> CacheManager may_panic" where
  "cache_run evs m = fold cache_run_step evs (Inr m)"

lemma cache_run_snoc:
  "cache_run (evs @ [ev]) m = Inr m'' \<longleftrightarrow> (\<exists>m'. cache_run evs m = Inr m' \<and> cache_step ev m' = Inr m'')"
  by (auto simp: cache_run_def cache_run_step_def split: sum.splits)

lemma cache_run_Nil [simp]: "cache_run [] m = Inr m"
  by (simp add: cache_run_def)

subsection \<open>What eviction does\<close>

lemma deref_eq: "deref p = Inr x \<longleftrightarrow> p = Some x" "deref p = Inl e \<longleftrightarrow> p = None \<and> e = NilDeref"
  by (auto simp: deref_def split: option.splits)

definition vars_keys :: "evict_vars \<Rightarrow> string set" where
  "vars_keys v = (case v of (n, s, ok, t) \<Rightarrow> {n, s, ok} - {[]})"

lemma evict_visit_keys:
  "evict_visit key entry v = Inr v' \<Longrightarrow> vars_keys v' \<subseteq> insert key (vars_keys v)"
  by (cases v; cases "pe_State entry")
    (auto simp: evict_visit_def vars_keys_def split: sum.splits if_splits)

lemma evict_scan_keys:
  "evict_scan es order v = Inr v' \<Longrightarrow> vars_keys v' \<subseteq> vars_keys v \<union> (set order \<inter> dom es)"
proof (induction order arbitrary: v)
  case (Cons key order)
  then show ?case
    by (auto split: option.splits sum.splits dest!: evict_visit_keys Cons.IH)
qed simp

lemma evict_pick_keys: "evict_pick v \<noteq> [] \<Longrightarrow> evict_pick v \<in> vars_keys v"
  by (cases v) (auto simp: evict_pick_def vars_keys_def Let_def)

lemma evictIfFull_cases:
  assumes "evictIfFull order m = Inr m'"
  shows "m' = m \<or>
    (\<exists>key. key \<in> dom (m_entries m) \<and> m' = add_entries (-1) (delete_entry key m) \<and>
       m_maxProfiles m < st_ProfileEntries (m_stats m))"
proof (cases "st_ProfileEntries (m_stats m) \<le> m_maxProfiles m")
  case True
  then show ?thesis using assms by (simp add: evictIfFull_def)
next
  case False
  then obtain v where v: "evict_scan (m_entries m) order ([], [], [], 0) = Inr v"
    using assms by (auto simp: evictIfFull_def split: sum.splits)
  then have "vars_keys v \<subseteq> dom (m_entries m)"
    using evict_scan_keys [of "m_entries m" order "([], [], [], 0)" v] by (auto simp: vars_keys_def)
  then have "evict_pick v \<noteq> [] \<Longrightarrow> evict_pick v \<in> dom (m_entries m)"
    using evict_pick_keys [of v] by blast
  moreover have "m' = (if evict_pick v \<noteq> [] then add_entries (-1) (delete_entry (evict_pick v) m) else m)"
    using assms False v by (simp add: evictIfFull_def Let_def split: if_splits)
  ultimately show ?thesis using False by (cases "evict_pick v = []") auto
qed

subsection \<open>The invariant\<close>

definition entry_ok :: "duration \<Rightarrow> ProfileEntry \<Rightarrow> bool" where
  "entry_ok base e \<longleftrightarrow> pe_atomicState e = pe_State e \<and> 0 \<le> pe_FailCount e \<and>
     0 \<le> pe_StabilityScore e \<and> pe_StabilityScore e \<le> 4 \<and> pe_TTL e \<in> {base, 2 * base} \<and>
     (pe_State e \<in> {ProfileValid, ProfileStale, ProfileSuspect} \<longrightarrow> pe_Profile e \<noteq> None)"

definition cache_ok :: "CacheManager \<Rightarrow> bool" where
  "cache_ok m \<longleftrightarrow> finite (dom (m_entries m)) \<and>
     (\<forall>key e. m_entries m key = Some e \<longrightarrow> entry_ok (m_baseTTL m) e)"

lemma cache_ok_entry: "\<lbrakk>cache_ok m; m_entries m key = Some e\<rbrakk> \<Longrightarrow> entry_ok (m_baseTTL m) e"
  by (auto simp: cache_ok_def)

lemma cache_ok_irrelevant [simp]:
  "cache_ok (upd_stats f m) = cache_ok m" "cache_ok (MarkDirty m) = cache_ok m"
  "cache_ok (add_entries k m) = cache_ok m" "cache_ok (PersistSnapshot n m) = cache_ok m"
  by (simp_all add: cache_ok_def cache_defs PersistSnapshot_def)

lemma cache_ok_delete [intro]: "cache_ok m \<Longrightarrow> cache_ok (delete_entry key m)"
  by (auto simp: cache_ok_def cache_defs)

lemma cache_ok_set [intro]:
  "\<lbrakk>cache_ok m; entry_ok (m_baseTTL m) e\<rbrakk> \<Longrightarrow> cache_ok (set_entry key e m)"
  by (auto simp: cache_ok_def cache_defs)

lemma cache_fields [simp]:
  "m_entries (upd_stats f m) = m_entries m" "m_entries (MarkDirty m) = m_entries m"
  "m_entries (add_entries k m) = m_entries m" "m_entries (PersistSnapshot n m) = m_entries m"
  "m_entries (set_entry key e m) = (m_entries m)(key \<mapsto> e)"
  "m_entries (delete_entry key m) = (m_entries m)(key := None)"
  "m_baseTTL (MarkDirty m) = m_baseTTL m" "m_baseTTL (add_entries k m) = m_baseTTL m"
  "m_baseTTL (set_entry key e m) = m_baseTTL m" "m_baseTTL (delete_entry key m) = m_baseTTL m"
  "m_maxProfiles (MarkDirty m) = m_maxProfiles m" "m_maxProfiles (add_entries k m) = m_maxProfiles m"
  "m_maxProfiles (set_entry key e m) = m_maxProfiles m"
  "m_maxProfiles (delete_entry key m) = m_maxProfiles m"
  "m_stats (MarkDirty m) = m_stats m" "m_stats (set_entry key e m) = m_stats m"
  "m_stats (delete_entry key m) = m_stats m" "m_stats (PersistSnapshot n m) = m_stats m"
  "m_stats (add_entries k m) = st_ProfileEntries_update (\<lambda>n. n + k) (m_stats m)"
  by (simp_all add: cache_defs PersistSnapshot_def)

lemma evictIfFull_ok: "\<lbrakk>cache_ok m; evictIfFull order m = Inr m'\<rbrakk> \<Longrightarrow> cache_ok m'"
  using evictIfFull_cases [of order m m'] by auto

lemma entry_ok_new: "entry_ok base (newEntry base (Some p))"
  by (simp add: entry_ok_def newEntry_def)

lemma fold_delete_ok:
  "cache_ok m \<Longrightarrow> cache_ok (fold (\<lambda>key m. upd_stats f (add_entries (-1) (delete_entry key m))) ks m)"
  by (induction ks arbitrary: m) (simp_all add: cache_ok_delete)

lemma InvalidateProfile_ok: "cache_ok m \<Longrightarrow> cache_ok (InvalidateProfile key m)"
  by (auto simp: InvalidateProfile_def split: option.split)

lemma fold_invalidate_ok: "cache_ok m \<Longrightarrow> cache_ok (fold InvalidateProfile ks m)"
  by (induction ks arbitrary: m) (auto simp: InvalidateProfile_ok)

text \<open>Every operation replaces the entry of its key by one derived from it.\<close>

lemma cache_ok_set_derived:
  assumes "cache_ok m" and "m_entries m key = Some e"
    and "entry_ok (m_baseTTL m) e \<Longrightarrow> entry_ok (m_baseTTL m) e'"
  shows "cache_ok (set_entry key e' m)"
  using assms cache_ok_entry by blast

lemmas entry_ok_simps = entry_ok_def set_state_def drop_evidence_def Let_def

lemma GetProfile_ok:
  "\<lbrakk>cache_ok m; GetProfile now key m = Inr (r, m')\<rbrakk> \<Longrightarrow> cache_ok m'"
  by (cases "m_entries m key")
    (auto simp: GetProfile_def entry_ok_simps deref_eq intro!: cache_ok_set_derived cache_ok_delete
      split: ProfileState.splits sum.splits if_splits)

lemma StoreProfile_ok:
  "\<lbrakk>cache_ok m; StoreProfile order key (Some p) m = Inr (r, m')\<rbrakk> \<Longrightarrow> cache_ok m'"
  by (auto simp: StoreProfile_def Let_def entry_ok_new intro!: cache_ok_set
      split: option.splits sum.splits dest!: evictIfFull_ok [rotated])

lemma HotSwapProfile_ok: "cache_ok m \<Longrightarrow> cache_ok (HotSwapProfile key (Some p) m)"
  by (auto simp: HotSwapProfile_def Let_def entry_ok_new intro!: cache_ok_set)

lemma MarkStale_ok: "cache_ok m \<Longrightarrow> cache_ok (MarkStale key m)"
  by (cases "m_entries m key")
    (auto simp: MarkStale_def entry_ok_simps intro!: cache_ok_set_derived)

lemma MarkNegative_ok: "cache_ok m \<Longrightarrow> cache_ok (MarkNegative now key m)"
proof (cases "m_entries m key")
  case None
  then show "cache_ok m \<Longrightarrow> cache_ok (MarkNegative now key m)"
    by (simp add: MarkNegative_def Let_def cache_ok_set entry_ok_def)
next
  case (Some e)
  then show "cache_ok m \<Longrightarrow> cache_ok (MarkNegative now key m)"
    by (auto simp: MarkNegative_def entry_ok_simps intro!: cache_ok_set_derived)
qed

lemma Quarantine_ok: "cache_ok m \<Longrightarrow> cache_ok (Quarantine now key reason m)"
proof (cases "m_entries m key")
  case None
  then show "cache_ok m \<Longrightarrow> cache_ok (Quarantine now key reason m)"
    by (simp add: Quarantine_def Let_def cache_ok_set entry_ok_def)
next
  case (Some e)
  then show "cache_ok m \<Longrightarrow> cache_ok (Quarantine now key reason m)"
    by (auto simp: Quarantine_def entry_ok_simps intro!: cache_ok_set_derived)
qed

lemma NoteHandshakeFailure_ok: "cache_ok m \<Longrightarrow> cache_ok (NoteHandshakeFailure now key path m)"
  by (cases "m_entries m key")
    (auto simp: NoteHandshakeFailure_def entry_ok_simps intro!: cache_ok_set_derived)

lemma observe_present_ok:
  assumes "cache_ok m" and "m_entries m key = Some entry"
  shows "cache_ok (observe_present now key entry obs m)"
  using assms
  by (auto simp: observe_present_def entry_ok_simps intro!: cache_ok_set_derived split: option.split)

lemma StoreObservation_ok:
  "\<lbrakk>cache_ok m; StoreObservation now order key obs m = Inr (r, m')\<rbrakk> \<Longrightarrow> cache_ok m'"
  by (auto simp: StoreObservation_def Let_def entry_ok_new observe_present_ok intro!: cache_ok_set
      split: option.splits sum.splits if_splits dest!: evictIfFull_ok [rotated])

subsection \<open>What a lookup may return\<close>

definition l2_allowed :: "gotime \<Rightarrow> CacheManager \<Rightarrow> string \<Rightarrow> RealityProfile \<Rightarrow> bool" where
  "l2_allowed now m key p \<longleftrightarrow>
     (\<exists>e. m_entries m key = Some e \<and> pe_State e = ProfileValid \<and> pe_Profile e = Some p \<and>
        time_Sub now (rp_CapturedAt p) < pe_TTL e) \<and>
     \<not> IsLegacyCacheKey key \<and> \<not> isSoftCacheKey key \<and> profileL2Eligible now (Some p)"

definition l1_allowed :: "CacheManager \<Rightarrow> string \<Rightarrow> RealityProfile \<Rightarrow> bool" where
  "l1_allowed m key p \<longleftrightarrow>
     (\<exists>e. m_entries m key = Some e \<and> pe_State e \<in> {ProfileValid, ProfileStale, ProfileSuspect} \<and>
        pe_Profile e = Some p) \<and> ValidateRecordLens (rp_RecordLens p)"

lemma ProfileState_rest:
  "\<lbrakk>s \<noteq> ProfileNegative; s \<noteq> ProfileQuarantined; s \<noteq> ProfileSuspect; s \<noteq> ProfileStale\<rbrakk> \<Longrightarrow> s = ProfileValid"
  by (cases s) auto

lemma lookup_probe_fst:
  assumes "m_entries m key = Some e" and "pe_Profile e = Some p"
  shows "fst (lookup_probe now mode v lc lg key m) =
    (if pe_atomicState e \<in> {ProfileNegative, ProfileQuarantined} \<or>
        pe_State e \<in> {ProfileNegative, ProfileQuarantined} \<or> \<not> ValidateRecordLens (rp_RecordLens p)
     then None
     else if pe_State e \<noteq> ProfileSuspect \<and> pe_State e \<noteq> ProfileStale \<and>
        time_Sub now (rp_CapturedAt p) < pe_TTL e \<and> \<not> IsLegacyCacheKey key \<and> \<not> isSoftCacheKey key \<and>
        profileL2Eligible now (Some p) \<and> mode \<in> {AmortizeL2, AmortizeAuto} \<and>
        clientPolicyCompatible (Some p) lc lg
     then Some \<lparr>lr_Profile = Some p, lr_Path = PathL2, lr_Key = key, lr_Stale = False\<rparr>
     else if mode \<notin> {AmortizeL1, AmortizeL2, AmortizeAuto} \<or>
        lc \<noteq> 0 \<and> rp_CipherSuite p \<noteq> 0 \<and> rp_CipherSuite p \<noteq> lc \<or>
        lg \<noteq> 0 \<and> rp_KeyShareGroup p \<noteq> 0 \<and> rp_KeyShareGroup p \<noteq> lg \<or>
        rp_TLSVersion p \<noteq> 0 \<and> v \<noteq> 0 \<and> rp_TLSVersion p \<noteq> v
     then None
     else Some \<lparr>lr_Profile = Some p, lr_Path = PathL1, lr_Key = key,
       lr_Stale = (pe_State e = ProfileStale \<or> pe_TTL e \<le> time_Sub now (rp_CapturedAt p))\<rparr>)"
  using assms by (simp add: lookup_probe_def Let_def not_le)

lemma lookup_probe_miss:
  "m_entries m key = None \<or> (\<exists>e. m_entries m key = Some e \<and> pe_Profile e = None) \<Longrightarrow>
   lookup_probe now mode v lc lg key m = (None, m)"
  by (auto simp: lookup_probe_def Let_def)

lemma lookup_probe_result:
  assumes "lookup_probe now mode v lc lg key m = (Some r, m')"
  shows "\<exists>p. lr_Profile r = Some p \<and> lr_Key r = key \<and> l1_allowed m key p \<and>
    (lr_Path r = PathL1 \<or> lr_Path r = PathL2 \<and> l2_allowed now m key p \<and>
       mode \<in> {AmortizeL2, AmortizeAuto} \<and> clientPolicyCompatible (Some p) lc lg)"
proof -
  have hit: "fst (lookup_probe now mode v lc lg key m) = Some r" using assms by simp
  then have "m_entries m key \<noteq> None"
    using lookup_probe_miss [of m key now mode v lc lg] by fastforce
  then obtain e where e1: "m_entries m key = Some e" by blast
  have "pe_Profile e \<noteq> None"
    using hit e1 lookup_probe_miss [of m key now mode v lc lg] by fastforce
  then obtain p where e2: "pe_Profile e = Some p" by blast
  have choose: "(if a then None else if b then Some x else if c then None else Some y) = Some z \<longleftrightarrow>
      \<not> a \<and> (b \<and> z = x \<or> \<not> b \<and> \<not> c \<and> z = y)" for a b c and x y z :: LookupResult
    by auto
  have l1: "l1_allowed m key p"
    using hit e1 e2 unfolding lookup_probe_fst [OF e1 e2] choose
    by (cases "pe_State e") (simp_all add: l1_allowed_def)
  show ?thesis
    using hit e1 e2 l1 unfolding lookup_probe_fst [OF e1 e2] choose
    by (elim conjE disjE) (simp_all add: l2_allowed_def ProfileState_rest)
qed

text \<open>A lookup changes at most the state of expired valid entries, to stale.\<close>

definition staled :: "entries \<Rightarrow> entries \<Rightarrow> bool" where
  "staled es es' \<longleftrightarrow> (\<forall>key. es' key = es key \<or>
     (\<exists>e. es key = Some e \<and> pe_State e = ProfileValid \<and> es' key = Some (set_state ProfileStale e)))"

lemma staled_refl [simp]: "staled es es"
  by (simp add: staled_def)

lemma set_state_state [simp]:
  "pe_State (set_state s e) = s" "pe_Profile (set_state s e) = pe_Profile e"
  "pe_TTL (set_state s e) = pe_TTL e" "pe_atomicState (set_state s e) = s"
  by (simp_all add: set_state_def)

lemma staled_cases:
  assumes "staled es es'"
  obtains "es' key = es key"
  | e where "es key = Some e" "pe_State e = ProfileValid" "es' key = Some (set_state ProfileStale e)"
  using assms unfolding staled_def by blast

lemma staled_trans:
  assumes "staled a b" and "staled b c"
  shows "staled a c"
  unfolding staled_def
proof
  fix key
  show "c key = a key \<or>
    (\<exists>e. a key = Some e \<and> pe_State e = ProfileValid \<and> c key = Some (set_state ProfileStale e))"
    by (rule staled_cases [OF assms(1), of key]; rule staled_cases [OF assms(2), of key])
      (simp, metis, simp, simp)
qed

lemma staled_valid: "\<lbrakk>staled es es'; es' key = Some e; pe_State e = ProfileValid\<rbrakk> \<Longrightarrow> es key = Some e"
  by (erule staled_cases [of _ _ key]) auto

lemma staled_dom:
  assumes "staled es es'"
  shows "dom es' = dom es"
proof -
  have "(es' key = None) = (es key = None)" for key
    by (rule staled_cases [OF assms, of key]) simp_all
  then show ?thesis by (simp only: dom_def)
qed

lemma if_inI: "\<lbrakk>x \<in> S; y \<in> S\<rbrakk> \<Longrightarrow> (if c then x else y) \<in> S"
  by simp

text \<open>Up to statistics, a probe returns the cache, or the cache with the entry made stale.\<close>

lemma lookup_probe_state:
  "\<exists>f m'. snd (lookup_probe now mode v lc lg key m) = upd_stats f m' \<and>
     (\<forall>st. st_ProfileEntries (f st) = st_ProfileEntries st) \<and>
     (m' = m \<or> (\<exists>e. m_entries m key = Some e \<and> pe_State e = ProfileValid \<and>
        m' = set_entry key (set_state ProfileStale e) m))"
proof (cases "m_entries m key = None \<or> (\<exists>e. m_entries m key = Some e \<and> pe_Profile e = None)")
  case True
  then have "snd (lookup_probe now mode v lc lg key m) = upd_stats id m" by (simp add: lookup_probe_miss)
  then show ?thesis by (intro exI [of _ id] exI [of _ m]) simp
next
  case False
  then obtain e p where e: "m_entries m key = Some e" "pe_Profile e = Some p" by auto
  define m' where "m' = (if pe_TTL e \<le> time_Sub now (rp_CapturedAt p) \<and> pe_State e = ProfileValid
    then set_entry key (set_state ProfileStale e) m else m)"
  have "snd (lookup_probe now mode v lc lg key m) \<in> {m, m', upd_stats (st_L2Hits_update (\<lambda>n. n + 1)) m',
      upd_stats (st_L1Hits_update (\<lambda>n. n + 1)) m',
      upd_stats (st_L1Hits_update (\<lambda>n. n + 1)) (upd_stats (st_StaleServed_update (\<lambda>n. n + 1)) m')}"
    unfolding lookup_probe_def e option.case Let_def m'_def [symmetric]
    by (simp only: if_distrib [of snd] if_distrib [of "upd_stats (st_L1Hits_update (\<lambda>n. n + 1))"] snd_conv)
      (intro if_inI; simp)
  then obtain f m'' where "snd (lookup_probe now mode v lc lg key m) = upd_stats f m''"
      "m'' = m \<or> m'' = m'" "\<forall>st. st_ProfileEntries (f st) = st_ProfileEntries st"
  proof (elim insertE emptyE)
    assume "snd (lookup_probe now mode v lc lg key m) = m"
    then show thesis using that [of id m] by simp
  next
    assume "snd (lookup_probe now mode v lc lg key m) = m'"
    then show thesis using that [of id m'] by simp
  next
    assume "snd (lookup_probe now mode v lc lg key m) = upd_stats (st_L2Hits_update (\<lambda>n. n + 1)) m'"
    then show thesis using that [of "st_L2Hits_update (\<lambda>n. n + 1)" m'] by simp
  next
    assume "snd (lookup_probe now mode v lc lg key m) = upd_stats (st_L1Hits_update (\<lambda>n. n + 1)) m'"
    then show thesis using that [of "st_L1Hits_update (\<lambda>n. n + 1)" m'] by simp
  next
    assume "snd (lookup_probe now mode v lc lg key m) =
      upd_stats (st_L1Hits_update (\<lambda>n. n + 1)) (upd_stats (st_StaleServed_update (\<lambda>n. n + 1)) m')"
    then show thesis
      using that [of "st_L1Hits_update (\<lambda>n. n + 1) \<circ> st_StaleServed_update (\<lambda>n. n + 1)" m'] by simp
  qed
  then show ?thesis using e(1) by (auto simp: m'_def split: if_split_asm)
qed

lemma lookup_probe_entries:
  "staled (m_entries m) (m_entries (snd (lookup_probe now mode v lc lg key m)))"
  using lookup_probe_state [of now mode v lc lg key m]
  by (elim exE conjE disjE) (simp_all add: staled_def)

lemma lookup_probe_fields:
  "st_ProfileEntries (m_stats (snd (lookup_probe now mode v lc lg key m))) = st_ProfileEntries (m_stats m)"
  "m_baseTTL (snd (lookup_probe now mode v lc lg key m)) = m_baseTTL m"
  "m_maxProfiles (snd (lookup_probe now mode v lc lg key m)) = m_maxProfiles m"
  "m_dirty (snd (lookup_probe now mode v lc lg key m)) = m_dirty m"
  using lookup_probe_state [of now mode v lc lg key m]
  by (elim exE conjE disjE; simp add: set_entry_def)+

text \<open>The keys a lookup tries, in order.\<close>

definition lookup_keys :: "string \<Rightarrow> string \<Rightarrow> string \<Rightarrow> u16 \<Rightarrow> string \<Rightarrow> string \<Rightarrow> string list" where
  "lookup_keys dest sn alpn ver ch soft =
     (if ch \<noteq> [] then [CacheKeyV2 dest sn alpn ver ch] else []) @
     (if soft \<noteq> [] \<and> soft \<noteq> ch then [CacheKeyV2 dest sn alpn ver soft] else []) @
     [CacheKey sn alpn ver]"

fun probe_keys :: "(string \<Rightarrow> CacheManager \<Rightarrow> LookupResult option \<times> CacheManager) \<Rightarrow> string list \<Rightarrow>
    CacheManager \<Rightarrow> LookupResult \<times> CacheManager" where
  "probe_keys probe [] m = (lookup_L0, m)"
| "probe_keys probe (k # ks) m =
     (case probe k m of (Some res, m) \<Rightarrow> (res, m) | (None, m) \<Rightarrow> probe_keys probe ks m)"

lemma probe_keys_hit: "fst (probe k m) = Some r \<Longrightarrow> fst (probe_keys probe (k # ks) m) = r"
  by (cases "probe k m") simp

lemma lookupAmortize_probe_keys:
  "lookupAmortize now mode dest sn alpn ver ch soft lc lg m =
   (if ResolveAmortizeMode mode = AmortizeL0 then (lookup_L0, m)
    else probe_keys (lookup_probe now (ResolveAmortizeMode mode) ver lc lg)
      (lookup_keys dest sn alpn ver ch soft) m)"
  by (simp add: lookupAmortize_def Let_def lookup_keys_def split: prod.split option.split)

lemma probe_keys_state:
  "staled (m_entries m) (m_entries (snd (probe_keys (lookup_probe now mode v lc lg) ks m))) \<and>
   st_ProfileEntries (m_stats (snd (probe_keys (lookup_probe now mode v lc lg) ks m))) =
     st_ProfileEntries (m_stats m) \<and>
   m_baseTTL (snd (probe_keys (lookup_probe now mode v lc lg) ks m)) = m_baseTTL m \<and>
   m_maxProfiles (snd (probe_keys (lookup_probe now mode v lc lg) ks m)) = m_maxProfiles m \<and>
   m_dirty (snd (probe_keys (lookup_probe now mode v lc lg) ks m)) = m_dirty m"
proof (induction ks arbitrary: m)
  case (Cons k ks)
  obtain r m1 where 1: "lookup_probe now mode v lc lg k m = (r, m1)" by fastforce
  note p = lookup_probe_entries [of m now mode v lc lg k, unfolded 1 snd_conv]
    lookup_probe_fields [of now mode v lc lg k m, unfolded 1 snd_conv]
  show ?case
  proof (cases r)
    case None
    then show ?thesis using Cons [of m1] p staled_trans [of "m_entries m" "m_entries m1"] by (simp add: 1)
  next
    case (Some a)
    then show ?thesis using p by (simp add: 1)
  qed
qed simp

lemma probe_keys_result:
  "probe_keys (lookup_probe now mode v lc lg) ks m = (r, m') \<Longrightarrow>
   r = lookup_L0 \<or> (\<exists>key \<in> set ks. \<exists>m0. staled (m_entries m) (m_entries m0) \<and>
     lookup_probe now mode v lc lg key m0 = (Some r, m'))"
proof (induction ks arbitrary: m)
  case (Cons k ks)
  obtain q m1 where 1: "lookup_probe now mode v lc lg k m = (q, m1)" by fastforce
  then have s: "staled (m_entries m) (m_entries m1)"
    using lookup_probe_entries [of m now mode v lc lg k] by simp
  show ?case
  proof (cases q)
    case None
    then have "probe_keys (lookup_probe now mode v lc lg) ks m1 = (r, m')" using Cons.prems 1 by simp
    then show ?thesis using Cons.IH [of m1] staled_trans [OF s] by auto
  next
    case (Some a)
    then show ?thesis using Cons.prems 1 staled_refl by (auto intro!: exI [of _ m])
  qed
qed simp

lemma lookupAmortize_result:
  assumes "lookupAmortize now mode dest sn alpn ver ch soft lc lg m = (r, m')" and "lr_Path r = PathL2"
  shows "\<exists>p. lr_Profile r = Some p \<and> lr_Key r \<in> set (lookup_keys dest sn alpn ver ch soft) \<and>
    l2_allowed now m (lr_Key r) p \<and> ResolveAmortizeMode mode \<in> {AmortizeL2, AmortizeAuto} \<and>
    clientPolicyCompatible (Some p) lc lg"
proof -
  let ?mode = "ResolveAmortizeMode mode"
  have "?mode \<noteq> AmortizeL0"
    using assms by (auto simp: lookupAmortize_probe_keys lookup_L0_def)
  then have "probe_keys (lookup_probe now ?mode ver lc lg) (lookup_keys dest sn alpn ver ch soft) m = (r, m')"
    using assms(1) by (simp add: lookupAmortize_probe_keys)
  then obtain key m0 where k: "key \<in> set (lookup_keys dest sn alpn ver ch soft)"
      "staled (m_entries m) (m_entries m0)" "lookup_probe now ?mode ver lc lg key m0 = (Some r, m')"
    using probe_keys_result assms(2) by (fastforce simp: lookup_L0_def)
  then obtain p where p: "lr_Profile r = Some p" "lr_Key r = key" "l2_allowed now m0 key p"
      "?mode \<in> {AmortizeL2, AmortizeAuto}" "clientPolicyCompatible (Some p) lc lg"
    using lookup_probe_result [OF k(3)] assms(2) by auto
  then have "l2_allowed now m key p"
    using staled_valid [OF k(2)] unfolding l2_allowed_def by blast
  then show ?thesis using p k(1) by auto
qed

subsection \<open>The cache as a system\<close>

lemma staled_ok: "\<lbrakk>cache_ok m; staled (m_entries m) (m_entries m'); m_baseTTL m' = m_baseTTL m\<rbrakk> \<Longrightarrow> cache_ok m'"
proof -
  assume ok: "cache_ok m" and s: "staled (m_entries m) (m_entries m')" and b: "m_baseTTL m' = m_baseTTL m"
  have "entry_ok (m_baseTTL m) e" if "m_entries m' key = Some e" for key e
    by (rule staled_cases [OF s, of key])
      (use that cache_ok_entry [OF ok, of key] in \<open>auto simp: entry_ok_simps\<close>)
  then show ?thesis using ok b staled_dom [OF s] by (simp add: cache_ok_def)
qed

lemma lookupAmortize_state:
  "staled (m_entries m) (m_entries (snd (lookupAmortize now mode dest sn alpn ver ch soft lc lg m)))"
  "st_ProfileEntries (m_stats (snd (lookupAmortize now mode dest sn alpn ver ch soft lc lg m))) =
   st_ProfileEntries (m_stats m)"
  "m_baseTTL (snd (lookupAmortize now mode dest sn alpn ver ch soft lc lg m)) = m_baseTTL m"
  "m_maxProfiles (snd (lookupAmortize now mode dest sn alpn ver ch soft lc lg m)) = m_maxProfiles m"
  "m_dirty (snd (lookupAmortize now mode dest sn alpn ver ch soft lc lg m)) = m_dirty m"
  using probe_keys_state [of m now "ResolveAmortizeMode mode" ver lc lg "lookup_keys dest sn alpn ver ch soft"]
  by (simp_all add: lookupAmortize_probe_keys)

lemma InvalidateAndReprobe_ok: "cache_ok m \<Longrightarrow> cache_ok (InvalidateAndReprobe order dest sn alpn m)"
  by (simp add: InvalidateAndReprobe_def Let_def fold_invalidate_ok InvalidateProfile_ok)

lemma InvalidateAll_ok: "cache_ok m \<Longrightarrow> cache_ok (InvalidateAll order m)"
  by (simp add: InvalidateAll_def fold_delete_ok)

lemma map_sum_Inr: "map_sum id f x = Inr y \<longleftrightarrow> (\<exists>z. x = Inr z \<and> y = f z)"
  by (cases x) auto

lemma cache_step_ok:
  assumes "cache_ok m" and "cache_step ev m = Inr m'"
  shows "cache_ok m'"
proof (cases ev)
  case (EvLookup now mode dest sn alpn ver ch soft lc lg)
  then have "m' = snd (lookupAmortize now mode dest sn alpn ver ch soft lc lg m)"
    using assms(2) by (simp add: cache_step_def)
  then show ?thesis
    using staled_ok [OF assms(1)] lookupAmortize_state(1,3) by metis
next
  case (EvGetProfile now key)
  then obtain r where "GetProfile now key m = Inr (r, m')"
    using assms(2) by (auto simp: cache_step_def map_sum_Inr)
  then show ?thesis by (rule GetProfile_ok [OF assms(1)])
next
  case (EvStoreProfile order key p)
  then obtain r where "StoreProfile order key (Some p) m = Inr (r, m')"
    using assms(2) by (auto simp: cache_step_def map_sum_Inr)
  then show ?thesis by (rule StoreProfile_ok [OF assms(1)])
next
  case (EvObserve now order key obs)
  then obtain r where "StoreObservation now order key (Some obs) m = Inr (r, m')"
    using assms(2) by (auto simp: cache_step_def map_sum_Inr)
  then show ?thesis by (rule StoreObservation_ok [OF assms(1)])
qed (use assms HotSwapProfile_ok MarkStale_ok MarkNegative_ok InvalidateProfile_ok InvalidateAll_ok
      InvalidateAndReprobe_ok Quarantine_ok NoteHandshakeFailure_ok in \<open>simp_all add: cache_step_def\<close>,
    auto)

interpretation profile_cache: event_system cache_run_step "\<lambda>r. case r of Inl _ \<Rightarrow> True | Inr m \<Rightarrow> cache_ok m"
proof
  fix r :: "CacheManager may_panic" and ev
  assume "case r of Inl _ \<Rightarrow> True | Inr m \<Rightarrow> cache_ok m"
  then show "case cache_run_step ev r of Inl _ \<Rightarrow> True | Inr m \<Rightarrow> cache_ok m"
    by (cases r) (auto simp: cache_run_step_def cache_step_ok split: sum.split)
qed

lemma NewCacheManager_ok: "cache_ok NewCacheManager"
  by (simp add: cache_ok_def NewCacheManager_def)

lemma cache_run_ok: "\<lbrakk>cache_ok m; cache_run evs m = Inr m'\<rbrakk> \<Longrightarrow> cache_ok m'"
  using profile_cache.run_inv [of "Inr m" evs] by (simp add: cache_run_def)

subsection \<open>Accounting\<close>

definition drift :: "CacheManager \<Rightarrow> int" where
  "drift m = int (card (dom (m_entries m))) - st_ProfileEntries (m_stats m)"

lemma drift_irrelevant [simp]:
  "drift (MarkDirty m) = drift m" "drift (PersistSnapshot n m) = drift m"
  "drift (upd_stats (st_StaleServed_update g) m) = drift m"
  "drift (upd_stats (st_NegativeHits_update g) m) = drift m"
  "drift (upd_stats (st_HotSwaps_update f) m) = drift m"
  "drift (upd_stats (st_ProfileInvalidated_update f) m) = drift m"
  "drift (upd_stats (st_Calibrations_update f) m) = drift m"
  "drift (upd_stats (st_Quarantines_update f) m) = drift m"
  "drift (upd_stats (st_L1Fails_update f) m) = drift m"
  "drift (upd_stats (st_L2Fails_update f) m) = drift m"
  "drift (upd_stats (st_L2SoftDemotions_update f) m) = drift m"
  "drift (upd_stats (st_L2SoftDemotions_update f \<circ> st_L2Fails_update h) m) = drift m"
  by (simp_all add: drift_def)

lemma drift_add [simp]: "drift (add_entries k m) = drift m - k"
  by (simp add: drift_def)

lemma drift_set [simp]:
  "cache_ok m \<Longrightarrow> drift (set_entry key e m) = drift m + (if m_entries m key = None then 1 else 0)"
  by (auto simp: drift_def cache_ok_def card_insert_if domIff)

lemma drift_delete [simp]:
  assumes "cache_ok m"
  shows "drift (delete_entry key m) = drift m - (if m_entries m key = None then 0 else 1)"
proof (cases "m_entries m key")
  case (Some e)
  then have "key \<in> dom (m_entries m)" by blast
  then have "0 < card (dom (m_entries m))" using assms by (auto simp: cache_ok_def card_gt_0_iff)
  then show ?thesis using Some \<open>key \<in> dom (m_entries m)\<close> by (simp add: drift_def)
qed (simp add: drift_def domIff)

lemma evictIfFull_drift: "\<lbrakk>cache_ok m; evictIfFull order m = Inr m'\<rbrakk> \<Longrightarrow> drift m' = drift m"
  using evictIfFull_cases [of order m m'] by auto

lemma InvalidateProfile_drift: "cache_ok m \<Longrightarrow> drift (InvalidateProfile key m) = drift m"
  by (simp add: InvalidateProfile_def split: option.split)

lemma fold_invalidate_drift: "cache_ok m \<Longrightarrow> drift (fold InvalidateProfile ks m) = drift m"
  by (induction ks arbitrary: m) (simp_all add: InvalidateProfile_drift InvalidateProfile_ok)

lemma fold_delete_drift:
  "\<lbrakk>cache_ok m; distinct ks; \<forall>k \<in> set ks. m_entries m k \<noteq> None\<rbrakk> \<Longrightarrow>
   drift (fold (\<lambda>key m. upd_stats (st_ProfileInvalidated_update f) (add_entries (-1) (delete_entry key m))) ks m) =
   drift m"
proof (induction ks arbitrary: m)
  case (Cons k ks)
  let ?m = "upd_stats (st_ProfileInvalidated_update f) (add_entries (-1) (delete_entry k m))"
  have "cache_ok ?m" using Cons.prems(1) by (simp add: cache_ok_delete)
  moreover have "\<forall>k \<in> set ks. m_entries ?m k \<noteq> None" using Cons.prems by auto
  ultimately show ?case using Cons.IH [of ?m] Cons.prems by simp
qed simp

lemma GetProfile_drift: "\<lbrakk>cache_ok m; GetProfile now key m = Inr (r, m')\<rbrakk> \<Longrightarrow> drift m' = drift m"
  by (cases "m_entries m key")
    (auto simp: GetProfile_def split: ProfileState.splits sum.splits if_splits)

lemma insert_evict_drift:
  assumes "cache_ok m" and "m_entries m key = None"
    and "evictIfFull order (MarkDirty (add_entries 1 (set_entry key (newEntry (m_baseTTL m) (Some p)) m))) = Inr m'"
  shows "drift m' = drift m"
proof -
  have "cache_ok (MarkDirty (add_entries 1 (set_entry key (newEntry (m_baseTTL m) (Some p)) m)))"
    using assms(1) by (simp add: cache_ok_set entry_ok_new)
  from evictIfFull_drift [OF this assms(3)] show ?thesis using assms(1,2) by simp
qed

lemma StoreProfile_drift:
  assumes "cache_ok m" and "StoreProfile order key (Some p) m = Inr (r, m')"
  shows "drift m' = drift m"
proof (cases "m_entries m key")
  case None
  then show ?thesis
    using assms by (auto simp: StoreProfile_def Let_def intro: insert_evict_drift split: sum.splits)
qed (use assms in \<open>simp add: StoreProfile_def\<close>)

lemma observe_present_drift:
  "\<lbrakk>cache_ok m; m_entries m key = Some entry\<rbrakk> \<Longrightarrow> drift (observe_present now key entry obs m) = drift m"
  by (simp add: observe_present_def Let_def split: option.split)

lemma StoreObservation_drift:
  assumes "cache_ok m" and "StoreObservation now order key (Some obs) m = Inr (r, m')"
  shows "drift m' = drift m"
proof (cases "m_entries m key")
  case None
  then show ?thesis
    using assms
    by (auto simp: StoreObservation_def Let_def intro: insert_evict_drift split: sum.splits if_splits)
next
  case (Some e)
  then have "m' = m \<or> m' = observe_present now key e (normalize_obs obs) m"
    using assms(2) by (auto simp: StoreObservation_def Let_def split: if_splits)
  then show ?thesis using observe_present_drift [OF assms(1) Some] by auto
qed

lemma range_keys_present: "distinct (range_keys order es)" "\<forall>k \<in> set (range_keys order es). es k \<noteq> None"
  by (auto simp: range_keys_def)

lemma simple_drift:
  assumes "cache_ok m"
  shows "drift (HotSwapProfile key p m) = drift m + (if m_entries m key = None then 1 else 0)"
    and "drift (MarkStale key m) = drift m" and "drift (MarkNegative now key m) = drift m"
    and "drift (Quarantine now key reason m) = drift m"
    and "drift (NoteHandshakeFailure now key path m) = drift m"
    and "drift (InvalidateAll order m) = drift m"
    and "drift (InvalidateAndReprobe order dest sn alpn m) = drift m"
    and "drift (snd (lookupAmortize now mode dest sn alpn ver ch soft lc lg m)) = drift m"
proof -
  show "drift (HotSwapProfile key p m) = drift m + (if m_entries m key = None then 1 else 0)"
    using assms by (simp add: HotSwapProfile_def Let_def)
  show "drift (MarkStale key m) = drift m"
    using assms by (simp add: MarkStale_def Let_def split: option.split)
  show "drift (MarkNegative now key m) = drift m"
    using assms by (simp add: MarkNegative_def Let_def split: option.split)
  show "drift (Quarantine now key reason m) = drift m"
    using assms by (simp add: Quarantine_def Let_def split: option.split)
  show "drift (NoteHandshakeFailure now key path m) = drift m"
    using assms by (simp add: NoteHandshakeFailure_def Let_def split: option.split)
  show "drift (InvalidateAll order m) = drift m"
    using assms range_keys_present by (simp add: InvalidateAll_def fold_delete_drift)
  show "drift (InvalidateAndReprobe order dest sn alpn m) = drift m"
    using assms by (simp add: InvalidateAndReprobe_def Let_def fold_invalidate_drift
        InvalidateProfile_drift InvalidateProfile_ok)
  show "drift (snd (lookupAmortize now mode dest sn alpn ver ch soft lc lg m)) = drift m"
    by (simp add: drift_def lookupAmortize_state staled_dom [OF lookupAmortize_state(1)])
qed

definition hot_swap_absent :: "cache_event \<Rightarrow> CacheManager \<Rightarrow> int" where
  "hot_swap_absent ev m = (case ev of EvHotSwap key p \<Rightarrow> if m_entries m key = None then 1 else 0 | _ \<Rightarrow> 0)"

lemma cache_step_drift:
  assumes "cache_ok m" and "cache_step ev m = Inr m'"
  shows "drift m' = drift m + hot_swap_absent ev m"
proof (cases ev)
  case (EvGetProfile now key)
  then show ?thesis using assms GetProfile_drift
    by (auto simp: cache_step_def map_sum_Inr hot_swap_absent_def)
next
  case (EvStoreProfile order key p)
  then show ?thesis using assms StoreProfile_drift
    by (auto simp: cache_step_def map_sum_Inr hot_swap_absent_def)
next
  case (EvObserve now order key obs)
  then show ?thesis using assms StoreObservation_drift
    by (auto simp: cache_step_def map_sum_Inr hot_swap_absent_def)
qed (use assms simple_drift [OF assms(1)] InvalidateProfile_drift [OF assms(1)]
    in \<open>simp_all add: cache_step_def hot_swap_absent_def\<close>, auto)

lemma cache_run_drift:
  assumes "cache_ok m" and "cache_run evs m = Inr m'"
  shows "drift m \<le> drift m' \<and> ((\<forall>key p. EvHotSwap key p \<notin> set evs) \<longrightarrow> drift m' = drift m)"
  using assms(2)
proof (induction evs arbitrary: m' rule: rev_induct)
  case (snoc ev evs)
  then obtain m1 where 1: "cache_run evs m = Inr m1" "cache_step ev m1 = Inr m'"
    by (auto simp: cache_run_snoc)
  have "drift m' = drift m1 + hot_swap_absent ev m1"
    using cache_step_drift cache_run_ok [OF assms(1) 1(1)] 1(2) by blast
  moreover have "0 \<le> hot_swap_absent ev m1" "(\<forall>key p. ev \<noteq> EvHotSwap key p) \<Longrightarrow> hot_swap_absent ev m1 = 0"
    by (auto simp: hot_swap_absent_def split: cache_event.split)
  ultimately show ?case using snoc.IH [OF 1(1)] by auto
qed simp

subsection \<open>Which entry eviction removes\<close>

definition in_state :: "ProfileState \<Rightarrow> entries \<Rightarrow> string \<Rightarrow> bool" where
  "in_state s es key \<longleftrightarrow> (\<exists>e. es key = Some e \<and> pe_State e = s)"

text \<open>Keys the scan compares by age, and the time it compares.\<close>

definition aged :: "entries \<Rightarrow> string \<Rightarrow> gotime \<Rightarrow> bool" where
  "aged es key t \<longleftrightarrow> (\<exists>e p. es key = Some e \<and> pe_State e \<notin> {ProfileNegative, ProfileStale} \<and>
     pe_Profile e = Some p \<and> rp_CapturedAt p = t)"

text \<open>What the scan knows after the keys \<open>K\<close>.\<close>

definition scan_inv :: "entries \<Rightarrow> string set \<Rightarrow> evict_vars \<Rightarrow> bool" where
  "scan_inv es K v = (case v of (n, s, ok, t) \<Rightarrow>
     (if n = [] then (\<forall>k \<in> K. \<not> in_state ProfileNegative es k) else in_state ProfileNegative es n) \<and>
     (if s = [] then (\<forall>k \<in> K. \<not> in_state ProfileStale es k) else in_state ProfileStale es s) \<and>
     (if ok = [] then (\<forall>k \<in> K. \<forall>t. \<not> aged es k t)
      else aged es ok t \<and> (\<forall>k \<in> K. \<forall>t'. aged es k t' \<longrightarrow> t \<le> t')))"

lemma scan_inv_visit:
  assumes "scan_inv es K v" and "es key = Some entry" and "evict_visit key entry v = Inr v'" and "key \<noteq> []"
  shows "scan_inv es (insert key K) v'"
proof -
  obtain n s ok t where v: "v = (n, s, ok, t)" by (cases v)
  have st: "in_state x es key \<longleftrightarrow> pe_State entry = x" for x
    using assms(2) by (simp add: in_state_def)
  have ag: "aged es key x \<longleftrightarrow> pe_State entry \<notin> {ProfileNegative, ProfileStale} \<and>
      (\<exists>p. pe_Profile entry = Some p \<and> rp_CapturedAt p = x)" for x
    using assms(2) by (simp add: aged_def)
  show ?thesis
  proof (cases "pe_State entry \<in> {ProfileNegative, ProfileStale}")
    case True
    then show ?thesis using assms(1,3,4) unfolding v
      by (cases "n = []"; cases "s = []") (auto simp: scan_inv_def evict_visit_def st ag)
  next
    case False
    then obtain p where p: "pe_Profile entry = Some p"
        and v': "v' = (if ok = [] \<or> rp_CapturedAt p < t then (n, s, key, rp_CapturedAt p) else v)"
      using assms(3) unfolding v
      by (cases "pe_State entry") (auto simp: evict_visit_def deref_def split: option.splits if_splits)
    show ?thesis using assms(1,4) False p unfolding v' v
      by (auto simp: scan_inv_def st ag split: if_split_asm; fastforce)
  qed
qed

lemma scan_inv_scan:
  "\<lbrakk>scan_inv es K v; evict_scan es order v = Inr v'; [] \<notin> set order\<rbrakk> \<Longrightarrow> scan_inv es (K \<union> set order) v'"
proof (induction order arbitrary: K v)
  case (Cons key order)
  show ?case
  proof (cases "es key")
    case None
    then have "scan_inv es (insert key K) v"
      using Cons.prems(1) by (cases v) (auto simp: scan_inv_def in_state_def aged_def split: if_splits)
    from Cons.IH [OF this] show ?thesis using Cons.prems None by simp
  next
    case (Some entry)
    then obtain v1 where v1: "evict_visit key entry v = Inr v1" "evict_scan es order v1 = Inr v'"
      using Cons.prems(2) by (auto split: sum.splits)
    have "scan_inv es (insert key K) v1"
      using scan_inv_visit [OF Cons.prems(1) Some v1(1)] Cons.prems(3) by auto
    from Cons.IH [OF this v1(2)] show ?thesis using Cons.prems by simp
  qed
qed simp

lemma evict_scan_panics_iff:
  "(\<exists>e. evict_scan es order v = Inl e) \<longleftrightarrow>
   (\<exists>k \<in> set order. \<exists>e. es k = Some e \<and> pe_State e \<notin> {ProfileNegative, ProfileStale} \<and> pe_Profile e = None)"
proof (induction order arbitrary: v)
  case (Cons key order)
  show ?case
  proof (cases "es key")
    case (Some entry)
    obtain n s ok t where v: "v = (n, s, ok, t)" by (cases v)
    have "(\<exists>e. evict_visit key entry v = Inl e) \<longleftrightarrow>
        pe_State entry \<notin> {ProfileNegative, ProfileStale} \<and> pe_Profile entry = None"
      unfolding v by (cases "pe_State entry"; cases "pe_Profile entry") (simp_all add: evict_visit_def deref_def)
    then show ?thesis using Some Cons.IH by (cases "evict_visit key entry v") auto
  qed (use Cons.IH in auto)
qed simp

definition eviction_choice :: "entries \<Rightarrow> string \<Rightarrow> bool" where
  "eviction_choice es key \<longleftrightarrow>
     in_state ProfileNegative es key \<or>
     (\<forall>k. \<not> in_state ProfileNegative es k) \<and>
       (in_state ProfileStale es key \<or>
        (\<forall>k. \<not> in_state ProfileStale es k) \<and>
        (\<exists>t. aged es key t \<and> (\<forall>k t'. aged es k t' \<longrightarrow> t \<le> t')))"

lemma evict_scan_choice:
  assumes "evict_scan es order ([], [], [], 0) = Inr v" and "set order = dom es" and "[] \<notin> dom es"
    and "dom es \<noteq> {}"
  shows "evict_pick v \<noteq> [] \<and> eviction_choice es (evict_pick v)"
proof -
  obtain n s ok t where v: "v = (n, s, ok, t)" by (cases v)
  have "scan_inv es {} ([], [], [], 0)" by (simp add: scan_inv_def)
  from scan_inv_scan [OF this assms(1)] have inv: "scan_inv es (dom es) (n, s, ok, t)"
    using assms(2,3) v by simp
  have outside: "in_state x es k \<Longrightarrow> k \<in> dom es" "aged es k y \<Longrightarrow> k \<in> dom es" for x k y
    by (auto simp: in_state_def aged_def)
  obtain key e where e: "es key = Some e" using assms(4) by blast
  have "\<not> (pe_State e \<notin> {ProfileNegative, ProfileStale} \<and> pe_Profile e = None)"
    using evict_scan_panics_iff [of es order "([], [], [], 0)"] assms(1,2) e by auto
  then have some: "in_state ProfileNegative es key \<or> in_state ProfileStale es key \<or> (\<exists>t. aged es key t)"
    using e by (cases "pe_State e"; cases "pe_Profile e") (auto simp: in_state_def aged_def)
  consider "n \<noteq> []" | "n = []" "s \<noteq> []" | "n = []" "s = []" "ok \<noteq> []" | "n = []" "s = []" "ok = []"
    by blast
  then show ?thesis
  proof cases
    case 4
    then show ?thesis using inv some e unfolding scan_inv_def by auto
  next
    case 3
    then have "aged es ok t" "\<forall>k \<in> dom es. \<forall>t'. aged es k t' \<longrightarrow> t \<le> t'"
        "\<forall>k \<in> dom es. \<not> in_state ProfileNegative es k" "\<forall>k \<in> dom es. \<not> in_state ProfileStale es k"
      using inv by (simp_all add: scan_inv_def)
    then have "aged es ok t" "\<forall>k t'. aged es k t' \<longrightarrow> t \<le> t'"
        "\<forall>k. \<not> in_state ProfileNegative es k" "\<forall>k. \<not> in_state ProfileStale es k"
      using outside by blast+
    then show ?thesis using 3 v by (auto simp: eviction_choice_def evict_pick_def)
  qed (use inv v in \<open>auto simp: scan_inv_def eviction_choice_def evict_pick_def dest: outside\<close>)
qed

lemma evictIfFull_evicts:
  assumes "evictIfFull order m = Inr m'" and "m_maxProfiles m < st_ProfileEntries (m_stats m)"
    and "set order = dom (m_entries m)" and "[] \<notin> dom (m_entries m)" and "dom (m_entries m) \<noteq> {}"
  shows "\<exists>key \<in> dom (m_entries m). eviction_choice (m_entries m) key \<and>
    m' = add_entries (-1) (delete_entry key m)"
proof -
  obtain v where v: "evict_scan (m_entries m) order ([], [], [], 0) = Inr v"
      "m' = (if evict_pick v \<noteq> [] then add_entries (-1) (delete_entry (evict_pick v) m) else m)"
    using assms(1,2) by (auto simp: evictIfFull_def Let_def split: sum.splits if_splits)
  note c = evict_scan_choice [OF v(1) assms(3-5)]
  then have "evict_pick v \<in> dom (m_entries m)"
    by (auto simp: eviction_choice_def in_state_def aged_def)
  then show ?thesis using c v(2) by auto
qed

lemma evictIfFull_panics_iff:
  assumes "set order = dom (m_entries m)"
  shows "(\<exists>e. evictIfFull order m = Inl e) \<longleftrightarrow> m_maxProfiles m < st_ProfileEntries (m_stats m) \<and>
    (\<exists>key e. m_entries m key = Some e \<and> pe_State e \<notin> {ProfileNegative, ProfileStale} \<and> pe_Profile e = None)"
proof -
  have "(\<exists>e. evictIfFull order m = Inl e) \<longleftrightarrow> m_maxProfiles m < st_ProfileEntries (m_stats m) \<and>
      (\<exists>e. evict_scan (m_entries m) order ([], [], [], 0) = Inl e)"
    by (auto simp: evictIfFull_def Let_def not_le split: sum.split)
  also have "(\<exists>e. evict_scan (m_entries m) order ([], [], [], 0) = Inl e) \<longleftrightarrow>
      (\<exists>key e. m_entries m key = Some e \<and> pe_State e \<notin> {ProfileNegative, ProfileStale} \<and> pe_Profile e = None)"
    unfolding evict_scan_panics_iff assms by blast
  finally show ?thesis .
qed

text \<open>In a cache that satisfies the invariant only a quarantined entry can lack its profile.\<close>

lemma entry_ok_no_profile:
  "\<lbrakk>entry_ok base e; pe_State e \<notin> {ProfileNegative, ProfileStale}; pe_Profile e = None\<rbrakk> \<Longrightarrow>
   pe_State e = ProfileQuarantined"
  by (cases "pe_State e") (auto simp: entry_ok_def)

lemma StoreObservation_new:
  assumes "m_entries m key = None" and "ValidateRecordLens (rp_RecordLens obs)"
  shows "map_sum id snd (StoreObservation now order key (Some obs) m) =
    evictIfFull order (MarkDirty (add_entries 1 (set_entry key
      (newEntry (m_baseTTL m) (Some (first_observation (normalize_obs obs)))) m)))"
  using assms by (simp add: StoreObservation_def Let_def split: sum.split)

lemma l2_key_exact:
  assumes "key \<in> set (lookup_keys dest sn alpn ver (ClassifyClientHello ch) (SoftClassifyClientHello ch))"
    and "\<not> IsLegacyCacheKey key" and "\<not> isSoftCacheKey key"
    and "count_list sn CHR ''|'' + count_list alpn CHR ''|'' < 2"
  shows "key = CacheKeyV2 dest sn alpn ver (ClassifyClientHello ch)"
proof -
  have "key \<noteq> CacheKey sn alpn ver" using assms(2,4) CacheKey_legacy_iff by blast
  moreover have "key \<noteq> CacheKeyV2 dest sn alpn ver (SoftClassifyClientHello ch)" if ne: "SoftClassifyClientHello ch \<noteq> []"
  proof -
    obtain c where c: "ch = Some c" using ne by (cases ch) (auto simp: SoftClassifyClientHello_def)
    have "take 2 (SoftClassifyClientHello ch) = ''s:''" by (simp add: c SoftClassifyClientHello_eq)
    then show ?thesis using assms(3) isSoftCacheKey_CacheKeyV2 [OF SoftClassify_no_sep] by blast
  qed
  ultimately show ?thesis using assms(1) by (auto simp: lookup_keys_def split: if_splits)
qed

subsection \<open>A sample profile\<close>

definition sample_profile :: RealityProfile where
  "sample_profile = \<lparr>rp_RecordLens = [127, 6, 64, 900, 281, 74, 0], rp_Fingerprint = 7,
     rp_CipherSuite = 0x1301, rp_ALPN = ''h2'', rp_TLSVersion = VersionTLS13, rp_RecordCount = 6,
     rp_CapturedAt = 100, rp_RecordMode = 0, rp_Dest = ''d:443'', rp_ServerName = ''d'',
     rp_CHClass = ''empty'', rp_KeyShareGroup = 29, rp_AcceptsHRR = False, rp_ShapeHash = 9,
     rp_ServerHelloTemplate = [2, 0, 0, 0], rp_Evidence = 2, rp_LiveEvidence = 2, rp_Stability = 1,
     rp_Source = ''live'', rp_CHClassVer = 3, rp_CertMeta = None\<rparr>"

definition sample_cache :: "string \<Rightarrow> CacheManager" where
  "sample_cache key = NewCacheManager\<lparr>m_entries := [key \<mapsto> newEntry ProfileTTL (Some sample_profile)],
     m_stats := stats_zero\<lparr>st_ProfileEntries := 1\<rparr>\<rparr>"

lemma sample_lens_valid: "ValidateRecordLens (rp_RecordLens sample_profile)"
  by (simp add: sample_profile_def ValidateRecordLens_def ValidateRecordLensMode_def InferRecordMode_def
      record_len_ok_def)

lemma sample_eligible: "profileL2Eligible 200 (Some sample_profile)"
  using sample_lens_valid
  by (simp add: profileL2Eligible_def sample_profile_def time_Sub_def maxDuration_def minDuration_def
      MaxL2ProfileAge_def Minute_def Second_def Let_def)

lemma sample_cache_ok: "cache_ok (sample_cache key)"
  by (simp add: sample_cache_def cache_ok_def NewCacheManager_def entry_ok_new)

text \<open>\<open>FindFullCachedProfile\<close> excludes negative entries only: \<open>Quarantine\<close> of an absent key leaves none.\<close>

lemma find_full_dereferences_nil:
  assumes "m_entries m (CacheKey serverName alpn VersionTLS13) = None"
  shows "FindFullCachedProfile now dest serverName cipherSuites alpn
      (Quarantine t (CacheKey serverName alpn VersionTLS13) reason m) = Inl NilDeref"
  using assms by (simp add: FindFullCachedProfile_def Quarantine_def Let_def deref_def)

subsection \<open>Properties\<close>



text \<open>(C33) Whatever calls the cache has served since it was created, every entry is well
  formed: the state that is read without the lock agrees with the one read under it, its
  time to live is the base time to live or twice that, a valid, stale or suspect entry has a
  profile; so \<open>GetProfile\<close> and \<open>GetOrProbe\<close> never dereference a nil pointer. (\<open>FindFullCachedProfile\<close>
  does on a quarantined entry without a profile: \<open>find_full_dereferences_nil\<close>.)\<close>

theorem cache_entries_wellformed:
  assumes "cache_run evs NewCacheManager = Inr m"
  shows "(\<forall>key e. m_entries m key = Some e \<longrightarrow>
      pe_atomicState e = pe_State e \<and> pe_TTL e \<in> {m_baseTTL m, 2 * m_baseTTL m} \<and>
      (pe_State e \<in> {ProfileValid, ProfileStale, ProfileSuspect} \<longrightarrow> pe_Profile e \<noteq> None)) \<and>
    (\<exists>r. GetProfile now key m = Inr r) \<and> (\<exists>r. GetOrProbe_fast now key m = Inr r)"
proof -
  have ok: "cache_ok m" using cache_run_ok [OF NewCacheManager_ok assms] .
  have e: "entry_ok (m_baseTTL m) e" if "m_entries m key = Some e" for key e
    using cache_ok_entry [OF ok that] .
  have g: "\<exists>r. GetProfile now key m = Inr r"
    using e [of key] by (auto simp: GetProfile_def deref_def entry_ok_def
        split: option.split ProfileState.split)
  moreover have "\<exists>r. GetOrProbe_fast now key m = Inr r"
    using e [of key] by (auto simp: GetOrProbe_fast_def deref_def entry_ok_def split: option.split)
  ultimately show ?thesis using e unfolding entry_ok_def by blast
qed

theorem cache_entries_wellformed_witness:
  "\<exists>m. cache_run [EvMarkNegative 5 ''k'', EvMarkStale ''k''] NewCacheManager = Inr m \<and>
     (\<exists>r. GetProfile 9 ''k'' m = Inr r)"
proof -
  obtain m where m: "cache_run [EvMarkNegative 5 ''k'', EvMarkStale ''k''] NewCacheManager = Inr m"
    by (simp add: cache_run_def cache_run_step_def cache_step_def)
  from cache_entries_wellformed [OF m, of 9 "''k''"] show ?thesis using m by blast
qed

text \<open>(C34) The counter of entries never exceeds the number of entries, and is exact as long
  as no hot swap takes place (a hot swap of an absent key adds an entry it does not count).\<close>

theorem cache_accounting:
  assumes "cache_run evs NewCacheManager = Inr m"
  shows "finite (dom (m_entries m)) \<and>
    st_ProfileEntries (m_stats m) \<le> int (card (dom (m_entries m))) \<and>
    ((\<forall>key p. EvHotSwap key p \<notin> set evs) \<longrightarrow>
       st_ProfileEntries (m_stats m) = int (card (dom (m_entries m))))"
proof -
  have "drift NewCacheManager = 0" by (simp add: drift_def NewCacheManager_def stats_zero_def)
  then show ?thesis
    using cache_run_drift [OF NewCacheManager_ok assms] cache_run_ok [OF NewCacheManager_ok assms]
    by (auto simp: drift_def cache_ok_def)
qed

theorem cache_accounting_witness:
  "\<exists>m. cache_run [EvMarkNegative 5 ''k'', EvQuarantine 6 ''l''] NewCacheManager = Inr m \<and>
     st_ProfileEntries (m_stats m) = int (card (dom (m_entries m)))"
proof -
  obtain m where m: "cache_run [EvMarkNegative 5 ''k'', EvQuarantine 6 ''l''] NewCacheManager = Inr m"
    by (simp add: cache_run_def cache_run_step_def cache_step_def)
  from cache_accounting [OF m] show ?thesis using m by simp
qed

text \<open>(C35) Storing an observation under a new key in a cache that is full evicts exactly one
  entry, whatever order the map is scanned in: a negative entry if there is one, otherwise
  a stale one if there is one, otherwise one with the oldest capture time. The cache does
  not grow past the larger of its limit and its size before.\<close>

theorem store_observation_evicts:
  assumes "StoreObservation now order key (Some obs) m = Inr (r, m')"
    and "ValidateRecordLens (rp_RecordLens obs)"
    and "m_entries m key = None" and "set order = insert key (dom (m_entries m))"
    and "finite (dom (m_entries m))" and "[] \<notin> set order"
    and "st_ProfileEntries (m_stats m) = int (card (dom (m_entries m)))"
    and "m_maxProfiles m \<le> st_ProfileEntries (m_stats m)"
  shows "\<exists>k \<in> set order. eviction_choice
      ((m_entries m)(key \<mapsto> newEntry (m_baseTTL m) (Some (first_observation (normalize_obs obs))))) k \<and>
      dom (m_entries m') = set order - {k} \<and> card (dom (m_entries m')) = card (dom (m_entries m))"
proof -
  let ?m = "MarkDirty (add_entries 1 (set_entry key
    (newEntry (m_baseTTL m) (Some (first_observation (normalize_obs obs)))) m))"
  have "evictIfFull order ?m = Inr m'"
    using StoreObservation_new [OF assms(3,2), of now order] assms(1) by simp
  from evictIfFull_evicts [OF this] obtain k where k: "k \<in> dom (m_entries ?m)"
      "eviction_choice (m_entries ?m) k" "m' = add_entries (-1) (delete_entry k ?m)"
    using assms(4,6,8) by auto
  then have d: "dom (m_entries m') = set order - {k}" "k \<in> set order" using assms(4) by auto
  have "key \<notin> dom (m_entries m)" using assms(3) by blast
  then have "card (set order) = Suc (card (dom (m_entries m)))" using assms(4,5) by simp
  then have "card (dom (m_entries m')) = card (dom (m_entries m))"
    using d assms(4,5) by (simp add: card_Diff_singleton)
  then show ?thesis using d k(2) by auto
qed

theorem store_observation_evicts_witness:
  "\<exists>r m'. StoreObservation 200 [''k'', ''l''] ''l'' (Some sample_profile)
      (sample_cache ''k''\<lparr>m_maxProfiles := 1\<rparr>) = Inr (r, m') \<and> card (dom (m_entries m')) = 1"
proof -
  define m where "m = sample_cache ''k''\<lparr>m_maxProfiles := 1\<rparr>"
  have m: "m_entries m = [''k'' \<mapsto> newEntry ProfileTTL (Some sample_profile)]"
      "st_ProfileEntries (m_stats m) = 1" "m_maxProfiles m = 1"
    by (simp_all add: m_def sample_cache_def)
  let ?m = "MarkDirty (add_entries 1 (set_entry ''l''
    (newEntry (m_baseTTL m) (Some (first_observation (normalize_obs sample_profile)))) m))"
  have "\<not> (\<exists>e. evictIfFull [''k'', ''l''] ?m = Inl e)"
    by (subst evictIfFull_panics_iff) (auto simp: m newEntry_def)
  then obtain m1 where "evictIfFull [''k'', ''l''] ?m = Inr m1"
    by (cases "evictIfFull [''k'', ''l''] ?m") auto
  then have "map_sum id snd (StoreObservation 200 [''k'', ''l''] ''l'' (Some sample_profile) m) = Inr m1"
    using StoreObservation_new [of m "''l''" sample_profile 200 "[''k'', ''l'']"] sample_lens_valid
    by (simp add: m(1))
  then obtain r where "StoreObservation 200 [''k'', ''l''] ''l'' (Some sample_profile) m = Inr (r, m1)"
    by (auto simp: map_sum_Inr)
  with store_observation_evicts [OF this sample_lens_valid] show ?thesis
    unfolding m_def [symmetric] by (auto simp: m)
qed

text \<open>(C36) In a cache that satisfies the invariant, storing an observation under a new key
  panics exactly if the cache is full and some quarantined entry has no profile, as
  \<open>Quarantine\<close> leaves it for a key that was absent: eviction dereferences its profile.\<close>

theorem store_observation_panics_iff:
  assumes "cache_ok m" and "ValidateRecordLens (rp_RecordLens obs)"
    and "m_entries m key = None" and "set order = insert key (dom (m_entries m))"
  shows "(\<exists>e. StoreObservation now order key (Some obs) m = Inl e) \<longleftrightarrow>
    m_maxProfiles m \<le> st_ProfileEntries (m_stats m) \<and>
    (\<exists>k e. m_entries m k = Some e \<and> pe_State e = ProfileQuarantined \<and> pe_Profile e = None)"
proof -
  let ?m = "MarkDirty (add_entries 1 (set_entry key
    (newEntry (m_baseTTL m) (Some (first_observation (normalize_obs obs)))) m))"
  have "(\<exists>e. StoreObservation now order key (Some obs) m = Inl e) \<longleftrightarrow> (\<exists>e. evictIfFull order ?m = Inl e)"
    using StoreObservation_new [OF assms(3,2), of now order]
    by (cases "StoreObservation now order key (Some obs) m") (auto dest: sym)
  also have "\<dots> \<longleftrightarrow> m_maxProfiles m \<le> st_ProfileEntries (m_stats m) \<and>
      (\<exists>k e. m_entries ?m k = Some e \<and> pe_State e \<notin> {ProfileNegative, ProfileStale} \<and> pe_Profile e = None)"
    using assms(4) by (subst evictIfFull_panics_iff) auto
  also have "(\<exists>k e. m_entries ?m k = Some e \<and> pe_State e \<notin> {ProfileNegative, ProfileStale} \<and> pe_Profile e = None) \<longleftrightarrow>
      (\<exists>k e. m_entries m k = Some e \<and> pe_State e = ProfileQuarantined \<and> pe_Profile e = None)"
  proof
    assume "\<exists>k e. m_entries ?m k = Some e \<and> pe_State e \<notin> {ProfileNegative, ProfileStale} \<and> pe_Profile e = None"
    then obtain k e where k: "m_entries ?m k = Some e" "pe_State e \<notin> {ProfileNegative, ProfileStale}"
        "pe_Profile e = None" by blast
    then have "k \<noteq> key" by (auto simp: newEntry_def)
    then have "m_entries m k = Some e" using k(1) by simp
    then show "\<exists>k e. m_entries m k = Some e \<and> pe_State e = ProfileQuarantined \<and> pe_Profile e = None"
      using entry_ok_no_profile cache_ok_entry [OF assms(1)] k(2,3) by blast
  next
    assume "\<exists>k e. m_entries m k = Some e \<and> pe_State e = ProfileQuarantined \<and> pe_Profile e = None"
    then obtain k e where "m_entries m k = Some e" "pe_State e = ProfileQuarantined" "pe_Profile e = None"
      by blast
    then show "\<exists>k e. m_entries ?m k = Some e \<and> pe_State e \<notin> {ProfileNegative, ProfileStale} \<and> pe_Profile e = None"
      using assms(3) by (intro exI [of _ k] exI [of _ e]) auto
  qed
  finally show ?thesis .
qed

theorem store_observation_panics_iff_witness:
  "\<exists>e. StoreObservation 200 [''k'', ''l''] ''l'' (Some sample_profile)
     (Quarantine 150 ''k'' [] (NewCacheManager\<lparr>m_maxProfiles := 1\<rparr>)) = Inl e"
proof -
  let ?m = "Quarantine 150 ''k'' [] (NewCacheManager\<lparr>m_maxProfiles := 1\<rparr>)"
  have ok: "cache_ok ?m" by (rule Quarantine_ok) (simp add: cache_ok_def NewCacheManager_def)
  have m: "m_entries ?m ''l'' = None" "dom (m_entries ?m) = {''k''}"
      "m_maxProfiles ?m \<le> st_ProfileEntries (m_stats ?m)"
    by (simp_all add: Quarantine_def NewCacheManager_def stats_zero_def Let_def)
  have order: "set [''k'', ''l''] = insert ''l'' (dom (m_entries ?m))" unfolding m(2) by auto
  have "\<exists>e. m_entries ?m ''k'' = Some e \<and> pe_State e = ProfileQuarantined \<and> pe_Profile e = None"
    by (simp add: Quarantine_def NewCacheManager_def Let_def)
  then show ?thesis
    using m(3)
    by (intro store_observation_panics_iff [OF ok sample_lens_valid m(1) order, THEN iffD2] conjI)
      (assumption, blast)
qed

end
