(* ===== verification/Cache_Evidence.thy ===== *)
theory Cache_Evidence
  imports Cache_Safety
begin

text \<open>
  How trust in a profile is earned and lost: the evidence ladder that leads to the
  zero-dial path, quarantine, the debounce of mismatching observations, and the watermark
  that tells the persister what is still unsaved. The theorems are about arbitrary
  sequences of calls of the cache.
\<close>

subsection \<open>Observations of a key\<close>

definition live_upd :: "string \<Rightarrow> cache_event \<Rightarrow> int \<Rightarrow> int" where
  "live_upd key ev n = (case ev of
       EvObserve now order k obs \<Rightarrow>
         if k = key \<and> rp_Source obs \<noteq> ''probe'' \<and> ValidateRecordLens (rp_RecordLens obs) then n + 1 else n
     | _ \<Rightarrow> n)"

definition live_observations :: "string \<Rightarrow> cache_event list \<Rightarrow> int" where
  "live_observations key evs = fold (live_upd key) evs 0"

lemma live_observations_snoc [simp]:
  "live_observations key (evs @ [ev]) = live_upd key ev (live_observations key evs)"
  by (simp add: live_observations_def)

lemma live_upd_mono: "n \<le> live_upd key ev n"
  by (simp add: live_upd_def split: cache_event.split)

lemma live_observations_nonneg: "0 \<le> live_observations key evs"
proof (induction evs rule: rev_induct)
  case (snoc ev evs)
  then show ?case using live_upd_mono [of "live_observations key evs" key ev] by simp
qed (simp add: live_observations_def)

text \<open>
  What the program puts into the cache: profiles read from disk and profiles of the refresh
  probe carry no ServerHello template and no live evidence; an observation of a V2 key carries
  evidence of at most one; a probe captures no template. Under a legacy key any observation may
  arrive: the handler of the handshake event stores the profile of the finished handshake there,
  on the path L2 the cached profile with all its evidence (\<open>handle_complete_ok\<close>).
\<close>

definition seed_ok :: "cache_event \<Rightarrow> bool" where
  "seed_ok ev = (case ev of
       EvStoreProfile order key p \<Rightarrow> rp_LiveEvidence p = 0 \<and> rp_ServerHelloTemplate p = []
     | EvHotSwap key p \<Rightarrow> rp_LiveEvidence p = 0 \<and> rp_ServerHelloTemplate p = []
     | EvObserve now order key obs \<Rightarrow> IsLegacyCacheKey key \<or> rp_Evidence obs \<le> 1 \<and> rp_LiveEvidence obs \<le> 1 \<and>
         (rp_Source obs = ''probe'' \<longrightarrow> rp_ServerHelloTemplate obs = [])
     | _ \<Rightarrow> True)"

definition evidence_le :: "int \<Rightarrow> RealityProfile \<Rightarrow> bool" where
  "evidence_le n p \<longleftrightarrow> 0 \<le> rp_LiveEvidence p \<and> rp_LiveEvidence p \<le> n \<and>
     (rp_LiveEvidence p = 0 \<longrightarrow> rp_Evidence p \<le> n \<or> rp_ServerHelloTemplate p = [])"

lemma evidence_le_mono: "\<lbrakk>evidence_le n p; n \<le> n'\<rbrakk> \<Longrightarrow> evidence_le n' p"
  by (auto simp: evidence_le_def)

lemma evidence_not_eligible: "\<lbrakk>evidence_le n p; profileL2Eligible now (Some p)\<rbrakk> \<Longrightarrow> 2 \<le> n"
  by (auto simp: evidence_le_def profileL2Eligible_def Let_def split: if_splits)

lemma normalize_obs_fields [simp]:
  "rp_Source (normalize_obs obs) = rp_Source obs" "rp_Evidence (normalize_obs obs) = rp_Evidence obs"
  "rp_ServerHelloTemplate (normalize_obs obs) = rp_ServerHelloTemplate obs"
  "rp_LiveEvidence (normalize_obs obs) = (if rp_Source obs = ''probe'' then 0 else rp_LiveEvidence obs)"
  by (simp_all add: normalize_obs_def Let_def)

lemma stamped_evidence:
  assumes "0 \<le> n"
  shows "evidence_le (n + (if rp_Source obs = ''probe'' then 0 else 1)) (calibrated obs)"
    and "evidence_le (n + (if rp_Source obs = ''probe'' then 0 else 1)) (suspect_candidate obs)"
  using assms by (simp_all add: evidence_le_def calibrated_def suspect_candidate_def stamp_evidence_def Let_def)

lemma first_observation_evidence:
  assumes "0 \<le> n" and "rp_Evidence obs \<le> 1" and "rp_LiveEvidence obs \<le> 1"
  shows "evidence_le (n + (if rp_Source obs = ''probe'' then 0 else 1)) (first_observation obs)"
  using assms by (auto simp: evidence_le_def first_observation_def stamp_evidence_def Let_def)

lemma merge_observation_fields:
  "rp_LiveEvidence (merge_observation cur obs) =
     rp_LiveEvidence cur + (if rp_Source obs = ''probe'' then 0 else 1)"
  "rp_Evidence (merge_observation cur obs) = rp_Evidence cur + (if rp_Source obs = ''probe'' then 0 else 1)"
  "rp_ServerHelloTemplate (merge_observation cur obs) =
     (if rp_ServerHelloTemplate obs = [] then rp_ServerHelloTemplate cur else rp_ServerHelloTemplate obs)"
  by (simp_all add: merge_observation_def Let_def)

lemma merge_observation_evidence:
  assumes "evidence_le n cur" and "rp_Source obs = ''probe'' \<longrightarrow> rp_ServerHelloTemplate obs = []"
  shows "evidence_le (n + (if rp_Source obs = ''probe'' then 0 else 1)) (merge_observation cur obs)"
  using assms by (auto simp: evidence_le_def merge_observation_fields)

subsection \<open>The ladder as an invariant of the cache\<close>

definition ladder_ok :: "(string \<Rightarrow> int) \<Rightarrow> entries \<Rightarrow> bool" where
  "ladder_ok n es \<longleftrightarrow> (\<forall>key e p. \<not> IsLegacyCacheKey key \<and> es key = Some e \<and> pe_Profile e = Some p \<longrightarrow> evidence_le (n key) p)"

lemma ladder_okD:
  "\<lbrakk>ladder_ok n es; es key = Some e; pe_Profile e = Some p; \<not> IsLegacyCacheKey key\<rbrakk> \<Longrightarrow> evidence_le (n key) p"
  by (auto simp: ladder_ok_def)

lemma ladder_ok_set:
  "\<lbrakk>ladder_ok n es; \<And>p. \<lbrakk>\<not> IsLegacyCacheKey key; pe_Profile e = Some p\<rbrakk> \<Longrightarrow> evidence_le (n key) p\<rbrakk> \<Longrightarrow> ladder_ok n (es(key \<mapsto> e))"
  by (auto simp: ladder_ok_def)

lemma ladder_ok_set_same:
  "\<lbrakk>ladder_ok n es; es key = Some e; pe_Profile e' = pe_Profile e\<rbrakk> \<Longrightarrow> ladder_ok n (es(key \<mapsto> e'))"
  by (auto simp: ladder_ok_def)

lemma ladder_ok_set_none:
  "\<lbrakk>ladder_ok n es; pe_Profile e = None\<rbrakk> \<Longrightarrow> ladder_ok n (es(key \<mapsto> e))"
  by (auto simp: ladder_ok_def)

lemma ladder_ok_delete: "ladder_ok n es \<Longrightarrow> ladder_ok n (es(key := None))"
  by (auto simp: ladder_ok_def)

lemma ladder_ok_mono: "\<lbrakk>ladder_ok n es; \<And>key. n key \<le> n' key\<rbrakk> \<Longrightarrow> ladder_ok n' es"
  unfolding ladder_ok_def using evidence_le_mono by blast

lemma ladder_ok_evict:
  "\<lbrakk>ladder_ok n (m_entries m); evictIfFull order m = Inr m'\<rbrakk> \<Longrightarrow> ladder_ok n (m_entries m')"
  using evictIfFull_cases [of order m m'] by (auto simp: ladder_ok_delete)

lemma ladder_ok_staled: "\<lbrakk>ladder_ok n es; staled es es'\<rbrakk> \<Longrightarrow> ladder_ok n es'"
proof -
  assume l: "ladder_ok n es" and s: "staled es es'"
  have "evidence_le (n key) p" if "es' key = Some e" "pe_Profile e = Some p" "\<not> IsLegacyCacheKey key" for key e p
  proof (rule staled_cases [OF s, of key])
    assume "es' key = es key"
    then have "es key = Some e" using that by simp
    then show ?thesis using that ladder_okD [OF l] by blast
  next
    fix e0
    assume "es key = Some e0" "es' key = Some (set_state ProfileStale e0)"
    then show ?thesis using that ladder_okD [OF l] by fastforce
  qed
  then show ?thesis by (simp add: ladder_ok_def)
qed

lemma evidence_le_drop:
  "\<lbrakk>0 \<le> n; evidence_le n p\<rbrakk> \<Longrightarrow> evidence_le n (p\<lparr>rp_Evidence := 0\<rparr>)"
  by (simp add: evidence_le_def)

lemma observe_present_ladder:
  assumes "ladder_ok n (m_entries m)" and "m_entries m key = Some entry" and "\<And>k. 0 \<le> n k"
    and "IsLegacyCacheKey key \<or> (rp_Source obs = ''probe'' \<longrightarrow> rp_ServerHelloTemplate obs = [])"
  shows "ladder_ok (n(key := n key + (if rp_Source obs = ''probe'' then 0 else 1)))
    (m_entries (observe_present now key entry obs m))"
proof -
  let ?n = "n(key := n key + (if rp_Source obs = ''probe'' then 0 else 1))"
  have l: "ladder_ok ?n (m_entries m)" by (rule ladder_ok_mono [OF assms(1)]) simp
  have c: "evidence_le (?n key) (calibrated obs)" "evidence_le (?n key) (suspect_candidate obs)"
    using stamped_evidence [OF assms(3) [of key]] by simp_all
  have cur: "evidence_le (?n key) (merge_observation cur obs)"
    if "pe_Profile entry = Some cur" "\<not> IsLegacyCacheKey key" for cur
    using merge_observation_evidence [OF ladder_okD [OF assms(1,2) that], of obs] assms(4) that(2) by simp
  show ?thesis
    using l c cur
    by (auto simp: observe_present_def Let_def set_state_def simp del: fun_upd_apply
        intro!: ladder_ok_set split: option.split)
qed

lemma StoreObservation_ladder:
  assumes "ladder_ok n (m_entries m)" and "\<And>k. 0 \<le> n k" and "seed_ok (EvObserve now order key obs)"
    and "StoreObservation now order key (Some obs) m = Inr (r, m')"
  shows "ladder_ok (\<lambda>k. live_upd k (EvObserve now order key obs) (n k)) (m_entries m')"
proof (cases "ValidateRecordLens (rp_RecordLens obs)")
  case False
  then have "m' = m" using assms(4) by (simp add: StoreObservation_def)
  then show ?thesis using assms(1) by (auto intro: ladder_ok_mono live_upd_mono)
next
  case True
  let ?n = "n(key := n key + (if rp_Source obs = ''probe'' then 0 else 1))"
  have n: "(\<lambda>k. live_upd k (EvObserve now order key obs) (n k)) = ?n"
    using True by (auto simp: live_upd_def)
  have "ladder_ok ?n (m_entries m')"
  proof (cases "m_entries m key")
    case None
    have "evidence_le (?n key) (first_observation (normalize_obs obs))" if "\<not> IsLegacyCacheKey key"
      using that first_observation_evidence [of "n key" "normalize_obs obs"] assms(2,3)
      by (auto simp: seed_ok_def)
    moreover have "ladder_ok ?n (m_entries m)" by (rule ladder_ok_mono [OF assms(1)]) simp
    ultimately have "ladder_ok ?n (m_entries (MarkDirty (add_entries 1 (set_entry key
        (newEntry (m_baseTTL m) (Some (first_observation (normalize_obs obs)))) m))))"
      by (auto simp: newEntry_def simp del: fun_upd_apply intro!: ladder_ok_set)
    moreover have "evictIfFull order (MarkDirty (add_entries 1 (set_entry key
        (newEntry (m_baseTTL m) (Some (first_observation (normalize_obs obs)))) m))) = Inr m'"
      using StoreObservation_new [OF None True, of now order] assms(4) by simp
    ultimately show ?thesis by (rule ladder_ok_evict)
  next
    case (Some e)
    then have "m' = observe_present now key e (normalize_obs obs) m"
      using assms(4) True by (simp add: StoreObservation_def Let_def)
    then show ?thesis
      using observe_present_ladder [OF assms(1) Some assms(2), of "normalize_obs obs" now] assms(3)
      by (auto simp: seed_ok_def)
  qed
  then show ?thesis by (simp only: n)
qed

lemma StoreProfile_ladder:
  assumes "ladder_ok n (m_entries m)" and "\<And>k. 0 \<le> n k"
    and "rp_LiveEvidence p = 0" and "rp_ServerHelloTemplate p = []"
    and "StoreProfile order key (Some p) m = Inr (r, m')"
  shows "ladder_ok n (m_entries m')"
proof (cases "m_entries m key")
  case None
  have "ladder_ok n (m_entries (MarkDirty (add_entries 1 (set_entry key (newEntry (m_baseTTL m) (Some p)) m))))"
    using assms(1-4) by (auto simp: newEntry_def evidence_le_def simp del: fun_upd_apply intro!: ladder_ok_set)
  moreover have "evictIfFull order (MarkDirty (add_entries 1 (set_entry key (newEntry (m_baseTTL m) (Some p)) m))) = Inr m'"
    using assms(5) None by (auto simp: StoreProfile_def Let_def split: sum.splits)
  ultimately show ?thesis by (rule ladder_ok_evict)
qed (use assms in \<open>simp add: StoreProfile_def\<close>)

text \<open>The calls that bring no profile of their own.\<close>

lemma GetProfile_ladder:
  "\<lbrakk>ladder_ok n (m_entries m); GetProfile now key m = Inr (r, m')\<rbrakk> \<Longrightarrow> ladder_ok n (m_entries m')"
  by (cases "m_entries m key")
    (auto simp: GetProfile_def ladder_ok_delete simp del: fun_upd_apply
      split: ProfileState.splits sum.splits if_splits intro!: ladder_ok_set_same)

lemma MarkStale_ladder: "ladder_ok n (m_entries m) \<Longrightarrow> ladder_ok n (m_entries (MarkStale key m))"
  by (cases "m_entries m key")
    (auto simp: MarkStale_def Let_def simp del: fun_upd_apply intro!: ladder_ok_set_same)

lemma MarkNegative_ladder: "ladder_ok n (m_entries m) \<Longrightarrow> ladder_ok n (m_entries (MarkNegative now key m))"
  by (cases "m_entries m key")
    (auto simp: MarkNegative_def Let_def simp del: fun_upd_apply intro: ladder_ok_set_same ladder_ok_set_none)

lemma drop_evidence_ladder:
  assumes "ladder_ok n es" and "0 \<le> n key" and "es key = Some e" and "pe_Profile e' = pe_Profile e"
  shows "ladder_ok n (es(key \<mapsto> drop_evidence e'))"
proof (rule ladder_ok_set [OF assms(1)])
  fix p
  assume v2: "\<not> IsLegacyCacheKey key" and "pe_Profile (drop_evidence e') = Some p"
  then obtain q where "pe_Profile e = Some q" "p = q\<lparr>rp_Evidence := 0\<rparr>"
    using assms(4) by (auto simp: drop_evidence_def)
  then show "evidence_le (n key) p"
    using evidence_le_drop [OF assms(2)] ladder_okD [OF assms(1,3)] v2 by blast
qed

lemma Quarantine_ladder:
  "\<lbrakk>ladder_ok n (m_entries m); 0 \<le> n key\<rbrakk> \<Longrightarrow> ladder_ok n (m_entries (Quarantine now key reason m))"
  by (cases "m_entries m key")
    (auto simp: Quarantine_def Let_def simp del: fun_upd_apply intro: drop_evidence_ladder ladder_ok_set_none)

lemma NoteHandshakeFailure_ladder:
  "\<lbrakk>ladder_ok n (m_entries m); 0 \<le> n key\<rbrakk> \<Longrightarrow>
   ladder_ok n (m_entries (NoteHandshakeFailure now key path m))"
  by (cases "m_entries m key")
    (auto simp: NoteHandshakeFailure_def Let_def simp del: fun_upd_apply
      intro: drop_evidence_ladder ladder_ok_set_same)

lemma InvalidateProfile_ladder: "ladder_ok n (m_entries m) \<Longrightarrow> ladder_ok n (m_entries (InvalidateProfile key m))"
  by (auto simp: InvalidateProfile_def ladder_ok_delete split: option.split)

lemma fold_ladder:
  assumes "\<And>k m. ladder_ok n (m_entries m) \<Longrightarrow> ladder_ok n (m_entries (f k m))"
  shows "ladder_ok n (m_entries m) \<Longrightarrow> ladder_ok n (m_entries (fold f ks m))"
  by (induction ks arbitrary: m) (simp_all add: assms)

lemma cache_step_ladder:
  assumes "ladder_ok n (m_entries m)" and "\<And>k. 0 \<le> n k" and "seed_ok ev" and "cache_step ev m = Inr m'"
  shows "ladder_ok (\<lambda>k. live_upd k ev (n k)) (m_entries m')"
proof (cases "\<exists>now order key obs. ev = EvObserve now order key obs")
  case True
  then obtain now order key obs r where "ev = EvObserve now order key obs"
      "StoreObservation now order key (Some obs) m = Inr (r, m')"
    using assms(4) by (auto simp: cache_step_def map_sum_Inr)
  then show ?thesis using StoreObservation_ladder [OF assms(1,2)] assms(3) by blast
next
  case False
  then have n: "(\<lambda>k. live_upd k ev (n k)) = n" by (auto simp: live_upd_def split: cache_event.split)
  have "ladder_ok n (m_entries m')"
  proof (cases ev)
    case (EvGetProfile now key)
    then show ?thesis using assms GetProfile_ladder by (auto simp: cache_step_def map_sum_Inr)
  next
    case (EvStoreProfile order key p)
    then show ?thesis using assms StoreProfile_ladder [OF assms(1,2), of p order key]
      by (auto simp: cache_step_def map_sum_Inr seed_ok_def)
  next
    case (EvHotSwap key p)
    then show ?thesis using assms
      by (auto simp: cache_step_def seed_ok_def HotSwapProfile_def Let_def newEntry_def evidence_le_def
          simp del: fun_upd_apply intro!: ladder_ok_set)
  next
    case (EvLookup now mode dest sn alpn ver ch soft lc lg)
    then have "m' = snd (lookupAmortize now mode dest sn alpn ver ch soft lc lg m)"
      using assms(4) by (simp add: cache_step_def)
    then show ?thesis using ladder_ok_staled [OF assms(1)] lookupAmortize_state(1) by blast
  next
    case (EvInvalidateAll order)
    then have m': "m' = InvalidateAll order m" using assms(4) by (simp add: cache_step_def)
    have "ladder_ok n (m_entries (fold (\<lambda>key m. upd_stats (st_ProfileInvalidated_update (\<lambda>n. n + 1))
        (add_entries (-1) (delete_entry key m))) (range_keys order (m_entries m)) m))"
      by (rule fold_ladder [OF _ assms(1)]) (simp add: ladder_ok_delete)
    then show ?thesis by (simp add: m' InvalidateAll_def)
  next
    case (EvReprobe order dest sn alpn)
    then have m': "m' = InvalidateAndReprobe order dest sn alpn m" using assms(4) by (simp add: cache_step_def)
    show ?thesis unfolding m' InvalidateAndReprobe_def Let_def
      by (rule fold_ladder [OF InvalidateProfile_ladder InvalidateProfile_ladder [OF assms(1)]])
  qed (use assms False MarkStale_ladder MarkNegative_ladder InvalidateProfile_ladder
      Quarantine_ladder NoteHandshakeFailure_ladder in \<open>auto simp: cache_step_def\<close>)
  then show ?thesis by (simp only: n)
qed

lemma cache_run_ladder:
  "\<lbrakk>\<forall>ev \<in> set evs. seed_ok ev; cache_run evs NewCacheManager = Inr m\<rbrakk> \<Longrightarrow>
   ladder_ok (\<lambda>key. live_observations key evs) (m_entries m)"
proof (induction evs arbitrary: m rule: rev_induct)
  case Nil
  then show ?case by (auto simp: ladder_ok_def NewCacheManager_def)
next
  case (snoc ev evs)
  then obtain m1 where 1: "cache_run evs NewCacheManager = Inr m1" "cache_step ev m1 = Inr m"
    by (auto simp: cache_run_snoc)
  then have "ladder_ok (\<lambda>key. live_observations key evs) (m_entries m1)" using snoc by simp
  from cache_step_ladder [OF this live_observations_nonneg _ 1(2)] show ?case using snoc.prems by simp
qed

text \<open>
  The handler that \<open>RegisterCacheHandlers\<close> subscribes to \<open>EventHandshakeComplete\<close>. Its key is a legacy
  key, since the configured server names and the negotiated protocols have no separator.
\<close>

definition handle_complete :: "gotime \<Rightarrow> string list \<Rightarrow> string \<Rightarrow> string \<Rightarrow> u16 \<Rightarrow> RealityProfile option \<Rightarrow>
    CacheManager \<Rightarrow> CacheManager may_panic" where
  "handle_complete now order serverName alpn tlsVersion profile m =
     (case profile of
        None \<Rightarrow> Inr m
      | Some p \<Rightarrow> map_sum id snd (StoreObservation now order (CacheKey serverName alpn tlsVersion) (Some p) m))"

lemma handle_complete_ok:
  assumes "CHR ''|'' \<notin> set serverName" "CHR ''|'' \<notin> set alpn"
  shows "seed_ok (EvObserve now order (CacheKey serverName alpn tlsVersion) p)"
    and "handle_complete now order serverName alpn tlsVersion (Some p) m =
      cache_step (EvObserve now order (CacheKey serverName alpn tlsVersion) p) m"
proof -
  have "count_list serverName CHR ''|'' = 0" "count_list alpn CHR ''|'' = 0"
    using assms by (simp_all add: count_list_0_iff)
  then have "IsLegacyCacheKey (CacheKey serverName alpn tlsVersion)" by (simp add: CacheKey_legacy_iff)
  then show "seed_ok (EvObserve now order (CacheKey serverName alpn tlsVersion) p)" by (simp add: seed_ok_def)
qed (simp add: handle_complete_def cache_step_def)

subsection \<open>Quarantine\<close>

definition quarantined :: "string \<Rightarrow> gotime \<Rightarrow> CacheManager \<Rightarrow> bool" where
  "quarantined key t m \<longleftrightarrow>
     (\<exists>e. m_entries m key = Some e \<and> pe_State e = ProfileQuarantined \<and> t \<le> pe_NextRetry e)"

text \<open>Calls that neither replace nor delete the entry of the key, and observe it only before \<open>t\<close>.\<close>

definition quiet :: "string \<Rightarrow> gotime \<Rightarrow> cache_event \<Rightarrow> bool" where
  "quiet key t ev = (case ev of
       EvHotSwap k p \<Rightarrow> k \<noteq> key
     | EvMarkNegative now k \<Rightarrow> k \<noteq> key
     | EvInvalidate k \<Rightarrow> k \<noteq> key
     | EvInvalidateAll order \<Rightarrow> False
     | EvReprobe order dest sn alpn \<Rightarrow> False
     | EvObserve now order k obs \<Rightarrow> k = key \<longrightarrow> now < t
     | EvFailure now k path \<Rightarrow> k = key \<longrightarrow> t - QuarantineCooldown \<le> now
     | EvQuarantine now k \<Rightarrow> k = key \<longrightarrow> t - QuarantineCooldown \<le> now
     | _ \<Rightarrow> True)"

lemma evictIfFull_room: "st_ProfileEntries (m_stats m) \<le> m_maxProfiles m \<Longrightarrow> evictIfFull order m = Inr m"
  by (simp add: evictIfFull_def)

lemma entry_ok_FailCount: "\<lbrakk>cache_ok m; m_entries m key = Some e\<rbrakk> \<Longrightarrow> 0 \<le> pe_FailCount e"
  using cache_ok_entry [of m key e] by (simp add: entry_ok_def)

lemma quarantined_fields [simp]:
  "quarantined key t (upd_stats f m) = quarantined key t m"
  "quarantined key t (MarkDirty m) = quarantined key t m"
  "quarantined key t (add_entries k m) = quarantined key t m"
  "quarantined key t (PersistSnapshot n m) = quarantined key t m"
  by (simp_all add: quarantined_def)

lemma quarantined_set:
  "quarantined key t (set_entry k e m) \<longleftrightarrow>
   (if k = key then pe_State e = ProfileQuarantined \<and> t \<le> pe_NextRetry e else quarantined key t m)"
  by (simp add: quarantined_def)

lemma quarantined_delete: "k \<noteq> key \<Longrightarrow> quarantined key t (delete_entry k m) = quarantined key t m"
  by (simp add: quarantined_def)

lemma quarantined_staled:
  assumes "quarantined key t m" and "staled (m_entries m) (m_entries m')"
  shows "quarantined key t m'"
  using assms(1) by (rule_tac staled_cases [OF assms(2), of key]) (auto simp: quarantined_def)

lemma quarantined_GetProfile:
  "\<lbrakk>quarantined key t m; GetProfile now k m = Inr (r, m')\<rbrakk> \<Longrightarrow> quarantined key t m'"
  by (cases "k = key"; cases "m_entries m k")
    (auto simp: GetProfile_def quarantined_def quarantined_set quarantined_delete
      split: ProfileState.splits sum.splits if_splits)

lemma quarantined_step:
  assumes "quarantined key t m" and "quiet key t ev" and "cache_step ev m = Inr m'"
    and "st_ProfileEntries (m_stats m) + 1 \<le> m_maxProfiles m"
  shows "quarantined key t m'"
proof (cases ev)
  case (EvGetProfile now k)
  then show ?thesis using assms quarantined_GetProfile by (auto simp: cache_step_def map_sum_Inr)
next
  case (EvStoreProfile order k p)
  then show ?thesis using assms
    by (auto simp: cache_step_def StoreProfile_def Let_def evictIfFull_room quarantined_set
        quarantined_def split: option.splits)
next
  case (EvObserve now order k obs)
  obtain e where e: "m_entries m key = Some e" "pe_State e = ProfileQuarantined" "t \<le> pe_NextRetry e"
    using assms(1) by (auto simp: quarantined_def)
  show ?thesis
  proof (cases "k = key")
    case True
    then show ?thesis using assms EvObserve e
      by (auto simp: cache_step_def StoreObservation_def Let_def observe_present_def quiet_def split: if_splits)
  next
    case False
    then have "m_entries (observe_present now k e' o' m) key = m_entries m key" for e' o'
      by (simp add: observe_present_def Let_def split: option.split)
    then show ?thesis using assms(3,4) EvObserve e False
      by (auto simp: cache_step_def StoreObservation_def Let_def evictIfFull_room quarantined_def
          split: option.splits if_splits)
  qed
next
  case (EvLookup now mode dest sn alpn ver ch soft lc lg)
  then show ?thesis
    using assms(1,3) quarantined_staled [OF _ lookupAmortize_state(1)] by (auto simp: cache_step_def)
next
  case (EvFailure now k path)
  show ?thesis
  proof (cases "k = key")
    case True
    then show ?thesis using assms(1-3) EvFailure
      by (auto simp: cache_step_def NoteHandshakeFailure_def Let_def quarantined_def quiet_def
          set_state_def drop_evidence_def split: if_splits)
  next
    case False
    then show ?thesis using assms(1,3) EvFailure
      by (auto simp: cache_step_def NoteHandshakeFailure_def Let_def quarantined_set split: option.splits)
  qed
next
  case (EvQuarantine now k)
  then show ?thesis using assms(1-3)
    by (cases "k = key"; cases "m_entries m k")
      (auto simp: cache_step_def Quarantine_def Let_def quarantined_set set_state_def drop_evidence_def quiet_def)
next
  case (EvMarkStale k)
  then show ?thesis using assms(1,3)
    by (cases "m_entries m k"; cases "k = key")
      (auto simp: cache_step_def MarkStale_def Let_def quarantined_set quarantined_def)
next
  case (EvMarkNegative now k)
  then show ?thesis using assms(1-3)
    by (cases "m_entries m k") (auto simp: cache_step_def MarkNegative_def Let_def quarantined_set quiet_def)
qed (use assms in \<open>auto simp: cache_step_def quiet_def HotSwapProfile_def InvalidateProfile_def Let_def
      quarantined_set quarantined_delete split: option.splits\<close>)

subsection \<open>No call adds more than one entry\<close>

definition grows :: "CacheManager \<Rightarrow> CacheManager \<Rightarrow> bool" where
  "grows m m' \<longleftrightarrow> st_ProfileEntries (m_stats m') \<le> st_ProfileEntries (m_stats m) + 1 \<and>
     m_maxProfiles m' = m_maxProfiles m"

lemma grows_refl [simp]: "grows m m"
  by (simp add: grows_def)

lemma grows_evict: "\<lbrakk>evictIfFull order m1 = Inr m'; st_ProfileEntries (m_stats m1) \<le> st_ProfileEntries (m_stats m) + 1;
    m_maxProfiles m1 = m_maxProfiles m\<rbrakk> \<Longrightarrow> grows m m'"
  using evictIfFull_cases [of order m1 m'] by (auto simp: grows_def)

lemma fold_invalidate_shrinks:
  "st_ProfileEntries (m_stats (fold InvalidateProfile ks m)) \<le> st_ProfileEntries (m_stats m) \<and>
   m_maxProfiles (fold InvalidateProfile ks m) = m_maxProfiles m"
proof (induction ks arbitrary: m)
  case (Cons k ks)
  have "st_ProfileEntries (m_stats (InvalidateProfile k m)) \<le> st_ProfileEntries (m_stats m)"
      "m_maxProfiles (InvalidateProfile k m) = m_maxProfiles m"
    by (simp_all add: InvalidateProfile_def split: option.split)
  then show ?case using Cons [of "InvalidateProfile k m"] by simp
qed simp

lemma fold_delete_shrinks:
  "st_ProfileEntries (m_stats (fold (\<lambda>key m. upd_stats (st_ProfileInvalidated_update f)
      (add_entries (-1) (delete_entry key m))) ks m)) \<le> st_ProfileEntries (m_stats m) \<and>
   m_maxProfiles (fold (\<lambda>key m. upd_stats (st_ProfileInvalidated_update f)
      (add_entries (-1) (delete_entry key m))) ks m) = m_maxProfiles m"
proof (induction ks arbitrary: m)
  case (Cons k ks)
  then show ?case
    using Cons [of "upd_stats (st_ProfileInvalidated_update f) (add_entries (-1) (delete_entry k m))"] by simp
qed simp

lemma observe_present_grows: "grows m (observe_present now key e obs m)"
  by (simp add: grows_def observe_present_def Let_def split: option.split)

lemma cache_step_grows:
  assumes "cache_step ev m = Inr m'"
  shows "grows m m'"
proof (cases ev)
  case (EvGetProfile now key)
  then show ?thesis using assms
    by (cases "m_entries m key")
      (auto simp: cache_step_def map_sum_Inr GetProfile_def grows_def
        split: ProfileState.splits sum.splits if_splits)
next
  case (EvStoreProfile order key p)
  then show ?thesis using assms
    by (auto simp: cache_step_def map_sum_Inr StoreProfile_def Let_def
        intro: grows_evict split: option.splits sum.splits)
next
  case (EvObserve now order key obs)
  then show ?thesis using assms observe_present_grows
    by (auto simp: cache_step_def map_sum_Inr StoreObservation_def Let_def
        intro: grows_evict split: option.splits sum.splits if_splits)
next
  case (EvInvalidateAll order)
  then show ?thesis
    using assms fold_delete_shrinks [of "\<lambda>n. n + 1" "range_keys order (m_entries m)" m]
    by (auto simp: cache_step_def InvalidateAll_def grows_def)
next
  case (EvReprobe order dest sn alpn)
  have "grows m (InvalidateAndReprobe order dest sn alpn m)"
    using fold_invalidate_shrinks [of "CacheKey sn alpn 0x0304 #
        filter (reprobe_matches dest sn alpn) order" m]
    by (simp add: InvalidateAndReprobe_def Let_def grows_def)
  then show ?thesis using assms EvReprobe by (simp add: cache_step_def)
next
  case (EvInvalidate key)
  then show ?thesis using assms fold_invalidate_shrinks [of "[key]" m] by (auto simp: cache_step_def grows_def)
next
  case (EvLookup now mode dest sn alpn ver ch soft lc lg)
  then show ?thesis using assms by (auto simp: cache_step_def grows_def lookupAmortize_state)
qed (use assms in \<open>auto simp: cache_step_def grows_def HotSwapProfile_def MarkStale_def MarkNegative_def
      Quarantine_def NoteHandshakeFailure_def PersistSnapshot_def Let_def split: option.splits if_splits\<close>)

lemma quarantined_run:
  "\<lbrakk>cache_run evs m = Inr m'; quarantined key t m; \<forall>ev \<in> set evs. quiet key t ev;
    st_ProfileEntries (m_stats m) + int (length evs) \<le> m_maxProfiles m\<rbrakk> \<Longrightarrow>
   quarantined key t m' \<and> st_ProfileEntries (m_stats m') \<le> st_ProfileEntries (m_stats m) + int (length evs) \<and>
   m_maxProfiles m' = m_maxProfiles m"
proof (induction evs arbitrary: m' rule: rev_induct)
  case (snoc ev evs)
  then obtain m1 where 1: "cache_run evs m = Inr m1" "cache_step ev m1 = Inr m'"
    by (auto simp: cache_run_snoc)
  have IH: "quarantined key t m1" "m_maxProfiles m1 = m_maxProfiles m"
      "st_ProfileEntries (m_stats m1) \<le> st_ProfileEntries (m_stats m) + int (length evs)"
    using snoc.IH [OF 1(1)] snoc.prems by auto
  then have "quarantined key t m'"
    using quarantined_step [OF IH(1) _ 1(2)] snoc.prems by auto
  then show ?case using IH cache_step_grows [OF 1(2)] by (auto simp: grows_def)
qed auto

lemma lookup_not_quarantined:
  assumes "quarantined key t m" and "lookupAmortize now mode dest sn alpn ver ch soft lc lg m = (r, m')"
    and "lr_Path r \<noteq> PathL0"
  shows "lr_Key r \<noteq> key"
proof -
  have "ResolveAmortizeMode mode \<noteq> AmortizeL0"
    using assms(2,3) by (auto simp: lookupAmortize_probe_keys lookup_L0_def)
  then have "probe_keys (lookup_probe now (ResolveAmortizeMode mode) ver lc lg)
      (lookup_keys dest sn alpn ver ch soft) m = (r, m')"
    using assms(2) by (simp add: lookupAmortize_probe_keys)
  then obtain k m0 where k: "staled (m_entries m) (m_entries m0)"
      "lookup_probe now (ResolveAmortizeMode mode) ver lc lg k m0 = (Some r, m')"
    using probe_keys_result assms(3) by (fastforce simp: lookup_L0_def)
  obtain p where "lr_Key r = k" "l1_allowed m0 k p" using lookup_probe_result [OF k(2)] by blast
  then show ?thesis using quarantined_staled [OF assms(1) k(1)] by (auto simp: l1_allowed_def quarantined_def)
qed

subsection \<open>The dirty counter\<close>

definition profiles :: "CacheManager \<Rightarrow> string \<rightharpoonup> RealityProfile" where
  "profiles m = (\<lambda>key. Option.bind (m_entries m key) pe_Profile)"

text \<open>A step either counts a mutation or keeps every stored profile.\<close>

definition accounted :: "CacheManager \<Rightarrow> CacheManager \<Rightarrow> bool" where
  "accounted m m' \<longleftrightarrow> m_dirty m \<le> m_dirty m' \<and> (m_dirty m' = m_dirty m \<longrightarrow> profiles m' = profiles m)"

lemma accounted_refl [simp]: "accounted m m"
  by (simp add: accounted_def)

lemma accounted_trans: "\<lbrakk>accounted a b; accounted b c\<rbrakk> \<Longrightarrow> accounted a c"
  by (auto simp: accounted_def)

lemma dirty_fields [simp]:
  "m_dirty (MarkDirty m) = m_dirty m + 1" "m_dirty (upd_stats f m) = m_dirty m"
  "m_dirty (add_entries k m) = m_dirty m" "m_dirty (set_entry key e m) = m_dirty m"
  "m_dirty (delete_entry key m) = m_dirty m" "m_dirty (PersistSnapshot n m) = m_dirty m"
  by (simp_all add: cache_defs PersistSnapshot_def)

lemma profiles_set:
  "profiles (set_entry key e m) = (profiles m)(key := pe_Profile e)"
  by (auto simp: profiles_def)

lemma profiles_same: "\<lbrakk>m_entries m key = Some e; pe_Profile e' = pe_Profile e\<rbrakk> \<Longrightarrow> profiles (set_entry key e' m) = profiles m"
  by (auto simp: profiles_def)

lemma profiles_absent: "\<lbrakk>m_entries m key = None; pe_Profile e = None\<rbrakk> \<Longrightarrow> profiles (set_entry key e m) = profiles m"
  by (auto simp: profiles_def)

lemma profiles_irrelevant [simp]:
  "profiles (upd_stats f m) = profiles m" "profiles (add_entries k m) = profiles m"
  "profiles (MarkDirty m) = profiles m" "profiles (PersistSnapshot n m) = profiles m"
  by (simp_all add: profiles_def)

lemma evictIfFull_dirty: "evictIfFull order m = Inr m' \<Longrightarrow> m_dirty m' = m_dirty m"
  using evictIfFull_cases [of order m m'] by auto

lemma profiles_staled: "staled (m_entries m) (m_entries m') \<Longrightarrow> profiles m' = profiles m"
proof -
  assume s: "staled (m_entries m) (m_entries m')"
  have "Option.bind (m_entries m' key) pe_Profile = Option.bind (m_entries m key) pe_Profile" for key
    by (rule staled_cases [OF s, of key]) simp_all
  then show ?thesis by (simp add: profiles_def)
qed

lemma InvalidateProfile_accounted: "accounted m (InvalidateProfile key m)"
  by (simp add: accounted_def InvalidateProfile_def split: option.split)

lemma fold_invalidate_accounted: "accounted m (fold InvalidateProfile ks m)"
proof (induction ks arbitrary: m)
  case (Cons k ks)
  then show ?case using accounted_trans [OF InvalidateProfile_accounted [of m k]] by simp
qed simp

lemma fold_delete_dirty:
  "m_dirty (fold (\<lambda>key m. upd_stats f (add_entries (-1) (delete_entry key m))) ks m) = m_dirty m"
  by (induction ks arbitrary: m) simp_all

lemma observe_present_accounted: "m_entries m key = Some e \<Longrightarrow> accounted m (observe_present now key e obs m)"
  by (simp add: accounted_def observe_present_def Let_def split: option.split)

lemma cache_step_accounted:
  assumes "cache_step ev m = Inr m'" and "\<And>now key. ev \<noteq> EvGetProfile now key"
  shows "accounted m m'"
proof (cases ev)
  case (EvStoreProfile order key p)
  then show ?thesis using assms
    by (auto simp: cache_step_def map_sum_Inr StoreProfile_def Let_def accounted_def
        dest!: evictIfFull_dirty split: option.splits sum.splits)
next
  case (EvObserve now order key obs)
  then show ?thesis using assms observe_present_accounted
    by (auto simp: cache_step_def map_sum_Inr StoreObservation_def Let_def accounted_def [of m m']
        dest!: evictIfFull_dirty split: option.splits sum.splits if_splits; fastforce simp: accounted_def)
next
  case (EvLookup now mode dest sn alpn ver ch soft lc lg)
  then show ?thesis using assms profiles_staled [OF lookupAmortize_state(1)]
    by (auto simp: cache_step_def accounted_def lookupAmortize_state)
next
  case (EvInvalidateAll order)
  then show ?thesis using assms by (auto simp: cache_step_def InvalidateAll_def accounted_def fold_delete_dirty)
next
  case (EvReprobe order dest sn alpn)
  have "accounted m (InvalidateAndReprobe order dest sn alpn m)"
    using fold_invalidate_accounted [of m "CacheKey sn alpn 0x0304 #
        filter (reprobe_matches dest sn alpn) order"]
    by (simp add: InvalidateAndReprobe_def Let_def)
  then show ?thesis using assms EvReprobe by (simp add: cache_step_def)
next
  case (EvMarkStale key)
  then show ?thesis using assms
    by (cases "m_entries m key")
      (auto simp: cache_step_def accounted_def MarkStale_def Let_def intro!: profiles_same)
next
  case (EvMarkNegative now key)
  then show ?thesis using assms
    by (cases "m_entries m key")
      (auto simp: cache_step_def accounted_def MarkNegative_def Let_def profiles_absent intro!: profiles_same)
qed (use assms InvalidateProfile_accounted in \<open>auto simp: cache_step_def accounted_def HotSwapProfile_def
      Quarantine_def NoteHandshakeFailure_def Let_def split: option.splits if_splits\<close>)

lemma cache_run_accounted:
  "\<lbrakk>cache_run evs m = Inr m'; \<forall>now key. EvGetProfile now key \<notin> set evs\<rbrakk> \<Longrightarrow> accounted m m'"
proof (induction evs arbitrary: m' rule: rev_induct)
  case (snoc ev evs)
  then obtain m1 where 1: "cache_run evs m = Inr m1" "cache_step ev m1 = Inr m'"
    by (auto simp: cache_run_snoc)
  have "accounted m1 m'" by (rule cache_step_accounted [OF 1(2)]) (use snoc.prems(2) in auto)
  moreover have "accounted m m1" using snoc.IH [OF 1(1)] snoc.prems(2) by auto
  ultimately show ?case using accounted_trans by blast
qed simp

subsection \<open>Mismatching observations\<close>

lemma profilesMatch_stamp:
  "profilesMatch (Some (stamp_evidence a b c obs)) (Some obs)"
  by (simp add: profilesMatch_def stamp_evidence_def Let_def list_ex_iff)

lemma normalize_obs_idem [simp]: "normalize_obs (normalize_obs obs) = normalize_obs obs"
  by (simp add: normalize_obs_def Let_def)

lemma normalize_obs_lens [simp]: "rp_RecordLens (normalize_obs obs) = rp_RecordLens obs"
  by (simp add: normalize_obs_def Let_def)

lemma observe_present_HotSwaps:
  "st_HotSwaps (m_stats (observe_present now key e obs m)) = st_HotSwaps (m_stats m)"
  by (simp add: observe_present_def Let_def split: option.split)

lemma StoreObservation_present:
  assumes "m_entries m key = Some e" and "ValidateRecordLens (rp_RecordLens obs)"
  shows "StoreObservation now order key (Some obs) m =
    Inr (Some (normalize_obs obs), observe_present now key e (normalize_obs obs) m)"
  using assms by (simp add: StoreObservation_def Let_def)

lemma StoreObservation_HotSwaps:
  assumes "StoreObservation now order key obs m = Inr (r, m')"
  shows "st_HotSwaps (m_stats m') = st_HotSwaps (m_stats m)"
proof -
  have evict: "st_HotSwaps (m_stats m2) = st_HotSwaps (m_stats m1)" if "evictIfFull order m1 = Inr m2" for m1 m2
    using evictIfFull_cases [OF that] by auto
  show ?thesis
    using assms observe_present_HotSwaps
    by (auto simp: StoreObservation_def Let_def split: option.splits if_splits sum.splits dest!: evict)
qed

subsection \<open>A sample run\<close>

text \<open>Two live observations of one key, then a lookup.\<close>

definition sample_obs :: RealityProfile where
  "sample_obs = sample_profile\<lparr>rp_Evidence := 1, rp_LiveEvidence := 1\<rparr>"

abbreviation (input) sample_key :: string where
  "sample_key \<equiv> CacheKeyV2 ''d:443'' ''d'' ''h2'' 0x0304 ''c''"

definition sample_events :: "cache_event list" where
  "sample_events = [EvObserve 110 [] sample_key sample_obs, EvObserve 120 [] sample_key sample_obs]"

lemma sample_obs_valid: "ValidateRecordLens (rp_RecordLens sample_obs)"
  using sample_lens_valid by (simp add: sample_obs_def)

lemma sample_events_ok: "\<forall>ev \<in> set sample_events. seed_ok ev"
  by (simp add: sample_events_def seed_ok_def sample_obs_def sample_profile_def)

lemma sample_obs_normal: "normalize_obs sample_obs = sample_obs"
  by (simp add: normalize_obs_def Let_def sample_obs_def sample_profile_def InferRecordMode_def)

lemma sample_obs_first: "first_observation sample_obs = sample_obs"
  by (simp add: first_observation_def Let_def sample_obs_def sample_profile_def)

lemma sample_obs_match: "profilesMatch (Some sample_obs) (Some sample_obs)"
  by (simp add: profilesMatch_def Let_def list_ex_iff)

lemma sample_obs_merged:
  "merge_observation sample_obs sample_obs = sample_profile\<lparr>rp_Stability := 2\<rparr>"
  by (simp add: merge_observation_def Let_def sample_obs_def sample_profile_def CloneDestCertMeta_def)

lemma sample_run:
  "\<exists>m. cache_run sample_events NewCacheManager = Inr m \<and>
     m_entries m sample_key = Some (newEntry ProfileTTL (Some (sample_profile\<lparr>rp_Stability := 2\<rparr>)))"
proof -
  let ?e = "newEntry ProfileTTL (Some sample_obs)"
  let ?m1 = "MarkDirty (add_entries 1 (set_entry sample_key ?e NewCacheManager))"
  have b: "m_baseTTL NewCacheManager = ProfileTTL" "m_entries NewCacheManager = Map.empty"
    by (simp_all add: NewCacheManager_def)
  have "evictIfFull [] ?m1 = Inr ?m1"
    by (rule evictIfFull_room) (simp add: NewCacheManager_def stats_zero_def)
  then have 1: "cache_step (EvObserve 110 [] sample_key sample_obs) NewCacheManager = Inr ?m1"
    using StoreObservation_new [of NewCacheManager sample_key sample_obs 110 "[]"] sample_obs_valid
    by (simp add: cache_step_def b sample_obs_normal sample_obs_first)
  have e: "m_entries ?m1 sample_key = Some ?e" by simp
  let ?m2 = "observe_present 120 sample_key ?e sample_obs ?m1"
  have 2: "cache_step (EvObserve 120 [] sample_key sample_obs) ?m1 = Inr ?m2"
    using StoreObservation_present [OF e sample_obs_valid, of 120 "[]"]
    by (simp add: cache_step_def sample_obs_normal)
  have "m_entries ?m2 sample_key = Some (newEntry ProfileTTL (Some (sample_profile\<lparr>rp_Stability := 2\<rparr>)))"
    using sample_obs_match by (simp add: observe_present_def Let_def newEntry_def set_state_def
        sample_obs_merged b)
  moreover have "cache_run sample_events NewCacheManager = Inr ?m2"
    by (simp add: cache_run_def cache_run_step_def sample_events_def 1 2)
  ultimately show ?thesis by blast
qed

subsection \<open>What the quarantine and the watermark do not cover\<close>

text \<open>
  \<open>MarkNegative\<close> takes an entry out of quarantine, so that an observation makes it servable again
  before the cool-down has passed.
\<close>

lemma MarkNegative_lifts_quarantine:
  assumes "m_entries m key = Some e" "pe_Profile e = Some cur"
    and "ValidateRecordLens (rp_RecordLens obs)" "profilesMatch (Some cur) (Some (normalize_obs obs))"
  shows "\<exists>obs' m' e'. StoreObservation now order key (Some obs) (MarkNegative t key m) = Inr (obs', m') \<and>
    m_entries m' key = Some e' \<and> pe_State e' = ProfileValid"
  using assms by (simp add: StoreObservation_def MarkNegative_def observe_present_def set_state_def Let_def)

lemma GetProfile_deletes_silently:
  assumes "m_entries m key = Some e" "pe_State e = ProfileNegative" "pe_NextRetry e < now"
  shows "\<exists>r m'. GetProfile now key m = Inr (r, m') \<and> m_entries m' key = None \<and> m_dirty m' = m_dirty m"
  using assms by (auto simp: GetProfile_def Let_def)

subsection \<open>Properties\<close>

text \<open>(C28) The zero-dial path is earned: in a cache filled by calls of the kind the program makes
  (profiles from disk or from the refresh probe bring neither live evidence nor a template, an
  observation of a V2 key brings evidence of at most one and a probed one no template, anything may
  be observed under legacy keys), a lookup takes the path L2 only with a key that has itself
  received at least two valid live observations.\<close>

theorem l2_needs_two_live_observations:
  assumes "cache_run evs NewCacheManager = Inr m" and "\<forall>ev \<in> set evs. seed_ok ev"
    and "LookupAmortizeSoft now mode dest sn alpn ver ch soft lc lg m = (r, m')" and "lr_Path r = PathL2"
  shows "2 \<le> live_observations (lr_Key r) evs"
proof -
  obtain p where "l2_allowed now m (lr_Key r) p"
    using lookupAmortize_result [OF assms(3) [unfolded LookupAmortizeSoft_def] assms(4)] by blast
  then obtain e where "m_entries m (lr_Key r) = Some e" "pe_Profile e = Some p" "profileL2Eligible now (Some p)"
      "\<not> IsLegacyCacheKey (lr_Key r)"
    by (auto simp: l2_allowed_def)
  then show ?thesis
    using evidence_not_eligible ladder_okD [OF cache_run_ladder [OF assms(2,1)]] by blast
qed

theorem l2_needs_two_live_observations_witness:
  "\<exists>m r m'. cache_run sample_events NewCacheManager = Inr m \<and>
     LookupAmortizeSoft 200 AmortizeL2 ''d:443'' ''d'' ''h2'' 0x0304 ''c'' [] 0 0 m = (r, m') \<and>
     lr_Path r = PathL2 \<and> 2 \<le> live_observations (lr_Key r) sample_events"
proof -
  let ?p = "sample_profile\<lparr>rp_Stability := 2\<rparr>"
  obtain m where m: "cache_run sample_events NewCacheManager = Inr m"
      "m_entries m sample_key = Some (newEntry ProfileTTL (Some ?p))" using sample_run by blast
  have "profileL2Eligible 200 (Some ?p)"
    using sample_lens_valid
    by (simp add: profileL2Eligible_def sample_profile_def time_Sub_def maxDuration_def minDuration_def
        MaxL2ProfileAge_def Minute_def Second_def Let_def)
  moreover have "time_Sub 200 (rp_CapturedAt ?p) < ProfileTTL"
    by (simp add: sample_profile_def time_Sub_def maxDuration_def minDuration_def ProfileTTL_def
        Minute_def Second_def)
  moreover have "\<not> isSoftCacheKey sample_key" by (simp add: isSoftCacheKey_CacheKeyV2)
  ultimately have "fst (lookup_probe 200 AmortizeL2 0x0304 0 0 sample_key m) =
      Some \<lparr>lr_Profile = Some ?p, lr_Path = PathL2, lr_Key = sample_key, lr_Stale = False\<rparr>"
    using sample_lens_valid
    by (subst lookup_probe_fst [OF m(2), where p = ?p])
      (simp_all add: newEntry_def CacheKeyV2_not_legacy clientPolicyCompatible_def)
  then have p: "lr_Path (fst (LookupAmortizeSoft 200 AmortizeL2 ''d:443'' ''d'' ''h2'' 0x0304 ''c'' [] 0 0 m)) = PathL2"
    by (simp add: LookupAmortizeSoft_def lookupAmortize_probe_keys ResolveAmortizeMode_def
        lookup_keys_def probe_keys_hit del: probe_keys.simps)
  obtain r m' where r: "LookupAmortizeSoft 200 AmortizeL2 ''d:443'' ''d'' ''h2'' 0x0304 ''c'' [] 0 0 m = (r, m')"
    by fastforce
  from l2_needs_two_live_observations [OF m(1) sample_events_ok r] show ?thesis using p r m(1) by auto
qed

text \<open>(C29) A quarantined key is not served before its cool-down has passed, as long as its entry is
  not replaced or deleted: after any sequence of lookups, reads, loads from disk, failures, further
  quarantines, observations of the key within the cool-down, and any calls on other keys, except
  for \<open>InvalidateAll\<close> and \<open>InvalidateAndReprobe\<close>, no lookup returns the key. The exceptions for the
  key itself are \<open>HotSwapProfile\<close>, \<open>MarkNegative\<close> and \<open>InvalidateProfile\<close>, and the cache has room
  for the calls, so that nothing is evicted.\<close>

theorem quarantine_blocks_lookups:
  assumes "cache_run evs (Quarantine t key reason m) = Inr m'"
    and "\<forall>ev \<in> set evs. quiet key (t + QuarantineCooldown) ev"
    and "st_ProfileEntries (m_stats m) + 1 + int (length evs) \<le> m_maxProfiles m"
    and "lookupAmortize now mode dest sn alpn ver ch soft lc lg m' = (r, m'')" and "lr_Path r \<noteq> PathL0"
  shows "lr_Key r \<noteq> key"
proof -
  let ?q = "Quarantine t key reason m"
  have "quarantined key (t + QuarantineCooldown) ?q"
    by (cases "m_entries m key")
      (simp_all add: Quarantine_def Let_def quarantined_set drop_evidence_def set_state_def)
  moreover have "st_ProfileEntries (m_stats ?q) \<le> st_ProfileEntries (m_stats m) + 1"
      "m_maxProfiles ?q = m_maxProfiles m"
    by (simp_all add: Quarantine_def Let_def split: option.split)
  ultimately have "quarantined key (t + QuarantineCooldown) m'"
    using quarantined_run [OF assms(1) _ assms(2)] assms(3) by auto
  from lookup_not_quarantined [OF this assms(4,5)] show ?thesis .
qed

theorem quarantine_blocks_lookups_witness:
  "\<exists>m' r m''. cache_run [EvStoreProfile [] sample_key sample_profile] (Quarantine 5 ''q'' [] NewCacheManager) = Inr m' \<and>
     lookupAmortize 200 AmortizeL1 ''d:443'' ''d'' ''h2'' 0x0304 ''c'' [] 0 0 m' = (r, m'') \<and>
     lr_Path r = PathL1 \<and> lr_Key r \<noteq> ''q''"
proof -
  let ?q = "Quarantine 5 ''q'' [] NewCacheManager"
  let ?m = "MarkDirty (add_entries 1 (set_entry sample_key (newEntry (m_baseTTL ?q) (Some sample_profile)) ?q))"
  have q: "m_entries ?q sample_key = None" "st_ProfileEntries (m_stats ?q) = 1" "m_maxProfiles ?q = 1000"
    by (simp_all add: Quarantine_def NewCacheManager_def stats_zero_def Let_def CacheKeyV2_eq)
  have "evictIfFull [] ?m = Inr ?m" by (rule evictIfFull_room) (simp add: q)
  then have m: "cache_run [EvStoreProfile [] sample_key sample_profile] ?q = Inr ?m"
    by (simp add: cache_run_def cache_run_step_def cache_step_def StoreProfile_def Let_def q)
  have e: "m_entries ?m sample_key = Some (newEntry (m_baseTTL ?q) (Some sample_profile))" by simp
  have "fst (lookup_probe 200 AmortizeL1 0x0304 0 0 sample_key ?m) = Some
      \<lparr>lr_Profile = Some sample_profile, lr_Path = PathL1, lr_Key = sample_key,
       lr_Stale = (m_baseTTL ?q \<le> time_Sub 200 (rp_CapturedAt sample_profile))\<rparr>"
    using sample_lens_valid
    by (subst lookup_probe_fst [OF e, where p = sample_profile])
      (simp_all add: newEntry_def sample_profile_def)
  then have p: "lr_Path (fst (lookupAmortize 200 AmortizeL1 ''d:443'' ''d'' ''h2'' 0x0304 ''c'' [] 0 0 ?m)) = PathL1"
    by (simp add: lookupAmortize_probe_keys ResolveAmortizeMode_def lookup_keys_def probe_keys_hit
        del: probe_keys.simps)
  obtain r m'' where r: "lookupAmortize 200 AmortizeL1 ''d:443'' ''d'' ''h2'' 0x0304 ''c'' [] 0 0 ?m = (r, m'')"
    by fastforce
  have "st_ProfileEntries (m_stats NewCacheManager) = 0" "m_maxProfiles NewCacheManager = 1000"
    by (simp_all add: NewCacheManager_def stats_zero_def)
  with quarantine_blocks_lookups [OF m _ _ r] have "lr_Key r \<noteq> ''q''" using p r by (simp add: quiet_def)
  then show ?thesis using m p r by (metis fst_conv)
qed

text \<open>A live observation that does not match the stored profile makes the entry suspect;
  the same observation again makes it valid with live evidence two. The hot-swap counter
  does not move in these two calls.\<close>

theorem mismatch_debounce:
  assumes "m_entries m key = Some e" and "pe_State e \<noteq> ProfileQuarantined"
    and "pe_Profile e = Some cur" and "rp_Source obs \<noteq> ''probe''"
    and "ValidateRecordLens (rp_RecordLens obs)" and "\<not> profilesMatch (Some cur) (Some (normalize_obs obs))"
  shows "\<exists>obs1 m1 obs2 m2 e1 e2 p2.
    StoreObservation now order key (Some obs) m = Inr (Some obs1, m1) \<and>
    StoreObservation now' order' key (Some obs1) m1 = Inr (Some obs2, m2) \<and>
    m_entries m1 key = Some e1 \<and> pe_State e1 = ProfileSuspect \<and>
    m_entries m2 key = Some e2 \<and> pe_State e2 = ProfileValid \<and>
    pe_Profile e2 = Some p2 \<and> rp_LiveEvidence p2 = 2 \<and>
    st_HotSwaps (m_stats m2) = st_HotSwaps (m_stats m)"
proof -
  let ?o = "normalize_obs obs"
  let ?e1 = "(set_state ProfileSuspect (e\<lparr>pe_Profile := Some (suspect_candidate ?o)\<rparr>))\<lparr>pe_FailCount := 1\<rparr>"
  let ?m1 = "MarkDirty (set_entry key ?e1 m)"
  let ?p2 = "merge_observation (suspect_candidate ?o) ?o"
  let ?m2 = "observe_present now' key ?e1 ?o ?m1"
  have s1: "StoreObservation now order key (Some obs) m = Inr (Some ?o, ?m1)"
    using assms by (simp add: StoreObservation_present observe_present_def Let_def)
  have e1: "m_entries ?m1 key = Some ?e1" by simp
  have s2: "StoreObservation now' order' key (Some ?o) ?m1 = Inr (Some ?o, ?m2)"
    using StoreObservation_present [OF e1, of ?o now' order'] assms(5) by simp
  have "profilesMatch (Some (suspect_candidate ?o)) (Some ?o)"
    by (simp add: suspect_candidate_def profilesMatch_stamp)
  then obtain e2 where e2: "m_entries ?m2 key = Some e2" "pe_State e2 = ProfileValid" "pe_Profile e2 = Some ?p2"
    by (simp add: observe_present_def Let_def set_state_def)
  have "rp_LiveEvidence ?p2 = 2"
    using assms(4) by (simp add: merge_observation_fields suspect_candidate_def stamp_evidence_def)
  moreover have "st_HotSwaps (m_stats ?m2) = st_HotSwaps (m_stats m)"
    using observe_present_HotSwaps [of now' key ?e1 ?o ?m1] by simp
  moreover have "pe_State ?e1 = ProfileSuspect" by (simp add: set_state_def)
  ultimately show ?thesis using s1 s2 e1 e2 by blast
qed

theorem mismatch_debounce_witness:
  "\<exists>obs1 m1 obs2 m2 e2 p2.
    StoreObservation 7 [] ''k'' (Some (sample_profile\<lparr>rp_CipherSuite := 0x1302\<rparr>)) (sample_cache ''k'') = Inr (Some obs1, m1) \<and>
    StoreObservation 8 [] ''k'' (Some obs1) m1 = Inr (Some obs2, m2) \<and>
    m_entries m2 ''k'' = Some e2 \<and> pe_State e2 = ProfileValid \<and> pe_Profile e2 = Some p2 \<and> rp_LiveEvidence p2 = 2"
proof -
  let ?o = "sample_profile\<lparr>rp_CipherSuite := 0x1302\<rparr>"
  have e: "m_entries (sample_cache ''k'') ''k'' = Some (newEntry ProfileTTL (Some sample_profile))"
    by (simp add: sample_cache_def)
  have "\<not> profilesMatch (Some sample_profile) (Some (normalize_obs ?o))"
    by (simp add: profilesMatch_def normalize_obs_def Let_def sample_profile_def InferRecordMode_def)
  moreover have "rp_Source ?o \<noteq> ''probe''" by (simp add: sample_profile_def)
  moreover have "ValidateRecordLens (rp_RecordLens ?o)" using sample_lens_valid by simp
  ultimately show ?thesis
    using mismatch_debounce [OF e, of sample_profile ?o 7 "[]" 8 "[]"] by (simp add: newEntry_def) blast
qed

text \<open>(C37) A save loses no mutation but those of \<open>GetProfile\<close>: if calls other than \<open>GetProfile\<close>, made
  between taking the snapshot of the dirty counter and recording the save, changed any stored
  profile, the cache is still dirty afterwards. (\<open>GetProfile\<close> deletes an expired negative entry, with
  the profile it may hold, without marking the cache dirty: \<open>GetProfile_deletes_silently\<close>.)\<close>

theorem save_keeps_later_changes_dirty:
  assumes "cache_run evs m = Inr m'" and "\<forall>now key. EvGetProfile now key \<notin> set evs"
    and "profiles m' \<noteq> profiles m"
  shows "IsDirty (PersistSnapshot (SnapshotDirty m) m')"
proof -
  have "accounted m m'" using cache_run_accounted [OF assms(1,2)] .
  then have "m_dirty m < m_dirty m'" using assms(3) by (auto simp: accounted_def)
  then show ?thesis by (simp add: IsDirty_def PersistSnapshot_def SnapshotDirty_def)
qed

theorem save_keeps_later_changes_dirty_witness:
  "\<exists>m'. cache_run [EvInvalidate ''k''] (sample_cache ''k'') = Inr m' \<and>
     IsDirty (PersistSnapshot (SnapshotDirty (sample_cache ''k'')) m')"
proof -
  obtain m' where m': "cache_run [EvInvalidate ''k''] (sample_cache ''k'') = Inr m'"
      "m' = InvalidateProfile ''k'' (sample_cache ''k'')"
    by (simp add: cache_run_def cache_run_step_def cache_step_def)
  have "profiles m' ''k'' = None" "profiles (sample_cache ''k'') ''k'' \<noteq> None"
    by (simp_all add: m'(2) profiles_def InvalidateProfile_def sample_cache_def newEntry_def)
  then have "profiles m' \<noteq> profiles (sample_cache ''k'')" by auto
  from save_keeps_later_changes_dirty [OF m'(1) _ this] show ?thesis using m'(1) by simp
qed

end
