(* ===== verification/Cryptobyte.thy ===== *)
theory Cryptobyte
  imports Prelude "HOL-Library.Monad_Syntax"
begin

text \<open>
  The byte-string readers and builders of the package
  \<open>golang.org/x/crypto/cryptobyte\<close>, which the message codecs are written against. The
  package is not part of the program, so it is a parameter: a record \<open>cryptobyte\<close> with
  one field per operation the program calls, passed to every codec. What the program
  relies on is the documented behaviour of these operations, the laws of the locale
  \<open>cryptobyte_laws\<close>; \<open>ref_cryptobyte\<close> is an implementation that has them.

  A \<open>cryptobyte.String\<close> is a \<open>[]byte\<close>; a reader returns the value and the rest of the
  string, or \<open>None\<close> where Go returns \<open>false\<close>. A \<open>cryptobyte.Builder\<close> is a value of the
  type variable \<open>'b\<close>; a length-prefixed section takes the continuation that fills the
  child builder, as in Go.

  The theory also holds the helpers at the top of \<open>src/handshake_messages.go\<close> and the
  loop \<open>for !s.Empty() { ... }\<close> all parsers use.
\<close>

subsection \<open>Big-endian integers\<close>

definition be16 :: "u16 \<Rightarrow> bytes" where
  "be16 v = [ucast (drop_bit 8 v), ucast v]"

definition be24 :: "u32 \<Rightarrow> bytes" where
  "be24 v = [ucast (drop_bit 16 v), ucast (drop_bit 8 v), ucast v]"

definition be32 :: "u32 \<Rightarrow> bytes" where
  "be32 v = [ucast (drop_bit 24 v), ucast (drop_bit 16 v), ucast (drop_bit 8 v), ucast v]"

definition of_be16 :: "u8 \<Rightarrow> u8 \<Rightarrow> u16" where
  "of_be16 a b = push_bit 8 (ucast a) OR ucast b"

definition of_be24 :: "u8 \<Rightarrow> u8 \<Rightarrow> u8 \<Rightarrow> u32" where
  "of_be24 a b c = push_bit 16 (ucast a) OR push_bit 8 (ucast b) OR ucast c"

definition of_be32 :: "u8 \<Rightarrow> u8 \<Rightarrow> u8 \<Rightarrow> u8 \<Rightarrow> u32" where
  "of_be32 a b c d = push_bit 24 (ucast a) OR push_bit 16 (ucast b) OR push_bit 8 (ucast c) OR ucast d"

lemma length_be [simp]:
  "length (be16 v) = 2" "length (be24 w) = 3" "length (be32 w) = 4"
  by (simp_all add: be16_def be24_def be32_def)

lemma be_not_Nil [simp]: "be16 v \<noteq> []" "be24 w \<noteq> []" "be32 w \<noteq> []"
  by (simp_all add: be16_def be24_def be32_def)

lemma of_be16_be16: "of_be16 (ucast (drop_bit 8 v)) (ucast v) = v"
  unfolding of_be16_def
  by (rule bit_word_eqI) (auto simp: bit_simps)

lemma of_be24_be24: "v < 2 ^ 24 \<Longrightarrow> of_be24 (ucast (drop_bit 16 v)) (ucast (drop_bit 8 v)) (ucast v) = v"
proof -
  assume "v < 2 ^ 24"
  then have "unat v < 2 ^ 24" by (simp add: word_less_nat_alt)
  then have "unat (take_bit 24 v) = unat v"
    by (simp only: unsigned_take_bit_eq take_bit_nat_eq_self)
  then have "take_bit 24 v = v" by (simp only: word_unat_eq_iff)
  then have high: "bit v n \<Longrightarrow> n < 24" for n by (metis bit_take_bit_iff)
  have "bit (of_be24 (ucast (drop_bit 16 v)) (ucast (drop_bit 8 v)) (ucast v)) n = bit v n"
    if "n < 32" for n
  proof -
    consider "n < 8" | "8 \<le> n" "n < 16" | "16 \<le> n" "n < 24" | "24 \<le> n" by linarith
    then show ?thesis
      using that high [of n] by cases (auto simp: of_be24_def bit_simps)
  qed
  then show ?thesis by (intro bit_word_eqI) simp
qed

lemma of_be32_be32:
  "of_be32 (ucast (drop_bit 24 v)) (ucast (drop_bit 16 v)) (ucast (drop_bit 8 v)) (ucast v) = v"
proof -
  have "bit (of_be32 (ucast (drop_bit 24 v)) (ucast (drop_bit 16 v)) (ucast (drop_bit 8 v)) (ucast v)) n
    = bit v n" if "n < 32" for n
  proof -
    consider "n < 8" | "8 \<le> n" "n < 16" | "16 \<le> n" "n < 24" | "24 \<le> n" by linarith
    then show ?thesis
      using that by cases (auto simp: of_be32_def bit_simps)
  qed
  then show ?thesis by (intro bit_word_eqI) simp
qed

lemma unat_of_be16: "unat (of_be16 a b) = unat a * 256 + unat b"
proof -
  have "push_bit 8 (ucast a :: u16) AND ucast b = 0"
    by (rule bit_word_eqI) (auto simp: bit_simps dest: bit_imp_le_length)
  then have "of_be16 a b = push_bit 8 (ucast a) + ucast b"
    by (simp add: of_be16_def disjunctive_add_eq_or)
  then have "of_be16 a b = of_nat (unat a * 256 + unat b)"
    by (simp add: push_bit_eq_mult mult.commute)
  moreover have "unat a * 256 + unat b < 65536"
    using unat_u8_less [of a] unat_u8_less [of b] by linarith
  ultimately show ?thesis by (simp add: unat_of_nat take_bit_nat_eq_self del: of_nat_add of_nat_mult)
qed

lemma unat_of_be24: "unat (of_be24 a b c) = unat a * 65536 + unat b * 256 + unat c"
proof -
  have bc: "push_bit 8 (ucast b :: u32) AND ucast c = 0"
    by (rule bit_word_eqI) (auto simp: bit_simps dest: bit_imp_le_length)
  have abc: "push_bit 16 (ucast a :: u32) AND (push_bit 8 (ucast b) OR ucast c) = 0"
    by (rule bit_word_eqI) (auto simp: bit_simps dest: bit_imp_le_length)
  have "of_be24 a b c = push_bit 16 (ucast a) + (push_bit 8 (ucast b) + ucast c)"
    unfolding of_be24_def by (simp add: disjunctive_add_eq_or abc bc)
  then have "of_be24 a b c = of_nat (unat a * 65536 + unat b * 256 + unat c)"
    by (simp add: push_bit_eq_mult mult.commute)
  moreover have "unat a * 65536 + unat b * 256 + unat c < 4294967296"
    using unat_u8_less [of a] unat_u8_less [of b] unat_u8_less [of c] by linarith
  ultimately show ?thesis by (simp add: unat_of_nat take_bit_nat_eq_self del: of_nat_add of_nat_mult)
qed
lemma unat_of_be24_less: "unat (of_be24 a b c) < 16777216"
  using unat_u8_less [of a] unat_u8_less [of b] unat_u8_less [of c]
  by (simp only: unat_of_be24)

subsection \<open>The operations the program calls\<close>

record 'b cryptobyte =
  ReadUint8 :: "bytes \<Rightarrow> (u8 \<times> bytes) option"
  ReadUint16 :: "bytes \<Rightarrow> (u16 \<times> bytes) option"
  ReadUint32 :: "bytes \<Rightarrow> (u32 \<times> bytes) option"
  ReadUint64 :: "bytes \<Rightarrow> (u64 \<times> bytes) option"
  ReadBytes :: "bytes \<Rightarrow> nat \<Rightarrow> (bytes \<times> bytes) option"
  CopyBytes :: "bytes \<Rightarrow> nat \<Rightarrow> (bytes \<times> bytes) option"
  Skip :: "bytes \<Rightarrow> nat \<Rightarrow> bytes option"
  ReadUint8LengthPrefixed :: "bytes \<Rightarrow> (bytes \<times> bytes) option"
  ReadUint16LengthPrefixed :: "bytes \<Rightarrow> (bytes \<times> bytes) option"
  ReadUint24LengthPrefixed :: "bytes \<Rightarrow> (bytes \<times> bytes) option"
  NewBuilder :: 'b
  AddUint8 :: "'b \<Rightarrow> u8 \<Rightarrow> 'b"
  AddUint16 :: "'b \<Rightarrow> u16 \<Rightarrow> 'b"
  AddUint32 :: "'b \<Rightarrow> u32 \<Rightarrow> 'b"
  AddBytes :: "'b \<Rightarrow> bytes \<Rightarrow> 'b"
  AddValue :: "'b \<Rightarrow> ('b \<Rightarrow> 'b option) \<Rightarrow> 'b"
  SetError :: "'b \<Rightarrow> 'b"
  AddUint8LengthPrefixed :: "'b \<Rightarrow> ('b \<Rightarrow> 'b) \<Rightarrow> 'b"
  AddUint16LengthPrefixed :: "'b \<Rightarrow> ('b \<Rightarrow> 'b) \<Rightarrow> 'b"
  AddUint24LengthPrefixed :: "'b \<Rightarrow> ('b \<Rightarrow> 'b) \<Rightarrow> 'b"
  Bytes :: "'b \<Rightarrow> bytes option"

text \<open>
  \<open>split_at n s\<close> is the first \<open>n\<close> bytes and the rest, where there are that many;
  \<open>cat\<close> appends to a byte string that may be in error; \<open>prefixed k\<close> puts the length of a
  section before it, in \<open>k\<close> bytes, and is an error when the length does not fit.
\<close>

definition split_at :: "nat \<Rightarrow> bytes \<Rightarrow> (bytes \<times> bytes) option" where
  "split_at n s = (if n \<le> length s then Some (take n s, drop n s) else None)"

fun cat :: "bytes option \<Rightarrow> bytes option \<Rightarrow> bytes option" where
  "cat (Some x) (Some y) = Some (x @ y)"
| "cat _ _ = None"

definition length_bytes :: "nat \<Rightarrow> nat \<Rightarrow> bytes" where
  "length_bytes k n = (if k = 1 then [of_nat n] else if k = 2 then be16 (of_nat n) else be24 (of_nat n))"

fun prefixed :: "nat \<Rightarrow> bytes option \<Rightarrow> bytes option" where
  "prefixed k (Some x) = (if length x < 256 ^ k then Some (length_bytes k (length x) @ x) else None)"
| "prefixed k None = None"

locale cryptobyte_laws =
  fixes cb :: "'b cryptobyte"
  assumes ReadUint8: "ReadUint8 cb s = (case s of a # r \<Rightarrow> Some (a, r) | _ \<Rightarrow> None)"
    and ReadUint16: "ReadUint16 cb s = (case s of a # b # r \<Rightarrow> Some (of_be16 a b, r) | _ \<Rightarrow> None)"
    and ReadUint32: "ReadUint32 cb s =
      (case s of a # b # c # d # r \<Rightarrow> Some (of_be32 a b c d, r) | _ \<Rightarrow> None)"
    and ReadUint64: "ReadUint64 cb s =
      (case s of a # b # c # d # a' # b' # c' # d' # r \<Rightarrow>
         Some (push_bit 32 (ucast (of_be32 a b c d)) OR ucast (of_be32 a' b' c' d'), r) | _ \<Rightarrow> None)"
    and ReadBytes: "ReadBytes cb s n = split_at n s"
    and CopyBytes: "CopyBytes cb s n = split_at n s"
    and Skip: "Skip cb s n = map_option snd (split_at n s)"
    and ReadUint8LengthPrefixed: "ReadUint8LengthPrefixed cb s =
      (case s of a # r \<Rightarrow> split_at (unat a) r | _ \<Rightarrow> None)"
    and ReadUint16LengthPrefixed: "ReadUint16LengthPrefixed cb s =
      (case s of a # b # r \<Rightarrow> split_at (unat (of_be16 a b)) r | _ \<Rightarrow> None)"
    and ReadUint24LengthPrefixed: "ReadUint24LengthPrefixed cb s =
      (case s of a # b # c # r \<Rightarrow> split_at (unat (of_be24 a b c)) r | _ \<Rightarrow> None)"
    and NewBuilder: "Bytes cb (NewBuilder cb) = Some []"
    and AddUint8: "Bytes cb (AddUint8 cb b v) = cat (Bytes cb b) (Some [v])"
    and AddUint16: "Bytes cb (AddUint16 cb b w) = cat (Bytes cb b) (Some (be16 w))"
    and AddUint32: "Bytes cb (AddUint32 cb b x) = cat (Bytes cb b) (Some (be32 x))"
    and AddBytes: "Bytes cb (AddBytes cb b xs) = cat (Bytes cb b) (Some xs)"
    and AddValue: "Bytes cb (AddValue cb b g) = Option.bind (g b) (Bytes cb)"
    and SetError: "Bytes cb (SetError cb b) = None"
    and AddUint8LengthPrefixed: "\<exists>c. Bytes cb c = Some [] \<and>
      Bytes cb (AddUint8LengthPrefixed cb b f) = cat (Bytes cb b) (prefixed 1 (Bytes cb (f c)))"
    and AddUint16LengthPrefixed: "\<exists>c. Bytes cb c = Some [] \<and>
      Bytes cb (AddUint16LengthPrefixed cb b f) = cat (Bytes cb b) (prefixed 2 (Bytes cb (f c)))"
    and AddUint24LengthPrefixed: "\<exists>c. Bytes cb c = Some [] \<and>
      Bytes cb (AddUint24LengthPrefixed cb b f) = cat (Bytes cb b) (prefixed 3 (Bytes cb (f c)))"

text \<open>An implementation of the documented behaviour: a builder is its bytes, or an error.\<close>

definition ref_cryptobyte :: "bytes option cryptobyte" where
  "ref_cryptobyte = \<lparr>
     ReadUint8 = (\<lambda>s. case s of a # r \<Rightarrow> Some (a, r) | _ \<Rightarrow> None),
     ReadUint16 = (\<lambda>s. case s of a # b # r \<Rightarrow> Some (of_be16 a b, r) | _ \<Rightarrow> None),
     ReadUint32 = (\<lambda>s. case s of a # b # c # d # r \<Rightarrow> Some (of_be32 a b c d, r) | _ \<Rightarrow> None),
     ReadUint64 = (\<lambda>s. case s of a # b # c # d # a' # b' # c' # d' # r \<Rightarrow>
       Some (push_bit 32 (ucast (of_be32 a b c d)) OR ucast (of_be32 a' b' c' d'), r) | _ \<Rightarrow> None),
     ReadBytes = (\<lambda>s n. split_at n s),
     CopyBytes = (\<lambda>s n. split_at n s),
     Skip = (\<lambda>s n. map_option snd (split_at n s)),
     ReadUint8LengthPrefixed = (\<lambda>s. case s of a # r \<Rightarrow> split_at (unat a) r | _ \<Rightarrow> None),
     ReadUint16LengthPrefixed =
       (\<lambda>s. case s of a # b # r \<Rightarrow> split_at (unat (of_be16 a b)) r | _ \<Rightarrow> None),
     ReadUint24LengthPrefixed =
       (\<lambda>s. case s of a # b # c # r \<Rightarrow> split_at (unat (of_be24 a b c)) r | _ \<Rightarrow> None),
     NewBuilder = Some [],
     AddUint8 = (\<lambda>b v. cat b (Some [v])),
     AddUint16 = (\<lambda>b v. cat b (Some (be16 v))),
     AddUint32 = (\<lambda>b v. cat b (Some (be32 v))),
     AddBytes = (\<lambda>b xs. cat b (Some xs)),
     AddValue = (\<lambda>b g. Option.bind (g b) id),
     SetError = (\<lambda>b. None),
     AddUint8LengthPrefixed = (\<lambda>b f. cat b (prefixed 1 (f (Some [])))),
     AddUint16LengthPrefixed = (\<lambda>b f. cat b (prefixed 2 (f (Some [])))),
     AddUint24LengthPrefixed = (\<lambda>b f. cat b (prefixed 3 (f (Some [])))),
     Bytes = id\<rparr>"

interpretation ref: cryptobyte_laws ref_cryptobyte
  by unfold_locales (auto simp: ref_cryptobyte_def id_def)

subsection \<open>Helpers of \<open>handshake_messages.go\<close>\<close>

text \<open>\<open>guard c\<close> is \<open>if !c { return false }\<close>.\<close>

definition guard :: "bool \<Rightarrow> unit option" where
  "guard c = (if c then Some () else None)"

definition addBytesWithLength :: "'b cryptobyte \<Rightarrow> 'b \<Rightarrow> bytes \<Rightarrow> nat \<Rightarrow> 'b" where
  "addBytesWithLength cb b v n =
     AddValue cb b (\<lambda>b. if length v \<noteq> n then None else Some (AddBytes cb b v))"

definition addUint64 :: "'b cryptobyte \<Rightarrow> 'b \<Rightarrow> u64 \<Rightarrow> 'b" where
  "addUint64 cb b v =
     (let b = AddUint32 cb b (ucast (drop_bit 32 v)) in AddUint32 cb b (ucast v))"

definition readUint64 :: "'b cryptobyte \<Rightarrow> bytes \<Rightarrow> (u64 \<times> bytes) option" where
  "readUint64 cb s = do {
     (hi, s) \<leftarrow> ReadUint32 cb s;
     (lo, s) \<leftarrow> ReadUint32 cb s;
     Some (push_bit 32 (ucast hi) OR ucast lo, s) }"

definition readUint8LengthPrefixed :: "'b cryptobyte \<Rightarrow> bytes \<Rightarrow> (bytes \<times> bytes) option" where
  "readUint8LengthPrefixed cb s = ReadUint8LengthPrefixed cb s"

definition readUint16LengthPrefixed :: "'b cryptobyte \<Rightarrow> bytes \<Rightarrow> (bytes \<times> bytes) option" where
  "readUint16LengthPrefixed cb s = ReadUint16LengthPrefixed cb s"

definition readUint24LengthPrefixed :: "'b cryptobyte \<Rightarrow> bytes \<Rightarrow> (bytes \<times> bytes) option" where
  "readUint24LengthPrefixed cb s = ReadUint24LengthPrefixed cb s"

text \<open>
  The loop \<open>for !s.Empty() { body }\<close>, where the body reads from \<open>s\<close>, updates the message
  and may \<open>return false\<close>. The fuel is the length of the string: every body of the program
  reads at least one byte (\<open>consumes\<close>), so the loop never runs out of it
  (\<open>for_nonempty_unfold\<close>, \<open>read_loop_fuel\<close>).
\<close>

fun read_loop :: "nat \<Rightarrow> ('m \<Rightarrow> bytes \<Rightarrow> ('m \<times> bytes) option) \<Rightarrow> 'm \<Rightarrow> bytes \<Rightarrow> 'm option" where
  "read_loop n body m [] = Some m"
| "read_loop 0 body m (a # s) = None"
| "read_loop (Suc n) body m (a # s) =
     (case body m (a # s) of None \<Rightarrow> None | Some (m', s') \<Rightarrow> read_loop n body m' s')"

definition for_nonempty :: "('m \<Rightarrow> bytes \<Rightarrow> ('m \<times> bytes) option) \<Rightarrow> 'm \<Rightarrow> bytes \<Rightarrow> 'm option" where
  "for_nonempty body m s = read_loop (length s) body m s"

definition consumes :: "('m \<Rightarrow> bytes \<Rightarrow> ('m \<times> bytes) option) \<Rightarrow> bool" where
  "consumes body \<longleftrightarrow> (\<forall>m s m' s'. body m s = Some (m', s') \<longrightarrow> length s' < length s)"

lemma consumesI [intro?]:
  "(\<And>m s m' s'. body m s = Some (m', s') \<Longrightarrow> length s' < length s) \<Longrightarrow> consumes body"
  by (simp add: consumes_def)

lemma consumesD: "consumes body \<Longrightarrow> body m s = Some (m', s') \<Longrightarrow> length s' < length s"
  by (simp add: consumes_def)

lemma read_loop_enough:
  assumes "consumes body"
  shows "length s \<le> n \<Longrightarrow> length s \<le> k \<Longrightarrow> read_loop n body m s = read_loop k body m s"
proof (induction n arbitrary: k m s)
  case (Suc n)
  show ?case
  proof (cases s)
    case (Cons a t)
    with Suc.prems obtain k' where k: "k = Suc k'" by (cases k) auto
    have "read_loop n body m' s' = read_loop k' body m' s'" if "body m s = Some (m', s')" for m' s'
    proof (rule Suc.IH)
      have "length s' < length s" using assms that by (rule consumesD)
      then show "length s' \<le> n" and "length s' \<le> k'" using Suc.prems k by simp_all
    qed
    then show ?thesis using Cons k by (auto split: option.splits)
  qed simp
qed simp

lemma read_loop_fuel:
  "consumes body \<Longrightarrow> length s \<le> n \<Longrightarrow> read_loop n body m s = for_nonempty body m s"
  unfolding for_nonempty_def by (rule read_loop_enough) auto

lemma for_nonempty_Nil [simp]: "for_nonempty body m [] = Some m"
  by (simp add: for_nonempty_def)

lemma for_nonempty_unfold:
  assumes "consumes body" and "s \<noteq> []"
  shows "for_nonempty body m s =
    (case body m s of None \<Rightarrow> None | Some (m', s') \<Rightarrow> for_nonempty body m' s')"
proof -
  from \<open>s \<noteq> []\<close> obtain a t where s: "s = a # t" by (cases s) auto
  have "read_loop (length t) body m' s' = for_nonempty body m' s'" if "body m s = Some (m', s')" for m' s'
    using consumesD [OF assms(1) that] s by (intro read_loop_fuel assms(1)) simp
  then show ?thesis using s by (auto simp: for_nonempty_def split: option.splits)
qed

lemma read_loop_invariant_rest:
  assumes "read_loop n body m s = Some m'" and "P m s"
    and "\<And>m s m' s'. P m s \<Longrightarrow> body m s = Some (m', s') \<Longrightarrow> P m' s'"
  shows "P m' []"
  using assms
  by (induction n body m s rule: read_loop.induct) (auto split: option.splits)


lemma for_nonempty_invariant_rest:
  assumes "for_nonempty body m s = Some m'" and "P m s"
    and "\<And>m s m' s'. P m s \<Longrightarrow> body m s = Some (m', s') \<Longrightarrow> P m' s'"
  shows "P m' []"
  by (rule read_loop_invariant_rest [OF assms(1) [unfolded for_nonempty_def], of P]) (fact assms)+

lemma for_nonempty_invariant:
  assumes "for_nonempty body m s = Some m'" and "P m"
    and "\<And>m s m' s'. P m \<Longrightarrow> body m s = Some (m', s') \<Longrightarrow> P m'"
  shows "P m'"
  by (rule for_nonempty_invariant_rest [OF assms(1), where P = "\<lambda>m _. P m"]) (fact assms)+

text \<open>A loop over a concatenation of encodings visits the encoded elements in order.\<close>

lemma for_nonempty_concat:
  assumes "consumes body"
    and "\<And>ys x zs. xs = ys @ x # zs \<Longrightarrow>
      body (fold upd ys m) (enc x @ concat (map enc zs)) =
        Some (upd x (fold upd ys m), concat (map enc zs))"
    and "\<And>x. x \<in> set xs \<Longrightarrow> enc x \<noteq> []"
  shows "for_nonempty body m (concat (map enc xs)) = Some (fold upd xs m)"
  using assms(2,3)
proof (induction xs arbitrary: m)
  case (Cons x xs)
  have step: "body m (enc x @ concat (map enc xs)) = Some (upd x m, concat (map enc xs))"
    using Cons.prems(1) [of "[]" x xs] by simp
  have "for_nonempty body (upd x m) (concat (map enc xs)) = Some (fold upd xs (upd x m))"
  proof (rule Cons.IH)
    fix ys y zs assume "xs = ys @ y # zs"
    then show "body (fold upd ys (upd x m)) (enc y @ concat (map enc zs)) =
        Some (upd y (fold upd ys (upd x m)), concat (map enc zs))"
      using Cons.prems(1) [of "x # ys" y zs] by simp
  qed (use Cons.prems(2) in auto)
  then show ?case
    using assms(1) step Cons.prems(2) [of x] by (simp add: for_nonempty_unfold)
qed simp

lemma for_nonempty_appends:
  assumes "consumes body"
    and "\<And>x ys rest. x \<in> set xs \<Longrightarrow> body ys (enc x @ rest) = Some (ys @ [x], rest)"
    and "\<And>x. x \<in> set xs \<Longrightarrow> enc x \<noteq> []"
  shows "for_nonempty body ys (concat (map enc xs)) = Some (ys @ xs)"
proof -
  have "for_nonempty body ys (concat (map enc xs)) = Some (fold (\<lambda>x ys. ys @ [x]) xs ys)"
    using assms by (intro for_nonempty_concat) auto
  moreover have "fold (\<lambda>x ys. ys @ [x]) xs ys = ys @ xs" by (induction xs arbitrary: ys) simp_all
  ultimately show ?thesis by simp
qed

lemma for_nonempty_collects:
  assumes "for_nonempty body xs s = Some ys"
    and "\<And>xs s ys s'. body xs s = Some (ys, s') \<Longrightarrow> \<exists>y. ys = xs @ [y] \<and> Q y"
  shows "(\<forall>x \<in> set xs. Q x) \<longrightarrow> (\<forall>y \<in> set ys. Q y)" and "s \<noteq> [] \<Longrightarrow> ys \<noteq> []"
proof -
  show "(\<forall>x \<in> set xs. Q x) \<longrightarrow> (\<forall>y \<in> set ys. Q y)"
    by (rule for_nonempty_invariant [OF assms(1)]) (auto dest!: assms(2))
  have "ys \<noteq> [] \<or> [] = s"
    by (rule for_nonempty_invariant_rest [OF assms(1), where P = "\<lambda>ys t. ys \<noteq> [] \<or> t = s"])
      (auto dest!: assms(2))
  then show "s \<noteq> [] \<Longrightarrow> ys \<noteq> []" by auto
qed

subsection \<open>Consequences of the laws\<close>

lemma cat_Nil [simp]: "cat x (Some []) = x" "cat (Some []) x = x"
  by (cases x; simp)+

lemma cat_None [simp]: "cat x None = None" "cat None x = None"
  by (cases x; simp)+

lemma cat_assoc [simp]: "cat (cat x y) z = cat x (cat y z)"
  by (cases x; cases y; cases z) simp_all

lemma cat_eq_Some: "cat x y = Some z \<longleftrightarrow> (\<exists>a b. x = Some a \<and> y = Some b \<and> z = a @ b)"
  by (cases x; cases y) auto

lemma prefixed_eq_Some:
  "prefixed k x = Some z \<longleftrightarrow>
     (\<exists>a. x = Some a \<and> length a < 256 ^ k \<and> z = length_bytes k (length a) @ a)"
  by (cases x) auto

lemma length_length_bytes [simp]:
  "length (length_bytes 1 n) = 1" "length (length_bytes (Suc 0) n) = 1"
  "length (length_bytes 2 n) = 2" "length (length_bytes 3 n) = 3"
  by (simp_all add: length_bytes_def)

lemma split_at_append [simp]: "length x = n \<Longrightarrow> split_at n (x @ r) = Some (x, r)"
  by (simp add: split_at_def)

lemma split_at_all [simp]: "length x = n \<Longrightarrow> split_at n x = Some (x, [])"
  by (simp add: split_at_def)

lemma split_at_eq_Some:
  "split_at n s = Some (x, r) \<longleftrightarrow> s = x @ r \<and> length x = n"
  by (auto simp: split_at_def)

lemma guard_simps [simp]: "guard True = Some ()" "guard False = None"
  by (simp_all add: guard_def)

lemma guard_eq_Some [simp]: "guard c = Some u \<longleftrightarrow> c"
  by (simp add: guard_def)

lemma of_be16_length: "n < 65536 \<Longrightarrow> be16 (of_nat n) = [a, b] \<Longrightarrow> unat (of_be16 a b) = n"
  by (auto simp: be16_def of_be16_be16 unat_of_nat take_bit_nat_eq_self)

lemma of_be24_length: "n < 2 ^ 24 \<Longrightarrow> be24 (of_nat n) = [a, b, c] \<Longrightarrow> unat (of_be24 a b c) = n"
proof -
  assume n: "n < 2 ^ 24"
  then have u: "unat (of_nat n :: u32) = n" by (simp add: unat_of_nat take_bit_nat_eq_self)
  then have "(of_nat n :: u32) < 2 ^ 24" using n by (simp add: word_less_nat_alt)
  then show "be24 (of_nat n) = [a, b, c] \<Longrightarrow> unat (of_be24 a b c) = n"
    using u by (auto simp: be24_def of_be24_be24)
qed

context cryptobyte_laws
begin

lemma read8_Cons [simp]: "ReadUint8 cb (a # r) = Some (a, r)"
  by (simp add: ReadUint8)

lemma read16_append [simp]: "ReadUint16 cb (be16 v @ r) = Some (v, r)"
  by (simp add: ReadUint16 be16_def of_be16_be16)

lemma read16_all [simp]: "ReadUint16 cb (be16 v) = Some (v, [])"
  using read16_append [of v "[]"] by simp

lemma read32_append [simp]: "ReadUint32 cb (be32 v @ r) = Some (v, r)"
  by (simp add: ReadUint32 be32_def of_be32_be32)

lemma read32_all [simp]: "ReadUint32 cb (be32 v) = Some (v, [])"
  using read32_append [of v "[]"] by simp

lemma read8lp_append [simp]:
  "length x < 256 \<Longrightarrow> ReadUint8LengthPrefixed cb (length_bytes (Suc 0) (length x) @ x @ r) = Some (x, r)"
  by (simp add: ReadUint8LengthPrefixed length_bytes_def unat_of_nat take_bit_nat_eq_self)

lemma read8lp_all [simp]:
  "length x < 256 \<Longrightarrow> ReadUint8LengthPrefixed cb (length_bytes (Suc 0) (length x) @ x) = Some (x, [])"
  using read8lp_append [of x "[]"] by simp

lemma read16lp_append [simp]:
  assumes "length x < 65536"
  shows "ReadUint16LengthPrefixed cb (length_bytes 2 (length x) @ x @ r) = Some (x, r)"
proof -
  obtain a b where ab: "be16 (of_nat (length x)) = [a, b]" by (simp add: be16_def)
  with of_be16_length [OF assms ab] show ?thesis
    by (simp add: ReadUint16LengthPrefixed length_bytes_def)
qed

lemma read16lp_all [simp]:
  "length x < 65536 \<Longrightarrow> ReadUint16LengthPrefixed cb (length_bytes 2 (length x) @ x) = Some (x, [])"
  using read16lp_append [of x "[]"] by simp

lemma read24lp_append [simp]:
  assumes "length x < 16777216"
  shows "ReadUint24LengthPrefixed cb (length_bytes 3 (length x) @ x @ r) = Some (x, r)"
proof -
  obtain a b c where abc: "be24 (of_nat (length x)) = [a, b, c]" by (simp add: be24_def)
  with of_be24_length [OF _ abc] assms show ?thesis
    by (simp add: ReadUint24LengthPrefixed length_bytes_def)
qed

lemma read24lp_all [simp]:
  "length x < 16777216 \<Longrightarrow> ReadUint24LengthPrefixed cb (length_bytes 3 (length x) @ x) = Some (x, [])"
  using read24lp_append [of x "[]"] by simp

lemma skip_append [simp]: "length x = n \<Longrightarrow> Skip cb (x @ r) n = Some r"
  by (simp add: Skip)

text \<open>Every reader shortens its string.\<close>

lemma reads_shorten:
  "ReadUint8 cb s = Some (a, r) \<Longrightarrow> length r + 1 \<le> length s"
  "ReadUint16 cb s = Some (w, r) \<Longrightarrow> length r + 2 \<le> length s"
  "ReadUint32 cb s = Some (x, r) \<Longrightarrow> length r + 4 \<le> length s"
  "ReadUint8LengthPrefixed cb s = Some (y, r) \<Longrightarrow> length y + length r + 1 \<le> length s"
  "ReadUint16LengthPrefixed cb s = Some (y, r) \<Longrightarrow> length y + length r + 2 \<le> length s"
  "ReadUint24LengthPrefixed cb s = Some (y, r) \<Longrightarrow> length y + length r + 3 \<le> length s"
  "ReadBytes cb s n = Some (y, r) \<Longrightarrow> length r + n \<le> length s"
  by (auto simp: ReadUint8 ReadUint16 ReadUint32 ReadUint8LengthPrefixed ReadUint16LengthPrefixed
      ReadUint24LengthPrefixed ReadBytes split_at_eq_Some split: list.splits)

lemma helper_reads_shorten:
  "readUint8LengthPrefixed cb s = Some (y, r) \<Longrightarrow> length y + length r + 1 \<le> length s"
  "readUint16LengthPrefixed cb s = Some (y, r) \<Longrightarrow> length y + length r + 2 \<le> length s"
  "readUint24LengthPrefixed cb s = Some (y, r) \<Longrightarrow> length y + length r + 3 \<le> length s"
  by (auto simp: readUint8LengthPrefixed_def readUint16LengthPrefixed_def readUint24LengthPrefixed_def
      dest: reads_shorten)

text \<open>The child builders that the length-prefixed sections hand to their continuations.\<close>

definition child8 :: "'b \<Rightarrow> ('b \<Rightarrow> 'b) \<Rightarrow> 'b" where
  "child8 b f = (SOME c. Bytes cb c = Some [] \<and>
     Bytes cb (AddUint8LengthPrefixed cb b f) = cat (Bytes cb b) (prefixed 1 (Bytes cb (f c))))"

definition child16 :: "'b \<Rightarrow> ('b \<Rightarrow> 'b) \<Rightarrow> 'b" where
  "child16 b f = (SOME c. Bytes cb c = Some [] \<and>
     Bytes cb (AddUint16LengthPrefixed cb b f) = cat (Bytes cb b) (prefixed 2 (Bytes cb (f c))))"

definition child24 :: "'b \<Rightarrow> ('b \<Rightarrow> 'b) \<Rightarrow> 'b" where
  "child24 b f = (SOME c. Bytes cb c = Some [] \<and>
     Bytes cb (AddUint24LengthPrefixed cb b f) = cat (Bytes cb b) (prefixed 3 (Bytes cb (f c))))"

lemma child [simp]:
  "Bytes cb (child8 b f) = Some []" "Bytes cb (child16 b f) = Some []" "Bytes cb (child24 b f) = Some []"
  using someI_ex [OF AddUint8LengthPrefixed [of b f]] someI_ex [OF AddUint16LengthPrefixed [of b f]]
    someI_ex [OF AddUint24LengthPrefixed [of b f]]
  by (simp_all add: child8_def child16_def child24_def)

lemma sections:
  "Bytes cb (AddUint8LengthPrefixed cb b f) = cat (Bytes cb b) (prefixed (Suc 0) (Bytes cb (f (child8 b f))))"
  "Bytes cb (AddUint16LengthPrefixed cb b f) = cat (Bytes cb b) (prefixed 2 (Bytes cb (f (child16 b f))))"
  "Bytes cb (AddUint24LengthPrefixed cb b f) = cat (Bytes cb b) (prefixed 3 (Bytes cb (f (child24 b f))))"
  using someI_ex [OF AddUint8LengthPrefixed [of b f]] someI_ex [OF AddUint16LengthPrefixed [of b f]]
    someI_ex [OF AddUint24LengthPrefixed [of b f]]
  by (simp_all add: child8_def child16_def child24_def)

lemma addBytesWithLength_bytes:
  "Bytes cb (addBytesWithLength cb b v n) = (if length v = n then cat (Bytes cb b) (Some v) else None)"
  by (simp add: addBytesWithLength_def AddValue AddBytes)

lemmas builder = NewBuilder AddUint8 AddUint16 AddUint32 AddBytes SetError sections
  addBytesWithLength_bytes

lemma fold_bytes:
  assumes "\<And>x b. x \<in> set xs \<Longrightarrow> Bytes cb (f x b) = cat (Bytes cb b) (g x)"
  shows "Bytes cb (fold f xs b) = cat (Bytes cb b) (foldr (\<lambda>x. cat (g x)) xs (Some []))"
  using assms by (induction xs arbitrary: b) simp_all

lemma fold_add16 [simp]:
  "Bytes cb (fold (\<lambda>v b. AddUint16 cb b v) vs b) = cat (Bytes cb b) (Some (concat (map be16 vs)))"
proof -
  have "foldr (\<lambda>v. cat (Some (be16 v))) vs (Some []) = Some (concat (map be16 vs))"
    by (induction vs) simp_all
  then show ?thesis by (subst fold_bytes [where g = "\<lambda>v. Some (be16 v)"]) (simp_all add: builder)
qed

end

end
