(* ===== verification/Extensions.thy ===== *)
theory Extensions
  imports Cryptobyte
begin

text \<open>
  The extension loop that the parsers of \<open>src/handshake_messages.go\<close> share, the loop that
  reads a list of 16-bit values, and what they do on an encoded list of extensions: a list
  of type-and-data pairs is written by \<open>encs\<close> and read back one by one (\<open>ext_loop_run\<close>).
\<close>

subsection \<open>The extension loop\<close>

text \<open>
  One pass of \<open>for !extensions.Empty()\<close>: read an extension, reject a duplicate, run the
  switch, and require the switch to have consumed the data. The switch gets whether the
  list is now empty (\<open>extensions.Empty()\<close>); it returns the rest of the data, or \<open>None\<close> for
  the \<open>continue\<close> of its default branch.
\<close>

definition after_switch :: "'m \<times> bytes option \<Rightarrow> 'm option" where
  "after_switch = (\<lambda>(m, extData). case extData of
     None \<Rightarrow> Some m
   | Some d \<Rightarrow> do { guard (d = []); Some m })"

definition ext_step :: "'b cryptobyte \<Rightarrow> (bool \<Rightarrow> u16 \<Rightarrow> bytes \<Rightarrow> 'm \<Rightarrow> ('m \<times> bytes option) option) \<Rightarrow>
    'm \<times> (u16 \<Rightarrow> bool) \<Rightarrow> bytes \<Rightarrow> (('m \<times> (u16 \<Rightarrow> bool)) \<times> bytes) option" where
  "ext_step cb switch = (\<lambda>(m, seenExts) extensions. do {
     (extension, extensions) \<leftarrow> ReadUint16 cb extensions;
     (extData, extensions) \<leftarrow> ReadUint16LengthPrefixed cb extensions;
     guard (\<not> seenExts extension);
     r \<leftarrow> switch (extensions = []) extension extData m;
     m \<leftarrow> after_switch r;
     Some ((m, seenExts(extension := True)), extensions) })"

definition ext_loop :: "'b cryptobyte \<Rightarrow> (bool \<Rightarrow> u16 \<Rightarrow> bytes \<Rightarrow> 'm \<Rightarrow> ('m \<times> bytes option) option) \<Rightarrow>
    'm \<Rightarrow> bytes \<Rightarrow> 'm option" where
  "ext_loop cb switch m extensions =
     map_option fst (for_nonempty (ext_step cb switch) (m, \<lambda>_. False) extensions)"

text \<open>The loop of the messages that do not reject duplicates.\<close>

definition ext_step_dup :: "'b cryptobyte \<Rightarrow> (u16 \<Rightarrow> bytes \<Rightarrow> 'm \<Rightarrow> ('m \<times> bytes option) option) \<Rightarrow>
    'm \<Rightarrow> bytes \<Rightarrow> ('m \<times> bytes) option" where
  "ext_step_dup cb switch m extensions = do {
     (extension, extensions) \<leftarrow> ReadUint16 cb extensions;
     (extData, extensions) \<leftarrow> ReadUint16LengthPrefixed cb extensions;
     r \<leftarrow> switch extension extData m;
     m \<leftarrow> after_switch r;
     Some (m, extensions) }"

text \<open>The loop that appends 16-bit values to a list.\<close>

definition read_u16s :: "'b cryptobyte \<Rightarrow> u16 list \<Rightarrow> bytes \<Rightarrow> u16 list option" where
  "read_u16s cb vs s =
     for_nonempty (\<lambda>vs s. do { (v, s) \<leftarrow> ReadUint16 cb s; Some (vs @ [v], s) }) vs s"

subsection \<open>Encoded lists of extensions\<close>

text \<open>The data of an extension may be in error, when a section of it is too long.\<close>

fun encs :: "(u16 \<times> bytes option) list \<Rightarrow> bytes option" where
  "encs [] = Some []"
| "encs ((i, d) # xs) = cat (Some (be16 i)) (cat (prefixed 2 d) (encs xs))"

fun run_exts :: "(bool \<Rightarrow> u16 \<Rightarrow> bytes \<Rightarrow> 'm \<Rightarrow> ('m \<times> bytes option) option) \<Rightarrow>
    'm \<Rightarrow> (u16 \<times> bytes option) list \<Rightarrow> 'm option" where
  "run_exts switch m [] = Some m"
| "run_exts switch m ((i, None) # xs) = None"
| "run_exts switch m ((i, Some d) # xs) =
     do { r \<leftarrow> switch (xs = []) i d m; m \<leftarrow> after_switch r; run_exts switch m xs }"

lemma encs_append: "encs (xs @ ys) = cat (encs xs) (encs ys)"
  by (induction xs rule: encs.induct) simp_all

lemma encs_eq_Nil: "encs xs = Some [] \<longleftrightarrow> xs = []"
  by (cases xs rule: encs.cases) (auto simp: cat_eq_Some)

lemma after_switch_done [simp]: "after_switch (m, Some []) = Some m" "after_switch (m, None) = Some m"
  by (simp_all add: after_switch_def)

context cryptobyte_laws
begin

lemma consumes_ext_step [simp]: "consumes (ext_step cb switch)"
  by (rule consumesI)
    (auto simp: ext_step_def bind_eq_Some_conv split: prod.splits dest!: reads_shorten)

lemma consumes_ext_step_dup [simp]: "consumes (ext_step_dup cb switch)"
  by (rule consumesI)
    (auto simp: ext_step_dup_def bind_eq_Some_conv split: prod.splits dest!: reads_shorten)

lemma ext_loop_run_seen:
  "encs xs = Some eb \<Longrightarrow> distinct (map fst xs) \<Longrightarrow> \<forall>i \<in> fst ` set xs. \<not> seen i \<Longrightarrow>
    map_option fst (for_nonempty (ext_step cb switch) (m, seen) eb) = run_exts switch m xs"
proof (induction xs arbitrary: eb m seen rule: encs.induct)
  case (2 i d xs)
  then obtain d' eb' where d: "d = Some d'" "length d' < 65536" and eb': "encs xs = Some eb'"
    and eb: "eb = be16 i @ length_bytes 2 (length d') @ d' @ eb'"
    by (auto simp: cat_eq_Some prefixed_eq_Some)
  have empty: "eb' = [] \<longleftrightarrow> xs = []" using eb' encs_eq_Nil [of xs] by auto
  have IH: "map_option fst (for_nonempty (ext_step cb switch) (m', seen(i := True)) eb') =
      run_exts switch m' xs" for m'
    using 2 eb' by (intro "2.IH") auto
  have "for_nonempty (ext_step cb switch) (m, seen) eb =
    (case ext_step cb switch (m, seen) eb of None \<Rightarrow> None
     | Some (m', s') \<Rightarrow> for_nonempty (ext_step cb switch) m' s')"
    using eb by (intro for_nonempty_unfold) auto
  also have "ext_step cb switch (m, seen) eb = do {
      r \<leftarrow> switch (xs = []) i d' m; m \<leftarrow> after_switch r; Some ((m, seen(i := True)), eb') }"
    using 2 by (simp add: eb ext_step_def d empty)
  finally show ?case
    by (auto simp: d IH split: option.splits bind_splits)
qed simp

lemma ext_loop_run:
  "encs xs = Some eb \<Longrightarrow> distinct (map fst xs) \<Longrightarrow> ext_loop cb switch m eb = run_exts switch m xs"
  unfolding ext_loop_def by (rule ext_loop_run_seen) simp_all

lemma ext_loop_dup_run:
  "encs xs = Some eb \<Longrightarrow> for_nonempty (ext_step_dup cb switch) m eb = run_exts (\<lambda>_. switch) m xs"
proof (induction xs arbitrary: eb m rule: encs.induct)
  case (2 i d xs)
  then obtain d' eb' where d: "d = Some d'" "length d' < 65536" and eb': "encs xs = Some eb'"
    and eb: "eb = be16 i @ length_bytes 2 (length d') @ d' @ eb'"
    by (auto simp: cat_eq_Some prefixed_eq_Some)
  have "for_nonempty (ext_step_dup cb switch) m eb =
    (case ext_step_dup cb switch m eb of None \<Rightarrow> None
     | Some (m', s') \<Rightarrow> for_nonempty (ext_step_dup cb switch) m' s')"
    using eb by (intro for_nonempty_unfold) auto
  also have "ext_step_dup cb switch m eb = do {
      r \<leftarrow> switch i d' m; m \<leftarrow> after_switch r; Some (m, eb') }"
    by (simp add: eb ext_step_dup_def d)
  finally show ?case
    by (auto simp: d "2.IH" [OF eb'] split: option.splits bind_splits)
qed simp

lemma consumes_read_u16 [simp]: "consumes (\<lambda>vs s. do { (v, s) \<leftarrow> ReadUint16 cb s; Some (vs @ [v], s) })"
  by (rule consumesI) (auto simp: bind_eq_Some_conv dest!: reads_shorten)

lemma read_u16s_concat [simp]: "read_u16s cb vs (concat (map be16 ws)) = Some (vs @ ws)"
  unfolding read_u16s_def by (rule for_nonempty_appends) simp_all

end

end
