(* ===== verification/Client_Hello.thy ===== *)
theory Client_Hello
  imports Extensions Handshake_Types
begin

text \<open>
  The ClientHello codec of \<open>src/handshake_messages.go\<close>: \<open>marshalMsg\<close> block by block
  (one definition per extension, in the order of the code), \<open>unmarshal\<close> with its
  extension switch, \<open>marshalWithoutBinders\<close>, \<open>updateBinders\<close> and \<open>clone\<close>.
\<close>

subsection \<open>Marshalling\<close>

definition add_serverName :: "'b cryptobyte \<Rightarrow> clientHelloMsg \<Rightarrow> 'b \<Rightarrow> 'b" where
  "add_serverName cb m exts =
     (if length (ch_serverName m) > 0 then
        let exts = AddUint16 cb exts extensionServerName in
        AddUint16LengthPrefixed cb exts (\<lambda>exts.
          AddUint16LengthPrefixed cb exts (\<lambda>exts.
            let exts = AddUint8 cb exts 0 in
            AddUint16LengthPrefixed cb exts (\<lambda>exts.
              AddBytes cb exts (string_to_bytes (ch_serverName m)))))
      else exts)"

definition add_supportedPoints :: "'b cryptobyte \<Rightarrow> clientHelloMsg \<Rightarrow> bool \<Rightarrow> 'b \<Rightarrow> 'b" where
  "add_supportedPoints cb m echInner exts =
     (if length (ch_supportedPoints m) > 0 \<and> \<not> echInner then
        let exts = AddUint16 cb exts extensionSupportedPoints in
        AddUint16LengthPrefixed cb exts (\<lambda>exts.
          AddUint8LengthPrefixed cb exts (\<lambda>exts.
            AddBytes cb exts (ch_supportedPoints m)))
      else exts)"

definition add_sessionTicket :: "'b cryptobyte \<Rightarrow> clientHelloMsg \<Rightarrow> bool \<Rightarrow> 'b \<Rightarrow> 'b" where
  "add_sessionTicket cb m echInner exts =
     (if ch_ticketSupported m \<and> \<not> echInner then
        let exts = AddUint16 cb exts extensionSessionTicket in
        AddUint16LengthPrefixed cb exts (\<lambda>exts. AddBytes cb exts (ch_sessionTicket m))
      else exts)"

definition add_renegotiationInfo :: "'b cryptobyte \<Rightarrow> clientHelloMsg \<Rightarrow> bool \<Rightarrow> 'b \<Rightarrow> 'b" where
  "add_renegotiationInfo cb m echInner exts =
     (if ch_secureRenegotiationSupported m \<and> \<not> echInner then
        let exts = AddUint16 cb exts extensionRenegotiationInfo in
        AddUint16LengthPrefixed cb exts (\<lambda>exts.
          AddUint8LengthPrefixed cb exts (\<lambda>exts. AddBytes cb exts (ch_secureRenegotiation m)))
      else exts)"

definition add_extendedMasterSecret :: "'b cryptobyte \<Rightarrow> clientHelloMsg \<Rightarrow> bool \<Rightarrow> 'b \<Rightarrow> 'b" where
  "add_extendedMasterSecret cb m echInner exts =
     (if ch_extendedMasterSecret m \<and> \<not> echInner then
        let exts = AddUint16 cb exts extensionExtendedMasterSecret in AddUint16 cb exts 0
      else exts)"

definition add_scts :: "'b cryptobyte \<Rightarrow> clientHelloMsg \<Rightarrow> 'b \<Rightarrow> 'b" where
  "add_scts cb m exts =
     (if ch_scts m then let exts = AddUint16 cb exts extensionSCT in AddUint16 cb exts 0
      else exts)"

definition add_earlyData :: "'b cryptobyte \<Rightarrow> clientHelloMsg \<Rightarrow> 'b \<Rightarrow> 'b" where
  "add_earlyData cb m exts =
     (if ch_earlyData m then let exts = AddUint16 cb exts extensionEarlyData in AddUint16 cb exts 0
      else exts)"

definition add_quicTransportParameters :: "'b cryptobyte \<Rightarrow> clientHelloMsg \<Rightarrow> 'b \<Rightarrow> 'b" where
  "add_quicTransportParameters cb m exts =
     (case ch_quicTransportParameters m of
        Some params \<Rightarrow>
          let exts = AddUint16 cb exts extensionQUICTransportParameters in
          AddUint16LengthPrefixed cb exts (\<lambda>exts. AddBytes cb exts params)
      | None \<Rightarrow> exts)"

definition add_encryptedClientHello :: "'b cryptobyte \<Rightarrow> clientHelloMsg \<Rightarrow> 'b \<Rightarrow> 'b" where
  "add_encryptedClientHello cb m exts =
     (if length (ch_encryptedClientHello m) > 0 then
        let exts = AddUint16 cb exts extensionEncryptedClientHello in
        AddUint16LengthPrefixed cb exts (\<lambda>exts. AddBytes cb exts (ch_encryptedClientHello m))
      else exts)"

text \<open>
  The extensions that ECH can compress: in an inner ClientHello each is only recorded in
  \<open>echOuterExts\<close>, the second component of the state.
\<close>

type_synonym 'b ech_exts = "'b \<times> u16 list"

definition compressible :: "bool \<Rightarrow> u16 \<Rightarrow> ('b \<Rightarrow> 'b) \<Rightarrow> 'b ech_exts \<Rightarrow> 'b ech_exts" where
  "compressible echInner extension add = (\<lambda>(exts, echOuterExts).
     if echInner then (exts, echOuterExts @ [extension]) else (add exts, echOuterExts))"

definition add_statusRequest :: "'b cryptobyte \<Rightarrow> clientHelloMsg \<Rightarrow> bool \<Rightarrow> 'b ech_exts \<Rightarrow> 'b ech_exts" where
  "add_statusRequest cb m echInner st =
     (if ch_ocspStapling m then
        compressible echInner extensionStatusRequest (\<lambda>exts.
          let exts = AddUint16 cb exts extensionStatusRequest in
          AddUint16LengthPrefixed cb exts (\<lambda>exts.
            let exts = AddUint8 cb exts 1;
                exts = AddUint16 cb exts 0
            in AddUint16 cb exts 0)) st
      else st)"

definition add_supportedCurves :: "'b cryptobyte \<Rightarrow> clientHelloMsg \<Rightarrow> bool \<Rightarrow> 'b ech_exts \<Rightarrow> 'b ech_exts" where
  "add_supportedCurves cb m echInner st =
     (if length (ch_supportedCurves m) > 0 then
        compressible echInner extensionSupportedCurves (\<lambda>exts.
          let exts = AddUint16 cb exts extensionSupportedCurves in
          AddUint16LengthPrefixed cb exts (\<lambda>exts.
            AddUint16LengthPrefixed cb exts (\<lambda>exts.
              fold (\<lambda>curve exts. AddUint16 cb exts curve) (ch_supportedCurves m) exts))) st
      else st)"

definition add_signatureAlgorithms :: "'b cryptobyte \<Rightarrow> clientHelloMsg \<Rightarrow> bool \<Rightarrow> 'b ech_exts \<Rightarrow> 'b ech_exts" where
  "add_signatureAlgorithms cb m echInner st =
     (if length (ch_supportedSignatureAlgorithms m) > 0 then
        compressible echInner extensionSignatureAlgorithms (\<lambda>exts.
          let exts = AddUint16 cb exts extensionSignatureAlgorithms in
          AddUint16LengthPrefixed cb exts (\<lambda>exts.
            AddUint16LengthPrefixed cb exts (\<lambda>exts.
              fold (\<lambda>sigAlgo exts. AddUint16 cb exts sigAlgo) (ch_supportedSignatureAlgorithms m) exts))) st
      else st)"

definition add_signatureAlgorithmsCert :: "'b cryptobyte \<Rightarrow> clientHelloMsg \<Rightarrow> bool \<Rightarrow> 'b ech_exts \<Rightarrow> 'b ech_exts" where
  "add_signatureAlgorithmsCert cb m echInner st =
     (if length (ch_supportedSignatureAlgorithmsCert m) > 0 then
        compressible echInner extensionSignatureAlgorithmsCert (\<lambda>exts.
          let exts = AddUint16 cb exts extensionSignatureAlgorithmsCert in
          AddUint16LengthPrefixed cb exts (\<lambda>exts.
            AddUint16LengthPrefixed cb exts (\<lambda>exts.
              fold (\<lambda>sigAlgo exts. AddUint16 cb exts sigAlgo) (ch_supportedSignatureAlgorithmsCert m) exts))) st
      else st)"

definition add_alpn :: "'b cryptobyte \<Rightarrow> clientHelloMsg \<Rightarrow> bool \<Rightarrow> 'b ech_exts \<Rightarrow> 'b ech_exts" where
  "add_alpn cb m echInner st =
     (if length (ch_alpnProtocols m) > 0 then
        compressible echInner extensionALPN (\<lambda>exts.
          let exts = AddUint16 cb exts extensionALPN in
          AddUint16LengthPrefixed cb exts (\<lambda>exts.
            AddUint16LengthPrefixed cb exts (\<lambda>exts.
              fold (\<lambda>proto exts. AddUint8LengthPrefixed cb exts (\<lambda>exts.
                      AddBytes cb exts (string_to_bytes proto)))
                (ch_alpnProtocols m) exts))) st
      else st)"

definition add_supportedVersions :: "'b cryptobyte \<Rightarrow> clientHelloMsg \<Rightarrow> bool \<Rightarrow> 'b ech_exts \<Rightarrow> 'b ech_exts" where
  "add_supportedVersions cb m echInner st =
     (if length (ch_supportedVersions m) > 0 then
        compressible echInner extensionSupportedVersions (\<lambda>exts.
          let exts = AddUint16 cb exts extensionSupportedVersions in
          AddUint16LengthPrefixed cb exts (\<lambda>exts.
            AddUint8LengthPrefixed cb exts (\<lambda>exts.
              fold (\<lambda>vers exts. AddUint16 cb exts vers) (ch_supportedVersions m) exts))) st
      else st)"

definition add_cookie :: "'b cryptobyte \<Rightarrow> clientHelloMsg \<Rightarrow> bool \<Rightarrow> 'b ech_exts \<Rightarrow> 'b ech_exts" where
  "add_cookie cb m echInner st =
     (if length (ch_cookie m) > 0 then
        compressible echInner extensionCookie (\<lambda>exts.
          let exts = AddUint16 cb exts extensionCookie in
          AddUint16LengthPrefixed cb exts (\<lambda>exts.
            AddUint16LengthPrefixed cb exts (\<lambda>exts. AddBytes cb exts (ch_cookie m)))) st
      else st)"

definition add_keyShares :: "'b cryptobyte \<Rightarrow> clientHelloMsg \<Rightarrow> bool \<Rightarrow> 'b ech_exts \<Rightarrow> 'b ech_exts" where
  "add_keyShares cb m echInner st =
     (if length (ch_keyShares m) > 0 then
        compressible echInner extensionKeyShare (\<lambda>exts.
          let exts = AddUint16 cb exts extensionKeyShare in
          AddUint16LengthPrefixed cb exts (\<lambda>exts.
            AddUint16LengthPrefixed cb exts (\<lambda>exts.
              fold (\<lambda>ks exts.
                  let exts = AddUint16 cb exts (ks_group ks) in
                  AddUint16LengthPrefixed cb exts (\<lambda>exts. AddBytes cb exts (ks_data ks)))
                (ch_keyShares m) exts))) st
      else st)"

definition add_pskModes :: "'b cryptobyte \<Rightarrow> clientHelloMsg \<Rightarrow> bool \<Rightarrow> 'b ech_exts \<Rightarrow> 'b ech_exts" where
  "add_pskModes cb m echInner st =
     (if length (ch_pskModes m) > 0 then
        compressible echInner extensionPSKModes (\<lambda>exts.
          let exts = AddUint16 cb exts extensionPSKModes in
          AddUint16LengthPrefixed cb exts (\<lambda>exts.
            AddUint8LengthPrefixed cb exts (\<lambda>exts. AddBytes cb exts (ch_pskModes m)))) st
      else st)"

definition add_echOuterExtensions :: "'b cryptobyte \<Rightarrow> bool \<Rightarrow> 'b ech_exts \<Rightarrow> 'b" where
  "add_echOuterExtensions cb echInner = (\<lambda>(exts, echOuterExts).
     if length echOuterExts > 0 \<and> echInner then
       let exts = AddUint16 cb exts extensionECHOuterExtensions in
       AddUint16LengthPrefixed cb exts (\<lambda>exts.
         AddUint8LengthPrefixed cb exts (\<lambda>exts.
           fold (\<lambda>e exts. AddUint16 cb exts e) echOuterExts exts))
     else exts)"

definition add_preSharedKey :: "'b cryptobyte \<Rightarrow> clientHelloMsg \<Rightarrow> 'b \<Rightarrow> 'b" where
  "add_preSharedKey cb m exts =
     (if length (ch_pskIdentities m) > 0 then
        let exts = AddUint16 cb exts extensionPreSharedKey in
        AddUint16LengthPrefixed cb exts (\<lambda>exts.
          let exts = AddUint16LengthPrefixed cb exts (\<lambda>exts.
                fold (\<lambda>psk exts.
                    let exts = AddUint16LengthPrefixed cb exts (\<lambda>exts. AddBytes cb exts (psk_label psk)) in
                    AddUint32 cb exts (psk_obfuscatedTicketAge psk))
                  (ch_pskIdentities m) exts) in
          AddUint16LengthPrefixed cb exts (\<lambda>exts.
            fold (\<lambda>binder exts. AddUint8LengthPrefixed cb exts (\<lambda>exts. AddBytes cb exts binder))
              (ch_pskBinders m) exts))
      else exts)"

definition client_extensions :: "'b cryptobyte \<Rightarrow> clientHelloMsg \<Rightarrow> bool \<Rightarrow> 'b" where
  "client_extensions cb m echInner =
     (let exts = NewBuilder cb;
          exts = add_serverName cb m exts;
          exts = add_supportedPoints cb m echInner exts;
          exts = add_sessionTicket cb m echInner exts;
          exts = add_renegotiationInfo cb m echInner exts;
          exts = add_extendedMasterSecret cb m echInner exts;
          exts = add_scts cb m exts;
          exts = add_earlyData cb m exts;
          exts = add_quicTransportParameters cb m exts;
          exts = add_encryptedClientHello cb m exts;
          st = (exts, []);
          st = add_statusRequest cb m echInner st;
          st = add_supportedCurves cb m echInner st;
          st = add_signatureAlgorithms cb m echInner st;
          st = add_signatureAlgorithmsCert cb m echInner st;
          st = add_alpn cb m echInner st;
          st = add_supportedVersions cb m echInner st;
          st = add_cookie cb m echInner st;
          st = add_keyShares cb m echInner st;
          st = add_pskModes cb m echInner st;
          exts = add_echOuterExtensions cb echInner st
      in add_preSharedKey cb m exts)"

definition client_message :: "'b cryptobyte \<Rightarrow> clientHelloMsg \<Rightarrow> bool \<Rightarrow> bytes \<Rightarrow> 'b" where
  "client_message cb m echInner extBytes =
     (let b = NewBuilder cb;
          b = AddUint8 cb b typeClientHello
      in AddUint24LengthPrefixed cb b (\<lambda>b.
        let b = AddUint16 cb b (ch_vers m);
            b = addBytesWithLength cb b (ch_random m) 32;
            b = AddUint8LengthPrefixed cb b (\<lambda>b.
                  if \<not> echInner then AddBytes cb b (ch_sessionId m) else b);
            b = AddUint16LengthPrefixed cb b (\<lambda>b.
                  fold (\<lambda>suite b. AddUint16 cb b suite) (ch_cipherSuites m) b);
            b = AddUint8LengthPrefixed cb b (\<lambda>b. AddBytes cb b (ch_compressionMethods m))
        in if length extBytes > 0 then
             AddUint16LengthPrefixed cb b (\<lambda>b. AddBytes cb b extBytes)
           else b))"

definition clientHelloMsg_marshalMsg :: "'b cryptobyte \<Rightarrow> clientHelloMsg \<Rightarrow> bool \<Rightarrow> bytes option" where
  "clientHelloMsg_marshalMsg cb m echInner = do {
     extBytes \<leftarrow> Bytes cb (client_extensions cb m echInner);
     Bytes cb (client_message cb m echInner extBytes) }"

definition clientHelloMsg_marshal :: "'b cryptobyte \<Rightarrow> clientHelloMsg \<Rightarrow> bytes option" where
  "clientHelloMsg_marshal cb m = clientHelloMsg_marshalMsg cb m False"

text \<open>
  \<open>marshalWithoutBinders\<close> returns an error when marshalling does (\<open>None\<close>), and panics
  when the message is shorter than its binders.
\<close>

definition binders_length :: "bytes list \<Rightarrow> nat" where
  "binders_length binders = fold (\<lambda>binder n. n + 1 + length binder) binders 2"

definition clientHelloMsg_marshalWithoutBinders ::
    "'b cryptobyte \<Rightarrow> clientHelloMsg \<Rightarrow> bytes option may_panic" where
  "clientHelloMsg_marshalWithoutBinders cb m =
     (let bindersLen = binders_length (ch_pskBinders m);
          fullMessage = (case ch_original m of Some original \<Rightarrow> Some original
                         | None \<Rightarrow> clientHelloMsg_marshal cb m)
      in case fullMessage of
           None \<Rightarrow> Inr None
         | Some full \<Rightarrow>
             if length full < bindersLen then Inl SliceBounds
             else Inr (Some (take (length full - bindersLen) full)))"

definition clientHelloMsg_updateBinders :: "clientHelloMsg \<Rightarrow> bytes list \<Rightarrow> clientHelloMsg option" where
  "clientHelloMsg_updateBinders m pskBinders =
     (if length pskBinders \<noteq> length (ch_pskBinders m) then None
      else if list_ex (\<lambda>(a, b). length a \<noteq> length b) (zip pskBinders (ch_pskBinders m)) then None
      else Some (m\<lparr>ch_pskBinders := pskBinders\<rparr>))"

definition clientHelloMsg_originalBytes :: "clientHelloMsg \<Rightarrow> bytes option" where
  "clientHelloMsg_originalBytes m = ch_original m"

text \<open>\<open>clone\<close> copies every field but \<open>extensions\<close>.\<close>

definition clientHelloMsg_clone :: "clientHelloMsg \<Rightarrow> clientHelloMsg" where
  "clientHelloMsg_clone m = \<lparr>ch_original = ch_original m, ch_vers = ch_vers m,
     ch_random = ch_random m, ch_sessionId = ch_sessionId m,
     ch_cipherSuites = ch_cipherSuites m, ch_compressionMethods = ch_compressionMethods m,
     ch_serverName = ch_serverName m, ch_ocspStapling = ch_ocspStapling m,
     ch_supportedCurves = ch_supportedCurves m, ch_supportedPoints = ch_supportedPoints m,
     ch_ticketSupported = ch_ticketSupported m, ch_sessionTicket = ch_sessionTicket m,
     ch_supportedSignatureAlgorithms = ch_supportedSignatureAlgorithms m,
     ch_supportedSignatureAlgorithmsCert = ch_supportedSignatureAlgorithmsCert m,
     ch_secureRenegotiationSupported = ch_secureRenegotiationSupported m,
     ch_secureRenegotiation = ch_secureRenegotiation m,
     ch_extendedMasterSecret = ch_extendedMasterSecret m, ch_alpnProtocols = ch_alpnProtocols m,
     ch_scts = ch_scts m, ch_supportedVersions = ch_supportedVersions m, ch_cookie = ch_cookie m,
     ch_keyShares = ch_keyShares m, ch_earlyData = ch_earlyData m, ch_pskModes = ch_pskModes m,
     ch_pskIdentities = ch_pskIdentities m, ch_pskBinders = ch_pskBinders m,
     ch_quicTransportParameters = ch_quicTransportParameters m,
     ch_encryptedClientHello = ch_encryptedClientHello m, ch_extensions = []\<rparr>"

subsection \<open>Unmarshalling\<close>

text \<open>The loops inside the switch.\<close>

definition HasSuffix_dot :: "string \<Rightarrow> bool" where
  "HasSuffix_dot s \<longleftrightarrow> s \<noteq> [] \<and> last s = CHR ''.''"

definition serverName_step :: "'b cryptobyte \<Rightarrow> clientHelloMsg \<Rightarrow> bytes \<Rightarrow> (clientHelloMsg \<times> bytes) option" where
  "serverName_step cb m nameList = do {
     (nameType, nameList) \<leftarrow> ReadUint8 cb nameList;
     (serverName, nameList) \<leftarrow> ReadUint16LengthPrefixed cb nameList;
     guard (serverName \<noteq> []);
     if nameType \<noteq> 0 then Some (m, nameList)
     else do {
       guard (length (ch_serverName m) = 0);
       let m = m\<lparr>ch_serverName := bytes_to_string serverName\<rparr>;
       guard (\<not> HasSuffix_dot (ch_serverName m));
       Some (m, nameList) } }"

definition alpn_step :: "'b cryptobyte \<Rightarrow> string list \<Rightarrow> bytes \<Rightarrow> (string list \<times> bytes) option" where
  "alpn_step cb protos protoList = do {
     (proto, protoList) \<leftarrow> ReadUint8LengthPrefixed cb protoList;
     guard (proto \<noteq> []);
     Some (protos @ [bytes_to_string proto], protoList) }"

definition keyShare_step :: "'b cryptobyte \<Rightarrow> keyShare list \<Rightarrow> bytes \<Rightarrow> (keyShare list \<times> bytes) option" where
  "keyShare_step cb shares clientShares = do {
     (grp, clientShares) \<leftarrow> ReadUint16 cb clientShares;
     (data, clientShares) \<leftarrow> readUint16LengthPrefixed cb clientShares;
     guard (length data \<noteq> 0);
     Some (shares @ [\<lparr>ks_group = grp, ks_data = data\<rparr>], clientShares) }"

definition pskIdentity_step :: "'b cryptobyte \<Rightarrow> pskIdentity list \<Rightarrow> bytes \<Rightarrow> (pskIdentity list \<times> bytes) option" where
  "pskIdentity_step cb psks identities = do {
     (label, identities) \<leftarrow> readUint16LengthPrefixed cb identities;
     (age, identities) \<leftarrow> ReadUint32 cb identities;
     guard (length label \<noteq> 0);
     Some (psks @ [\<lparr>psk_label = label, psk_obfuscatedTicketAge = age\<rparr>], identities) }"

definition binder_step :: "'b cryptobyte \<Rightarrow> bytes list \<Rightarrow> bytes \<Rightarrow> (bytes list \<times> bytes) option" where
  "binder_step cb bs binders = do {
     (binder, binders) \<leftarrow> readUint8LengthPrefixed cb binders;
     guard (length binder \<noteq> 0);
     Some (bs @ [binder], binders) }"

definition client_ext_switch ::
    "'b cryptobyte \<Rightarrow> bool \<Rightarrow> u16 \<Rightarrow> bytes \<Rightarrow> clientHelloMsg \<Rightarrow> (clientHelloMsg \<times> bytes option) option" where
  "client_ext_switch cb last_ext extension extData m =
    (let m = m\<lparr>ch_extensions := ch_extensions m @ [extension]\<rparr> in
     if extension = extensionServerName then do {
       (nameList, extData) \<leftarrow> ReadUint16LengthPrefixed cb extData;
       guard (nameList \<noteq> []);
       m \<leftarrow> for_nonempty (serverName_step cb) m nameList;
       Some (m, Some extData) }
     else if extension = extensionStatusRequest then do {
       (statusType, extData) \<leftarrow> ReadUint8 cb extData;
       (ignored, extData) \<leftarrow> ReadUint16LengthPrefixed cb extData;
       (ignored, extData) \<leftarrow> ReadUint16LengthPrefixed cb extData;
       Some (m\<lparr>ch_ocspStapling := (statusType = statusTypeOCSP)\<rparr>, Some extData) }
     else if extension = extensionSupportedCurves then do {
       (curves, extData) \<leftarrow> ReadUint16LengthPrefixed cb extData;
       guard (curves \<noteq> []);
       cs \<leftarrow> read_u16s cb (ch_supportedCurves m) curves;
       Some (m\<lparr>ch_supportedCurves := cs\<rparr>, Some extData) }
     else if extension = extensionSupportedPoints then do {
       (points, extData) \<leftarrow> readUint8LengthPrefixed cb extData;
       guard (length points \<noteq> 0);
       Some (m\<lparr>ch_supportedPoints := points\<rparr>, Some extData) }
     else if extension = extensionSessionTicket then
       let m = m\<lparr>ch_ticketSupported := True\<rparr> in
       (case ReadBytes cb extData (length extData) of
          Some (ticket, extData) \<Rightarrow> Some (m\<lparr>ch_sessionTicket := ticket\<rparr>, Some extData)
        | None \<Rightarrow> Some (m, Some extData))
     else if extension = extensionSignatureAlgorithms then do {
       (sigAndAlgs, extData) \<leftarrow> ReadUint16LengthPrefixed cb extData;
       guard (sigAndAlgs \<noteq> []);
       as \<leftarrow> read_u16s cb (ch_supportedSignatureAlgorithms m) sigAndAlgs;
       Some (m\<lparr>ch_supportedSignatureAlgorithms := as\<rparr>, Some extData) }
     else if extension = extensionSignatureAlgorithmsCert then do {
       (sigAndAlgs, extData) \<leftarrow> ReadUint16LengthPrefixed cb extData;
       guard (sigAndAlgs \<noteq> []);
       as \<leftarrow> read_u16s cb (ch_supportedSignatureAlgorithmsCert m) sigAndAlgs;
       Some (m\<lparr>ch_supportedSignatureAlgorithmsCert := as\<rparr>, Some extData) }
     else if extension = extensionRenegotiationInfo then do {
       (info, extData) \<leftarrow> readUint8LengthPrefixed cb extData;
       Some (m\<lparr>ch_secureRenegotiation := info, ch_secureRenegotiationSupported := True\<rparr>, Some extData) }
     else if extension = extensionExtendedMasterSecret then
       Some (m\<lparr>ch_extendedMasterSecret := True\<rparr>, Some extData)
     else if extension = extensionALPN then do {
       (protoList, extData) \<leftarrow> ReadUint16LengthPrefixed cb extData;
       guard (protoList \<noteq> []);
       ps \<leftarrow> for_nonempty (alpn_step cb) (ch_alpnProtocols m) protoList;
       Some (m\<lparr>ch_alpnProtocols := ps\<rparr>, Some extData) }
     else if extension = extensionSCT then
       Some (m\<lparr>ch_scts := True\<rparr>, Some extData)
     else if extension = extensionSupportedVersions then do {
       (versList, extData) \<leftarrow> ReadUint8LengthPrefixed cb extData;
       guard (versList \<noteq> []);
       vs \<leftarrow> read_u16s cb (ch_supportedVersions m) versList;
       Some (m\<lparr>ch_supportedVersions := vs\<rparr>, Some extData) }
     else if extension = extensionCookie then do {
       (cookie, extData) \<leftarrow> readUint16LengthPrefixed cb extData;
       guard (length cookie \<noteq> 0);
       Some (m\<lparr>ch_cookie := cookie\<rparr>, Some extData) }
     else if extension = extensionKeyShare then do {
       (clientShares, extData) \<leftarrow> ReadUint16LengthPrefixed cb extData;
       kss \<leftarrow> for_nonempty (keyShare_step cb) (ch_keyShares m) clientShares;
       Some (m\<lparr>ch_keyShares := kss\<rparr>, Some extData) }
     else if extension = extensionEarlyData then
       Some (m\<lparr>ch_earlyData := True\<rparr>, Some extData)
     else if extension = extensionPSKModes then do {
       (modes, extData) \<leftarrow> readUint8LengthPrefixed cb extData;
       Some (m\<lparr>ch_pskModes := modes\<rparr>, Some extData) }
     else if extension = extensionQUICTransportParameters then do {
       (params, extData) \<leftarrow> CopyBytes cb extData (length extData);
       Some (m\<lparr>ch_quicTransportParameters := Some params\<rparr>, Some extData) }
     else if extension = extensionPreSharedKey then do {
       guard last_ext;
       (identities, extData) \<leftarrow> ReadUint16LengthPrefixed cb extData;
       guard (identities \<noteq> []);
       ids \<leftarrow> for_nonempty (pskIdentity_step cb) (ch_pskIdentities m) identities;
       (binders, extData) \<leftarrow> ReadUint16LengthPrefixed cb extData;
       guard (binders \<noteq> []);
       bs \<leftarrow> for_nonempty (binder_step cb) (ch_pskBinders m) binders;
       Some (m\<lparr>ch_pskIdentities := ids, ch_pskBinders := bs\<rparr>, Some extData) }
     else if extension = extensionEncryptedClientHello then do {
       (ech, extData) \<leftarrow> ReadBytes cb extData (length extData);
       Some (m\<lparr>ch_encryptedClientHello := ech\<rparr>, Some extData) }
     else Some (m, None))"

definition suite_step :: "'b cryptobyte \<Rightarrow> clientHelloMsg \<Rightarrow> bytes \<Rightarrow> (clientHelloMsg \<times> bytes) option" where
  "suite_step cb m cipherSuites = do {
     (suite, cipherSuites) \<leftarrow> ReadUint16 cb cipherSuites;
     let m = (if suite = scsvRenegotiation then m\<lparr>ch_secureRenegotiationSupported := True\<rparr> else m);
     Some (m\<lparr>ch_cipherSuites := ch_cipherSuites m @ [suite]\<rparr>, cipherSuites) }"

definition clientHelloMsg_unmarshal :: "'b cryptobyte \<Rightarrow> bytes \<Rightarrow> clientHelloMsg option" where
  "clientHelloMsg_unmarshal cb data = do {
     let m = clientHelloMsg_zero (Some data);
     s \<leftarrow> Skip cb data 4;
     (vers, s) \<leftarrow> ReadUint16 cb s;
     (random, s) \<leftarrow> ReadBytes cb s 32;
     (sessionId, s) \<leftarrow> readUint8LengthPrefixed cb s;
     let m = m\<lparr>ch_vers := vers, ch_random := random, ch_sessionId := sessionId\<rparr>;
     (cipherSuites, s) \<leftarrow> ReadUint16LengthPrefixed cb s;
     m \<leftarrow> for_nonempty (suite_step cb)
            (m\<lparr>ch_cipherSuites := [], ch_secureRenegotiationSupported := False\<rparr>) cipherSuites;
     (compressionMethods, s) \<leftarrow> readUint8LengthPrefixed cb s;
     let m = m\<lparr>ch_compressionMethods := compressionMethods\<rparr>;
     if s = [] then Some m
     else do {
       (extensions, s) \<leftarrow> ReadUint16LengthPrefixed cb s;
       guard (s = []);
       ext_loop cb (client_ext_switch cb) m extensions } }"

end
