(* ===== verification/Client_Hello_Codec.thy ===== *)
theory Client_Hello_Codec
  imports Client_Hello "HOL-Library.Sublist"
begin

text \<open>
  Correctness of the ClientHello codec. Marshalling writes a list of extensions
  (\<open>client_ext_list\<close>); the extension switch reads each of them back into the field it came
  from; so a message that marshals is parsed back.
\<close>

subsection \<open>What marshalling writes\<close>

definition cats :: "bytes option list \<Rightarrow> bytes option" where
  "cats xs = foldr cat xs (Some [])"

lemma cats_simps [simp]: "cats [] = Some []" "cats (x # xs) = cat x (cats xs)"
  by (simp_all add: cats_def)

lemma cats_map_eq_Some:
  "cats (map g xs) = Some d \<longleftrightarrow> (\<forall>x \<in> set xs. g x \<noteq> None) \<and> d = concat (map (\<lambda>x. the (g x)) xs)"
  by (induction xs arbitrary: d) (auto simp: cat_eq_Some)

lemma cats_map_concat: "cats (map g xs) = Some d \<Longrightarrow> d = concat (map (\<lambda>x. the (g x)) xs)"
  by (simp add: cats_map_eq_Some)

definition x_serverName :: "clientHelloMsg \<Rightarrow> (u16 \<times> bytes option) list" where
  "x_serverName m = (if ch_serverName m \<noteq> [] then
     [(extensionServerName,
       prefixed 2 (cat (Some [0]) (prefixed 2 (Some (string_to_bytes (ch_serverName m))))))] else [])"

definition x_supportedPoints :: "clientHelloMsg \<Rightarrow> (u16 \<times> bytes option) list" where
  "x_supportedPoints m = (if ch_supportedPoints m \<noteq> [] then
     [(extensionSupportedPoints, prefixed 1 (Some (ch_supportedPoints m)))] else [])"

definition x_sessionTicket :: "clientHelloMsg \<Rightarrow> (u16 \<times> bytes option) list" where
  "x_sessionTicket m = (if ch_ticketSupported m then
     [(extensionSessionTicket, Some (ch_sessionTicket m))] else [])"

definition x_renegotiationInfo :: "clientHelloMsg \<Rightarrow> (u16 \<times> bytes option) list" where
  "x_renegotiationInfo m = (if ch_secureRenegotiationSupported m then
     [(extensionRenegotiationInfo, prefixed 1 (Some (ch_secureRenegotiation m)))] else [])"

definition x_extendedMasterSecret :: "clientHelloMsg \<Rightarrow> (u16 \<times> bytes option) list" where
  "x_extendedMasterSecret m = (if ch_extendedMasterSecret m then
     [(extensionExtendedMasterSecret, Some [])] else [])"

definition x_scts :: "clientHelloMsg \<Rightarrow> (u16 \<times> bytes option) list" where
  "x_scts m = (if ch_scts m then [(extensionSCT, Some [])] else [])"

definition x_earlyData :: "clientHelloMsg \<Rightarrow> (u16 \<times> bytes option) list" where
  "x_earlyData m = (if ch_earlyData m then [(extensionEarlyData, Some [])] else [])"

definition x_quicTransportParameters :: "clientHelloMsg \<Rightarrow> (u16 \<times> bytes option) list" where
  "x_quicTransportParameters m = (if ch_quicTransportParameters m \<noteq> None then
     [(extensionQUICTransportParameters, ch_quicTransportParameters m)] else [])"

definition x_encryptedClientHello :: "clientHelloMsg \<Rightarrow> (u16 \<times> bytes option) list" where
  "x_encryptedClientHello m = (if ch_encryptedClientHello m \<noteq> [] then
     [(extensionEncryptedClientHello, Some (ch_encryptedClientHello m))] else [])"

definition x_statusRequest :: "clientHelloMsg \<Rightarrow> (u16 \<times> bytes option) list" where
  "x_statusRequest m = (if ch_ocspStapling m then
     [(extensionStatusRequest, Some (1 # be16 0 @ be16 0))] else [])"

definition x_u16s :: "u16 \<Rightarrow> u16 list \<Rightarrow> (u16 \<times> bytes option) list" where
  "x_u16s extension vs = (if vs \<noteq> [] then [(extension, prefixed 2 (Some (concat (map be16 vs))))] else [])"

definition x_alpn :: "clientHelloMsg \<Rightarrow> (u16 \<times> bytes option) list" where
  "x_alpn m = (if ch_alpnProtocols m \<noteq> [] then
     [(extensionALPN, prefixed 2 (cats (map (\<lambda>p. prefixed 1 (Some (string_to_bytes p)))
        (ch_alpnProtocols m))))] else [])"

definition x_supportedVersions :: "clientHelloMsg \<Rightarrow> (u16 \<times> bytes option) list" where
  "x_supportedVersions m = (if ch_supportedVersions m \<noteq> [] then
     [(extensionSupportedVersions, prefixed 1 (Some (concat (map be16 (ch_supportedVersions m)))))] else [])"

definition x_cookie :: "clientHelloMsg \<Rightarrow> (u16 \<times> bytes option) list" where
  "x_cookie m = (if ch_cookie m \<noteq> [] then [(extensionCookie, prefixed 2 (Some (ch_cookie m)))] else [])"

definition x_keyShares :: "clientHelloMsg \<Rightarrow> (u16 \<times> bytes option) list" where
  "x_keyShares m = (if ch_keyShares m \<noteq> [] then
     [(extensionKeyShare, prefixed 2 (cats (map (\<lambda>ks. cat (Some (be16 (ks_group ks)))
        (prefixed 2 (Some (ks_data ks)))) (ch_keyShares m))))] else [])"

definition x_pskModes :: "clientHelloMsg \<Rightarrow> (u16 \<times> bytes option) list" where
  "x_pskModes m = (if ch_pskModes m \<noteq> [] then
     [(extensionPSKModes, prefixed 1 (Some (ch_pskModes m)))] else [])"

definition psk_identities_bytes :: "clientHelloMsg \<Rightarrow> bytes option" where
  "psk_identities_bytes m = prefixed 2 (cats (map (\<lambda>psk. cat (prefixed 2 (Some (psk_label psk)))
     (Some (be32 (psk_obfuscatedTicketAge psk)))) (ch_pskIdentities m)))"

definition psk_binders_bytes :: "bytes list \<Rightarrow> bytes option" where
  "psk_binders_bytes bs = prefixed 2 (cats (map (\<lambda>b. prefixed 1 (Some b)) bs))"

definition x_preSharedKey :: "clientHelloMsg \<Rightarrow> (u16 \<times> bytes option) list" where
  "x_preSharedKey m = (if ch_pskIdentities m \<noteq> [] then
     [(extensionPreSharedKey, cat (psk_identities_bytes m) (psk_binders_bytes (ch_pskBinders m)))] else [])"

text \<open>The extensions of a ClientHello in the order they are sent; \<open>pre_shared_key\<close> is last.\<close>

definition client_ext_front :: "clientHelloMsg \<Rightarrow> (u16 \<times> bytes option) list" where
  "client_ext_front m =
     x_serverName m @ x_supportedPoints m @ x_sessionTicket m @ x_renegotiationInfo m @
     x_extendedMasterSecret m @ x_scts m @ x_earlyData m @ x_quicTransportParameters m @
     x_encryptedClientHello m @ x_statusRequest m @
     x_u16s extensionSupportedCurves (ch_supportedCurves m) @
     x_u16s extensionSignatureAlgorithms (ch_supportedSignatureAlgorithms m) @
     x_u16s extensionSignatureAlgorithmsCert (ch_supportedSignatureAlgorithmsCert m) @
     x_alpn m @ x_supportedVersions m @ x_cookie m @ x_keyShares m @ x_pskModes m"

definition client_ext_list :: "clientHelloMsg \<Rightarrow> (u16 \<times> bytes option) list" where
  "client_ext_list m = client_ext_front m @ x_preSharedKey m"

lemma client_ext_list_eq:
  "client_ext_list m =
     x_serverName m @ x_supportedPoints m @ x_sessionTicket m @ x_renegotiationInfo m @
     x_extendedMasterSecret m @ x_scts m @ x_earlyData m @ x_quicTransportParameters m @
     x_encryptedClientHello m @ x_statusRequest m @
     x_u16s extensionSupportedCurves (ch_supportedCurves m) @
     x_u16s extensionSignatureAlgorithms (ch_supportedSignatureAlgorithms m) @
     x_u16s extensionSignatureAlgorithmsCert (ch_supportedSignatureAlgorithmsCert m) @
     x_alpn m @ x_supportedVersions m @ x_cookie m @ x_keyShares m @ x_pskModes m @ x_preSharedKey m"
  by (simp add: client_ext_list_def client_ext_front_def)

lemmas x_defs = x_serverName_def x_supportedPoints_def x_sessionTicket_def x_renegotiationInfo_def
  x_extendedMasterSecret_def x_scts_def x_earlyData_def x_quicTransportParameters_def
  x_encryptedClientHello_def x_statusRequest_def x_u16s_def x_alpn_def x_supportedVersions_def
  x_cookie_def x_keyShares_def x_pskModes_def x_preSharedKey_def

text \<open>
  The messages whose fields all survive the wire: what is not sent is empty, and what the
  parser refuses (an empty protocol, share, identity or binder, a trailing dot) is absent.
\<close>

definition canonical_hello :: "clientHelloMsg \<Rightarrow> bool" where
  "canonical_hello m \<longleftrightarrow>
     (ch_ticketSupported m \<or> ch_sessionTicket m = []) \<and>
     (ch_secureRenegotiationSupported m \<or>
        scsvRenegotiation \<notin> set (ch_cipherSuites m) \<and> ch_secureRenegotiation m = []) \<and>
     \<not> HasSuffix_dot (ch_serverName m) \<and> [] \<notin> set (ch_alpnProtocols m) \<and>
     (\<forall>ks \<in> set (ch_keyShares m). ks_data ks \<noteq> []) \<and>
     (\<forall>psk \<in> set (ch_pskIdentities m). psk_label psk \<noteq> []) \<and>
     (\<forall>b \<in> set (ch_pskBinders m). b \<noteq> []) \<and>
     (ch_pskIdentities m = [] \<longleftrightarrow> ch_pskBinders m = [])"

text \<open>What the parser guarantees of the messages it accepts.\<close>

definition accepted_hello :: "clientHelloMsg \<Rightarrow> bool" where
  "accepted_hello m \<longleftrightarrow>
     \<not> HasSuffix_dot (ch_serverName m) \<and> (\<forall>p \<in> set (ch_alpnProtocols m). p \<noteq> []) \<and>
     (\<forall>ks \<in> set (ch_keyShares m). ks_data ks \<noteq> []) \<and>
     (\<forall>psk \<in> set (ch_pskIdentities m). psk_label psk \<noteq> []) \<and>
     (\<forall>b \<in> set (ch_pskBinders m). b \<noteq> []) \<and>
     (ch_pskIdentities m = [] \<longleftrightarrow> ch_pskBinders m = [])"

text \<open>
  The bytes before the binders, for binders of a given encoded length: \<open>section_head k x n\<close>
  is the start of a section that begins with \<open>x\<close> and has \<open>n\<close> more bytes.
\<close>

fun section_head :: "nat \<Rightarrow> bytes option \<Rightarrow> nat \<Rightarrow> bytes option" where
  "section_head k (Some x) n =
     (if length x + n < 256 ^ k then Some (length_bytes k (length x + n) @ x) else None)"
| "section_head k None n = None"

lemma prefixed_tail: "prefixed k (cat x (Some B)) = cat (section_head k x (length B)) (Some B)"
  by (cases x) simp_all

definition ext_head :: "clientHelloMsg \<Rightarrow> nat \<Rightarrow> bytes option" where
  "ext_head m n = cat (encs (client_ext_front m))
     (cat (Some (be16 extensionPreSharedKey)) (section_head 2 (psk_identities_bytes m) n))"

definition hello_head :: "clientHelloMsg \<Rightarrow> nat \<Rightarrow> bytes option" where
  "hello_head m n = cat (Some [typeClientHello]) (section_head 3 (cat (Some (be16 (ch_vers m)))
      (cat (if length (ch_random m) = 32 then Some (ch_random m) else None)
      (cat (prefixed 1 (Some (ch_sessionId m)))
      (cat (prefixed 2 (Some (concat (map be16 (ch_cipherSuites m)))))
      (cat (prefixed 1 (Some (ch_compressionMethods m)))
      (section_head 2 (ext_head m n) n)))))) n)"

lemma x_binders [simp]:
  "x_serverName (m\<lparr>ch_pskBinders := bs\<rparr>) = x_serverName m"
  "x_supportedPoints (m\<lparr>ch_pskBinders := bs\<rparr>) = x_supportedPoints m"
  "x_sessionTicket (m\<lparr>ch_pskBinders := bs\<rparr>) = x_sessionTicket m"
  "x_renegotiationInfo (m\<lparr>ch_pskBinders := bs\<rparr>) = x_renegotiationInfo m"
  "x_extendedMasterSecret (m\<lparr>ch_pskBinders := bs\<rparr>) = x_extendedMasterSecret m"
  "x_scts (m\<lparr>ch_pskBinders := bs\<rparr>) = x_scts m"
  "x_earlyData (m\<lparr>ch_pskBinders := bs\<rparr>) = x_earlyData m"
  "x_quicTransportParameters (m\<lparr>ch_pskBinders := bs\<rparr>) = x_quicTransportParameters m"
  "x_encryptedClientHello (m\<lparr>ch_pskBinders := bs\<rparr>) = x_encryptedClientHello m"
  "x_statusRequest (m\<lparr>ch_pskBinders := bs\<rparr>) = x_statusRequest m"
  "x_alpn (m\<lparr>ch_pskBinders := bs\<rparr>) = x_alpn m"
  "x_supportedVersions (m\<lparr>ch_pskBinders := bs\<rparr>) = x_supportedVersions m"
  "x_cookie (m\<lparr>ch_pskBinders := bs\<rparr>) = x_cookie m"
  "x_keyShares (m\<lparr>ch_pskBinders := bs\<rparr>) = x_keyShares m"
  "x_pskModes (m\<lparr>ch_pskBinders := bs\<rparr>) = x_pskModes m"
  by (simp_all add: x_defs)

lemma hello_head_binders [simp]: "hello_head (m\<lparr>ch_pskBinders := bs\<rparr>) n = hello_head m n"
  by (simp add: hello_head_def ext_head_def client_ext_front_def psk_identities_bytes_def)

lemma binders_length_eq: "binders_length bs = 2 + (\<Sum>b\<leftarrow>bs. 1 + length b)"
proof -
  have "fold (\<lambda>b n. n + 1 + length b) bs k = k + (\<Sum>b\<leftarrow>bs. 1 + length b)" for k
    by (induction bs arbitrary: k) simp_all
  then show ?thesis by (simp add: binders_length_def)
qed

lemma binder_cats:
  "cats (map (\<lambda>b. prefixed 1 (Some b)) bs) =
     (if \<forall>b \<in> set bs. length b < 256 then Some (concat (map (\<lambda>b. length_bytes 1 (length b) @ b) bs)) else None)"
  by (induction bs) auto

lemma psk_binders_bytes_eq:
  "psk_binders_bytes bs =
     (if (\<forall>b \<in> set bs. length b < 256) \<and> binders_length bs < 65538
      then Some (length_bytes 2 (binders_length bs - 2) @ concat (map (\<lambda>b. length_bytes 1 (length b) @ b) bs))
      else None)"
proof -
  have "length (concat (map (\<lambda>b. length_bytes 1 (length b) @ b) bs)) = binders_length bs - 2"
    by (simp add: binders_length_eq length_concat comp_def)
  then show ?thesis
    unfolding psk_binders_bytes_def binder_cats by (auto simp: binders_length_eq)
qed

lemma subseq_block: "subseq (map fst (if c then [(i, d)] else [])) [i]"
  by simp

lemma distinct_subseq: "subseq xs ys \<Longrightarrow> distinct ys \<Longrightarrow> distinct xs"
  by (auto simp: subseq_conv_nths distinct_nthsI)

lemma distinct_client_ext_list: "distinct (map fst (client_ext_list m))"
proof (rule distinct_subseq)
  show "subseq (map fst (client_ext_list m))
    ([0] @ [11] @ [35] @ [0xff01] @ [23] @ [18] @ [42] @ [57] @ [0xfe0d] @ [5] @ [10] @ [13] @
     [50] @ [16] @ [43] @ [44] @ [51] @ [45] @ [41])"
    unfolding client_ext_list_eq x_defs map_append
    by (intro list_emb_append_mono subseq_block)
qed simp

context cryptobyte_laws
begin

lemma fold_cats:
  assumes "\<And>x b. x \<in> set xs \<Longrightarrow> Bytes cb (f x b) = cat (Bytes cb b) (g x)"
  shows "Bytes cb (fold f xs b) = cat (Bytes cb b) (cats (map g xs))"
  by (subst fold_bytes [OF assms]) (simp_all add: cats_def foldr_map comp_def)

lemma prefixed_Nil [simp]: "prefixed 2 (Some []) = Some (length_bytes 2 0)"
  by simp

lemma zero16 [simp]: "be16 0 = length_bytes 2 0"
  by (simp add: length_bytes_def)

lemma add_bytes:
  "Bytes cb (add_serverName cb m b) = cat (Bytes cb b) (encs (x_serverName m))"
  "Bytes cb (add_supportedPoints cb m False b) = cat (Bytes cb b) (encs (x_supportedPoints m))"
  "Bytes cb (add_sessionTicket cb m False b) = cat (Bytes cb b) (encs (x_sessionTicket m))"
  "Bytes cb (add_renegotiationInfo cb m False b) = cat (Bytes cb b) (encs (x_renegotiationInfo m))"
  "Bytes cb (add_extendedMasterSecret cb m False b) = cat (Bytes cb b) (encs (x_extendedMasterSecret m))"
  "Bytes cb (add_scts cb m b) = cat (Bytes cb b) (encs (x_scts m))"
  "Bytes cb (add_earlyData cb m b) = cat (Bytes cb b) (encs (x_earlyData m))"
  "Bytes cb (add_quicTransportParameters cb m b) = cat (Bytes cb b) (encs (x_quicTransportParameters m))"
  "Bytes cb (add_encryptedClientHello cb m b) = cat (Bytes cb b) (encs (x_encryptedClientHello m))"
  by (auto simp: x_defs builder add_serverName_def add_supportedPoints_def add_sessionTicket_def
      add_renegotiationInfo_def add_extendedMasterSecret_def add_scts_def add_earlyData_def
      add_quicTransportParameters_def add_encryptedClientHello_def Let_def
      simp del: prefixed.simps(1) split: option.splits)

lemma fst_compressible [simp]: "fst (compressible False i f st) = f (fst st)"
  by (cases st) (simp add: compressible_def)

lemma add_compressible_bytes:
  "Bytes cb (fst (add_statusRequest cb m False st)) = cat (Bytes cb (fst st)) (encs (x_statusRequest m))"
  "Bytes cb (fst (add_supportedCurves cb m False st)) =
     cat (Bytes cb (fst st)) (encs (x_u16s extensionSupportedCurves (ch_supportedCurves m)))"
  "Bytes cb (fst (add_signatureAlgorithms cb m False st)) =
     cat (Bytes cb (fst st)) (encs (x_u16s extensionSignatureAlgorithms (ch_supportedSignatureAlgorithms m)))"
  "Bytes cb (fst (add_signatureAlgorithmsCert cb m False st)) =
     cat (Bytes cb (fst st)) (encs (x_u16s extensionSignatureAlgorithmsCert (ch_supportedSignatureAlgorithmsCert m)))"
  "Bytes cb (fst (add_supportedVersions cb m False st)) = cat (Bytes cb (fst st)) (encs (x_supportedVersions m))"
  "Bytes cb (fst (add_cookie cb m False st)) = cat (Bytes cb (fst st)) (encs (x_cookie m))"
  "Bytes cb (fst (add_pskModes cb m False st)) = cat (Bytes cb (fst st)) (encs (x_pskModes m))"
  by (auto simp: x_defs builder add_supportedCurves_def add_signatureAlgorithms_def
      add_signatureAlgorithmsCert_def add_supportedVersions_def add_cookie_def add_pskModes_def
      add_statusRequest_def Let_def simp del: prefixed.simps(1) split: option.splits)

lemma add_alpn_bytes:
  "Bytes cb (fst (add_alpn cb m False st)) = cat (Bytes cb (fst st)) (encs (x_alpn m))"
  by (simp add: x_alpn_def add_alpn_def Let_def builder
      fold_cats [where g = "\<lambda>p. prefixed 1 (Some (string_to_bytes p))"] del: prefixed.simps(1))

lemma add_keyShares_bytes:
  "Bytes cb (fst (add_keyShares cb m False st)) = cat (Bytes cb (fst st)) (encs (x_keyShares m))"
  by (simp add: x_keyShares_def add_keyShares_def Let_def builder
      fold_cats [where g = "\<lambda>ks. cat (Some (be16 (ks_group ks))) (prefixed 2 (Some (ks_data ks)))"]
      del: prefixed.simps(1))

lemma add_preSharedKey_bytes:
  "Bytes cb (add_preSharedKey cb m b) = cat (Bytes cb b) (encs (x_preSharedKey m))"
  by (simp add: x_preSharedKey_def add_preSharedKey_def Let_def builder psk_identities_bytes_def
      psk_binders_bytes_def fold_cats [where g = "\<lambda>b. prefixed 1 (Some b)"]
      fold_cats [where g = "\<lambda>psk. cat (prefixed 2 (Some (psk_label psk))) (Some (be32 (psk_obfuscatedTicketAge psk)))"]
      del: prefixed.simps(1))

lemma add_echOuterExtensions_plain [simp]: "add_echOuterExtensions cb False st = fst st"
  by (cases st) (simp add: add_echOuterExtensions_def)

lemma client_extensions_bytes: "Bytes cb (client_extensions cb m False) = encs (client_ext_list m)"
  unfolding client_extensions_def Let_def client_ext_list_eq
  by (simp only: add_bytes add_compressible_bytes add_alpn_bytes add_keyShares_bytes
      add_preSharedKey_bytes add_echOuterExtensions_plain fst_conv NewBuilder encs_append
      cat_assoc cat_Nil)

lemma client_message_bytes:
  "Bytes cb (client_message cb m False eb) =
    cat (Some [typeClientHello]) (prefixed 3 (cat (Some (be16 (ch_vers m)))
      (cat (if length (ch_random m) = 32 then Some (ch_random m) else None)
      (cat (prefixed 1 (Some (ch_sessionId m)))
      (cat (prefixed 2 (Some (concat (map be16 (ch_cipherSuites m)))))
      (cat (prefixed 1 (Some (ch_compressionMethods m)))
      (if eb = [] then Some [] else prefixed 2 (Some eb))))))))"
  by (simp add: client_message_def Let_def builder del: prefixed.simps(1) cat.simps)


subsection \<open>What the switch reads back\<close>

lemma consumes_steps [simp]:
  "consumes (serverName_step cb)" "consumes (alpn_step cb)" "consumes (keyShare_step cb)"
  "consumes (pskIdentity_step cb)" "consumes (binder_step cb)" "consumes (suite_step cb)"
  by (rule consumesI; force simp: serverName_step_def alpn_step_def keyShare_step_def
      pskIdentity_step_def binder_step_def suite_step_def bind_eq_Some_conv Let_def
      split: if_splits dest!: reads_shorten helper_reads_shorten)+

lemma alpn_loop:
  assumes "cats (map (\<lambda>p. prefixed 1 (Some (string_to_bytes p))) ps) = Some d" and "[] \<notin> set ps"
  shows "for_nonempty (alpn_step cb) qs d = Some (qs @ ps)"
proof -
  have short: "p \<in> set ps \<Longrightarrow> length p < 256" for p
    using assms(1) unfolding cats_map_eq_Some by (auto split: if_splits)
  have step: "alpn_step cb rs (the (prefixed 1 (Some (string_to_bytes p))) @ rest) = Some (rs @ [p], rest)"
    if "p \<in> set ps" for p rs rest
  proof -
    have "p \<noteq> []" using that assms(2) by blast
    then show ?thesis
      using short [OF that] read8lp_append [of "string_to_bytes p" rest] by (simp add: alpn_step_def)
  qed
  show ?thesis
    unfolding cats_map_concat [OF assms(1)]
    by (rule for_nonempty_appends [OF _ step]) (auto simp: short length_bytes_def)
qed

lemma keyShare_loop:
  assumes "cats (map (\<lambda>ks. cat (Some (be16 (ks_group ks))) (prefixed 2 (Some (ks_data ks)))) kss) = Some d"
    and "\<forall>ks \<in> set kss. ks_data ks \<noteq> []"
  shows "for_nonempty (keyShare_step cb) qs d = Some (qs @ kss)"
proof -
  have short: "ks \<in> set kss \<Longrightarrow> length (ks_data ks) < 65536" for ks
    using assms(1) unfolding cats_map_eq_Some by (auto split: if_splits)
  have step: "keyShare_step cb rs
      (the (cat (Some (be16 (ks_group ks))) (prefixed 2 (Some (ks_data ks)))) @ rest) = Some (rs @ [ks], rest)"
    if "ks \<in> set kss" for ks rs rest
    using that short [OF that] assms(2) read16lp_append [of "ks_data ks" rest]
    by (simp add: keyShare_step_def readUint16LengthPrefixed_def)
  show ?thesis
    unfolding cats_map_concat [OF assms(1)]
    by (rule for_nonempty_appends [OF _ step]) (auto simp: short length_bytes_def)
qed

lemma pskIdentity_loop:
  assumes "cats (map (\<lambda>psk. cat (prefixed 2 (Some (psk_label psk)))
      (Some (be32 (psk_obfuscatedTicketAge psk)))) psks) = Some d"
    and "\<forall>psk \<in> set psks. psk_label psk \<noteq> []"
  shows "for_nonempty (pskIdentity_step cb) qs d = Some (qs @ psks)"
proof -
  have short: "psk \<in> set psks \<Longrightarrow> length (psk_label psk) < 65536" for psk
    using assms(1) unfolding cats_map_eq_Some by (auto split: if_splits)
  have step: "pskIdentity_step cb rs (the (cat (prefixed 2 (Some (psk_label psk)))
      (Some (be32 (psk_obfuscatedTicketAge psk)))) @ rest) = Some (rs @ [psk], rest)"
    if "psk \<in> set psks" for psk rs rest
    using that short [OF that] assms(2) by (simp add: pskIdentity_step_def readUint16LengthPrefixed_def)
  show ?thesis
    unfolding cats_map_concat [OF assms(1)]
    by (rule for_nonempty_appends [OF _ step]) (auto simp: short length_bytes_def)
qed

lemma binder_loop:
  assumes "cats (map (\<lambda>b. prefixed 1 (Some b)) bs) = Some d" and "\<forall>b \<in> set bs. b \<noteq> []"
  shows "for_nonempty (binder_step cb) qs d = Some (qs @ bs)"
proof -
  have short: "b \<in> set bs \<Longrightarrow> length b < 256" for b
    using assms(1) unfolding cats_map_eq_Some by (auto split: if_splits)
  have step: "binder_step cb rs (the (prefixed 1 (Some b)) @ rest) = Some (rs @ [b], rest)"
    if "b \<in> set bs" for b rs rest
    using that short [OF that] assms(2) by (simp add: binder_step_def readUint8LengthPrefixed_def)
  show ?thesis
    unfolding cats_map_concat [OF assms(1)]
    by (rule for_nonempty_appends [OF _ step]) (auto simp: short length_bytes_def)
qed

lemma suite_loop:
  "for_nonempty (suite_step cb) m (concat (map be16 vs)) =
     Some (m\<lparr>ch_cipherSuites := ch_cipherSuites m @ vs,
       ch_secureRenegotiationSupported :=
         (ch_secureRenegotiationSupported m \<or> scsvRenegotiation \<in> set vs)\<rparr>)"
proof -
  let ?upd = "\<lambda>v m. m\<lparr>ch_cipherSuites := ch_cipherSuites m @ [v],
    ch_secureRenegotiationSupported := (ch_secureRenegotiationSupported m \<or> scsvRenegotiation = v)\<rparr>"
  have "for_nonempty (suite_step cb) m (concat (map be16 vs)) = Some (fold ?upd vs m)"
    by (rule for_nonempty_concat) (auto simp: suite_step_def Let_def)
  also have "fold ?upd vs m = m\<lparr>ch_cipherSuites := ch_cipherSuites m @ vs,
       ch_secureRenegotiationSupported :=
         (ch_secureRenegotiationSupported m \<or> scsvRenegotiation \<in> set vs)\<rparr>"
    by (induction vs arbitrary: m) auto
  finally show ?thesis .
qed

lemma run_supportedPoints:
  "encs (x_supportedPoints m) \<noteq> None \<Longrightarrow> ch_supportedPoints m0 = [] \<Longrightarrow>
    run_exts (client_ext_switch cb) m0 (x_supportedPoints m @ xs) = run_exts (client_ext_switch cb)
      (m0\<lparr>ch_supportedPoints := ch_supportedPoints m, ch_extensions := ch_extensions m0 @ map fst (x_supportedPoints m)\<rparr>) xs"
  by (cases m0) (auto simp: x_defs client_ext_switch_def Let_def readUint8LengthPrefixed_def
      readUint16LengthPrefixed_def ReadBytes CopyBytes cat_eq_Some split: if_splits)

lemma run_sessionTicket:
  "encs (x_sessionTicket m) \<noteq> None \<Longrightarrow> ch_sessionTicket m0 = [] \<Longrightarrow> \<not> ch_ticketSupported m0 \<Longrightarrow> ch_ticketSupported m \<or> ch_sessionTicket m = [] \<Longrightarrow>
    run_exts (client_ext_switch cb) m0 (x_sessionTicket m @ xs) = run_exts (client_ext_switch cb)
      (m0\<lparr>ch_ticketSupported := ch_ticketSupported m, ch_sessionTicket := ch_sessionTicket m, ch_extensions := ch_extensions m0 @ map fst (x_sessionTicket m)\<rparr>) xs"
  by (cases m0) (auto simp: x_defs client_ext_switch_def Let_def readUint8LengthPrefixed_def
      readUint16LengthPrefixed_def ReadBytes CopyBytes cat_eq_Some split: if_splits)

lemma run_renegotiationInfo:
  "encs (x_renegotiationInfo m) \<noteq> None \<Longrightarrow> ch_secureRenegotiation m0 = [] \<Longrightarrow> ch_secureRenegotiationSupported m \<or>
     \<not> ch_secureRenegotiationSupported m0 \<and> ch_secureRenegotiation m = [] \<Longrightarrow>
    run_exts (client_ext_switch cb) m0 (x_renegotiationInfo m @ xs) = run_exts (client_ext_switch cb)
      (m0\<lparr>ch_secureRenegotiation := ch_secureRenegotiation m, ch_secureRenegotiationSupported := ch_secureRenegotiationSupported m, ch_extensions := ch_extensions m0 @ map fst (x_renegotiationInfo m)\<rparr>) xs"
  by (cases m0) (auto simp: x_defs client_ext_switch_def Let_def readUint8LengthPrefixed_def
      readUint16LengthPrefixed_def ReadBytes CopyBytes cat_eq_Some split: if_splits)

lemma run_extendedMasterSecret:
  "encs (x_extendedMasterSecret m) \<noteq> None \<Longrightarrow> \<not> ch_extendedMasterSecret m0 \<Longrightarrow>
    run_exts (client_ext_switch cb) m0 (x_extendedMasterSecret m @ xs) = run_exts (client_ext_switch cb)
      (m0\<lparr>ch_extendedMasterSecret := ch_extendedMasterSecret m, ch_extensions := ch_extensions m0 @ map fst (x_extendedMasterSecret m)\<rparr>) xs"
  by (cases m0) (auto simp: x_defs client_ext_switch_def Let_def readUint8LengthPrefixed_def
      readUint16LengthPrefixed_def ReadBytes CopyBytes cat_eq_Some split: if_splits)

lemma run_scts:
  "encs (x_scts m) \<noteq> None \<Longrightarrow> \<not> ch_scts m0 \<Longrightarrow>
    run_exts (client_ext_switch cb) m0 (x_scts m @ xs) = run_exts (client_ext_switch cb)
      (m0\<lparr>ch_scts := ch_scts m, ch_extensions := ch_extensions m0 @ map fst (x_scts m)\<rparr>) xs"
  by (cases m0) (auto simp: x_defs client_ext_switch_def Let_def readUint8LengthPrefixed_def
      readUint16LengthPrefixed_def ReadBytes CopyBytes cat_eq_Some split: if_splits)

lemma run_earlyData:
  "encs (x_earlyData m) \<noteq> None \<Longrightarrow> \<not> ch_earlyData m0 \<Longrightarrow>
    run_exts (client_ext_switch cb) m0 (x_earlyData m @ xs) = run_exts (client_ext_switch cb)
      (m0\<lparr>ch_earlyData := ch_earlyData m, ch_extensions := ch_extensions m0 @ map fst (x_earlyData m)\<rparr>) xs"
  by (cases m0) (auto simp: x_defs client_ext_switch_def Let_def readUint8LengthPrefixed_def
      readUint16LengthPrefixed_def ReadBytes CopyBytes cat_eq_Some split: if_splits)

lemma run_quicTransportParameters:
  "encs (x_quicTransportParameters m) \<noteq> None \<Longrightarrow> ch_quicTransportParameters m0 = None \<Longrightarrow>
    run_exts (client_ext_switch cb) m0 (x_quicTransportParameters m @ xs) = run_exts (client_ext_switch cb)
      (m0\<lparr>ch_quicTransportParameters := ch_quicTransportParameters m, ch_extensions := ch_extensions m0 @ map fst (x_quicTransportParameters m)\<rparr>) xs"
  by (cases m0) (auto simp: x_defs client_ext_switch_def Let_def readUint8LengthPrefixed_def
      readUint16LengthPrefixed_def ReadBytes CopyBytes cat_eq_Some split: if_splits)

lemma run_encryptedClientHello:
  "encs (x_encryptedClientHello m) \<noteq> None \<Longrightarrow> ch_encryptedClientHello m0 = [] \<Longrightarrow>
    run_exts (client_ext_switch cb) m0 (x_encryptedClientHello m @ xs) = run_exts (client_ext_switch cb)
      (m0\<lparr>ch_encryptedClientHello := ch_encryptedClientHello m, ch_extensions := ch_extensions m0 @ map fst (x_encryptedClientHello m)\<rparr>) xs"
  by (cases m0) (auto simp: x_defs client_ext_switch_def Let_def readUint8LengthPrefixed_def
      readUint16LengthPrefixed_def ReadBytes CopyBytes cat_eq_Some split: if_splits)

lemma run_statusRequest:
  "encs (x_statusRequest m) \<noteq> None \<Longrightarrow> \<not> ch_ocspStapling m0 \<Longrightarrow>
    run_exts (client_ext_switch cb) m0 (x_statusRequest m @ xs) = run_exts (client_ext_switch cb)
      (m0\<lparr>ch_ocspStapling := ch_ocspStapling m, ch_extensions := ch_extensions m0 @ map fst (x_statusRequest m)\<rparr>) xs"
  by (cases m0) (auto simp: x_defs client_ext_switch_def Let_def readUint8LengthPrefixed_def
      readUint16LengthPrefixed_def ReadBytes CopyBytes cat_eq_Some read16lp_append [of "[]", simplified] read16lp_all [of "[]", simplified] split: if_splits)

lemma run_supportedCurves:
  "encs (x_u16s extensionSupportedCurves (ch_supportedCurves m)) \<noteq> None \<Longrightarrow> ch_supportedCurves m0 = [] \<Longrightarrow>
    run_exts (client_ext_switch cb) m0 (x_u16s extensionSupportedCurves (ch_supportedCurves m) @ xs) = run_exts (client_ext_switch cb)
      (m0\<lparr>ch_supportedCurves := ch_supportedCurves m, ch_extensions := ch_extensions m0 @ map fst (x_u16s extensionSupportedCurves (ch_supportedCurves m))\<rparr>) xs"
  by (cases m0) (auto simp: x_defs client_ext_switch_def Let_def readUint8LengthPrefixed_def
      readUint16LengthPrefixed_def ReadBytes CopyBytes cat_eq_Some split: if_splits)

lemma run_signatureAlgorithms:
  "encs (x_u16s extensionSignatureAlgorithms (ch_supportedSignatureAlgorithms m)) \<noteq> None \<Longrightarrow> ch_supportedSignatureAlgorithms m0 = [] \<Longrightarrow>
    run_exts (client_ext_switch cb) m0 (x_u16s extensionSignatureAlgorithms (ch_supportedSignatureAlgorithms m) @ xs) = run_exts (client_ext_switch cb)
      (m0\<lparr>ch_supportedSignatureAlgorithms := ch_supportedSignatureAlgorithms m, ch_extensions := ch_extensions m0 @ map fst (x_u16s extensionSignatureAlgorithms (ch_supportedSignatureAlgorithms m))\<rparr>) xs"
  by (cases m0) (auto simp: x_defs client_ext_switch_def Let_def readUint8LengthPrefixed_def
      readUint16LengthPrefixed_def ReadBytes CopyBytes cat_eq_Some split: if_splits)

lemma run_signatureAlgorithmsCert:
  "encs (x_u16s extensionSignatureAlgorithmsCert (ch_supportedSignatureAlgorithmsCert m)) \<noteq> None \<Longrightarrow> ch_supportedSignatureAlgorithmsCert m0 = [] \<Longrightarrow>
    run_exts (client_ext_switch cb) m0 (x_u16s extensionSignatureAlgorithmsCert (ch_supportedSignatureAlgorithmsCert m) @ xs) = run_exts (client_ext_switch cb)
      (m0\<lparr>ch_supportedSignatureAlgorithmsCert := ch_supportedSignatureAlgorithmsCert m, ch_extensions := ch_extensions m0 @ map fst (x_u16s extensionSignatureAlgorithmsCert (ch_supportedSignatureAlgorithmsCert m))\<rparr>) xs"
  by (cases m0) (auto simp: x_defs client_ext_switch_def Let_def readUint8LengthPrefixed_def
      readUint16LengthPrefixed_def ReadBytes CopyBytes cat_eq_Some split: if_splits)

lemma run_supportedVersions:
  "encs (x_supportedVersions m) \<noteq> None \<Longrightarrow> ch_supportedVersions m0 = [] \<Longrightarrow>
    run_exts (client_ext_switch cb) m0 (x_supportedVersions m @ xs) = run_exts (client_ext_switch cb)
      (m0\<lparr>ch_supportedVersions := ch_supportedVersions m, ch_extensions := ch_extensions m0 @ map fst (x_supportedVersions m)\<rparr>) xs"
  by (cases m0) (auto simp: x_defs client_ext_switch_def Let_def readUint8LengthPrefixed_def
      readUint16LengthPrefixed_def ReadBytes CopyBytes cat_eq_Some split: if_splits)

lemma run_cookie:
  "encs (x_cookie m) \<noteq> None \<Longrightarrow> ch_cookie m0 = [] \<Longrightarrow>
    run_exts (client_ext_switch cb) m0 (x_cookie m @ xs) = run_exts (client_ext_switch cb)
      (m0\<lparr>ch_cookie := ch_cookie m, ch_extensions := ch_extensions m0 @ map fst (x_cookie m)\<rparr>) xs"
  by (cases m0) (auto simp: x_defs client_ext_switch_def Let_def readUint8LengthPrefixed_def
      readUint16LengthPrefixed_def ReadBytes CopyBytes cat_eq_Some split: if_splits)

lemma run_pskModes:
  "encs (x_pskModes m) \<noteq> None \<Longrightarrow> ch_pskModes m0 = [] \<Longrightarrow>
    run_exts (client_ext_switch cb) m0 (x_pskModes m @ xs) = run_exts (client_ext_switch cb)
      (m0\<lparr>ch_pskModes := ch_pskModes m, ch_extensions := ch_extensions m0 @ map fst (x_pskModes m)\<rparr>) xs"
  by (cases m0) (auto simp: x_defs client_ext_switch_def Let_def readUint8LengthPrefixed_def
      readUint16LengthPrefixed_def ReadBytes CopyBytes cat_eq_Some split: if_splits)

lemma run_alpn:
  assumes "encs (x_alpn m) \<noteq> None" and "ch_alpnProtocols m0 = []" and "[] \<notin> set (ch_alpnProtocols m)"
  shows "run_exts (client_ext_switch cb) m0 (x_alpn m @ xs) = run_exts (client_ext_switch cb)
      (m0\<lparr>ch_alpnProtocols := ch_alpnProtocols m,
        ch_extensions := ch_extensions m0 @ map fst (x_alpn m)\<rparr>) xs"
proof (cases "ch_alpnProtocols m = []")
  case False
  with assms(1) obtain d where d: "cats (map (\<lambda>p. prefixed 1 (Some (string_to_bytes p)))
      (ch_alpnProtocols m)) = Some d" and len: "length d < 65536"
    by (auto simp: x_alpn_def cat_eq_Some prefixed_eq_Some simp del: prefixed.simps(1))
  have "d \<noteq> []"
    using False cats_map_concat [OF d] d unfolding cats_map_eq_Some
    by (cases "ch_alpnProtocols m") (auto simp: length_bytes_def split: if_splits)
  with d len False alpn_loop [OF d assms(3)] assms(2) show ?thesis
    by (cases m0) (simp add: x_alpn_def client_ext_switch_def)
qed (use assms in \<open>cases m0; simp add: x_alpn_def\<close>)

lemma run_keyShares:
  assumes "encs (x_keyShares m) \<noteq> None" and "ch_keyShares m0 = []"
    and "\<forall>ks \<in> set (ch_keyShares m). ks_data ks \<noteq> []"
  shows "run_exts (client_ext_switch cb) m0 (x_keyShares m @ xs) = run_exts (client_ext_switch cb)
      (m0\<lparr>ch_keyShares := ch_keyShares m,
        ch_extensions := ch_extensions m0 @ map fst (x_keyShares m)\<rparr>) xs"
proof (cases "ch_keyShares m = []")
  case False
  with assms(1) obtain d where d: "cats (map (\<lambda>ks. cat (Some (be16 (ks_group ks)))
      (prefixed 2 (Some (ks_data ks)))) (ch_keyShares m)) = Some d" and len: "length d < 65536"
    by (auto simp: x_keyShares_def cat_eq_Some prefixed_eq_Some simp del: prefixed.simps(1))
  with False keyShare_loop [OF d assms(3)] assms(2) show ?thesis
    by (cases m0) (simp add: x_keyShares_def client_ext_switch_def)
qed (use assms in \<open>cases m0; simp add: x_keyShares_def\<close>)

lemma run_serverName:
  assumes "encs (x_serverName m) \<noteq> None" and "ch_serverName m0 = []" and "\<not> HasSuffix_dot (ch_serverName m)"
  shows "run_exts (client_ext_switch cb) m0 (x_serverName m @ xs) = run_exts (client_ext_switch cb)
      (m0\<lparr>ch_serverName := ch_serverName m,
        ch_extensions := ch_extensions m0 @ map fst (x_serverName m)\<rparr>) xs"
proof (cases "ch_serverName m = []")
  case False
  let ?n = "string_to_bytes (ch_serverName m)"
  let ?l = "0 # length_bytes 2 (length (ch_serverName m)) @ ?n"
  have len: "length ?n < 65536" "length ?l < 65536"
    using assms(1) False by (auto simp: x_serverName_def cat_eq_Some prefixed_eq_Some split: if_splits)
  have loop: "for_nonempty (serverName_step cb) m1 ?l = Some (m1\<lparr>ch_serverName := ch_serverName m\<rparr>)"
    if "ch_serverName m1 = []" for m1
    using that False len(1) assms(3) read16lp_all [of ?n]
    by (subst for_nonempty_unfold) (simp_all add: serverName_step_def Let_def)
  have "prefixed 2 (cat (Some [0]) (prefixed 2 (Some ?n))) = Some (length_bytes 2 (length ?l) @ ?l)"
    using len by simp
  with False len(2) assms(2) read16lp_all [of ?l] show ?thesis
    by (cases m0) (simp add: x_serverName_def client_ext_switch_def loop del: length_Cons)
qed (use assms in \<open>cases m0; simp add: x_serverName_def\<close>)

lemma run_preSharedKey:
  assumes "encs (x_preSharedKey m) \<noteq> None"
    and "ch_pskIdentities m0 = []" and "ch_pskBinders m0 = []"
    and "\<forall>psk \<in> set (ch_pskIdentities m). psk_label psk \<noteq> []"
    and "\<forall>b \<in> set (ch_pskBinders m). b \<noteq> []"
    and "ch_pskIdentities m = [] \<longleftrightarrow> ch_pskBinders m = []"
  shows "run_exts (client_ext_switch cb) m0 (x_preSharedKey m) =
      Some (m0\<lparr>ch_pskIdentities := ch_pskIdentities m, ch_pskBinders := ch_pskBinders m,
        ch_extensions := ch_extensions m0 @ map fst (x_preSharedKey m)\<rparr>)"
proof (cases "ch_pskIdentities m = []")
  case False
  with assms(1) obtain d e where
        d: "cats (map (\<lambda>psk. cat (prefixed 2 (Some (psk_label psk)))
          (Some (be32 (psk_obfuscatedTicketAge psk)))) (ch_pskIdentities m)) = Some d" "length d < 65536"
    and e: "cats (map (\<lambda>b. prefixed 1 (Some b)) (ch_pskBinders m)) = Some e" "length e < 65536"
    by (auto simp: x_preSharedKey_def psk_identities_bytes_def psk_binders_bytes_def cat_eq_Some
        prefixed_eq_Some simp del: prefixed.simps(1))
  have "d \<noteq> []"
    using False cats_map_concat [OF d(1)] d(1) unfolding cats_map_eq_Some
    by (cases "ch_pskIdentities m") (auto split: if_splits)
  moreover have "e \<noteq> []"
    using False assms(6) cats_map_concat [OF e(1)] e(1) unfolding cats_map_eq_Some
    by (cases "ch_pskBinders m") (auto simp: length_bytes_def split: if_splits)
  ultimately show ?thesis
    using False d e pskIdentity_loop [OF d(1) assms(4)] binder_loop [OF e(1) assms(5)] assms(2,3)
    by (cases m0) (simp add: x_preSharedKey_def client_ext_switch_def psk_identities_bytes_def
        psk_binders_bytes_def)
qed (use assms in \<open>cases m0; simp add: x_preSharedKey_def\<close>)

lemma encs_append_defined: "encs (xs @ ys) \<noteq> None \<longleftrightarrow> encs xs \<noteq> None \<and> encs ys \<noteq> None"
  by (auto simp: encs_append cat_eq_Some)

lemmas run_steps = run_serverName run_supportedPoints run_sessionTicket run_renegotiationInfo
  run_extendedMasterSecret run_scts run_earlyData run_quicTransportParameters
  run_encryptedClientHello run_statusRequest run_supportedCurves run_signatureAlgorithms
  run_signatureAlgorithmsCert run_alpn run_supportedVersions run_cookie run_keyShares
  run_pskModes run_preSharedKey

lemma run_client_exts:
  assumes "encs (client_ext_list m) \<noteq> None" and "canonical_hello m"
    and "m1 = (clientHelloMsg_zero (Some data))\<lparr>ch_vers := ch_vers m, ch_random := ch_random m,
      ch_sessionId := ch_sessionId m, ch_cipherSuites := ch_cipherSuites m,
      ch_secureRenegotiationSupported := (scsvRenegotiation \<in> set (ch_cipherSuites m)),
      ch_compressionMethods := ch_compressionMethods m\<rparr>"
  shows "run_exts (client_ext_switch cb) m1 (client_ext_list m) =
    Some (m\<lparr>ch_original := Some data, ch_extensions := map fst (client_ext_list m)\<rparr>)"
proof -
  have canon: "ch_ticketSupported m \<or> ch_sessionTicket m = []"
    "ch_secureRenegotiationSupported m \<or> scsvRenegotiation \<notin> set (ch_cipherSuites m) \<and> ch_secureRenegotiation m = []"
    "\<not> HasSuffix_dot (ch_serverName m)" "[] \<notin> set (ch_alpnProtocols m)"
    "\<forall>ks \<in> set (ch_keyShares m). ks_data ks \<noteq> []"
    "\<forall>psk \<in> set (ch_pskIdentities m). psk_label psk \<noteq> []" "\<forall>b \<in> set (ch_pskBinders m). b \<noteq> []"
    "ch_pskIdentities m = [] \<longleftrightarrow> ch_pskBinders m = []"
    using assms(2) by (auto simp: canonical_hello_def)
  note parts = assms(1) [unfolded client_ext_list_eq encs_append_defined]
  show ?thesis
    using parts canon unfolding client_ext_list_eq assms(3) clientHelloMsg_zero_def
    by (simp add: run_steps)
qed

lemma unmarshal_marshal:
  assumes "clientHelloMsg_marshal cb m = Some data" and "canonical_hello m"
  shows "clientHelloMsg_unmarshal cb data =
    Some (m\<lparr>ch_original := Some data, ch_extensions := map fst (client_ext_list m)\<rparr>)"
proof -
  obtain eb where eb: "encs (client_ext_list m) = Some eb"
    and data: "Bytes cb (client_message cb m False eb) = Some data"
    using assms(1)
    by (auto simp: clientHelloMsg_marshal_def clientHelloMsg_marshalMsg_def client_extensions_bytes
        bind_eq_Some_conv)
  let ?suites = "concat (map be16 (ch_cipherSuites m))"
  let ?tail = "if eb = [] then [] else length_bytes 2 (length eb) @ eb"
  let ?body = "be16 (ch_vers m) @ ch_random m @ length_bytes (Suc 0) (length (ch_sessionId m)) @
    ch_sessionId m @ length_bytes 2 (length ?suites) @ ?suites @
    length_bytes (Suc 0) (length (ch_compressionMethods m)) @ ch_compressionMethods m @ ?tail"
  have len: "length (ch_random m) = 32" "length (ch_sessionId m) < 256" "length ?suites < 65536"
      "length (ch_compressionMethods m) < 256" "length eb < 65536"
    and data': "data = (typeClientHello # length_bytes 3 (length ?body)) @ ?body"
    using data by (auto simp: client_message_bytes cat_eq_Some split: if_splits)
  let ?m1 = "(clientHelloMsg_zero (Some data))\<lparr>ch_vers := ch_vers m, ch_random := ch_random m,
      ch_sessionId := ch_sessionId m, ch_cipherSuites := ch_cipherSuites m,
      ch_secureRenegotiationSupported := (scsvRenegotiation \<in> set (ch_cipherSuites m)),
      ch_compressionMethods := ch_compressionMethods m\<rparr>"
  have run: "run_exts (client_ext_switch cb) ?m1 (client_ext_list m) =
      Some (m\<lparr>ch_original := Some data, ch_extensions := map fst (client_ext_list m)\<rparr>)"
    using eb assms(2) by (intro run_client_exts) simp_all
  have loop: "for_nonempty (suite_step cb) ((clientHelloMsg_zero (Some data))\<lparr>ch_vers := ch_vers m,
      ch_random := ch_random m, ch_sessionId := ch_sessionId m, ch_cipherSuites := [],
      ch_secureRenegotiationSupported := False\<rparr>) ?suites =
    Some (?m1\<lparr>ch_compressionMethods := []\<rparr>)"
    by (simp only: suite_loop) (simp add: clientHelloMsg_zero_def)
  have skip: "Skip cb data 4 = Some ?body"
    unfolding data' by (rule skip_append) simp
  have "clientHelloMsg_unmarshal cb data =
    (if eb = [] then Some ?m1 else ext_loop cb (client_ext_switch cb) ?m1 eb)"
    unfolding clientHelloMsg_unmarshal_def skip Let_def
    by (simp add: len readUint8LengthPrefixed_def ReadBytes loop)
  also have "\<dots> = run_exts (client_ext_switch cb) ?m1 (client_ext_list m)"
    using eb ext_loop_run [OF eb distinct_client_ext_list] by (auto simp: encs_eq_Nil)
  finally show ?thesis using run by simp
qed


subsection \<open>What an accepted message satisfies\<close>

lemma steps_collect:
  "alpn_step cb ps t = Some (ps', t') \<Longrightarrow> \<exists>p. ps' = ps @ [p] \<and> p \<noteq> []"
  "keyShare_step cb kss t = Some (kss', t') \<Longrightarrow> \<exists>ks. kss' = kss @ [ks] \<and> ks_data ks \<noteq> []"
  "pskIdentity_step cb psks t = Some (psks', t') \<Longrightarrow> \<exists>psk. psks' = psks @ [psk] \<and> psk_label psk \<noteq> []"
  "binder_step cb bs t = Some (bs', t') \<Longrightarrow> \<exists>b. bs' = bs @ [b] \<and> b \<noteq> []"
  by (auto simp: alpn_step_def keyShare_step_def pskIdentity_step_def binder_step_def
      bind_eq_Some_conv bytes_to_string_def)

lemmas alpn_collects = for_nonempty_collects [OF _ steps_collect(1)]
lemmas keyShare_collects = for_nonempty_collects [OF _ steps_collect(2)]
lemmas pskIdentity_collects = for_nonempty_collects [OF _ steps_collect(3)]
lemmas binder_collects = for_nonempty_collects [OF _ steps_collect(4)]

lemma serverName_accepts:
  assumes "for_nonempty (serverName_step cb) m s = Some m'" and "\<not> HasSuffix_dot (ch_serverName m)"
  shows "\<exists>n. m' = m\<lparr>ch_serverName := n\<rparr> \<and> \<not> HasSuffix_dot n"
proof (rule for_nonempty_invariant [OF assms(1)])
  have "m = m\<lparr>ch_serverName := ch_serverName m\<rparr>" by simp
  with assms(2) show "\<exists>n. m = m\<lparr>ch_serverName := n\<rparr> \<and> \<not> HasSuffix_dot n" by blast
next
  fix m1 s m2 s2
  assume "\<exists>n. m1 = m\<lparr>ch_serverName := n\<rparr> \<and> \<not> HasSuffix_dot n"
    and "serverName_step cb m1 s = Some (m2, s2)"
  then show "\<exists>n. m2 = m\<lparr>ch_serverName := n\<rparr> \<and> \<not> HasSuffix_dot n"
    by (auto simp: serverName_step_def bind_eq_Some_conv Let_def split: if_splits)
qed

lemma accepted_upd [simp]:
  "accepted_hello (m\<lparr>ch_original := v0\<rparr>) = accepted_hello m"
  "accepted_hello (m\<lparr>ch_vers := v1\<rparr>) = accepted_hello m"
  "accepted_hello (m\<lparr>ch_random := v2\<rparr>) = accepted_hello m"
  "accepted_hello (m\<lparr>ch_sessionId := v3\<rparr>) = accepted_hello m"
  "accepted_hello (m\<lparr>ch_cipherSuites := v4\<rparr>) = accepted_hello m"
  "accepted_hello (m\<lparr>ch_compressionMethods := v5\<rparr>) = accepted_hello m"
  "accepted_hello (m\<lparr>ch_ocspStapling := v6\<rparr>) = accepted_hello m"
  "accepted_hello (m\<lparr>ch_supportedCurves := v7\<rparr>) = accepted_hello m"
  "accepted_hello (m\<lparr>ch_supportedPoints := v8\<rparr>) = accepted_hello m"
  "accepted_hello (m\<lparr>ch_ticketSupported := v9\<rparr>) = accepted_hello m"
  "accepted_hello (m\<lparr>ch_sessionTicket := v10\<rparr>) = accepted_hello m"
  "accepted_hello (m\<lparr>ch_supportedSignatureAlgorithms := v11\<rparr>) = accepted_hello m"
  "accepted_hello (m\<lparr>ch_supportedSignatureAlgorithmsCert := v12\<rparr>) = accepted_hello m"
  "accepted_hello (m\<lparr>ch_secureRenegotiationSupported := v13\<rparr>) = accepted_hello m"
  "accepted_hello (m\<lparr>ch_secureRenegotiation := v14\<rparr>) = accepted_hello m"
  "accepted_hello (m\<lparr>ch_extendedMasterSecret := v15\<rparr>) = accepted_hello m"
  "accepted_hello (m\<lparr>ch_scts := v16\<rparr>) = accepted_hello m"
  "accepted_hello (m\<lparr>ch_supportedVersions := v17\<rparr>) = accepted_hello m"
  "accepted_hello (m\<lparr>ch_cookie := v18\<rparr>) = accepted_hello m"
  "accepted_hello (m\<lparr>ch_earlyData := v19\<rparr>) = accepted_hello m"
  "accepted_hello (m\<lparr>ch_pskModes := v20\<rparr>) = accepted_hello m"
  "accepted_hello (m\<lparr>ch_quicTransportParameters := v21\<rparr>) = accepted_hello m"
  "accepted_hello (m\<lparr>ch_encryptedClientHello := v22\<rparr>) = accepted_hello m"
  "accepted_hello (m\<lparr>ch_extensions := v23\<rparr>) = accepted_hello m"
  by (simp_all add: accepted_hello_def)

lemma accepted_serverName:
  "accepted_hello m \<Longrightarrow> for_nonempty (serverName_step cb) m s = Some m' \<Longrightarrow>
     accepted_hello m' \<and> ch_extensions m' = ch_extensions m \<and> ch_random m' = ch_random m"
  using serverName_accepts [of m s m'] by (auto simp: accepted_hello_def)

lemma accepted_alpn:
  "accepted_hello m \<Longrightarrow> for_nonempty (alpn_step cb) (ch_alpnProtocols m) s = Some ps \<Longrightarrow>
     accepted_hello (m\<lparr>ch_alpnProtocols := ps\<rparr>)"
  using alpn_collects(1) unfolding accepted_hello_def by simp

lemma accepted_keyShares:
  "accepted_hello m \<Longrightarrow> for_nonempty (keyShare_step cb) (ch_keyShares m) s = Some kss \<Longrightarrow>
     accepted_hello (m\<lparr>ch_keyShares := kss\<rparr>)"
  using keyShare_collects(1) unfolding accepted_hello_def by simp

lemma accepted_psk:
  "accepted_hello m \<Longrightarrow> for_nonempty (pskIdentity_step cb) (ch_pskIdentities m) s = Some psks \<Longrightarrow>
     s \<noteq> [] \<Longrightarrow> for_nonempty (binder_step cb) (ch_pskBinders m) t = Some bs \<Longrightarrow> t \<noteq> [] \<Longrightarrow>
     accepted_hello (m\<lparr>ch_pskIdentities := psks, ch_pskBinders := bs\<rparr>)"
  using pskIdentity_collects binder_collects unfolding accepted_hello_def by simp

lemma client_switch_accepts:
  assumes "client_ext_switch cb l i d m = Some (m', r)" and "accepted_hello m"
  shows "accepted_hello m' \<and> ch_extensions m' = ch_extensions m @ [i] \<and> ch_random m' = ch_random m \<and>
    (i = extensionPreSharedKey \<longrightarrow> l)"
proof -
  define m1 where "m1 = m\<lparr>ch_extensions := ch_extensions m @ [i]\<rparr>"
  have m1: "accepted_hello m1" "ch_extensions m1 = ch_extensions m @ [i]" "ch_random m1 = ch_random m"
    using assms(2) by (simp_all add: m1_def)
  have "accepted_hello m' \<and> ch_extensions m' = ch_extensions m1 \<and> ch_random m' = ch_random m1 \<and>
    (i = extensionPreSharedKey \<longrightarrow> l)"
    using assms(1) m1(1) unfolding client_ext_switch_def Let_def m1_def [symmetric]
    by (simp only: split: if_split_asm; clarsimp simp: bind_eq_Some_conv split: option.splits;
        blast intro: accepted_alpn accepted_keyShares accepted_psk dest: accepted_serverName)
  with m1 show ?thesis by simp
qed

lemma suite_accepts:
  assumes "for_nonempty (suite_step cb) m s = Some m'" and "accepted_hello m"
  shows "accepted_hello m' \<and> ch_extensions m' = ch_extensions m \<and> ch_random m' = ch_random m"
  by (rule for_nonempty_invariant [OF assms(1)])
    (use assms(2) in \<open>auto simp: suite_step_def bind_eq_Some_conv Let_def\<close>)

lemma client_exts_accepts:
  assumes "ext_loop cb (client_ext_switch cb) m s = Some m'" and "accepted_hello m"
    and "ch_extensions m = []"
  shows "accepted_hello m' \<and> distinct (ch_extensions m') \<and> ch_random m' = ch_random m \<and>
    (extensionPreSharedKey \<in> set (ch_extensions m') \<longrightarrow> last (ch_extensions m') = extensionPreSharedKey)"
proof -
  obtain seen where loop:
      "for_nonempty (ext_step cb (client_ext_switch cb)) (m, \<lambda>_. False) s = Some (m', seen)"
    using assms(1) by (auto simp: ext_loop_def)
  let ?P = "\<lambda>st (t :: bytes). accepted_hello (fst st) \<and> distinct (ch_extensions (fst st)) \<and>
    ch_random (fst st) = ch_random m \<and> (\<forall>i \<in> set (ch_extensions (fst st)). snd st i) \<and>
    (extensionPreSharedKey \<in> set (ch_extensions (fst st)) \<longrightarrow>
       last (ch_extensions (fst st)) = extensionPreSharedKey \<and> t = [])"
  have "?P (m', seen) []"
  proof (rule for_nonempty_invariant_rest [OF loop, where P = ?P])
    fix st t st' t'
    assume P: "?P st t" and "ext_step cb (client_ext_switch cb) st t = Some (st', t')"
    moreover obtain m1 seen1 m2 seen2 where "st = (m1, seen1)" "st' = (m2, seen2)"
      by (cases st, cases st')
    ultimately obtain i d u r where read: "ReadUint16 cb t = Some (i, u)"
        and "client_ext_switch cb (t' = []) i d m1 = Some (m2, r)" and fresh: "\<not> seen1 i"
        and eq: "st = (m1, seen1)" "st' = (m2, seen1(i := True))"
      by (auto simp: ext_step_def after_switch_def bind_eq_Some_conv split: option.splits)
    moreover have "t \<noteq> []" using read by (auto simp: ReadUint16)
    ultimately show "?P st' t'"
      using P client_switch_accepts [of "t' = []" i d m1 m2 r] by auto
  qed (use assms in simp)
  then show ?thesis by simp
qed

lemma unmarshal_accepts:
  assumes "clientHelloMsg_unmarshal cb data = Some m"
  shows "accepted_hello m \<and> distinct (ch_extensions m) \<and> length (ch_random m) = 32 \<and>
    (extensionPreSharedKey \<in> set (ch_extensions m) \<longrightarrow> last (ch_extensions m) = extensionPreSharedKey)"
proof -
  have zero: "accepted_hello (clientHelloMsg_zero d)" "ch_extensions (clientHelloMsg_zero d) = []" for d
    by (simp_all add: clientHelloMsg_zero_def accepted_hello_def HasSuffix_dot_def)
  show ?thesis
    using assms unfolding clientHelloMsg_unmarshal_def Let_def
    by (auto simp: bind_eq_Some_conv zero ReadBytes split_at_eq_Some split: if_splits
        dest!: suite_accepts client_exts_accepts)
qed


subsection \<open>The message without its binders\<close>

lemma marshal_psk:
  assumes "ch_pskIdentities m \<noteq> []"
  shows "clientHelloMsg_marshal cb m =
    (case psk_binders_bytes (ch_pskBinders m) of None \<Rightarrow> None
     | Some B \<Rightarrow> cat (hello_head m (length B)) (Some B))"
proof (cases "psk_binders_bytes (ch_pskBinders m)")
  case None
  with assms show ?thesis
    by (simp add: clientHelloMsg_marshal_def clientHelloMsg_marshalMsg_def client_extensions_bytes
        client_ext_list_def encs_append x_preSharedKey_def)
next
  case (Some B)
  have ext: "encs (client_ext_list m) = cat (ext_head m (length B)) (Some B)"
    using assms Some
    by (simp add: client_ext_list_def encs_append x_preSharedKey_def ext_head_def prefixed_tail
        del: prefixed.simps cat.simps)
  show ?thesis
  proof (cases "ext_head m (length B)")
    case None
    with Some ext show ?thesis
      by (simp add: clientHelloMsg_marshal_def clientHelloMsg_marshalMsg_def client_extensions_bytes
          hello_head_def)
  next
    case (Some E)
    let ?hdr = "cat (Some (be16 (ch_vers m)))
      (cat (if length (ch_random m) = 32 then Some (ch_random m) else None)
      (cat (prefixed 1 (Some (ch_sessionId m)))
      (cat (prefixed 2 (Some (concat (map be16 (ch_cipherSuites m)))))
      (prefixed 1 (Some (ch_compressionMethods m))))))"
    have "E @ B \<noteq> []" using Some by (auto simp: ext_head_def cat_eq_Some)
    then have "Bytes cb (client_message cb m False (E @ B)) =
        cat (Some [typeClientHello]) (prefixed 3 (cat ?hdr (prefixed 2 (cat (Some E) (Some B)))))"
      by (simp only: client_message_bytes cat_assoc if_False cat.simps)
    also have "\<dots> = cat (hello_head m (length B)) (Some B)"
      by (simp only: prefixed_tail cat_assoc [symmetric] hello_head_def Some)
    finally show ?thesis
      using \<open>psk_binders_bytes (ch_pskBinders m) = Some B\<close> ext Some
      by (simp add: clientHelloMsg_marshal_def clientHelloMsg_marshalMsg_def client_extensions_bytes)
  qed
qed

lemma without_binders:
  assumes "ch_original m = None" and "ch_pskIdentities m \<noteq> []"
    and "clientHelloMsg_marshal cb m = Some data"
  shows "\<exists>B. psk_binders_bytes (ch_pskBinders m) = Some B \<and>
    clientHelloMsg_marshalWithoutBinders cb m = Inr (hello_head m (length B)) \<and>
    cat (hello_head m (length B)) (Some B) = Some data"
proof -
  obtain B where B: "psk_binders_bytes (ch_pskBinders m) = Some B"
    and data: "cat (hello_head m (length B)) (Some B) = Some data"
    using assms(3) marshal_psk [OF assms(2)] by (auto split: option.splits)
  then obtain H where H: "hello_head m (length B) = Some H" "data = H @ B"
    by (auto simp: cat_eq_Some)
  have "length B = binders_length (ch_pskBinders m)"
    using B by (auto simp: psk_binders_bytes_eq binders_length_eq length_concat comp_def split: if_splits)
  then have "clientHelloMsg_marshalWithoutBinders cb m = Inr (Some H)"
    using assms(1,3) H(2) by (simp add: clientHelloMsg_marshalWithoutBinders_def)
  with B data H show ?thesis by auto
qed

lemma update_binders:
  assumes "clientHelloMsg_updateBinders m bs = Some m'"
    and "ch_original m = None" and "ch_pskIdentities m \<noteq> []"
    and "clientHelloMsg_marshal cb m = Some data"
  shows "\<exists>head B. clientHelloMsg_marshalWithoutBinders cb m = Inr (Some head) \<and>
    clientHelloMsg_marshalWithoutBinders cb m' = Inr (Some head) \<and>
    psk_binders_bytes bs = Some B \<and> clientHelloMsg_marshal cb m' = Some (head @ B)"
proof -
  have m': "m' = m\<lparr>ch_pskBinders := bs\<rparr>" and lengths: "map length bs = map length (ch_pskBinders m)"
    using assms(1)
    by (fastforce simp: clientHelloMsg_updateBinders_def list_ex_iff set_zip list_eq_iff_nth_eq split: if_splits)+
  have "(\<Sum>b\<leftarrow>bs. 1 + length b) = (\<Sum>b\<leftarrow>ch_pskBinders m. 1 + length b)"
    using arg_cong [OF lengths, of "\<lambda>ns. \<Sum>n\<leftarrow>ns. 1 + n"] by (simp add: comp_def)
  then have len: "binders_length bs = binders_length (ch_pskBinders m)"
    by (simp add: binders_length_eq)
  have short: "(\<forall>b \<in> set bs. length b < 256) = (\<forall>b \<in> set (ch_pskBinders m). length b < 256)"
    using arg_cong [OF lengths, of "\<lambda>ns. \<forall>n \<in> set ns. n < 256"] by simp
  obtain A where A: "psk_binders_bytes (ch_pskBinders m) = Some A"
    and mA: "clientHelloMsg_marshalWithoutBinders cb m = Inr (hello_head m (length A))"
      "cat (hello_head m (length A)) (Some A) = Some data"
    using without_binders [OF assms(2-4)] by blast
  then obtain B where B: "psk_binders_bytes bs = Some B" "length B = length A"
    using len short by (auto simp: psk_binders_bytes_eq binders_length_eq length_concat comp_def split: if_splits)
  obtain H where H: "hello_head m (length A) = Some H" using mA(2) by (auto simp: cat_eq_Some)
  have "clientHelloMsg_marshal cb m' = Some (H @ B)"
    using marshal_psk [of m'] assms(3) B H by (simp add: m')
  moreover from this have "clientHelloMsg_marshalWithoutBinders cb m' = Inr (Some H)"
    using without_binders [of m' "H @ B"] assms(2,3) B H by (simp add: m')
  ultimately show ?thesis using mA(1) H B by auto
qed

end

subsection \<open>Properties\<close>

definition sample_hello :: clientHelloMsg where
  "sample_hello = (clientHelloMsg_zero None)\<lparr>ch_vers := 0x0303, ch_random := replicate 32 7,
     ch_sessionId := [1, 2, 3], ch_cipherSuites := [0x1301, 0x1303], ch_compressionMethods := [0],
     ch_serverName := ''a.b'', ch_supportedCurves := [29, 4588], ch_ocspStapling := True,
     ch_supportedSignatureAlgorithms := [0x0403], ch_alpnProtocols := [''h2'', ''http/1.1''],
     ch_supportedVersions := [0x0304], ch_keyShares := [\<lparr>ks_group = 29, ks_data = [9, 8, 7]\<rparr>],
     ch_pskModes := [1],
     ch_pskIdentities := [\<lparr>psk_label = [5, 6], psk_obfuscatedTicketAge = 0x01020304\<rparr>],
     ch_pskBinders := [[1, 1, 1, 1]]\<rparr>"

lemma sample_ext_list: "map fst (client_ext_list sample_hello) = [0, 5, 10, 13, 16, 43, 51, 45, 41]"
  by (simp add: client_ext_list_eq x_defs sample_hello_def clientHelloMsg_zero_def)

lemma sample_canonical: "canonical_hello sample_hello"
  by (simp add: canonical_hello_def sample_hello_def clientHelloMsg_zero_def HasSuffix_dot_def)

lemma sample_marshals: "\<exists>data. clientHelloMsg_marshal ref_cryptobyte sample_hello = Some data"
  by (simp add: clientHelloMsg_marshal_def clientHelloMsg_marshalMsg_def ref.client_extensions_bytes
      ref.client_message_bytes client_ext_list_eq x_defs sample_hello_def clientHelloMsg_zero_def
      psk_identities_bytes_def psk_binders_bytes_def)

text \<open>A ClientHello that marshals is parsed back: \<open>unmarshal\<close> of the bytes returns the
  message itself, with the bytes as \<open>original\<close> and the types of the extensions sent, in
  order, as \<open>extensions\<close>. The message must hold nothing the wire format drops or the parser
  refuses; that every length fits follows from marshalling having succeeded.\<close>

theorem client_hello_roundtrip:
  assumes "cryptobyte_laws cb" and "clientHelloMsg_marshal cb m = Some data" and "canonical_hello m"
  shows "clientHelloMsg_unmarshal cb data =
    Some (m\<lparr>ch_original := Some data, ch_extensions := map fst (client_ext_list m)\<rparr>)"
  using assms by (rule cryptobyte_laws.unmarshal_marshal)

theorem client_hello_roundtrip_witness:
  "\<exists>data. clientHelloMsg_marshal ref_cryptobyte sample_hello = Some data \<and>
    clientHelloMsg_unmarshal ref_cryptobyte data =
      Some (sample_hello\<lparr>ch_original := Some data,
        ch_extensions := [0, 5, 10, 13, 16, 43, 51, 45, 41]\<rparr>)"
proof -
  obtain data where data: "clientHelloMsg_marshal ref_cryptobyte sample_hello = Some data"
    using sample_marshals by blast
  with client_hello_roundtrip [OF ref.cryptobyte_laws_axioms data sample_canonical]
  show ?thesis by (simp add: sample_ext_list)
qed

text \<open>(C25) What the parser guarantees of a ClientHello it accepts, whatever the bytes: the
  random has 32 bytes, no extension occurs twice, \<open>pre_shared_key\<close> is last if it is there,
  the server name has no trailing dot, no protocol, key share, identity or binder is empty,
  and there are identities exactly if there are binders.\<close>

theorem client_hello_accepted:
  assumes "cryptobyte_laws cb" and "clientHelloMsg_unmarshal cb data = Some m"
  shows "accepted_hello m \<and> distinct (ch_extensions m) \<and> length (ch_random m) = 32 \<and>
    (extensionPreSharedKey \<in> set (ch_extensions m) \<longrightarrow> last (ch_extensions m) = extensionPreSharedKey)"
  using assms by (rule cryptobyte_laws.unmarshal_accepts)

theorem client_hello_accepted_witness:
  "\<exists>data m. clientHelloMsg_unmarshal ref_cryptobyte data = Some m \<and> accepted_hello m \<and>
    distinct (ch_extensions m) \<and> length (ch_random m) = 32 \<and>
    extensionPreSharedKey \<in> set (ch_extensions m) \<and> last (ch_extensions m) = extensionPreSharedKey"
proof -
  obtain data where data: "clientHelloMsg_marshal ref_cryptobyte sample_hello = Some data"
    using sample_marshals by blast
  let ?m = "sample_hello\<lparr>ch_original := Some data, ch_extensions := map fst (client_ext_list sample_hello)\<rparr>"
  have m: "clientHelloMsg_unmarshal ref_cryptobyte data = Some ?m"
    using data sample_canonical by (rule ref.unmarshal_marshal)
  show ?thesis
    using client_hello_accepted [OF ref.cryptobyte_laws_axioms m] m
    by (intro exI [of _ data] exI [of _ ?m]) (simp add: sample_ext_list)
qed

text \<open>(C26) The binders of a PSK ClientHello are computed over the message without them, so
  replacing placeholder binders must not change that part: \<open>updateBinders\<close> with binders of
  the same lengths leaves \<open>marshalWithoutBinders\<close> as it was, and the message that is sent is
  that part followed by the encoding of the new binders.\<close>

theorem client_hello_update_binders:
  assumes "cryptobyte_laws cb" and "clientHelloMsg_updateBinders m bs = Some m'"
    and "ch_original m = None" and "ch_pskIdentities m \<noteq> []"
    and "clientHelloMsg_marshal cb m = Some data"
  shows "\<exists>head B. clientHelloMsg_marshalWithoutBinders cb m = Inr (Some head) \<and>
    clientHelloMsg_marshalWithoutBinders cb m' = Inr (Some head) \<and>
    psk_binders_bytes bs = Some B \<and> clientHelloMsg_marshal cb m' = Some (head @ B)"
  using assms by (rule cryptobyte_laws.update_binders)

theorem client_hello_update_binders_witness:
  "\<exists>m' head. clientHelloMsg_updateBinders sample_hello [[2, 3, 4, 5]] = Some m' \<and>
    clientHelloMsg_marshalWithoutBinders ref_cryptobyte m' = Inr (Some head) \<and>
    clientHelloMsg_marshal ref_cryptobyte m' = Some (head @ [0, 5, 4, 2, 3, 4, 5])"
proof -
  obtain data where data: "clientHelloMsg_marshal ref_cryptobyte sample_hello = Some data"
    using sample_marshals by blast
  have upd: "clientHelloMsg_updateBinders sample_hello [[2, 3, 4, 5]] =
      Some (sample_hello\<lparr>ch_pskBinders := [[2, 3, 4, 5]]\<rparr>)"
    by (simp add: clientHelloMsg_updateBinders_def sample_hello_def)
  have "psk_binders_bytes [[2, 3, 4, 5]] = Some [0, 5, 4, 2, 3, 4, 5]"
    by (simp add: psk_binders_bytes_def length_bytes_def be16_def)
  moreover have "ch_original sample_hello = None" "ch_pskIdentities sample_hello \<noteq> []"
    by (simp_all add: sample_hello_def clientHelloMsg_zero_def)
  ultimately show ?thesis
    using client_hello_update_binders [OF ref.cryptobyte_laws_axioms upd _ _ data] upd by auto
qed

end
