(* ===== verification/Server_Hello.thy ===== *)
theory Server_Hello
  imports Client_Hello_Codec
begin

text \<open>
  The ServerHello and EncryptedExtensions codecs of \<open>src/handshake_messages.go\<close>, in the
  style of the ClientHello: one definition per extension block of \<open>marshal\<close>, the extension
  switch of \<open>unmarshal\<close>, and the round trips.
\<close>

subsection \<open>ServerHello: marshalling\<close>

text \<open>An extension with empty data, and one whose data a continuation writes.\<close>

definition add_flag :: "'b cryptobyte \<Rightarrow> bool \<Rightarrow> u16 \<Rightarrow> 'b \<Rightarrow> 'b" where
  "add_flag cb c extension exts =
     (if c then let exts = AddUint16 cb exts extension in AddUint16 cb exts 0 else exts)"

definition add_section :: "'b cryptobyte \<Rightarrow> bool \<Rightarrow> u16 \<Rightarrow> ('b \<Rightarrow> 'b) \<Rightarrow> 'b \<Rightarrow> 'b" where
  "add_section cb c extension f exts =
     (if c then let exts = AddUint16 cb exts extension in AddUint16LengthPrefixed cb exts f else exts)"

definition server_extensions :: "'b cryptobyte \<Rightarrow> serverHelloMsg \<Rightarrow> 'b" where
  "server_extensions cb m =
     (let exts = NewBuilder cb;
          exts = add_flag cb (sh_ocspStapling m) extensionStatusRequest exts;
          exts = add_flag cb (sh_ticketSupported m) extensionSessionTicket exts;
          exts = add_section cb (sh_secureRenegotiationSupported m) extensionRenegotiationInfo (\<lambda>exts.
                   AddUint8LengthPrefixed cb exts (\<lambda>exts. AddBytes cb exts (sh_secureRenegotiation m))) exts;
          exts = add_flag cb (sh_extendedMasterSecret m) extensionExtendedMasterSecret exts;
          exts = add_section cb (length (sh_alpnProtocol m) > 0) extensionALPN (\<lambda>exts.
                   AddUint16LengthPrefixed cb exts (\<lambda>exts.
                     AddUint8LengthPrefixed cb exts (\<lambda>exts.
                       AddBytes cb exts (string_to_bytes (sh_alpnProtocol m))))) exts;
          exts = add_section cb (length (sh_scts m) > 0) extensionSCT (\<lambda>exts.
                   AddUint16LengthPrefixed cb exts (\<lambda>exts.
                     fold (\<lambda>sct exts. AddUint16LengthPrefixed cb exts (\<lambda>exts. AddBytes cb exts sct))
                       (sh_scts m) exts)) exts;
          exts = add_section cb (sh_supportedVersion m \<noteq> 0) extensionSupportedVersions (\<lambda>exts.
                   AddUint16 cb exts (sh_supportedVersion m)) exts;
          exts = add_section cb (ks_group (sh_serverShare m) \<noteq> 0) extensionKeyShare (\<lambda>exts.
                   let exts = AddUint16 cb exts (ks_group (sh_serverShare m)) in
                   AddUint16LengthPrefixed cb exts (\<lambda>exts.
                     AddBytes cb exts (ks_data (sh_serverShare m)))) exts;
          exts = add_section cb (sh_selectedIdentityPresent m) extensionPreSharedKey (\<lambda>exts.
                   AddUint16 cb exts (sh_selectedIdentity m)) exts;
          exts = add_section cb (length (sh_cookie m) > 0) extensionCookie (\<lambda>exts.
                   AddUint16LengthPrefixed cb exts (\<lambda>exts. AddBytes cb exts (sh_cookie m))) exts;
          exts = add_section cb (sh_selectedGroup m \<noteq> 0) extensionKeyShare (\<lambda>exts.
                   AddUint16 cb exts (sh_selectedGroup m)) exts;
          exts = add_section cb (length (sh_supportedPoints m) > 0) extensionSupportedPoints (\<lambda>exts.
                   AddUint8LengthPrefixed cb exts (\<lambda>exts. AddBytes cb exts (sh_supportedPoints m))) exts;
          exts = add_section cb (length (sh_encryptedClientHello m) > 0) extensionEncryptedClientHello (\<lambda>exts.
                   AddBytes cb exts (sh_encryptedClientHello m)) exts
      in add_flag cb (sh_serverNameAck m) extensionServerName exts)"

definition server_message :: "'b cryptobyte \<Rightarrow> serverHelloMsg \<Rightarrow> bytes \<Rightarrow> 'b" where
  "server_message cb m extBytes =
     (let b = NewBuilder cb;
          b = AddUint8 cb b typeServerHello
      in AddUint24LengthPrefixed cb b (\<lambda>b.
        let b = AddUint16 cb b (sh_vers m);
            b = addBytesWithLength cb b (sh_random m) 32;
            b = AddUint8LengthPrefixed cb b (\<lambda>b. AddBytes cb b (sh_sessionId m));
            b = AddUint16 cb b (sh_cipherSuite m);
            b = AddUint8 cb b (sh_compressionMethod m)
        in if length extBytes > 0 then
             AddUint16LengthPrefixed cb b (\<lambda>b. AddBytes cb b extBytes)
           else b))"

definition serverHelloMsg_marshal :: "'b cryptobyte \<Rightarrow> serverHelloMsg \<Rightarrow> bytes option" where
  "serverHelloMsg_marshal cb m = do {
     extBytes \<leftarrow> Bytes cb (server_extensions cb m);
     Bytes cb (server_message cb m extBytes) }"

definition serverHelloMsg_originalBytes :: "serverHelloMsg \<Rightarrow> bytes option" where
  "serverHelloMsg_originalBytes m = sh_original m"

subsection \<open>ServerHello: unmarshalling\<close>

definition nonempty16_step :: "'b cryptobyte \<Rightarrow> bytes list \<Rightarrow> bytes \<Rightarrow> (bytes list \<times> bytes) option" where
  "nonempty16_step cb xs s = do {
     (x, s) \<leftarrow> readUint16LengthPrefixed cb s;
     guard (length x \<noteq> 0);
     Some (xs @ [x], s) }"

text \<open>The selected protocol, as ServerHello and EncryptedExtensions read it.\<close>

definition read_alpnProtocol :: "'b cryptobyte \<Rightarrow> bytes \<Rightarrow> (string \<times> bytes) option" where
  "read_alpnProtocol cb extData = do {
     (protoList, extData) \<leftarrow> ReadUint16LengthPrefixed cb extData;
     guard (protoList \<noteq> []);
     (proto, protoList) \<leftarrow> ReadUint8LengthPrefixed cb protoList;
     guard (proto \<noteq> [] \<and> protoList = []);
     Some (bytes_to_string proto, extData) }"

definition server_ext_switch ::
    "'b cryptobyte \<Rightarrow> bool \<Rightarrow> u16 \<Rightarrow> bytes \<Rightarrow> serverHelloMsg \<Rightarrow> (serverHelloMsg \<times> bytes option) option" where
  "server_ext_switch cb last_ext extension extData m =
    (if extension = extensionStatusRequest then
       Some (m\<lparr>sh_ocspStapling := True\<rparr>, Some extData)
     else if extension = extensionSessionTicket then
       Some (m\<lparr>sh_ticketSupported := True\<rparr>, Some extData)
     else if extension = extensionRenegotiationInfo then do {
       (info, extData) \<leftarrow> readUint8LengthPrefixed cb extData;
       Some (m\<lparr>sh_secureRenegotiation := info, sh_secureRenegotiationSupported := True\<rparr>, Some extData) }
     else if extension = extensionExtendedMasterSecret then
       Some (m\<lparr>sh_extendedMasterSecret := True\<rparr>, Some extData)
     else if extension = extensionALPN then do {
       (proto, extData) \<leftarrow> read_alpnProtocol cb extData;
       Some (m\<lparr>sh_alpnProtocol := proto\<rparr>, Some extData) }
     else if extension = extensionSCT then do {
       (sctList, extData) \<leftarrow> ReadUint16LengthPrefixed cb extData;
       guard (sctList \<noteq> []);
       scts \<leftarrow> for_nonempty (nonempty16_step cb) (sh_scts m) sctList;
       Some (m\<lparr>sh_scts := scts\<rparr>, Some extData) }
     else if extension = extensionSupportedVersions then do {
       (vers, extData) \<leftarrow> ReadUint16 cb extData;
       Some (m\<lparr>sh_supportedVersion := vers\<rparr>, Some extData) }
     else if extension = extensionCookie then do {
       (cookie, extData) \<leftarrow> readUint16LengthPrefixed cb extData;
       guard (length cookie \<noteq> 0);
       Some (m\<lparr>sh_cookie := cookie\<rparr>, Some extData) }
     else if extension = extensionKeyShare then
       (if length extData = 2 then do {
          (grp, extData) \<leftarrow> ReadUint16 cb extData;
          Some (m\<lparr>sh_selectedGroup := grp\<rparr>, Some extData) }
        else do {
          (grp, extData) \<leftarrow> ReadUint16 cb extData;
          (data, extData) \<leftarrow> readUint16LengthPrefixed cb extData;
          Some (m\<lparr>sh_serverShare := \<lparr>ks_group = grp, ks_data = data\<rparr>\<rparr>, Some extData) })
     else if extension = extensionPreSharedKey then do {
       (identity, extData) \<leftarrow> ReadUint16 cb extData;
       Some (m\<lparr>sh_selectedIdentityPresent := True, sh_selectedIdentity := identity\<rparr>, Some extData) }
     else if extension = extensionSupportedPoints then do {
       (points, extData) \<leftarrow> readUint8LengthPrefixed cb extData;
       guard (length points \<noteq> 0);
       Some (m\<lparr>sh_supportedPoints := points\<rparr>, Some extData) }
     else if extension = extensionEncryptedClientHello then do {
       (ech, extData) \<leftarrow> CopyBytes cb extData (length extData);
       Some (m\<lparr>sh_encryptedClientHello := ech\<rparr>, Some extData) }
     else if extension = extensionServerName then do {
       guard (length extData = 0);
       Some (m\<lparr>sh_serverNameAck := True\<rparr>, Some extData) }
     else Some (m, None))"

definition serverHelloMsg_unmarshal :: "'b cryptobyte \<Rightarrow> bytes \<Rightarrow> serverHelloMsg option" where
  "serverHelloMsg_unmarshal cb data = do {
     let m = serverHelloMsg_zero (Some data);
     s \<leftarrow> Skip cb data 4;
     (vers, s) \<leftarrow> ReadUint16 cb s;
     (random, s) \<leftarrow> ReadBytes cb s 32;
     (sessionId, s) \<leftarrow> readUint8LengthPrefixed cb s;
     (cipherSuite, s) \<leftarrow> ReadUint16 cb s;
     (compressionMethod, s) \<leftarrow> ReadUint8 cb s;
     let m = m\<lparr>sh_vers := vers, sh_random := random, sh_sessionId := sessionId,
               sh_cipherSuite := cipherSuite, sh_compressionMethod := compressionMethod\<rparr>;
     if s = [] then Some m
     else do {
       (extensions, s) \<leftarrow> ReadUint16LengthPrefixed cb s;
       guard (s = []);
       ext_loop cb (server_ext_switch cb) m extensions } }"

subsection \<open>EncryptedExtensions\<close>

record encryptedExtensionsMsg =
  ee_alpnProtocol :: string
  ee_quicTransportParameters :: "bytes option"
  ee_earlyData :: bool
  ee_echRetryConfigs :: bytes

definition encryptedExtensionsMsg_marshal :: "'b cryptobyte \<Rightarrow> encryptedExtensionsMsg \<Rightarrow> bytes option" where
  "encryptedExtensionsMsg_marshal cb m =
     (let b = NewBuilder cb;
          b = AddUint8 cb b typeEncryptedExtensions;
          b = AddUint24LengthPrefixed cb b (\<lambda>b.
            AddUint16LengthPrefixed cb b (\<lambda>b.
              let b = add_section cb (length (ee_alpnProtocol m) > 0) extensionALPN (\<lambda>b.
                        AddUint16LengthPrefixed cb b (\<lambda>b.
                          AddUint8LengthPrefixed cb b (\<lambda>b.
                            AddBytes cb b (string_to_bytes (ee_alpnProtocol m))))) b;
                  b = (case ee_quicTransportParameters m of
                         Some params \<Rightarrow> add_section cb True extensionQUICTransportParameters (\<lambda>b.
                           AddBytes cb b params) b
                       | None \<Rightarrow> b);
                  b = add_flag cb (ee_earlyData m) extensionEarlyData b
              in add_section cb (length (ee_echRetryConfigs m) > 0) extensionEncryptedClientHello (\<lambda>b.
                   AddBytes cb b (ee_echRetryConfigs m)) b))
      in Bytes cb b)"

definition encrypted_ext_switch :: "'b cryptobyte \<Rightarrow> bool \<Rightarrow> u16 \<Rightarrow> bytes \<Rightarrow>
    encryptedExtensionsMsg \<Rightarrow> (encryptedExtensionsMsg \<times> bytes option) option" where
  "encrypted_ext_switch cb last_ext extension extData m =
    (if extension = extensionALPN then do {
       (proto, extData) \<leftarrow> read_alpnProtocol cb extData;
       Some (m\<lparr>ee_alpnProtocol := proto\<rparr>, Some extData) }
     else if extension = extensionQUICTransportParameters then do {
       (params, extData) \<leftarrow> CopyBytes cb extData (length extData);
       Some (m\<lparr>ee_quicTransportParameters := Some params\<rparr>, Some extData) }
     else if extension = extensionEarlyData then
       Some (m\<lparr>ee_earlyData := True\<rparr>, Some extData)
     else if extension = extensionEncryptedClientHello then do {
       (configs, extData) \<leftarrow> CopyBytes cb extData (length extData);
       Some (m\<lparr>ee_echRetryConfigs := configs\<rparr>, Some extData) }
     else Some (m, None))"

definition encryptedExtensionsMsg_unmarshal :: "'b cryptobyte \<Rightarrow> bytes \<Rightarrow> encryptedExtensionsMsg option" where
  "encryptedExtensionsMsg_unmarshal cb data = do {
     s \<leftarrow> Skip cb data 4;
     (extensions, s) \<leftarrow> ReadUint16LengthPrefixed cb s;
     guard (s = []);
     ext_loop cb (encrypted_ext_switch cb)
       \<lparr>ee_alpnProtocol = [], ee_quicTransportParameters = None, ee_earlyData = False,
        ee_echRetryConfigs = []\<rparr> extensions }"

subsection \<open>What marshalling writes\<close>

definition x_if :: "bool \<Rightarrow> u16 \<Rightarrow> bytes option \<Rightarrow> (u16 \<times> bytes option) list" where
  "x_if c i d = (if c then [(i, d)] else [])"

definition x_alpnProtocol :: "string \<Rightarrow> (u16 \<times> bytes option) list" where
  "x_alpnProtocol p = x_if (p \<noteq> []) extensionALPN (prefixed 2 (prefixed 1 (Some (string_to_bytes p))))"

definition x_sctList :: "bytes list \<Rightarrow> (u16 \<times> bytes option) list" where
  "x_sctList scts = x_if (scts \<noteq> []) extensionSCT
     (prefixed 2 (cats (map (\<lambda>sct. prefixed 2 (Some sct)) scts)))"

definition server_ext_list :: "serverHelloMsg \<Rightarrow> (u16 \<times> bytes option) list" where
  "server_ext_list m =
     x_if (sh_ocspStapling m) extensionStatusRequest (Some []) @
     x_if (sh_ticketSupported m) extensionSessionTicket (Some []) @
     x_if (sh_secureRenegotiationSupported m) extensionRenegotiationInfo (prefixed 1 (Some (sh_secureRenegotiation m))) @
     x_if (sh_extendedMasterSecret m) extensionExtendedMasterSecret (Some []) @
     x_alpnProtocol (sh_alpnProtocol m) @
     x_sctList (sh_scts m) @
     x_if (sh_supportedVersion m \<noteq> 0) extensionSupportedVersions (Some (be16 (sh_supportedVersion m))) @
     x_if (ks_group (sh_serverShare m) \<noteq> 0) extensionKeyShare
       (cat (Some (be16 (ks_group (sh_serverShare m)))) (prefixed 2 (Some (ks_data (sh_serverShare m))))) @
     x_if (sh_selectedIdentityPresent m) extensionPreSharedKey (Some (be16 (sh_selectedIdentity m))) @
     x_if (sh_cookie m \<noteq> []) extensionCookie (prefixed 2 (Some (sh_cookie m))) @
     x_if (sh_selectedGroup m \<noteq> 0) extensionKeyShare (Some (be16 (sh_selectedGroup m))) @
     x_if (sh_supportedPoints m \<noteq> []) extensionSupportedPoints (prefixed 1 (Some (sh_supportedPoints m))) @
     x_if (sh_encryptedClientHello m \<noteq> []) extensionEncryptedClientHello (Some (sh_encryptedClientHello m)) @
     x_if (sh_serverNameAck m) extensionServerName (Some [])"

definition encrypted_ext_list :: "encryptedExtensionsMsg \<Rightarrow> (u16 \<times> bytes option) list" where
  "encrypted_ext_list m =
     x_alpnProtocol (ee_alpnProtocol m) @
     x_if (ee_quicTransportParameters m \<noteq> None) extensionQUICTransportParameters (ee_quicTransportParameters m) @
     x_if (ee_earlyData m) extensionEarlyData (Some []) @
     x_if (ee_echRetryConfigs m \<noteq> []) extensionEncryptedClientHello (Some (ee_echRetryConfigs m))"

lemma subseq_x_if: "subseq (map fst (x_if c i d)) [i]"
  by (simp add: x_if_def)

lemma distinct_encrypted_ext_list: "distinct (map fst (encrypted_ext_list m))"
proof (rule distinct_subseq)
  show "subseq (map fst (encrypted_ext_list m)) ([16] @ [57] @ [42] @ [0xfe0d])"
    unfolding encrypted_ext_list_def x_alpnProtocol_def map_append
    by (intro list_emb_append_mono subseq_x_if)
qed simp

text \<open>Both kinds of key share use the same extension, so at most one may be present.\<close>

lemma distinct_server_ext_list:
  assumes "ks_group (sh_serverShare m) = 0 \<or> sh_selectedGroup m = 0"
  shows "distinct (map fst (server_ext_list m))"
  using assms
proof
  assume "ks_group (sh_serverShare m) = 0"
  then have "subseq (map fst (server_ext_list m))
    ([5] @ [35] @ [0xff01] @ [23] @ [16] @ [18] @ [43] @ [] @ [41] @ [44] @ [51] @ [11] @ [0xfe0d] @ [0])"
    unfolding server_ext_list_def x_alpnProtocol_def x_sctList_def map_append
    by (intro list_emb_append_mono subseq_x_if) (simp add: x_if_def)
  then show ?thesis by (rule distinct_subseq) simp
next
  assume "sh_selectedGroup m = 0"
  then have "subseq (map fst (server_ext_list m))
    ([5] @ [35] @ [0xff01] @ [23] @ [16] @ [18] @ [43] @ [51] @ [41] @ [44] @ [] @ [11] @ [0xfe0d] @ [0])"
    unfolding server_ext_list_def x_alpnProtocol_def x_sctList_def map_append
    by (intro list_emb_append_mono subseq_x_if) (simp add: x_if_def)
  then show ?thesis by (rule distinct_subseq) simp
qed

text \<open>The messages whose fields all survive the wire.\<close>

definition canonical_server :: "serverHelloMsg \<Rightarrow> bool" where
  "canonical_server m \<longleftrightarrow>
     (sh_secureRenegotiationSupported m \<or> sh_secureRenegotiation m = []) \<and>
     (\<forall>sct \<in> set (sh_scts m). sct \<noteq> []) \<and>
     (ks_group (sh_serverShare m) \<noteq> 0 \<or> ks_data (sh_serverShare m) = []) \<and>
     (ks_group (sh_serverShare m) = 0 \<or> sh_selectedGroup m = 0) \<and>
     (sh_selectedIdentityPresent m \<or> sh_selectedIdentity m = 0)"

context cryptobyte_laws
begin

lemma add_flag_bytes:
  "Bytes cb (add_flag cb c i b) = cat (Bytes cb b) (encs (x_if c i (Some [])))"
  by (simp add: add_flag_def x_if_def builder)

lemma add_section_bytes:
  "Bytes cb (add_section cb c i f b) =
     cat (Bytes cb b) (encs (x_if c i (Bytes cb (f (child16 (AddUint16 cb b i) f)))))"
  by (simp add: add_section_def x_if_def builder)

lemma fold_sections16:
  "Bytes cb (fold (\<lambda>x b. AddUint16LengthPrefixed cb b (\<lambda>b. AddBytes cb b x)) xs b) =
     cat (Bytes cb b) (cats (map (\<lambda>x. prefixed 2 (Some x)) xs))"
  by (subst fold_cats [where g = "\<lambda>x. prefixed 2 (Some x)"]) (simp_all add: builder del: prefixed.simps)

lemma server_extensions_bytes: "Bytes cb (server_extensions cb m) = encs (server_ext_list m)"
  unfolding server_extensions_def Let_def server_ext_list_def x_alpnProtocol_def x_sctList_def
  by (simp add: add_flag_bytes add_section_bytes builder fold_sections16 encs_append
      del: prefixed.simps cat.simps)

lemma server_message_bytes:
  "Bytes cb (server_message cb m eb) =
    cat (Some [typeServerHello]) (prefixed 3 (cat (Some (be16 (sh_vers m)))
      (cat (if length (sh_random m) = 32 then Some (sh_random m) else None)
      (cat (prefixed 1 (Some (sh_sessionId m)))
      (cat (Some (be16 (sh_cipherSuite m)))
      (cat (Some [sh_compressionMethod m])
      (if eb = [] then Some [] else prefixed 2 (Some eb))))))))"
  by (simp add: server_message_def Let_def builder del: prefixed.simps(1) cat.simps)

lemma encrypted_marshal_bytes:
  "encryptedExtensionsMsg_marshal cb m =
     cat (Some [typeEncryptedExtensions]) (prefixed 3 (prefixed 2 (encs (encrypted_ext_list m))))"
  unfolding encryptedExtensionsMsg_marshal_def Let_def encrypted_ext_list_def x_alpnProtocol_def
  by (cases "ee_quicTransportParameters m")
    (simp_all add: add_flag_bytes add_section_bytes builder encs_append x_if_def [of True] x_if_def [of False]
      del: prefixed.simps cat.simps)

lemma consumes_nonempty16 [simp]: "consumes (nonempty16_step cb)"
  by (rule consumesI) (force simp: nonempty16_step_def bind_eq_Some_conv dest!: helper_reads_shorten)

lemma nonempty16_loop:
  assumes "cats (map (\<lambda>x. prefixed 2 (Some x)) xs) = Some d" and "\<forall>x \<in> set xs. x \<noteq> []"
  shows "for_nonempty (nonempty16_step cb) qs d = Some (qs @ xs)"
proof -
  have short: "x \<in> set xs \<Longrightarrow> length x < 65536" for x
    using assms(1) unfolding cats_map_eq_Some by (auto split: if_splits)
  have step: "nonempty16_step cb rs (the (prefixed 2 (Some x)) @ rest) = Some (rs @ [x], rest)"
    if "x \<in> set xs" for x rs rest
    using that short [OF that] assms(2) by (simp add: nonempty16_step_def readUint16LengthPrefixed_def)
  show ?thesis
    unfolding cats_map_concat [OF assms(1)]
    by (rule for_nonempty_appends [OF _ step]) (auto simp: short length_bytes_def)
qed

lemma prefixed_neq_Nil: "prefixed 2 x \<noteq> Some []"
  by (cases x) (auto simp: length_bytes_def)

lemma cats_not_Nil:
  "cats (map (\<lambda>x. prefixed 2 (Some x)) xs) = Some d \<Longrightarrow> xs \<noteq> [] \<Longrightarrow> d \<noteq> []"
  by (cases xs) (auto simp: cat_eq_Some prefixed_neq_Nil simp del: prefixed.simps)

lemma read_alpnProtocol_prefixed:
  assumes "prefixed 2 (prefixed 1 (Some (string_to_bytes p))) = Some d" and "p \<noteq> []"
  shows "read_alpnProtocol cb d = Some (p, [])"
  using assms read8lp_all [of "string_to_bytes p"]
    read16lp_all [of "length_bytes (Suc 0) (length p) @ string_to_bytes p"]
  by (auto simp: read_alpnProtocol_def length_bytes_def split: if_splits)

lemma run_server_ocspStapling:
  "encs (x_if (sh_ocspStapling m) extensionStatusRequest (Some [])) \<noteq> None \<Longrightarrow> \<not> sh_ocspStapling m0 \<Longrightarrow>
    run_exts (server_ext_switch cb) m0
      (x_if (sh_ocspStapling m) extensionStatusRequest (Some []) @ xs) =
    run_exts (server_ext_switch cb) (m0\<lparr>sh_ocspStapling := sh_ocspStapling m\<rparr>) xs"
  by (cases m0) (auto simp: x_if_def server_ext_switch_def readUint8LengthPrefixed_def
      readUint16LengthPrefixed_def CopyBytes cat_eq_Some split: if_splits)

lemma run_server_ticketSupported:
  "encs (x_if (sh_ticketSupported m) extensionSessionTicket (Some [])) \<noteq> None \<Longrightarrow> \<not> sh_ticketSupported m0 \<Longrightarrow>
    run_exts (server_ext_switch cb) m0
      (x_if (sh_ticketSupported m) extensionSessionTicket (Some []) @ xs) =
    run_exts (server_ext_switch cb) (m0\<lparr>sh_ticketSupported := sh_ticketSupported m\<rparr>) xs"
  by (cases m0) (auto simp: x_if_def server_ext_switch_def readUint8LengthPrefixed_def
      readUint16LengthPrefixed_def CopyBytes cat_eq_Some split: if_splits)

lemma run_server_extendedMasterSecret:
  "encs (x_if (sh_extendedMasterSecret m) extensionExtendedMasterSecret (Some [])) \<noteq> None \<Longrightarrow> \<not> sh_extendedMasterSecret m0 \<Longrightarrow>
    run_exts (server_ext_switch cb) m0
      (x_if (sh_extendedMasterSecret m) extensionExtendedMasterSecret (Some []) @ xs) =
    run_exts (server_ext_switch cb) (m0\<lparr>sh_extendedMasterSecret := sh_extendedMasterSecret m\<rparr>) xs"
  by (cases m0) (auto simp: x_if_def server_ext_switch_def readUint8LengthPrefixed_def
      readUint16LengthPrefixed_def CopyBytes cat_eq_Some split: if_splits)

lemma run_server_serverNameAck:
  "encs (x_if (sh_serverNameAck m) extensionServerName (Some [])) \<noteq> None \<Longrightarrow> \<not> sh_serverNameAck m0 \<Longrightarrow>
    run_exts (server_ext_switch cb) m0
      (x_if (sh_serverNameAck m) extensionServerName (Some []) @ xs) =
    run_exts (server_ext_switch cb) (m0\<lparr>sh_serverNameAck := sh_serverNameAck m\<rparr>) xs"
  by (cases m0) (auto simp: x_if_def server_ext_switch_def readUint8LengthPrefixed_def
      readUint16LengthPrefixed_def CopyBytes cat_eq_Some split: if_splits)

lemma run_server_cookie:
  "encs (x_if (sh_cookie m \<noteq> []) extensionCookie (prefixed 2 (Some (sh_cookie m)))) \<noteq> None \<Longrightarrow> sh_cookie m0 = [] \<Longrightarrow>
    run_exts (server_ext_switch cb) m0
      (x_if (sh_cookie m \<noteq> []) extensionCookie (prefixed 2 (Some (sh_cookie m))) @ xs) =
    run_exts (server_ext_switch cb) (m0\<lparr>sh_cookie := sh_cookie m\<rparr>) xs"
  by (cases m0) (auto simp: x_if_def server_ext_switch_def readUint8LengthPrefixed_def
      readUint16LengthPrefixed_def CopyBytes cat_eq_Some split: if_splits)

lemma run_server_supportedPoints:
  "encs (x_if (sh_supportedPoints m \<noteq> []) extensionSupportedPoints (prefixed 1 (Some (sh_supportedPoints m)))) \<noteq> None \<Longrightarrow> sh_supportedPoints m0 = [] \<Longrightarrow>
    run_exts (server_ext_switch cb) m0
      (x_if (sh_supportedPoints m \<noteq> []) extensionSupportedPoints (prefixed 1 (Some (sh_supportedPoints m))) @ xs) =
    run_exts (server_ext_switch cb) (m0\<lparr>sh_supportedPoints := sh_supportedPoints m\<rparr>) xs"
  by (cases m0) (auto simp: x_if_def server_ext_switch_def readUint8LengthPrefixed_def
      readUint16LengthPrefixed_def CopyBytes cat_eq_Some split: if_splits)

lemma run_server_encryptedClientHello:
  "encs (x_if (sh_encryptedClientHello m \<noteq> []) extensionEncryptedClientHello (Some (sh_encryptedClientHello m))) \<noteq> None \<Longrightarrow> sh_encryptedClientHello m0 = [] \<Longrightarrow>
    run_exts (server_ext_switch cb) m0
      (x_if (sh_encryptedClientHello m \<noteq> []) extensionEncryptedClientHello (Some (sh_encryptedClientHello m)) @ xs) =
    run_exts (server_ext_switch cb) (m0\<lparr>sh_encryptedClientHello := sh_encryptedClientHello m\<rparr>) xs"
  by (cases m0) (auto simp: x_if_def server_ext_switch_def readUint8LengthPrefixed_def
      readUint16LengthPrefixed_def CopyBytes cat_eq_Some split: if_splits)

lemma run_server_supportedVersion:
  "encs (x_if (sh_supportedVersion m \<noteq> 0) extensionSupportedVersions (Some (be16 (sh_supportedVersion m)))) \<noteq> None \<Longrightarrow> sh_supportedVersion m0 = 0 \<Longrightarrow>
    run_exts (server_ext_switch cb) m0
      (x_if (sh_supportedVersion m \<noteq> 0) extensionSupportedVersions (Some (be16 (sh_supportedVersion m))) @ xs) =
    run_exts (server_ext_switch cb) (m0\<lparr>sh_supportedVersion := sh_supportedVersion m\<rparr>) xs"
  by (cases m0) (auto simp: x_if_def server_ext_switch_def readUint8LengthPrefixed_def
      readUint16LengthPrefixed_def CopyBytes cat_eq_Some split: if_splits)

lemma run_server_selectedGroup:
  "encs (x_if (sh_selectedGroup m \<noteq> 0) extensionKeyShare (Some (be16 (sh_selectedGroup m)))) \<noteq> None \<Longrightarrow> sh_selectedGroup m0 = 0 \<Longrightarrow>
    run_exts (server_ext_switch cb) m0
      (x_if (sh_selectedGroup m \<noteq> 0) extensionKeyShare (Some (be16 (sh_selectedGroup m))) @ xs) =
    run_exts (server_ext_switch cb) (m0\<lparr>sh_selectedGroup := sh_selectedGroup m\<rparr>) xs"
  by (cases m0) (auto simp: x_if_def server_ext_switch_def readUint8LengthPrefixed_def
      readUint16LengthPrefixed_def CopyBytes cat_eq_Some split: if_splits)

lemma run_server_secureRenegotiation:
  "encs (x_if (sh_secureRenegotiationSupported m) extensionRenegotiationInfo (prefixed 1 (Some (sh_secureRenegotiation m)))) \<noteq> None \<Longrightarrow> sh_secureRenegotiation m0 = [] \<Longrightarrow> \<not> sh_secureRenegotiationSupported m0 \<Longrightarrow> sh_secureRenegotiationSupported m \<or> sh_secureRenegotiation m = [] \<Longrightarrow>
    run_exts (server_ext_switch cb) m0
      (x_if (sh_secureRenegotiationSupported m) extensionRenegotiationInfo (prefixed 1 (Some (sh_secureRenegotiation m))) @ xs) =
    run_exts (server_ext_switch cb) (m0\<lparr>sh_secureRenegotiation := sh_secureRenegotiation m, sh_secureRenegotiationSupported := sh_secureRenegotiationSupported m\<rparr>) xs"
  by (cases m0) (auto simp: x_if_def server_ext_switch_def readUint8LengthPrefixed_def
      readUint16LengthPrefixed_def CopyBytes cat_eq_Some split: if_splits)

lemma run_server_selectedIdentity:
  "encs (x_if (sh_selectedIdentityPresent m) extensionPreSharedKey (Some (be16 (sh_selectedIdentity m)))) \<noteq> None \<Longrightarrow> sh_selectedIdentity m0 = 0 \<Longrightarrow> \<not> sh_selectedIdentityPresent m0 \<Longrightarrow> sh_selectedIdentityPresent m \<or> sh_selectedIdentity m = 0 \<Longrightarrow>
    run_exts (server_ext_switch cb) m0
      (x_if (sh_selectedIdentityPresent m) extensionPreSharedKey (Some (be16 (sh_selectedIdentity m))) @ xs) =
    run_exts (server_ext_switch cb) (m0\<lparr>sh_selectedIdentityPresent := sh_selectedIdentityPresent m, sh_selectedIdentity := sh_selectedIdentity m\<rparr>) xs"
  by (cases m0) (auto simp: x_if_def server_ext_switch_def readUint8LengthPrefixed_def
      readUint16LengthPrefixed_def CopyBytes cat_eq_Some split: if_splits)

lemma run_server_serverShare:
  "encs (x_if (ks_group (sh_serverShare m) \<noteq> 0) extensionKeyShare (cat (Some (be16 (ks_group (sh_serverShare m)))) (prefixed 2 (Some (ks_data (sh_serverShare m)))))) \<noteq> None \<Longrightarrow> sh_serverShare m0 = \<lparr>ks_group = 0, ks_data = []\<rparr> \<Longrightarrow> ks_group (sh_serverShare m) \<noteq> 0 \<or> ks_data (sh_serverShare m) = [] \<Longrightarrow>
    run_exts (server_ext_switch cb) m0
      (x_if (ks_group (sh_serverShare m) \<noteq> 0) extensionKeyShare (cat (Some (be16 (ks_group (sh_serverShare m)))) (prefixed 2 (Some (ks_data (sh_serverShare m))))) @ xs) =
    run_exts (server_ext_switch cb) (m0\<lparr>sh_serverShare := sh_serverShare m\<rparr>) xs"
  by (cases m0; cases "sh_serverShare m") (auto simp: x_if_def server_ext_switch_def
      readUint16LengthPrefixed_def cat_eq_Some split: if_splits)

lemma x_alpnProtocol_read:
  assumes "encs (x_alpnProtocol p) \<noteq> None" and "p \<noteq> []"
  shows "\<exists>d. x_alpnProtocol p = [(extensionALPN, Some d)] \<and> read_alpnProtocol cb d = Some (p, [])"
proof (cases "prefixed 2 (prefixed 1 (Some (string_to_bytes p)))")
  case (Some d)
  then show ?thesis
    using assms(2) read_alpnProtocol_prefixed [OF Some assms(2)]
    by (simp add: x_alpnProtocol_def x_if_def del: prefixed.simps)
qed (use assms in \<open>simp add: x_alpnProtocol_def x_if_def del: prefixed.simps(1)\<close>)

lemma run_server_alpnProtocol:
  assumes "encs (x_alpnProtocol (sh_alpnProtocol m)) \<noteq> None" and "sh_alpnProtocol m0 = []"
  shows "run_exts (server_ext_switch cb) m0 (x_alpnProtocol (sh_alpnProtocol m) @ xs) =
    run_exts (server_ext_switch cb) (m0\<lparr>sh_alpnProtocol := sh_alpnProtocol m\<rparr>) xs"
proof (cases "sh_alpnProtocol m = []")
  case False
  with x_alpnProtocol_read [OF assms(1)] show ?thesis by (auto simp: server_ext_switch_def)
qed (use assms in \<open>cases m0; simp add: x_alpnProtocol_def x_if_def\<close>)

lemma run_server_scts:
  assumes "encs (x_sctList (sh_scts m)) \<noteq> None" and "sh_scts m0 = []" and "\<forall>sct \<in> set (sh_scts m). sct \<noteq> []"
  shows "run_exts (server_ext_switch cb) m0 (x_sctList (sh_scts m) @ xs) =
    run_exts (server_ext_switch cb) (m0\<lparr>sh_scts := sh_scts m\<rparr>) xs"
proof (cases "sh_scts m = []")
  case False
  with assms(1) obtain d where d: "cats (map (\<lambda>sct. prefixed 2 (Some sct)) (sh_scts m)) = Some d"
      and len: "length d < 65536"
    by (auto simp: x_sctList_def x_if_def cat_eq_Some prefixed_eq_Some simp del: prefixed.simps)
  with False nonempty16_loop [OF d assms(3)] cats_not_Nil [OF d False] assms(2) show ?thesis
    by (simp add: x_sctList_def x_if_def server_ext_switch_def)
qed (use assms in \<open>cases m0; simp add: x_sctList_def x_if_def\<close>)

lemmas run_server_steps = run_server_ocspStapling run_server_ticketSupported
  run_server_secureRenegotiation run_server_extendedMasterSecret run_server_alpnProtocol
  run_server_scts run_server_supportedVersion run_server_serverShare run_server_selectedIdentity
  run_server_cookie run_server_selectedGroup run_server_supportedPoints
  run_server_encryptedClientHello run_server_serverNameAck [where xs = "[]", simplified]

lemma run_server_exts:
  assumes "encs (server_ext_list m) \<noteq> None" and "canonical_server m"
    and "m1 = (serverHelloMsg_zero (Some data))\<lparr>sh_vers := sh_vers m, sh_random := sh_random m,
      sh_sessionId := sh_sessionId m, sh_cipherSuite := sh_cipherSuite m,
      sh_compressionMethod := sh_compressionMethod m\<rparr>"
  shows "run_exts (server_ext_switch cb) m1 (server_ext_list m) = Some (m\<lparr>sh_original := Some data\<rparr>)"
proof -
  note parts = assms(1) [unfolded server_ext_list_def encs_append_defined]
  show ?thesis
    using parts assms(2) unfolding server_ext_list_def assms(3) serverHelloMsg_zero_def canonical_server_def
    by (simp add: run_server_steps del: prefixed.simps cat.simps One_nat_def)
qed

lemma server_unmarshal_marshal:
  assumes "serverHelloMsg_marshal cb m = Some data" and "canonical_server m"
  shows "serverHelloMsg_unmarshal cb data = Some (m\<lparr>sh_original := Some data\<rparr>)"
proof -
  obtain eb where eb: "encs (server_ext_list m) = Some eb"
    and data: "Bytes cb (server_message cb m eb) = Some data"
    using assms(1) by (auto simp: serverHelloMsg_marshal_def server_extensions_bytes bind_eq_Some_conv)
  let ?tail = "if eb = [] then [] else length_bytes 2 (length eb) @ eb"
  let ?body = "be16 (sh_vers m) @ sh_random m @ length_bytes (Suc 0) (length (sh_sessionId m)) @
    sh_sessionId m @ be16 (sh_cipherSuite m) @ sh_compressionMethod m # ?tail"
  have len: "length (sh_random m) = 32" "length (sh_sessionId m) < 256" "length eb < 65536"
    and data': "data = (typeServerHello # length_bytes 3 (length ?body)) @ ?body"
    using data by (auto simp: server_message_bytes cat_eq_Some split: if_splits)
  let ?m1 = "(serverHelloMsg_zero (Some data))\<lparr>sh_vers := sh_vers m, sh_random := sh_random m,
      sh_sessionId := sh_sessionId m, sh_cipherSuite := sh_cipherSuite m,
      sh_compressionMethod := sh_compressionMethod m\<rparr>"
  have run: "run_exts (server_ext_switch cb) ?m1 (server_ext_list m) = Some (m\<lparr>sh_original := Some data\<rparr>)"
    using eb assms(2) by (intro run_server_exts) simp_all
  have distinct: "distinct (map fst (server_ext_list m))"
    using assms(2) by (intro distinct_server_ext_list) (simp add: canonical_server_def)
  have skip: "Skip cb data 4 = Some ?body"
    unfolding data' by (rule skip_append) simp
  have "serverHelloMsg_unmarshal cb data =
    (if eb = [] then Some ?m1 else ext_loop cb (server_ext_switch cb) ?m1 eb)"
    unfolding serverHelloMsg_unmarshal_def skip Let_def
    by (simp add: len readUint8LengthPrefixed_def ReadBytes)
  also have "\<dots> = run_exts (server_ext_switch cb) ?m1 (server_ext_list m)"
    using eb ext_loop_run [OF eb distinct] by (auto simp: encs_eq_Nil)
  finally show ?thesis using run by simp
qed

lemma encrypted_unmarshal_marshal:
  assumes "encryptedExtensionsMsg_marshal cb m = Some data"
  shows "encryptedExtensionsMsg_unmarshal cb data = Some m"
proof -
  obtain eb where eb: "encs (encrypted_ext_list m) = Some eb" "length eb < 65536"
    and data: "data = (typeEncryptedExtensions # length_bytes 3 (2 + length eb)) @
      (length_bytes 2 (length eb) @ eb)"
    using assms by (auto simp: encrypted_marshal_bytes cat_eq_Some prefixed_eq_Some)
  let ?m0 = "\<lparr>ee_alpnProtocol = [], ee_quicTransportParameters = None, ee_earlyData = False,
    ee_echRetryConfigs = []\<rparr>"
  have parts: "encs (x_alpnProtocol (ee_alpnProtocol m)) \<noteq> None"
    using eb(1) by (auto simp: encrypted_ext_list_def encs_append cat_eq_Some)
  have alpn: "run_exts (encrypted_ext_switch cb) ?m0 (x_alpnProtocol (ee_alpnProtocol m) @ xs) =
      run_exts (encrypted_ext_switch cb) (?m0\<lparr>ee_alpnProtocol := ee_alpnProtocol m\<rparr>) xs" for xs
    using x_alpnProtocol_read [OF parts]
    by (cases "ee_alpnProtocol m = []") (auto simp: encrypted_ext_switch_def x_alpnProtocol_def x_if_def)
  have "run_exts (encrypted_ext_switch cb) ?m0 (encrypted_ext_list m) = Some m"
    unfolding encrypted_ext_list_def alpn
    by (cases m) (auto simp: x_if_def encrypted_ext_switch_def CopyBytes)
  moreover have "encryptedExtensionsMsg_unmarshal cb data =
      ext_loop cb (encrypted_ext_switch cb) ?m0 eb"
    unfolding data encryptedExtensionsMsg_unmarshal_def by (subst skip_append) (simp_all add: eb)
  ultimately show ?thesis using ext_loop_run [OF eb(1) distinct_encrypted_ext_list, of "encrypted_ext_switch cb" ?m0]
    by simp
qed

end

end
