(* ===== verification/Handshake_Messages.thy ===== *)
theory Handshake_Messages
  imports Server_Hello
begin

text \<open>
  The other handshake messages of \<open>src/handshake_messages.go\<close>, the dispatch of
  \<open>unmarshalHandshakeMessage\<close> (\<open>src/conn.go\<close>) and \<open>transcriptMsg\<close>.

  A Go \<open>unmarshal\<close> method that only reads through \<open>cryptobyte\<close> can only fail by returning \<open>false\<close>
  and is a function to an option. The five parsers that index slices by hand (\<open>certificateMsg\<close>,
  \<open>certificateRequestMsg\<close>, \<open>newSessionTicketMsg\<close>, \<open>clientKeyExchangeMsg\<close> and
  \<open>serverKeyExchangeMsg\<close>) have the run-time check of every index and slice bound written out after
  the guards of the code, and return a panic where it fails; that it never does is proved in
  \<open>Handshake_Codec\<close>.
\<close>

subsection \<open>Lengths written by hand\<close>

text \<open>\<open>uint8(n >> 16), uint8(n >> 8), uint8(n)\<close> and \<open>uint8(n >> 8), uint8(n)\<close> for an \<open>int\<close> length.\<close>

definition put24 :: "nat \<Rightarrow> bytes" where
  "put24 n = [of_nat (n div 65536), of_nat (n div 256), of_nat n]"

definition put16 :: "nat \<Rightarrow> bytes" where
  "put16 n = [of_nat (n div 256), of_nat n]"

subsection \<open>Messages without a body\<close>

definition endOfEarlyDataMsg_marshal :: "bytes option" where
  "endOfEarlyDataMsg_marshal = Some [typeEndOfEarlyData, 0, 0, 0]"

definition endOfEarlyDataMsg_unmarshal :: "bytes \<Rightarrow> unit option" where
  "endOfEarlyDataMsg_unmarshal data = guard (length data = 4)"

definition serverHelloDoneMsg_marshal :: "bytes option" where
  "serverHelloDoneMsg_marshal = Some [typeServerHelloDone, 0, 0, 0]"

definition serverHelloDoneMsg_unmarshal :: "bytes \<Rightarrow> unit option" where
  "serverHelloDoneMsg_unmarshal data = guard (length data = 4)"

definition helloRequestMsg_marshal :: "bytes option" where
  "helloRequestMsg_marshal = Some [typeHelloRequest, 0, 0, 0]"

definition helloRequestMsg_unmarshal :: "bytes \<Rightarrow> unit option" where
  "helloRequestMsg_unmarshal data = guard (length data = 4)"

subsection \<open>KeyUpdate\<close>

record keyUpdateMsg =
  ku_updateRequested :: bool

definition keyUpdateMsg_marshal :: "'b cryptobyte \<Rightarrow> keyUpdateMsg \<Rightarrow> bytes option" where
  "keyUpdateMsg_marshal cb m =
     (let b = NewBuilder cb;
          b = AddUint8 cb b typeKeyUpdate;
          b = AddUint24LengthPrefixed cb b (\<lambda>b.
                if ku_updateRequested m then AddUint8 cb b 1 else AddUint8 cb b 0)
      in Bytes cb b)"

definition keyUpdateMsg_unmarshal :: "'b cryptobyte \<Rightarrow> bytes \<Rightarrow> keyUpdateMsg option" where
  "keyUpdateMsg_unmarshal cb data = do {
     s \<leftarrow> Skip cb data 4;
     (updateRequested, s) \<leftarrow> ReadUint8 cb s;
     guard (s = []);
     if updateRequested = 0 then Some \<lparr>ku_updateRequested = False\<rparr>
     else if updateRequested = 1 then Some \<lparr>ku_updateRequested = True\<rparr>
     else None }"

subsection \<open>NewSessionTicket (TLS 1.3)\<close>

record newSessionTicketMsgTLS13 =
  nst_lifetime :: u32
  nst_ageAdd :: u32
  nst_nonce :: bytes
  nst_label :: bytes
  nst_maxEarlyData :: u32

definition newSessionTicketMsgTLS13_marshal :: "'b cryptobyte \<Rightarrow> newSessionTicketMsgTLS13 \<Rightarrow> bytes option" where
  "newSessionTicketMsgTLS13_marshal cb m =
     (let b = NewBuilder cb;
          b = AddUint8 cb b typeNewSessionTicket;
          b = AddUint24LengthPrefixed cb b (\<lambda>b.
            let b = AddUint32 cb b (nst_lifetime m);
                b = AddUint32 cb b (nst_ageAdd m);
                b = AddUint8LengthPrefixed cb b (\<lambda>b. AddBytes cb b (nst_nonce m));
                b = AddUint16LengthPrefixed cb b (\<lambda>b. AddBytes cb b (nst_label m))
            in AddUint16LengthPrefixed cb b (\<lambda>b.
                 if nst_maxEarlyData m > 0 then
                   let b = AddUint16 cb b extensionEarlyData in
                   AddUint16LengthPrefixed cb b (\<lambda>b. AddUint32 cb b (nst_maxEarlyData m))
                 else b))
      in Bytes cb b)"

definition ticket_ext_switch :: "'b cryptobyte \<Rightarrow> u16 \<Rightarrow> bytes \<Rightarrow> newSessionTicketMsgTLS13 \<Rightarrow>
    (newSessionTicketMsgTLS13 \<times> bytes option) option" where
  "ticket_ext_switch cb extension extData m =
    (if extension = extensionEarlyData then do {
       (n, extData) \<leftarrow> ReadUint32 cb extData;
       Some (m\<lparr>nst_maxEarlyData := n\<rparr>, Some extData) }
     else Some (m, None))"

definition newSessionTicketMsgTLS13_unmarshal :: "'b cryptobyte \<Rightarrow> bytes \<Rightarrow> newSessionTicketMsgTLS13 option" where
  "newSessionTicketMsgTLS13_unmarshal cb data = do {
     s \<leftarrow> Skip cb data 4;
     (lifetime, s) \<leftarrow> ReadUint32 cb s;
     (ageAdd, s) \<leftarrow> ReadUint32 cb s;
     (nonce, s) \<leftarrow> readUint8LengthPrefixed cb s;
     (label, s) \<leftarrow> readUint16LengthPrefixed cb s;
     (extensions, s) \<leftarrow> ReadUint16LengthPrefixed cb s;
     guard (s = []);
     for_nonempty (ext_step_dup cb (ticket_ext_switch cb))
       \<lparr>nst_lifetime = lifetime, nst_ageAdd = ageAdd, nst_nonce = nonce, nst_label = label,
        nst_maxEarlyData = 0\<rparr> extensions }"

subsection \<open>CertificateRequest (TLS 1.3)\<close>

record certificateRequestMsgTLS13 =
  cr13_ocspStapling :: bool
  cr13_scts :: bool
  cr13_supportedSignatureAlgorithms :: "u16 list"
  cr13_supportedSignatureAlgorithmsCert :: "u16 list"
  cr13_certificateAuthorities :: "bytes list"

definition certificateRequestMsgTLS13_marshal :: "'b cryptobyte \<Rightarrow> certificateRequestMsgTLS13 \<Rightarrow> bytes option" where
  "certificateRequestMsgTLS13_marshal cb m =
     (let b = NewBuilder cb;
          b = AddUint8 cb b typeCertificateRequest;
          b = AddUint24LengthPrefixed cb b (\<lambda>b.
            let b = AddUint8 cb b 0 in
            AddUint16LengthPrefixed cb b (\<lambda>b.
              let b = add_flag cb (cr13_ocspStapling m) extensionStatusRequest b;
                  b = add_flag cb (cr13_scts m) extensionSCT b;
                  b = add_section cb (length (cr13_supportedSignatureAlgorithms m) > 0)
                        extensionSignatureAlgorithms (\<lambda>b.
                          AddUint16LengthPrefixed cb b (\<lambda>b.
                            fold (\<lambda>sigAlgo b. AddUint16 cb b sigAlgo) (cr13_supportedSignatureAlgorithms m) b)) b;
                  b = add_section cb (length (cr13_supportedSignatureAlgorithmsCert m) > 0)
                        extensionSignatureAlgorithmsCert (\<lambda>b.
                          AddUint16LengthPrefixed cb b (\<lambda>b.
                            fold (\<lambda>sigAlgo b. AddUint16 cb b sigAlgo) (cr13_supportedSignatureAlgorithmsCert m) b)) b
              in add_section cb (length (cr13_certificateAuthorities m) > 0)
                   extensionCertificateAuthorities (\<lambda>b.
                     AddUint16LengthPrefixed cb b (\<lambda>b.
                       fold (\<lambda>ca b. AddUint16LengthPrefixed cb b (\<lambda>b. AddBytes cb b ca))
                         (cr13_certificateAuthorities m) b)) b))
      in Bytes cb b)"

definition request_ext_switch :: "'b cryptobyte \<Rightarrow> u16 \<Rightarrow> bytes \<Rightarrow> certificateRequestMsgTLS13 \<Rightarrow>
    (certificateRequestMsgTLS13 \<times> bytes option) option" where
  "request_ext_switch cb extension extData m =
    (if extension = extensionStatusRequest then
       Some (m\<lparr>cr13_ocspStapling := True\<rparr>, Some extData)
     else if extension = extensionSCT then
       Some (m\<lparr>cr13_scts := True\<rparr>, Some extData)
     else if extension = extensionSignatureAlgorithms then do {
       (sigAndAlgs, extData) \<leftarrow> ReadUint16LengthPrefixed cb extData;
       guard (sigAndAlgs \<noteq> []);
       as \<leftarrow> read_u16s cb (cr13_supportedSignatureAlgorithms m) sigAndAlgs;
       Some (m\<lparr>cr13_supportedSignatureAlgorithms := as\<rparr>, Some extData) }
     else if extension = extensionSignatureAlgorithmsCert then do {
       (sigAndAlgs, extData) \<leftarrow> ReadUint16LengthPrefixed cb extData;
       guard (sigAndAlgs \<noteq> []);
       as \<leftarrow> read_u16s cb (cr13_supportedSignatureAlgorithmsCert m) sigAndAlgs;
       Some (m\<lparr>cr13_supportedSignatureAlgorithmsCert := as\<rparr>, Some extData) }
     else if extension = extensionCertificateAuthorities then do {
       (auths, extData) \<leftarrow> ReadUint16LengthPrefixed cb extData;
       guard (auths \<noteq> []);
       cas \<leftarrow> for_nonempty (nonempty16_step cb) (cr13_certificateAuthorities m) auths;
       Some (m\<lparr>cr13_certificateAuthorities := cas\<rparr>, Some extData) }
     else Some (m, None))"

definition certificateRequestMsgTLS13_unmarshal :: "'b cryptobyte \<Rightarrow> bytes \<Rightarrow> certificateRequestMsgTLS13 option" where
  "certificateRequestMsgTLS13_unmarshal cb data = do {
     s \<leftarrow> Skip cb data 4;
     (context, s) \<leftarrow> ReadUint8LengthPrefixed cb s;
     guard (context = []);
     (extensions, s) \<leftarrow> ReadUint16LengthPrefixed cb s;
     guard (s = []);
     for_nonempty (ext_step_dup cb (request_ext_switch cb))
       \<lparr>cr13_ocspStapling = False, cr13_scts = False, cr13_supportedSignatureAlgorithms = [],
        cr13_supportedSignatureAlgorithmsCert = [], cr13_certificateAuthorities = []\<rparr> extensions }"

subsection \<open>Certificate (up to TLS 1.2)\<close>

definition certificateMsg_marshal :: "bytes list \<Rightarrow> bytes option" where
  "certificateMsg_marshal certificates =
     (let i = sum_list (map length certificates);
          len = 3 + 3 * length certificates + i;
          certificateOctets = len - 3
      in Some (typeCertificate # put24 len @ put24 certificateOctets @
           concat (map (\<lambda>slice. put24 (length slice) @ slice) certificates)))"

text \<open>The first pass checks the lengths and counts, the second cuts the certificates out.\<close>

lemma unat_3_of_be24: "unat (3 + of_be24 a b c) = 3 + unat (of_be24 a b c)"
  using unat_of_be24_less [of a b c] by (simp add: unat_word_ariths)

function count_certs :: "u32 \<Rightarrow> bytes \<Rightarrow> nat \<Rightarrow> nat option may_panic" where
  "count_certs certsLen d numCerts =
     (if certsLen > 0 then
        if length d < 4 then Inr None
        else if length d \<le> 2 then Inl IndexOutOfRange
        else
          let certLen = of_be24 (d ! 0) (d ! 1) (d ! 2) in
          if of_nat (length d) < 3 + certLen then Inr None
          else if length d < unat (3 + certLen) then Inl SliceBounds
          else count_certs (certsLen - (3 + certLen)) (drop (unat (3 + certLen)) d) (numCerts + 1)
      else Inr (Some numCerts))"
  by pat_completeness auto
termination
  by (relation "measure (\<lambda>(_, d, _). length d)") (auto simp: unat_3_of_be24)

declare count_certs.simps [simp del]

fun cut_certs :: "nat \<Rightarrow> bytes \<Rightarrow> bytes list may_panic" where
  "cut_certs 0 d = Inr []"
| "cut_certs (Suc n) d =
     (if length d < 3 then Inl IndexOutOfRange
      else
        let certLen = of_be24 (d ! 0) (d ! 1) (d ! 2) in
        if length d < unat (3 + certLen) then Inl SliceBounds
        else case cut_certs n (drop (unat (3 + certLen)) d) of
               Inl p \<Rightarrow> Inl p
             | Inr cs \<Rightarrow> Inr (take (unat certLen) (drop 3 d) # cs))"

definition certificateMsg_unmarshal :: "bytes \<Rightarrow> bytes list option may_panic" where
  "certificateMsg_unmarshal data =
     (if length data < 7 then Inr None
      else if length data \<le> 6 then Inl IndexOutOfRange
      else
        let certsLen = of_be24 (data ! 4) (data ! 5) (data ! 6) in
        if of_nat (length data) \<noteq> certsLen + 7 then Inr None
        else if length data < 7 then Inl SliceBounds
        else case count_certs certsLen (drop 7 data) 0 of
               Inl p \<Rightarrow> Inl p
             | Inr None \<Rightarrow> Inr None
             | Inr (Some numCerts) \<Rightarrow> map_sum id Some (cut_certs numCerts (drop 7 data)))"

subsection \<open>Certificate (TLS 1.3)\<close>

text \<open>The fields of \<open>Certificate\<close> that are sent; \<open>nil\<close> slices are told from empty ones.\<close>

record Certificate =
  cert_Certificate :: "bytes list"
  cert_OCSPStaple :: "bytes option"
  cert_SignedCertificateTimestamps :: "bytes list option"

record certificateMsgTLS13 =
  c13_certificate :: Certificate
  c13_ocspStapling :: bool
  c13_scts :: bool

definition leaf_extensions :: "'b cryptobyte \<Rightarrow> Certificate \<Rightarrow> 'b \<Rightarrow> 'b" where
  "leaf_extensions cb certificate b =
     (let b = (case cert_OCSPStaple certificate of
                 Some staple \<Rightarrow> add_section cb True extensionStatusRequest (\<lambda>b.
                   let b = AddUint8 cb b statusTypeOCSP in
                   AddUint24LengthPrefixed cb b (\<lambda>b. AddBytes cb b staple)) b
               | None \<Rightarrow> b)
      in case cert_SignedCertificateTimestamps certificate of
           Some scts \<Rightarrow> add_section cb True extensionSCT (\<lambda>b.
             AddUint16LengthPrefixed cb b (\<lambda>b.
               fold (\<lambda>sct b. AddUint16LengthPrefixed cb b (\<lambda>b. AddBytes cb b sct)) scts b)) b
         | None \<Rightarrow> b)"

definition marshalCertificate :: "'b cryptobyte \<Rightarrow> 'b \<Rightarrow> Certificate \<Rightarrow> 'b" where
  "marshalCertificate cb b certificate =
     AddUint24LengthPrefixed cb b (\<lambda>b.
       fold (\<lambda>(i, cert) b.
           let b = AddUint24LengthPrefixed cb b (\<lambda>b. AddBytes cb b cert) in
           AddUint16LengthPrefixed cb b (\<lambda>b.
             if i > 0 then b else leaf_extensions cb certificate b))
         (enumerate 0 (cert_Certificate certificate)) b)"

definition certificateMsgTLS13_marshal :: "'b cryptobyte \<Rightarrow> certificateMsgTLS13 \<Rightarrow> bytes option" where
  "certificateMsgTLS13_marshal cb m =
     (let b = NewBuilder cb;
          b = AddUint8 cb b typeCertificate;
          b = AddUint24LengthPrefixed cb b (\<lambda>b.
            let b = AddUint8 cb b 0;
                certificate = c13_certificate m;
                certificate = (if \<not> c13_ocspStapling m then certificate\<lparr>cert_OCSPStaple := None\<rparr> else certificate);
                certificate = (if \<not> c13_scts m then certificate\<lparr>cert_SignedCertificateTimestamps := None\<rparr>
                               else certificate)
            in marshalCertificate cb b certificate)
      in Bytes cb b)"

definition certificate_ext_switch :: "'b cryptobyte \<Rightarrow> u16 \<Rightarrow> bytes \<Rightarrow> Certificate \<Rightarrow>
    (Certificate \<times> bytes option) option" where
  "certificate_ext_switch cb extension extData certificate =
    (if length (cert_Certificate certificate) > 1 then Some (certificate, None)
     else if extension = extensionStatusRequest then do {
       (statusType, extData) \<leftarrow> ReadUint8 cb extData;
       guard (statusType = statusTypeOCSP);
       (staple, extData) \<leftarrow> readUint24LengthPrefixed cb extData;
       guard (length staple \<noteq> 0);
       Some (certificate\<lparr>cert_OCSPStaple := Some staple\<rparr>, Some extData) }
     else if extension = extensionSCT then do {
       (sctList, extData) \<leftarrow> ReadUint16LengthPrefixed cb extData;
       guard (sctList \<noteq> []);
       scts \<leftarrow> for_nonempty (nonempty16_step cb)
                (case cert_SignedCertificateTimestamps certificate of Some scts \<Rightarrow> scts | None \<Rightarrow> []) sctList;
       Some (certificate\<lparr>cert_SignedCertificateTimestamps := Some scts\<rparr>, Some extData) }
     else Some (certificate, None))"

definition certificate_step :: "'b cryptobyte \<Rightarrow> Certificate \<Rightarrow> bytes \<Rightarrow> (Certificate \<times> bytes) option" where
  "certificate_step cb certificate certList = do {
     (cert, certList) \<leftarrow> readUint24LengthPrefixed cb certList;
     (extensions, certList) \<leftarrow> ReadUint16LengthPrefixed cb certList;
     certificate \<leftarrow> for_nonempty (ext_step_dup cb (certificate_ext_switch cb))
       (certificate\<lparr>cert_Certificate := cert_Certificate certificate @ [cert]\<rparr>) extensions;
     Some (certificate, certList) }"

definition unmarshalCertificate :: "'b cryptobyte \<Rightarrow> bytes \<Rightarrow> Certificate \<Rightarrow> (Certificate \<times> bytes) option" where
  "unmarshalCertificate cb s certificate = do {
     (certList, s) \<leftarrow> ReadUint24LengthPrefixed cb s;
     certificate \<leftarrow> for_nonempty (certificate_step cb) certificate certList;
     Some (certificate, s) }"

definition certificateMsgTLS13_unmarshal :: "'b cryptobyte \<Rightarrow> bytes \<Rightarrow> certificateMsgTLS13 option" where
  "certificateMsgTLS13_unmarshal cb data = do {
     s \<leftarrow> Skip cb data 4;
     (context, s) \<leftarrow> ReadUint8LengthPrefixed cb s;
     guard (context = []);
     (certificate, s) \<leftarrow> unmarshalCertificate cb s
       \<lparr>cert_Certificate = [], cert_OCSPStaple = None, cert_SignedCertificateTimestamps = None\<rparr>;
     guard (s = []);
     Some \<lparr>c13_certificate = certificate,
           c13_ocspStapling = (cert_OCSPStaple certificate \<noteq> None),
           c13_scts = (cert_SignedCertificateTimestamps certificate \<noteq> None)\<rparr> }"

subsection \<open>Key exchange and certificate status\<close>

definition serverKeyExchangeMsg_marshal :: "bytes \<Rightarrow> bytes option" where
  "serverKeyExchangeMsg_marshal key = Some (typeServerKeyExchange # put24 (length key) @ key)"

definition serverKeyExchangeMsg_unmarshal :: "bytes \<Rightarrow> bytes option may_panic" where
  "serverKeyExchangeMsg_unmarshal data =
     (if length data < 4 then Inr None
      else if length data < 4 then Inl SliceBounds
      else Inr (Some (drop 4 data)))"

definition certificateStatusMsg_marshal :: "'b cryptobyte \<Rightarrow> bytes \<Rightarrow> bytes option" where
  "certificateStatusMsg_marshal cb response =
     (let b = NewBuilder cb;
          b = AddUint8 cb b typeCertificateStatus;
          b = AddUint24LengthPrefixed cb b (\<lambda>b.
            let b = AddUint8 cb b statusTypeOCSP in
            AddUint24LengthPrefixed cb b (\<lambda>b. AddBytes cb b response))
      in Bytes cb b)"

definition certificateStatusMsg_unmarshal :: "'b cryptobyte \<Rightarrow> bytes \<Rightarrow> bytes option" where
  "certificateStatusMsg_unmarshal cb data = do {
     s \<leftarrow> Skip cb data 4;
     (statusType, s) \<leftarrow> ReadUint8 cb s;
     guard (statusType = statusTypeOCSP);
     (response, s) \<leftarrow> readUint24LengthPrefixed cb s;
     guard (length response \<noteq> 0 \<and> s = []);
     Some response }"

definition clientKeyExchangeMsg_marshal :: "bytes \<Rightarrow> bytes option" where
  "clientKeyExchangeMsg_marshal ciphertext =
     Some (typeClientKeyExchange # put24 (length ciphertext) @ ciphertext)"

definition clientKeyExchangeMsg_unmarshal :: "bytes \<Rightarrow> bytes option may_panic" where
  "clientKeyExchangeMsg_unmarshal data =
     (if length data < 4 then Inr None
      else if length data \<le> 3 then Inl IndexOutOfRange
      else
        let l = unat (of_be24 (data ! 1) (data ! 2) (data ! 3)) in
        if int l \<noteq> int (length data) - 4 then Inr None
        else if length data < 4 then Inl SliceBounds
        else Inr (Some (drop 4 data)))"

subsection \<open>Finished\<close>

definition finishedMsg_marshal :: "'b cryptobyte \<Rightarrow> bytes \<Rightarrow> bytes option" where
  "finishedMsg_marshal cb verifyData =
     (let b = NewBuilder cb;
          b = AddUint8 cb b typeFinished;
          b = AddUint24LengthPrefixed cb b (\<lambda>b. AddBytes cb b verifyData)
      in Bytes cb b)"

definition finishedMsg_unmarshal :: "'b cryptobyte \<Rightarrow> bytes \<Rightarrow> bytes option" where
  "finishedMsg_unmarshal cb data = do {
     s \<leftarrow> Skip cb data 1;
     (verifyData, s) \<leftarrow> readUint24LengthPrefixed cb s;
     guard (s = []);
     Some verifyData }"

subsection \<open>CertificateRequest (up to TLS 1.2)\<close>

record certificateRequestMsg =
  cr_hasSignatureAlgorithm :: bool
  cr_certificateTypes :: bytes
  cr_supportedSignatureAlgorithms :: "u16 list"
  cr_certificateAuthorities :: "bytes list"

definition certificateRequestMsg_marshal :: "certificateRequestMsg \<Rightarrow> bytes option" where
  "certificateRequestMsg_marshal m =
     (let len = 1 + length (cr_certificateTypes m) + 2;
          casLength = sum_list (map (\<lambda>ca. 2 + length ca) (cr_certificateAuthorities m));
          len = len + casLength;
          len = (if cr_hasSignatureAlgorithm m
                 then len + 2 + 2 * length (cr_supportedSignatureAlgorithms m) else len)
      in Some (typeCertificateRequest # put24 len @
           of_nat (length (cr_certificateTypes m)) # cr_certificateTypes m @
           (if cr_hasSignatureAlgorithm m then
              put16 (length (cr_supportedSignatureAlgorithms m) * 2) @
              concat (map be16 (cr_supportedSignatureAlgorithms m))
            else []) @
           put16 casLength @
           concat (map (\<lambda>ca. put16 (length ca) @ ca) (cr_certificateAuthorities m))))"

fun take_sigalgs :: "nat \<Rightarrow> bytes \<Rightarrow> (u16 list \<times> bytes) may_panic" where
  "take_sigalgs 0 data = Inr ([], data)"
| "take_sigalgs (Suc n) data =
     (case data of
        a # b # rest \<Rightarrow> map_sum id (\<lambda>(as, rest). (of_be16 a b # as, rest)) (take_sigalgs n rest)
      | _ \<Rightarrow> Inl IndexOutOfRange)"

function split_cas :: "bytes \<Rightarrow> bytes list option may_panic" where
  "split_cas cas =
     (if length cas > 0 then
        if length cas < 2 then Inr None
        else if length cas \<le> 1 then Inl IndexOutOfRange
        else
          let caLen = unat (of_be16 (cas ! 0) (cas ! 1));
              cas = drop 2 cas
          in if length cas < caLen then Inr None
             else if length cas < caLen then Inl SliceBounds
             else map_sum id (map_option ((#) (take caLen cas))) (split_cas (drop caLen cas))
      else Inr (Some []))"
  by pat_completeness auto
termination
  by (relation "measure length") auto

declare split_cas.simps [simp del]

definition read_authorities :: "certificateRequestMsg \<Rightarrow> bytes \<Rightarrow> certificateRequestMsg option may_panic" where
  "read_authorities m data =
     (if length data < 2 then Inr None
      else if length data \<le> 1 then Inl IndexOutOfRange
      else
        let casLength = unat (of_be16 (data ! 0) (data ! 1));
            data = drop 2 data
        in if length data < casLength then Inr None
           else if length data < casLength then Inl SliceBounds
           else
             let cas = take casLength data;
                 data = drop casLength data
             in map_sum id (\<lambda>r. Option.bind r (\<lambda>authorities.
                  if length data = 0 then Some (m\<lparr>cr_certificateAuthorities := authorities\<rparr>) else None))
                  (split_cas cas))"

definition read_sigalgs :: "certificateRequestMsg \<Rightarrow> bytes \<Rightarrow> certificateRequestMsg option may_panic" where
  "read_sigalgs m data =
     (if cr_hasSignatureAlgorithm m then
        if length data < 2 then Inr None
        else if length data \<le> 1 then Inl IndexOutOfRange
        else
          let sigAndHashLen = of_be16 (data ! 0) (data ! 1);
              data = drop 2 data
          in if sigAndHashLen AND 1 \<noteq> 0 \<or> sigAndHashLen = 0 then Inr None
             else if length data < unat sigAndHashLen then Inr None
             else (case take_sigalgs (unat (sigAndHashLen div 2)) data of
                     Inl p \<Rightarrow> Inl p
                   | Inr (as, data) \<Rightarrow> read_authorities (m\<lparr>cr_supportedSignatureAlgorithms := as\<rparr>) data)
      else read_authorities m data)"

text \<open>\<open>copy\<close> into the certificate types, a slice of \<open>numCertTypes\<close> bytes, cannot copy more than there are.\<close>

definition certificateRequestMsg_unmarshal :: "certificateRequestMsg \<Rightarrow> bytes \<Rightarrow> certificateRequestMsg option may_panic" where
  "certificateRequestMsg_unmarshal m data =
     (if length data < 5 then Inr None
      else if length data \<le> 4 then Inl IndexOutOfRange
      else
        let len = of_be24 (data ! 1) (data ! 2) (data ! 3) in
        if of_nat (length data) - 4 \<noteq> len then Inr None
        else
          let numCertTypes = unat (data ! 4);
              data = drop 5 data
          in if numCertTypes = 0 \<or> length data \<le> numCertTypes then Inr None
             else if min numCertTypes (length data) \<noteq> numCertTypes then Inr None
             else if length data < numCertTypes then Inl SliceBounds
             else read_sigalgs (m\<lparr>cr_certificateTypes := take numCertTypes data\<rparr>) (drop numCertTypes data))"

subsection \<open>CertificateVerify\<close>

record certificateVerifyMsg =
  cv_hasSignatureAlgorithm :: bool
  cv_signatureAlgorithm :: u16
  cv_signature :: bytes

definition certificateVerifyMsg_marshal :: "'b cryptobyte \<Rightarrow> certificateVerifyMsg \<Rightarrow> bytes option" where
  "certificateVerifyMsg_marshal cb m =
     (let b = NewBuilder cb;
          b = AddUint8 cb b typeCertificateVerify;
          b = AddUint24LengthPrefixed cb b (\<lambda>b.
            let b = (if cv_hasSignatureAlgorithm m then AddUint16 cb b (cv_signatureAlgorithm m) else b)
            in AddUint16LengthPrefixed cb b (\<lambda>b. AddBytes cb b (cv_signature m)))
      in Bytes cb b)"

definition certificateVerifyMsg_unmarshal ::
    "'b cryptobyte \<Rightarrow> certificateVerifyMsg \<Rightarrow> bytes \<Rightarrow> certificateVerifyMsg option" where
  "certificateVerifyMsg_unmarshal cb m data = do {
     s \<leftarrow> Skip cb data 4;
     (m, s) \<leftarrow> (if cv_hasSignatureAlgorithm m then do {
                  (alg, s) \<leftarrow> ReadUint16 cb s;
                  Some (m\<lparr>cv_signatureAlgorithm := alg\<rparr>, s) }
                else Some (m, s));
     (signature, s) \<leftarrow> readUint16LengthPrefixed cb s;
     guard (s = []);
     Some (m\<lparr>cv_signature := signature\<rparr>) }"

subsection \<open>NewSessionTicket (up to TLS 1.2)\<close>

definition newSessionTicketMsg_marshal :: "bytes \<Rightarrow> bytes option" where
  "newSessionTicketMsg_marshal ticket =
     (let ticketLen = length ticket;
          len = 2 + 4 + ticketLen
      in Some (typeNewSessionTicket # put24 len @ [0, 0, 0, 0] @ put16 ticketLen @ ticket))"

definition newSessionTicketMsg_unmarshal :: "bytes \<Rightarrow> bytes option may_panic" where
  "newSessionTicketMsg_unmarshal data =
     (if length data < 10 then Inr None
      else if length data \<le> 3 then Inl IndexOutOfRange
      else
        let len = of_be24 (data ! 1) (data ! 2) (data ! 3) in
        if of_nat (length data) - 4 \<noteq> len then Inr None
        else if length data \<le> 9 then Inl IndexOutOfRange
        else
          let ticketLen = unat (data ! 8) * 256 + unat (data ! 9) in
          if int (length data) - 10 \<noteq> int ticketLen then Inr None
          else if length data < 10 then Inl SliceBounds
          else Inr (Some (drop 10 data)))"

end
