(* ===== verification/Handshake_Codec.thy ===== *)
theory Handshake_Codec
  imports Handshake_Messages
begin

text \<open>
  The handshake messages as one type: \<open>msg_marshal\<close> writes any of them,
  \<open>unmarshalHandshakeMessage\<close> (\<open>src/conn.go\<close>) reads one according to its type byte and the
  negotiated version, \<open>transcriptMsg\<close> adds one to the transcript. The theorems are the round
  trip for every message, and that no bytes make the parsers panic.
\<close>




datatype handshakeMessage =
    HelloRequest
  | ClientHello clientHelloMsg
  | ServerHello serverHelloMsg
  | NewSessionTicketTLS13 newSessionTicketMsgTLS13
  | NewSessionTicket bytes
  | CertificateTLS13 certificateMsgTLS13
  | CertificateMsg "bytes list"
  | CertificateRequestTLS13 certificateRequestMsgTLS13
  | CertificateRequest certificateRequestMsg
  | CertificateStatus bytes
  | ServerKeyExchange bytes
  | ServerHelloDone
  | ClientKeyExchange bytes
  | CertificateVerify certificateVerifyMsg
  | Finished bytes
  | EncryptedExtensions encryptedExtensionsMsg
  | EndOfEarlyData
  | KeyUpdate keyUpdateMsg

fun msg_marshal :: "'b cryptobyte \<Rightarrow> handshakeMessage \<Rightarrow> bytes option" where
  "msg_marshal cb HelloRequest = helloRequestMsg_marshal"
| "msg_marshal cb (ClientHello m) = clientHelloMsg_marshal cb m"
| "msg_marshal cb (ServerHello m) = serverHelloMsg_marshal cb m"
| "msg_marshal cb (NewSessionTicketTLS13 m) = newSessionTicketMsgTLS13_marshal cb m"
| "msg_marshal cb (NewSessionTicket ticket) = newSessionTicketMsg_marshal ticket"
| "msg_marshal cb (CertificateTLS13 m) = certificateMsgTLS13_marshal cb m"
| "msg_marshal cb (CertificateMsg certificates) = certificateMsg_marshal certificates"
| "msg_marshal cb (CertificateRequestTLS13 m) = certificateRequestMsgTLS13_marshal cb m"
| "msg_marshal cb (CertificateRequest m) = certificateRequestMsg_marshal m"
| "msg_marshal cb (CertificateStatus response) = certificateStatusMsg_marshal cb response"
| "msg_marshal cb (ServerKeyExchange key) = serverKeyExchangeMsg_marshal key"
| "msg_marshal cb ServerHelloDone = serverHelloDoneMsg_marshal"
| "msg_marshal cb (ClientKeyExchange ciphertext) = clientKeyExchangeMsg_marshal ciphertext"
| "msg_marshal cb (CertificateVerify m) = certificateVerifyMsg_marshal cb m"
| "msg_marshal cb (Finished verifyData) = finishedMsg_marshal cb verifyData"
| "msg_marshal cb (EncryptedExtensions m) = encryptedExtensionsMsg_marshal cb m"
| "msg_marshal cb EndOfEarlyData = endOfEarlyDataMsg_marshal"
| "msg_marshal cb (KeyUpdate m) = keyUpdateMsg_marshal cb m"

text \<open>The \<open>originalBytes\<close> method, which only the two hello messages have.\<close>

fun msg_originalBytes :: "handshakeMessage \<Rightarrow> bytes option" where
  "msg_originalBytes (ClientHello m) = clientHelloMsg_originalBytes m"
| "msg_originalBytes (ServerHello m) = serverHelloMsg_originalBytes m"
| "msg_originalBytes _ = None"

text \<open>
  The transcript is the sequence of bytes written to the hash; a marshalling error leaves
  it as it was.
\<close>

definition transcriptMsg :: "'b cryptobyte \<Rightarrow> handshakeMessage \<Rightarrow> bytes \<Rightarrow> bytes option" where
  "transcriptMsg cb msg h =
     (case msg_originalBytes msg of
        Some orig \<Rightarrow> Some (h @ orig)
      | None \<Rightarrow> (case msg_marshal cb msg of None \<Rightarrow> None | Some data \<Rightarrow> Some (h @ data)))"

text \<open>The switch of \<open>unmarshalHandshakeMessage\<close>: \<open>None\<close> is an unknown type, \<open>Some None\<close> a decode error.\<close>

definition decode :: "'b cryptobyte \<Rightarrow> u16 \<Rightarrow> u8 \<Rightarrow> bytes \<Rightarrow> handshakeMessage option option may_panic" where
  "decode cb vers typ data =
    (if typ = typeHelloRequest then Inr (Some (map_option (\<lambda>_. HelloRequest) (helloRequestMsg_unmarshal data)))
     else if typ = typeClientHello then Inr (Some (map_option ClientHello (clientHelloMsg_unmarshal cb data)))
     else if typ = typeServerHello then Inr (Some (map_option ServerHello (serverHelloMsg_unmarshal cb data)))
     else if typ = typeNewSessionTicket then
       (if vers = VersionTLS13
        then Inr (Some (map_option NewSessionTicketTLS13 (newSessionTicketMsgTLS13_unmarshal cb data)))
        else map_sum id (\<lambda>r. Some (map_option NewSessionTicket r)) (newSessionTicketMsg_unmarshal data))
     else if typ = typeCertificate then
       (if vers = VersionTLS13
        then Inr (Some (map_option CertificateTLS13 (certificateMsgTLS13_unmarshal cb data)))
        else map_sum id (\<lambda>r. Some (map_option CertificateMsg r)) (certificateMsg_unmarshal data))
     else if typ = typeCertificateRequest then
       (if vers = VersionTLS13
        then Inr (Some (map_option CertificateRequestTLS13 (certificateRequestMsgTLS13_unmarshal cb data)))
        else map_sum id (\<lambda>r. Some (map_option CertificateRequest r))
               (certificateRequestMsg_unmarshal
                 \<lparr>cr_hasSignatureAlgorithm = (vers \<ge> VersionTLS12), cr_certificateTypes = [],
                  cr_supportedSignatureAlgorithms = [], cr_certificateAuthorities = []\<rparr> data))
     else if typ = typeCertificateStatus then
       Inr (Some (map_option CertificateStatus (certificateStatusMsg_unmarshal cb data)))
     else if typ = typeServerKeyExchange then
       map_sum id (\<lambda>r. Some (map_option ServerKeyExchange r)) (serverKeyExchangeMsg_unmarshal data)
     else if typ = typeServerHelloDone then
       Inr (Some (map_option (\<lambda>_. ServerHelloDone) (serverHelloDoneMsg_unmarshal data)))
     else if typ = typeClientKeyExchange then
       map_sum id (\<lambda>r. Some (map_option ClientKeyExchange r)) (clientKeyExchangeMsg_unmarshal data)
     else if typ = typeCertificateVerify then
       Inr (Some (map_option CertificateVerify (certificateVerifyMsg_unmarshal cb
         \<lparr>cv_hasSignatureAlgorithm = (vers \<ge> VersionTLS12), cv_signatureAlgorithm = 0,
          cv_signature = []\<rparr> data)))
     else if typ = typeFinished then Inr (Some (map_option Finished (finishedMsg_unmarshal cb data)))
     else if typ = typeEncryptedExtensions then
       Inr (Some (map_option EncryptedExtensions (encryptedExtensionsMsg_unmarshal cb data)))
     else if typ = typeEndOfEarlyData then
       Inr (Some (map_option (\<lambda>_. EndOfEarlyData) (endOfEarlyDataMsg_unmarshal data)))
     else if typ = typeKeyUpdate then Inr (Some (map_option KeyUpdate (keyUpdateMsg_unmarshal cb data)))
     else Inr None)"

text \<open>
  The result is the alert that is sent and recorded as the connection's error, or the
  message and the transcript (absent when the caller passes \<open>nil\<close>) with the data written to
  it.
\<close>

definition unmarshalHandshakeMessage :: "'b cryptobyte \<Rightarrow> u16 \<Rightarrow> bytes \<Rightarrow> bytes option \<Rightarrow>
    (u8 + handshakeMessage \<times> bytes option) may_panic" where
  "unmarshalHandshakeMessage cb vers data transcript =
     (if data = [] then Inl IndexOutOfRange
      else case decode cb vers (data ! 0) data of
             Inl p \<Rightarrow> Inl p
           | Inr None \<Rightarrow> Inr (Inl alertUnexpectedMessage)
           | Inr (Some None) \<Rightarrow> Inr (Inl alertDecodeError)
           | Inr (Some (Some m)) \<Rightarrow> Inr (Inr (m, map_option (\<lambda>h. h @ data) transcript)))"

subsection \<open>No panics\<close>

lemma of_nat_u32_le: "unat (of_nat n :: u32) \<le> n"
  by (simp add: unat_of_nat take_bit_nat_less_eq_self)

lemma count_certs_step:
  "0 < certsLen \<Longrightarrow> 4 \<le> length d \<Longrightarrow> l = of_be24 (d ! 0) (d ! 1) (d ! 2) \<Longrightarrow>
    \<not> of_nat (length d) < 3 + l \<Longrightarrow> unat (3 + l) \<le> length d \<Longrightarrow>
    count_certs certsLen d k = count_certs (certsLen - (3 + l)) (drop (unat (3 + l)) d) (k + 1)"
  by (subst count_certs.simps) (simp add: Let_def)

lemma count_certs_spec:
  "\<exists>r. count_certs certsLen d numCerts = Inr r \<and>
    (\<forall>n. r = Some n \<longrightarrow> numCerts \<le> n \<and> (\<exists>cs. cut_certs (n - numCerts) d = Inr cs))"
proof (induction certsLen d numCerts rule: count_certs.induct)
  case (1 certsLen d numCerts)
  let ?L = "of_be24 (d ! 0) (d ! 1) (d ! 2)"
  show ?case
  proof (cases "certsLen > 0 \<and> 4 \<le> length d \<and> \<not> of_nat (length d) < 3 + ?L")
    case True
    then have fits: "unat (3 + ?L) \<le> length d"
      using of_nat_u32_le [of "length d"] by (simp add: word_less_nat_alt)
    have len: "length d \<ge> 4" using True by blast
    have step: "count_certs certsLen d numCerts =
        count_certs (certsLen - (3 + ?L)) (drop (unat (3 + ?L)) d) (numCerts + 1)"
      using True fits by (intro count_certs_step) simp_all
    obtain r where r: "count_certs (certsLen - (3 + ?L)) (drop (unat (3 + ?L)) d) (numCerts + 1) = Inr r"
      and cut: "\<forall>n. r = Some n \<longrightarrow> numCerts + 1 \<le> n \<and>
        (\<exists>cs. cut_certs (n - (numCerts + 1)) (drop (unat (3 + ?L)) d) = Inr cs)"
      using "1.IH" [of ?L] True fits by auto
    have "numCerts \<le> n \<and> (\<exists>cs. cut_certs (n - numCerts) d = Inr cs)" if rn: "r = Some n" for n
    proof -
      obtain cs where n: "numCerts + 1 \<le> n"
        and cs: "cut_certs (n - (numCerts + 1)) (drop (unat (3 + ?L)) d) = Inr cs"
        using cut rn by blast
      have "n - numCerts = Suc (n - (numCerts + 1))" using n by simp
      then have "cut_certs (n - numCerts) d = Inr (take (unat ?L) (drop 3 d) # cs)"
        using cs fits len by (simp add: Let_def)
      with n show ?thesis by simp
    qed
    then show ?thesis using step r by auto
  next
    case False
    then show ?thesis by (subst count_certs.simps) (auto simp: Let_def)
  qed
qed

lemma take_sigalgs_ok: "2 * n \<le> length data \<Longrightarrow> \<exists>r. take_sigalgs n data = Inr r"
proof (induction n arbitrary: data)
  case (Suc n)
  then obtain a b rest where data: "data = a # b # rest" by (cases data; cases "tl data") auto
  then have "2 * n \<le> length rest" using Suc.prems by simp
  then obtain r where "take_sigalgs n rest = Inr r" using Suc.IH by blast
  then show ?case using data by simp
qed simp

lemma certificateMsg_no_panic: "certificateMsg_unmarshal data \<noteq> Inl p"
  using count_certs_spec [of "of_be24 (data ! 4) (data ! 5) (data ! 6)" "drop 7 data" 0]
  by (auto simp: certificateMsg_unmarshal_def Let_def split: option.splits)

lemma map_sum_Inl: "map_sum id f x = Inl p \<longleftrightarrow> x = Inl p"
  by (cases x) simp_all

lemma split_cas_no_panic: "split_cas cas \<noteq> Inl p"
  by (induction cas rule: split_cas.induct) (subst split_cas.simps, simp add: Let_def map_sum_Inl)

lemma read_authorities_no_panic: "read_authorities m data \<noteq> Inl p"
  by (simp add: read_authorities_def Let_def map_sum_Inl split_cas_no_panic)

lemma certificateRequestMsg_no_panic: "certificateRequestMsg_unmarshal m data \<noteq> Inl p"
proof -
  have "2 * unat (v div 2) \<le> unat v" for v :: u16
    by (simp add: unat_div_distrib)
  then have "\<exists>r. take_sigalgs (unat (v div 2)) d = Inr r" if "unat v \<le> length d" for v :: u16 and d
    using that take_sigalgs_ok [of "unat (v div 2)" d] le_trans by blast
  then have "read_sigalgs m' d \<noteq> Inl p" for m' d
    unfolding read_sigalgs_def Let_def using read_authorities_no_panic
    by (auto split: sum.splits) (metis Inl_Inr_False not_less length_drop)
  then show ?thesis by (simp add: certificateRequestMsg_unmarshal_def Let_def)
qed

lemma key_exchange_no_panic:
  "newSessionTicketMsg_unmarshal data \<noteq> Inl p" "clientKeyExchangeMsg_unmarshal data \<noteq> Inl p"
  "serverKeyExchangeMsg_unmarshal data \<noteq> Inl p"
  by (simp_all add: newSessionTicketMsg_unmarshal_def clientKeyExchangeMsg_unmarshal_def
      serverKeyExchangeMsg_unmarshal_def Let_def)

lemma decode_no_panic: "decode cb vers typ data \<noteq> Inl p"
  by (simp add: decode_def map_sum_Inl certificateMsg_no_panic certificateRequestMsg_no_panic key_exchange_no_panic)

subsection \<open>Round trips\<close>

lemma unat_byte: "unat (of_nat n :: u8) = n mod 256"
  by (simp add: unat_of_nat take_bit_eq_mod)

lemma put24_read:
  assumes "n < 16777216"
  shows "unat (of_be24 (of_nat (n div 65536)) (of_nat (n div 256)) (of_nat n)) = n"
proof -
  have "n div 65536 < 256" using assms by (simp add: less_mult_imp_div_less)
  then have a: "n div 65536 mod 256 = n div 65536" by simp
  have b: "n div 256 = n div 65536 * 256 + n div 256 mod 256"
    using div_mult_mod_eq [of "n div 256" 256] by (simp add: div_mult2_eq [symmetric] mult.commute)
  have c: "n = n div 256 * 256 + n mod 256" by simp
  show ?thesis unfolding unat_of_be24 unat_byte a using b c by linarith
qed

lemma put16_read:
  assumes "n < 65536"
  shows "unat (of_be16 (of_nat (n div 256)) (of_nat n)) = n"
proof -
  have "n div 256 < 256" using assms by (simp add: less_mult_imp_div_less)
  then show ?thesis unfolding unat_of_be16 unat_byte by simp
qed

lemma word_of_unat: "unat (v :: 'a :: len word) = n \<Longrightarrow> v = of_nat n"
  by auto

lemma body_length: "unat v = n \<Longrightarrow> length data = n + 4 \<Longrightarrow> of_nat (length data) - 4 = (v :: u32)"
  by auto

lemma newSessionTicketMsg_roundtrip:
  assumes "newSessionTicketMsg_marshal ticket = Some data" and "length ticket < 65536"
  shows "newSessionTicketMsg_unmarshal data = Inr (Some ticket)"
proof -
  let ?n = "6 + length ticket"
  let ?l = "of_be24 (of_nat (?n div 65536)) (of_nat (?n div 256)) (of_nat ?n)"
  have data: "data = typeNewSessionTicket # put24 ?n @ [0, 0, 0, 0] @ put16 (length ticket) @ ticket"
    using assms(1) by (simp add: newSessionTicketMsg_marshal_def Let_def)
  have "unat ?l = ?n" using assms(2) by (intro put24_read) simp
  then have "of_nat (length data) - 4 = ?l"
    by (rule body_length) (simp add: data put24_def put16_def)
  moreover have "unat (of_nat (length ticket div 256) :: u8) * 256 + unat (of_nat (length ticket) :: u8) =
      length ticket"
    using put16_read [OF assms(2)] unfolding unat_of_be16 .
  ultimately show ?thesis
    by (simp add: newSessionTicketMsg_unmarshal_def data put24_def put16_def Let_def)
qed

lemma clientKeyExchangeMsg_roundtrip:
  assumes "clientKeyExchangeMsg_marshal ciphertext = Some data" and "length ciphertext < 16777216"
  shows "clientKeyExchangeMsg_unmarshal data = Inr (Some ciphertext)"
  using assms arg_cong [OF put24_read [OF assms(2)], of int]
  by (auto simp: clientKeyExchangeMsg_marshal_def clientKeyExchangeMsg_unmarshal_def put24_def)

text \<open>Certificates: the counting pass and the cutting pass over the encoded list.\<close>

abbreviation (input) enc_cert :: "bytes \<Rightarrow> bytes" where
  "enc_cert c \<equiv> put24 (length c) @ c"

lemma drop_3 [simp]: "drop (3 + k) (a # b # c # xs) = drop k xs" "drop 3 (a # b # c # xs) = xs"
  by (simp_all add: numeral_3_eq_3)

lemma cut_certs_concat:
  "\<forall>c \<in> set cs. length c < 16777216 \<Longrightarrow> cut_certs (length cs) (concat (map enc_cert cs)) = Inr cs"
proof (induction cs)
  case (Cons c cs)
  then have "unat (of_be24 (of_nat (length c div 65536)) (of_nat (length c div 256)) (of_nat (length c))) = length c"
    by (intro put24_read) simp
  with Cons show ?case
    by (simp add: put24_def Let_def unat_3_of_be24)
qed simp

lemma count_certs_concat:
  assumes "L = length (concat (map enc_cert cs))" and "L < 16777216" and "cs \<noteq> [] \<longrightarrow> last cs \<noteq> []"
  shows "count_certs (of_nat L) (concat (map enc_cert cs)) k = Inr (Some (k + length cs))"
  using assms
proof (induction cs arbitrary: k L)
  case Nil
  then show ?case by (subst count_certs.simps) simp
next
  case (Cons c cs)
  let ?rest = "concat (map enc_cert cs)"
  let ?d = "put24 (length c) @ c @ ?rest"
  let ?l = "of_be24 (?d ! 0) (?d ! 1) (?d ! 2)"
  have L: "L = 3 + length c + length ?rest" using Cons.prems(1) by (simp add: put24_def)
  have l: "unat ?l = length c"
    using put24_read [of "length c"] L Cons.prems(2) by (simp add: put24_def)
  have l3: "unat (3 + ?l) = 3 + length c" using l by (simp add: unat_3_of_be24)
  have of_l3: "3 + ?l = of_nat (3 + length c)"  using l3 by (rule word_of_unat)
  have dL: "length ?d = L" using L by (simp add: put24_def)
  have uL: "unat (of_nat L :: u32) = L"
    using Cons.prems(2) by (simp add: unat_of_nat take_bit_nat_eq_self)
  have "length ?d \<ge> 4"
  proof (cases "cs = []")
    case True
    then show ?thesis using Cons.prems(3) by (cases c) (simp_all add: put24_def)
  next
    case False
    then show ?thesis by (cases cs) (simp_all add: put24_def)
  qed
  moreover have "\<not> of_nat (length ?d) < 3 + ?l"
    unfolding dL word_less_nat_alt uL l3 using L by simp
  moreover have "(0 :: u32) < of_nat L"
    unfolding word_less_nat_alt uL using L by simp
  ultimately have "count_certs (of_nat L) ?d k = count_certs (of_nat L - (3 + ?l)) (drop (unat (3 + ?l)) ?d) (k + 1)"
    using l3 L dL by (intro count_certs_step) simp_all
  also have "drop (unat (3 + ?l)) ?d = ?rest" using l3 by (simp add: put24_def)
  also have "of_nat L - (3 + ?l) = of_nat (length ?rest)" using L of_l3 by simp
  also have "count_certs (of_nat (length ?rest)) ?rest (k + 1) = Inr (Some (k + 1 + length cs))"
  proof (rule Cons.IH)
    show "length ?rest < 16777216" using L Cons.prems(2) by simp
    show "cs \<noteq> [] \<longrightarrow> last cs \<noteq> []" using Cons.prems(3) by (auto split: if_splits)
  qed simp
  finally show ?case by (simp del: of_nat_add)
qed

lemma certificateMsg_roundtrip:
  assumes "certificateMsg_marshal cs = Some data"
    and "3 * length cs + sum_list (map length cs) < 16777213" and "cs \<noteq> [] \<longrightarrow> last cs \<noteq> []"
  shows "certificateMsg_unmarshal data = Inr (Some cs)"
proof -
  define rest where "rest = concat (map enc_cert cs)"
  define L where "L = length rest"
  have L: "L = 3 * length cs + sum_list (map length cs)"
    unfolding L_def rest_def by (induction cs) (simp_all add: put24_def)
  have data: "data = typeCertificate # put24 (3 + L) @ put24 L @ rest"
    using assms(1) by (auto simp: certificateMsg_marshal_def Let_def L rest_def add.assoc)
  let ?l = "of_be24 (data ! 4) (data ! 5) (data ! 6)"
  have "unat ?l = L" using put24_read [of L] assms(2) L by (simp add: data put24_def)
  then have l: "?l = of_nat L" by (rule word_of_unat)
  have parts: "drop 7 data = rest" "length data = L + 7"
    by (simp_all add: data put24_def L_def)
  have small: "\<forall>c \<in> set cs. length c < 16777216"
    using assms(2) member_le_sum_list [of _ "map length cs"] by fastforce
  have "count_certs (of_nat L) rest 0 = Inr (Some (length cs))"
    using count_certs_concat [of L cs 0] assms(2,3) L by (simp add: L_def rest_def)
  then show ?thesis
    using cut_certs_concat [OF small] parts l
    by (simp add: certificateMsg_unmarshal_def Let_def rest_def)
qed

lemma take_sigalgs_concat: "take_sigalgs (length as) (concat (map be16 as) @ rest) = Inr (as, rest)"
  by (induction as) (simp_all add: be16_def of_be16_be16)

lemma split_cas_concat:
  "\<forall>ca \<in> set cas. length ca < 65536 \<Longrightarrow>
    split_cas (concat (map (\<lambda>ca. put16 (length ca) @ ca) cas)) = Inr (Some cas)"
  by (induction cas) (simp_all add: split_cas.simps put16_def Let_def put16_read)

lemma read_authorities_concat:
  assumes "sum_list (map (\<lambda>ca. 2 + length ca) cas) < 65536"
  shows "read_authorities m (put16 (sum_list (map (\<lambda>ca. 2 + length ca) cas)) @
    concat (map (\<lambda>ca. put16 (length ca) @ ca) cas)) = Inr (Some (m\<lparr>cr_certificateAuthorities := cas\<rparr>))"
proof -
  have "length (concat (map (\<lambda>ca. put16 (length ca) @ ca) cas)) = sum_list (map (\<lambda>ca. 2 + length ca) cas)"
    by (induction cas) (simp_all add: put16_def)
  moreover have "\<forall>ca \<in> set cas. length ca < 65536"
    using assms member_le_sum_list [of _ "map (\<lambda>ca. 2 + length ca) cas"] by fastforce
  ultimately show ?thesis
    using assms put16_read [OF assms] split_cas_concat [of cas]
    by (simp add: read_authorities_def put16_def Let_def)
qed

definition canonical_request :: "certificateRequestMsg \<Rightarrow> bool" where
  "canonical_request m \<longleftrightarrow>
     cr_certificateTypes m \<noteq> [] \<and> length (cr_certificateTypes m) < 256 \<and>
     (cr_hasSignatureAlgorithm m \<longleftrightarrow> cr_supportedSignatureAlgorithms m \<noteq> []) \<and>
     2 * length (cr_supportedSignatureAlgorithms m) < 65536 \<and>
     sum_list (map (\<lambda>ca. 2 + length ca) (cr_certificateAuthorities m)) < 65536"

lemma read_sigalgs_concat:
  assumes "canonical_request m" and "cr_hasSignatureAlgorithm m0 = cr_hasSignatureAlgorithm m"
    and "cr_supportedSignatureAlgorithms m0 = []"
  shows "read_sigalgs m0 ((if cr_hasSignatureAlgorithm m then
      put16 (length (cr_supportedSignatureAlgorithms m) * 2) @
      concat (map be16 (cr_supportedSignatureAlgorithms m)) else []) @ rest) =
    read_authorities (m0\<lparr>cr_supportedSignatureAlgorithms := cr_supportedSignatureAlgorithms m\<rparr>) rest"
proof (cases "cr_hasSignatureAlgorithm m")
  case True
  define as where "as = cr_supportedSignatureAlgorithms m"
  define k where "k = length as * 2"
  define v where "v = of_be16 (of_nat (k div 256)) (of_nat k)"
  have "k < 65536" using assms(1) by (simp add: canonical_request_def as_def k_def)
  then have v: "unat v = k" unfolding v_def by (rule put16_read)
  have "length as > 0" using assms(1) True by (simp add: canonical_request_def as_def)
  then have v0: "v \<noteq> 0" using v by (auto simp: k_def)
  have "unat (v mod 2) = 0" by (simp add: unat_mod_distrib v k_def)
  then have even: "v AND 1 = 0" by (simp add: and_one_eq word_unat_eq_iff)
  have half: "unat (v div 2) = length as" by (simp add: unat_div_distrib v k_def)
  have len: "length (concat (map be16 as)) = k" unfolding k_def by (induction as) simp_all
  have "read_sigalgs m0 (put16 k @ concat (map be16 as) @ rest) =
      read_authorities (m0\<lparr>cr_supportedSignatureAlgorithms := as\<rparr>) rest"
    using True assms(2) take_sigalgs_concat [of as rest] v v0 even half len
    by (simp add: read_sigalgs_def put16_def Let_def v_def [symmetric])
  with True show ?thesis by (simp add: as_def k_def)
next
  case False
  then have "cr_supportedSignatureAlgorithms m = []" using assms(1) by (simp add: canonical_request_def)
  then show ?thesis using False assms(2,3) by (cases m0) (simp add: read_sigalgs_def)
qed

lemma certificateRequestMsg_roundtrip:
  assumes "certificateRequestMsg_marshal m = Some data" and "canonical_request m"
  shows "certificateRequestMsg_unmarshal \<lparr>cr_hasSignatureAlgorithm = cr_hasSignatureAlgorithm m,
      cr_certificateTypes = [], cr_supportedSignatureAlgorithms = [], cr_certificateAuthorities = []\<rparr> data =
    Inr (Some m)"
proof -
  define cas where "cas = sum_list (map (\<lambda>ca. 2 + length ca) (cr_certificateAuthorities m))"
  define sig where "sig = (if cr_hasSignatureAlgorithm m then
      put16 (length (cr_supportedSignatureAlgorithms m) * 2) @
      concat (map be16 (cr_supportedSignatureAlgorithms m)) else [])"
  define auth where "auth = put16 cas @
      concat (map (\<lambda>ca. put16 (length ca) @ ca) (cr_certificateAuthorities m))"
  define types where "types = cr_certificateTypes m"
  define n where "n = 1 + length types + length sig + length auth"
  have "length (concat (map be16 as)) = 2 * length as" for as by (induction as) simp_all
  then have sig_len: "length sig = (if cr_hasSignatureAlgorithm m
      then 2 + 2 * length (cr_supportedSignatureAlgorithms m) else 0)"
    by (simp add: sig_def put16_def)
  have "length (concat (map (\<lambda>ca. put16 (length ca) @ ca) as)) = sum_list (map (\<lambda>ca. 2 + length ca) as)" for as
    by (induction as) (simp_all add: put16_def)
  then have auth_len: "length auth = 2 + cas" by (simp add: auth_def cas_def put16_def)
  have n_eq: "n = (if cr_hasSignatureAlgorithm m
      then 1 + length types + 2 + cas + 2 + 2 * length (cr_supportedSignatureAlgorithms m)
      else 1 + length types + 2 + cas)"
    by (simp add: n_def sig_len auth_len)
  have data: "data = typeCertificateRequest # put24 n @ of_nat (length types) # types @ sig @ auth"
    using assms(1) unfolding certificateRequestMsg_marshal_def Let_def cas_def [symmetric] sig_def [symmetric]
      types_def [symmetric] n_eq [symmetric]
    by (auto simp: auth_def)
  have types: "types \<noteq> []" "length types < 256"
    using assms(2) by (simp_all add: canonical_request_def types_def)
  have "n < 16777216"
    using assms(2) types by (simp add: canonical_request_def n_def sig_len auth_len cas_def)
  then have "unat (of_be24 (of_nat (n div 65536)) (of_nat (n div 256)) (of_nat n)) = n" by (rule put24_read)
  then have "unat (of_be24 (data ! 1) (data ! 2) (data ! 3)) = n" by (simp add: data put24_def)
  then have l: "of_nat (length data) - 4 = of_be24 (data ! 1) (data ! 2) (data ! 3)"
    by (rule body_length) (simp add: data put24_def n_def)
  have t: "unat (data ! 4) = length types" using types(2) by (simp add: data put24_def unat_byte)
  have d5: "drop 5 data = types @ sig @ auth" by (simp add: data put24_def)
  have len: "\<not> length data < 5" "\<not> length (types @ sig @ auth) \<le> length types"
    by (simp_all add: data put24_def auth_len)
  show ?thesis
    unfolding certificateRequestMsg_unmarshal_def Let_def l t d5
    using len types read_sigalgs_concat [OF assms(2)] assms(2) read_authorities_concat
    by (simp add: sig_def auth_def cas_def canonical_request_def types_def)
qed

text \<open>The messages written with a builder.\<close>

definition ticket_ext_list :: "newSessionTicketMsgTLS13 \<Rightarrow> (u16 \<times> bytes option) list" where
  "ticket_ext_list m = x_if (nst_maxEarlyData m > 0) extensionEarlyData (Some (be32 (nst_maxEarlyData m)))"

definition x_authorities :: "bytes list \<Rightarrow> (u16 \<times> bytes option) list" where
  "x_authorities cas = x_if (cas \<noteq> []) extensionCertificateAuthorities
     (prefixed 2 (cats (map (\<lambda>ca. prefixed 2 (Some ca)) cas)))"

definition request_ext_list :: "certificateRequestMsgTLS13 \<Rightarrow> (u16 \<times> bytes option) list" where
  "request_ext_list m =
     x_if (cr13_ocspStapling m) extensionStatusRequest (Some []) @
     x_if (cr13_scts m) extensionSCT (Some []) @
     x_u16s extensionSignatureAlgorithms (cr13_supportedSignatureAlgorithms m) @
     x_u16s extensionSignatureAlgorithmsCert (cr13_supportedSignatureAlgorithmsCert m) @
     x_authorities (cr13_certificateAuthorities m)"

definition leaf_ext_list :: "Certificate \<Rightarrow> (u16 \<times> bytes option) list" where
  "leaf_ext_list c =
     x_if (cert_OCSPStaple c \<noteq> None) extensionStatusRequest
       (cat (Some [statusTypeOCSP]) (prefixed 3 (cert_OCSPStaple c))) @
     x_if (cert_SignedCertificateTimestamps c \<noteq> None) extensionSCT
       (prefixed 2 (cats (map (\<lambda>sct. prefixed 2 (Some sct)) (the (cert_SignedCertificateTimestamps c)))))"

definition cert_entry :: "Certificate \<Rightarrow> nat \<times> bytes \<Rightarrow> bytes option" where
  "cert_entry c = (\<lambda>(i, cert). cat (prefixed 3 (Some cert))
     (prefixed 2 (if i > 0 then Some [] else encs (leaf_ext_list c))))"

definition canonical_cert13 :: "certificateMsgTLS13 \<Rightarrow> bool" where
  "canonical_cert13 m \<longleftrightarrow>
     (c13_ocspStapling m \<longleftrightarrow> cert_OCSPStaple (c13_certificate m) \<noteq> None) \<and>
     (c13_scts m \<longleftrightarrow> cert_SignedCertificateTimestamps (c13_certificate m) \<noteq> None) \<and>
     cert_OCSPStaple (c13_certificate m) \<noteq> Some [] \<and>
     (\<forall>scts. cert_SignedCertificateTimestamps (c13_certificate m) = Some scts \<longrightarrow>
        scts \<noteq> [] \<and> (\<forall>sct \<in> set scts. sct \<noteq> [])) \<and>
     (cert_Certificate (c13_certificate m) = [] \<longrightarrow> \<not> c13_ocspStapling m \<and> \<not> c13_scts m)"

text \<open>What a message must satisfy to survive the wire on a connection of a version.\<close>

fun msg_ok :: "u16 \<Rightarrow> handshakeMessage \<Rightarrow> bool" where
  "msg_ok vers (ClientHello m) = canonical_hello m"
| "msg_ok vers (ServerHello m) = canonical_server m"
| "msg_ok vers (NewSessionTicketTLS13 m) = (vers = VersionTLS13)"
| "msg_ok vers (NewSessionTicket ticket) = (vers \<noteq> VersionTLS13 \<and> length ticket < 65536)"
| "msg_ok vers (CertificateTLS13 m) = (vers = VersionTLS13 \<and> canonical_cert13 m)"
| "msg_ok vers (CertificateMsg cs) = (vers \<noteq> VersionTLS13 \<and>
     3 * length cs + sum_list (map length cs) < 16777213 \<and> (cs \<noteq> [] \<longrightarrow> last cs \<noteq> []))"
| "msg_ok vers (CertificateRequestTLS13 m) = (vers = VersionTLS13 \<and>
     (\<forall>ca \<in> set (cr13_certificateAuthorities m). ca \<noteq> []))"
| "msg_ok vers (CertificateRequest m) = (vers \<noteq> VersionTLS13 \<and> canonical_request m \<and>
     cr_hasSignatureAlgorithm m = (vers \<ge> VersionTLS12))"
| "msg_ok vers (CertificateStatus response) = (response \<noteq> [])"
| "msg_ok vers (ClientKeyExchange ciphertext) = (length ciphertext < 16777216)"
| "msg_ok vers (CertificateVerify m) = (cv_hasSignatureAlgorithm m = (vers \<ge> VersionTLS12) \<and>
     (cv_hasSignatureAlgorithm m \<or> cv_signatureAlgorithm m = 0))"
| "msg_ok vers _ = True"

fun msg_received :: "bytes \<Rightarrow> handshakeMessage \<Rightarrow> handshakeMessage" where
  "msg_received data (ClientHello m) =
     ClientHello (m\<lparr>ch_original := Some data, ch_extensions := map fst (client_ext_list m)\<rparr>)"
| "msg_received data (ServerHello m) = ServerHello (m\<lparr>sh_original := Some data\<rparr>)"
| "msg_received data m = m"

context cryptobyte_laws
begin

lemma keyUpdate_roundtrip:
  "keyUpdateMsg_marshal cb m = Some data \<Longrightarrow> keyUpdateMsg_unmarshal cb data = Some m"
  by (cases m) (auto simp: keyUpdateMsg_marshal_def keyUpdateMsg_unmarshal_def Let_def builder
      Skip split_at_def length_bytes_def be24_def split: if_splits)

lemma finished_roundtrip:
  "finishedMsg_marshal cb m = Some data \<Longrightarrow> finishedMsg_unmarshal cb data = Some m"
  by (auto simp: finishedMsg_marshal_def finishedMsg_unmarshal_def builder
      readUint24LengthPrefixed_def Skip split_at_def split: if_splits)

lemma certificateStatus_roundtrip:
  assumes "certificateStatusMsg_marshal cb m = Some data" and "m \<noteq> []"
  shows "certificateStatusMsg_unmarshal cb data = Some m"
proof -
  let ?body = "statusTypeOCSP # length_bytes 3 (length m) @ m"
  have data: "data = (typeCertificateStatus # length_bytes 3 (length ?body)) @ ?body"
    and len: "length m < 16777216"
    using assms(1) by (auto simp: certificateStatusMsg_marshal_def Let_def builder split: if_splits)
  have "Skip cb data 4 = Some ?body" unfolding data by (rule skip_append) simp
  then show ?thesis
    using len assms(2) by (simp add: certificateStatusMsg_unmarshal_def readUint24LengthPrefixed_def)
qed

lemma certificateVerify_roundtrip:
  assumes "certificateVerifyMsg_marshal cb m = Some data"
    and "cv_hasSignatureAlgorithm m \<or> cv_signatureAlgorithm m = 0"
  shows "certificateVerifyMsg_unmarshal cb \<lparr>cv_hasSignatureAlgorithm = cv_hasSignatureAlgorithm m,
    cv_signatureAlgorithm = 0, cv_signature = []\<rparr> data = Some m"
proof -
  let ?body = "(if cv_hasSignatureAlgorithm m then be16 (cv_signatureAlgorithm m) else []) @
    length_bytes 2 (length (cv_signature m)) @ cv_signature m"
  have data: "data = (typeCertificateVerify # length_bytes 3 (length ?body)) @ ?body"
    and len: "length (cv_signature m) < 65536"
    using assms(1) by (auto simp: certificateVerifyMsg_marshal_def Let_def builder split: if_splits)
  have "Skip cb data 4 = Some ?body" unfolding data by (rule skip_append) simp
  then show ?thesis
    using len assms(2)
    by (cases m) (auto simp: certificateVerifyMsg_unmarshal_def readUint16LengthPrefixed_def)
qed

lemma ticket_marshal_bytes:
  "newSessionTicketMsgTLS13_marshal cb m = cat (Some [typeNewSessionTicket]) (prefixed 3
     (cat (Some (be32 (nst_lifetime m))) (cat (Some (be32 (nst_ageAdd m)))
     (cat (prefixed 1 (Some (nst_nonce m))) (cat (prefixed 2 (Some (nst_label m)))
     (prefixed 2 (encs (ticket_ext_list m))))))))"
  by (auto simp: newSessionTicketMsgTLS13_marshal_def Let_def builder ticket_ext_list_def x_if_def
      simp del: prefixed.simps cat.simps)

lemma newSessionTicketTLS13_roundtrip:
  assumes "newSessionTicketMsgTLS13_marshal cb m = Some data"
  shows "newSessionTicketMsgTLS13_unmarshal cb data = Some m"
proof -
  obtain eb where eb: "encs (ticket_ext_list m) = Some eb" and len: "length (nst_nonce m) < 256"
      "length (nst_label m) < 65536" "length eb < 65536"
    using assms by (auto simp: ticket_marshal_bytes cat_eq_Some prefixed_eq_Some split: if_splits)
  let ?body = "be32 (nst_lifetime m) @ be32 (nst_ageAdd m) @ length_bytes (Suc 0) (length (nst_nonce m)) @
    nst_nonce m @ length_bytes 2 (length (nst_label m)) @ nst_label m @ length_bytes 2 (length eb) @ eb"
  have data: "data = (typeNewSessionTicket # length_bytes 3 (length ?body)) @ ?body"
    using assms len by (auto simp: ticket_marshal_bytes eb cat_eq_Some split: if_splits)
  have "Skip cb data 4 = Some ?body" unfolding data by (rule skip_append) simp
  moreover have "run_exts (\<lambda>_. ticket_ext_switch cb) \<lparr>nst_lifetime = nst_lifetime m,
      nst_ageAdd = nst_ageAdd m, nst_nonce = nst_nonce m, nst_label = nst_label m,
      nst_maxEarlyData = 0\<rparr> (ticket_ext_list m) = Some m"
    by (cases m) (auto simp: ticket_ext_list_def x_if_def ticket_ext_switch_def word_gt_0)
  ultimately show ?thesis
    using len ext_loop_dup_run [OF eb, of "ticket_ext_switch cb"]
    by (simp add: newSessionTicketMsgTLS13_unmarshal_def readUint8LengthPrefixed_def
        readUint16LengthPrefixed_def)
qed

lemma request_marshal_bytes:
  "certificateRequestMsgTLS13_marshal cb m = cat (Some [typeCertificateRequest])
     (prefixed 3 (cat (Some [0]) (prefixed 2 (encs (request_ext_list m)))))"
  unfolding certificateRequestMsgTLS13_marshal_def Let_def request_ext_list_def x_authorities_def x_u16s_def
  by (simp add: add_flag_bytes add_section_bytes builder fold_sections16 encs_append x_if_def
      del: prefixed.simps cat.simps)

lemma run_request_u16s:
  assumes "encs (x_u16s i vs) \<noteq> None"
    and "\<And>d. request_ext_switch cb i d m0 = do {
       (s, extData) \<leftarrow> ReadUint16LengthPrefixed cb d;
       guard (s \<noteq> []);
       as \<leftarrow> read_u16s cb [] s;
       Some (f as, Some extData) }" and "f [] = m0"
  shows "run_exts (\<lambda>_. request_ext_switch cb) m0 (x_u16s i vs @ xs) =
    run_exts (\<lambda>_. request_ext_switch cb) (f vs) xs"
  using assms by (auto simp: x_u16s_def cat_eq_Some split: if_splits)

lemma certificateRequestTLS13_roundtrip:
  assumes "certificateRequestMsgTLS13_marshal cb m = Some data"
    and "\<forall>ca \<in> set (cr13_certificateAuthorities m). ca \<noteq> []"
  shows "certificateRequestMsgTLS13_unmarshal cb data = Some m"
proof -
  obtain eb where eb: "encs (request_ext_list m) = Some eb" and len: "length eb < 65536"
    using assms(1) by (auto simp: request_marshal_bytes cat_eq_Some prefixed_eq_Some)
  let ?body = "0 # length_bytes 2 (length eb) @ eb"
  have data: "data = (typeCertificateRequest # length_bytes 3 (length ?body)) @ ?body"
    using assms(1) len by (auto simp: request_marshal_bytes eb)
  have skip: "Skip cb data 4 = Some ?body" unfolding data by (rule skip_append) simp
  have parts: "encs (x_u16s extensionSignatureAlgorithms (cr13_supportedSignatureAlgorithms m)) \<noteq> None"
    "encs (x_u16s extensionSignatureAlgorithmsCert (cr13_supportedSignatureAlgorithmsCert m)) \<noteq> None"
    "encs (x_authorities (cr13_certificateAuthorities m)) \<noteq> None"
    using eb unfolding request_ext_list_def encs_append by (auto simp: cat_eq_Some)
  let ?m0 = "\<lparr>cr13_ocspStapling = False, cr13_scts = False, cr13_supportedSignatureAlgorithms = [],
        cr13_supportedSignatureAlgorithmsCert = [], cr13_certificateAuthorities = []\<rparr>"
  let ?m1 = "?m0\<lparr>cr13_ocspStapling := cr13_ocspStapling m, cr13_scts := cr13_scts m\<rparr>"
  let ?m2 = "?m1\<lparr>cr13_supportedSignatureAlgorithms := cr13_supportedSignatureAlgorithms m\<rparr>"
  let ?m3 = "?m2\<lparr>cr13_supportedSignatureAlgorithmsCert := cr13_supportedSignatureAlgorithmsCert m\<rparr>"
  let ?run = "run_exts (\<lambda>_. request_ext_switch cb)"
  have flags: "?run ?m0 (x_if (cr13_ocspStapling m) extensionStatusRequest (Some []) @
      x_if (cr13_scts m) extensionSCT (Some []) @ xs) = ?run ?m1 xs" for xs
    by (simp add: x_if_def request_ext_switch_def)
  have sigs: "?run ?m1 (x_u16s extensionSignatureAlgorithms (cr13_supportedSignatureAlgorithms m) @ xs) =
      ?run ?m2 xs" for xs
    by (rule run_request_u16s [OF parts(1), where f = "\<lambda>as. ?m1\<lparr>cr13_supportedSignatureAlgorithms := as\<rparr>"])
      (simp_all add: request_ext_switch_def)
  have certs: "?run ?m2 (x_u16s extensionSignatureAlgorithmsCert (cr13_supportedSignatureAlgorithmsCert m) @ xs) =
      ?run ?m3 xs" for xs
    by (rule run_request_u16s [OF parts(2), where f = "\<lambda>as. ?m2\<lparr>cr13_supportedSignatureAlgorithmsCert := as\<rparr>"])
      (simp_all add: request_ext_switch_def)
  have auths: "?run ?m3 (x_authorities (cr13_certificateAuthorities m)) =
      Some (?m3\<lparr>cr13_certificateAuthorities := cr13_certificateAuthorities m\<rparr>)"
  proof (cases "cr13_certificateAuthorities m = []")
    case False
    with parts(3) obtain d where
        d: "cats (map (\<lambda>ca. prefixed 2 (Some ca)) (cr13_certificateAuthorities m)) = Some d"
        and dlen: "length d < 65536"
      by (auto simp: x_authorities_def x_if_def cat_eq_Some prefixed_eq_Some simp del: prefixed.simps)
    with False nonempty16_loop [OF d assms(2)] cats_not_Nil [OF d False] show ?thesis
      by (simp add: x_authorities_def x_if_def request_ext_switch_def)
  qed (simp add: x_authorities_def x_if_def)
  have "?run ?m0 (request_ext_list m) = Some m"
    unfolding request_ext_list_def flags sigs certs auths by simp
  moreover have "ReadUint8LengthPrefixed cb ?body = Some ([], length_bytes 2 (length eb) @ eb)"
    by (simp add: ReadUint8LengthPrefixed split_at_def)
  ultimately show ?thesis
    using len ext_loop_dup_run [OF eb, of "request_ext_switch cb"] skip
    by (simp add: certificateRequestMsgTLS13_unmarshal_def)
qed

lemma leaf_extensions_bytes:
  "Bytes cb (leaf_extensions cb c b) = cat (Bytes cb b) (encs (leaf_ext_list c))"
  unfolding leaf_extensions_def Let_def leaf_ext_list_def
  by (cases "cert_OCSPStaple c"; cases "cert_SignedCertificateTimestamps c")
    (simp_all add: add_section_bytes builder fold_sections16 encs_append x_if_def
      del: prefixed.simps cat.simps)

lemma marshalCertificate_bytes:
  "Bytes cb (marshalCertificate cb b c) = cat (Bytes cb b)
     (prefixed 3 (cats (map (cert_entry c) (enumerate 0 (cert_Certificate c)))))"
proof -
  have "Bytes cb (fold (\<lambda>(i, cert) b.
           let b = AddUint24LengthPrefixed cb b (\<lambda>b. AddBytes cb b cert) in
           AddUint16LengthPrefixed cb b (\<lambda>b. if i > 0 then b else leaf_extensions cb c b)) xs b') =
      cat (Bytes cb b') (cats (map (cert_entry c) xs))" for xs b'
    by (rule fold_cats) (auto simp: cert_entry_def builder leaf_extensions_bytes simp del: prefixed.simps cat.simps)
  then show ?thesis by (simp add: marshalCertificate_def builder del: prefixed.simps cat.simps)
qed

lemma consumes_certificate_step [simp]: "consumes (certificate_step cb)"
  by (rule consumesI)
    (force simp: certificate_step_def bind_eq_Some_conv dest!: reads_shorten helper_reads_shorten)

lemma run_leaf:
  assumes "encs (leaf_ext_list c) \<noteq> None" and "length (cert_Certificate c0) = 1"
    and "cert_OCSPStaple c0 = None" and "cert_SignedCertificateTimestamps c0 = None"
    and "cert_OCSPStaple c \<noteq> Some []"
    and "\<And>scts. cert_SignedCertificateTimestamps c = Some scts \<Longrightarrow> scts \<noteq> [] \<and> (\<forall>sct \<in> set scts. sct \<noteq> [])"
  shows "run_exts (\<lambda>_. certificate_ext_switch cb) c0 (leaf_ext_list c) =
    Some (c0\<lparr>cert_OCSPStaple := cert_OCSPStaple c,
      cert_SignedCertificateTimestamps := cert_SignedCertificateTimestamps c\<rparr>)"
proof -
  let ?run = "run_exts (\<lambda>_. certificate_ext_switch cb)"
  let ?c1 = "c0\<lparr>cert_OCSPStaple := cert_OCSPStaple c\<rparr>"
  have staple: "?run c0 (x_if (cert_OCSPStaple c \<noteq> None) extensionStatusRequest
      (cat (Some [statusTypeOCSP]) (prefixed 3 (cert_OCSPStaple c))) @ xs) = ?run ?c1 xs" for xs
  proof (cases "cert_OCSPStaple c")
    case None
    then show ?thesis using assms(3) by (cases c0) (simp add: x_if_def)
  next
    case (Some st)
    then have "length st < 16777216" "st \<noteq> []"
      using assms(1,5) by (auto simp: leaf_ext_list_def x_if_def encs_append cat_eq_Some split: if_splits)
    then show ?thesis
      using Some assms(2)
      by (simp add: x_if_def certificate_ext_switch_def readUint24LengthPrefixed_def)
  qed
  have sct: "?run ?c1 (x_if (cert_SignedCertificateTimestamps c \<noteq> None) extensionSCT
       (prefixed 2 (cats (map (\<lambda>sct. prefixed 2 (Some sct)) (the (cert_SignedCertificateTimestamps c)))))) =
    Some (?c1\<lparr>cert_SignedCertificateTimestamps := cert_SignedCertificateTimestamps c\<rparr>)"
  proof (cases "cert_SignedCertificateTimestamps c")
    case None
    then show ?thesis using assms(4) by (cases c0) (simp add: x_if_def)
  next
    case (Some scts)
    then obtain d where d: "cats (map (\<lambda>sct. prefixed 2 (Some sct)) scts) = Some d" and len: "length d < 65536"
      using assms(1)
      by (auto simp: leaf_ext_list_def x_if_def encs_append cat_eq_Some prefixed_eq_Some simp del: prefixed.simps)
    have ne: "scts \<noteq> []" "\<forall>sct \<in> set scts. sct \<noteq> []" using assms(6) [OF Some] by auto
    show ?thesis
      using Some d len nonempty16_loop [OF d ne(2), of "[]"] cats_not_Nil [OF d ne(1)] assms(2,4)
      by (simp add: x_if_def certificate_ext_switch_def)
  qed
  show ?thesis unfolding leaf_ext_list_def staple sct by simp
qed

lemma cert_tail:
  assumes "cats (map (cert_entry c) (enumerate (Suc k) cs)) = Some d"
  shows "for_nonempty (certificate_step cb) c0 d =
    Some (c0\<lparr>cert_Certificate := cert_Certificate c0 @ cs\<rparr>)"
  using assms
proof (induction cs arbitrary: k c0 d)
  case Nil
  then show ?case by simp
next
  case (Cons x cs)
  obtain d' where d': "cats (map (cert_entry c) (enumerate (Suc (Suc k)) cs)) = Some d'"
    and x: "length x < 16777216"
    and d: "d = length_bytes 3 (length x) @ x @ length_bytes 2 0 @ d'"
    using Cons.prems by (auto simp: cert_entry_def cat_eq_Some split: if_splits)
  have "certificate_step cb c0 d = Some (c0\<lparr>cert_Certificate := cert_Certificate c0 @ [x]\<rparr>, d')"
    using x read16lp_append [of "[]" d'] by (simp add: d certificate_step_def readUint24LengthPrefixed_def)
  moreover have "length d > 0" by (simp add: d)
  ultimately have "for_nonempty (certificate_step cb) c0 d =
      for_nonempty (certificate_step cb) (c0\<lparr>cert_Certificate := cert_Certificate c0 @ [x]\<rparr>) d'"
    by (subst for_nonempty_unfold) simp_all
  also have "\<dots> = Some (c0\<lparr>cert_Certificate := cert_Certificate c0 @ x # cs\<rparr>)"
    using Cons.IH [OF d'] by simp
  finally show ?case .
qed

lemma certificateTLS13_roundtrip:
  assumes "certificateMsgTLS13_marshal cb m = Some data" and "canonical_cert13 m"
  shows "certificateMsgTLS13_unmarshal cb data = Some m"
proof -
  define c where "c = c13_certificate m"
  have canon: "c13_ocspStapling m \<longleftrightarrow> cert_OCSPStaple c \<noteq> None"
    "c13_scts m \<longleftrightarrow> cert_SignedCertificateTimestamps c \<noteq> None" "cert_OCSPStaple c \<noteq> Some []"
    "cert_SignedCertificateTimestamps c = Some scts \<Longrightarrow> scts \<noteq> [] \<and> (\<forall>sct \<in> set scts. sct \<noteq> [])"
    "cert_Certificate c = [] \<Longrightarrow> cert_OCSPStaple c = None \<and> cert_SignedCertificateTimestamps c = None" for scts
    using assms(2) by (auto simp: canonical_cert13_def c_def)
  have same: "(if \<not> c13_scts m then (if \<not> c13_ocspStapling m then c\<lparr>cert_OCSPStaple := None\<rparr> else c)
        \<lparr>cert_SignedCertificateTimestamps := None\<rparr>
      else if \<not> c13_ocspStapling m then c\<lparr>cert_OCSPStaple := None\<rparr> else c) = c"
    using canon(1,2) by (cases c) auto
  have marsh: "certificateMsgTLS13_marshal cb m = cat (Some [typeCertificate]) (prefixed 3 (cat (Some [0])
      (prefixed 3 (cats (map (cert_entry c) (enumerate 0 (cert_Certificate c)))))))"
    unfolding certificateMsgTLS13_marshal_def Let_def c_def [symmetric] same
    by (simp add: builder marshalCertificate_bytes del: prefixed.simps cat.simps)
  obtain d where d: "cats (map (cert_entry c) (enumerate 0 (cert_Certificate c))) = Some d"
    and len: "length d < 16777216"
    and data: "data = (typeCertificate # length_bytes 3 (4 + length d)) @ 0 # length_bytes 3 (length d) @ d"
    using assms(1) unfolding marsh by (auto simp: cat_eq_Some prefixed_eq_Some)
  let ?c0 = "\<lparr>cert_Certificate = [], cert_OCSPStaple = None, cert_SignedCertificateTimestamps = None\<rparr>"
  have loop: "for_nonempty (certificate_step cb) ?c0 d = Some c"
  proof (cases "cert_Certificate c")
    case Nil
    then show ?thesis using d canon(5) by (cases c) simp
  next
    case (Cons x cs)
    obtain e d' where e: "encs (leaf_ext_list c) = Some e" "length e < 65536"
      and d': "cats (map (cert_entry c) (enumerate (Suc 0) cs)) = Some d'" and x: "length x < 16777216"
      and dd: "d = length_bytes 3 (length x) @ x @ length_bytes 2 (length e) @ e @ d'"
      using d Cons by (auto simp: cert_entry_def cat_eq_Some prefixed_eq_Some split: if_splits)
    let ?c1 = "?c0\<lparr>cert_Certificate := [x], cert_OCSPStaple := cert_OCSPStaple c,
        cert_SignedCertificateTimestamps := cert_SignedCertificateTimestamps c\<rparr>"
    have "run_exts (\<lambda>_. certificate_ext_switch cb) (?c0\<lparr>cert_Certificate := [x]\<rparr>) (leaf_ext_list c) =
        Some ((?c0\<lparr>cert_Certificate := [x]\<rparr>)\<lparr>cert_OCSPStaple := cert_OCSPStaple c,
          cert_SignedCertificateTimestamps := cert_SignedCertificateTimestamps c\<rparr>)"
      using e canon by (intro run_leaf) auto
    then have "certificate_step cb ?c0 d = Some (?c1, d')"
      using x e ext_loop_dup_run [OF e(1), of "certificate_ext_switch cb"]
      by (simp add: dd certificate_step_def readUint24LengthPrefixed_def)
    moreover have "length d > 0" by (simp add: dd)
    ultimately have "for_nonempty (certificate_step cb) ?c0 d = for_nonempty (certificate_step cb) ?c1 d'"
      by (subst for_nonempty_unfold) simp_all
    then show ?thesis using cert_tail [OF d', of ?c1] Cons by (cases c) simp
  qed
  have "Skip cb data 4 = Some (0 # length_bytes 3 (length d) @ d)"
    unfolding data by (rule skip_append) simp
  then show ?thesis
    using len loop canon(1,2)
    by (cases m) (simp add: certificateMsgTLS13_unmarshal_def unmarshalCertificate_def
        ReadUint8LengthPrefixed split_at_def c_def)
qed

lemma marshal_type:
  "clientHelloMsg_marshal cb ch = Some data \<Longrightarrow> \<exists>r. data = typeClientHello # r"
  "serverHelloMsg_marshal cb sh = Some data \<Longrightarrow> \<exists>r. data = typeServerHello # r"
  "newSessionTicketMsgTLS13_marshal cb nst = Some data \<Longrightarrow> \<exists>r. data = typeNewSessionTicket # r"
  "newSessionTicketMsg_marshal ticket = Some data \<Longrightarrow> \<exists>r. data = typeNewSessionTicket # r"
  "certificateMsgTLS13_marshal cb c13 = Some data \<Longrightarrow> \<exists>r. data = typeCertificate # r"
  "certificateMsg_marshal cs = Some data \<Longrightarrow> \<exists>r. data = typeCertificate # r"
  "certificateRequestMsgTLS13_marshal cb cr13 = Some data \<Longrightarrow> \<exists>r. data = typeCertificateRequest # r"
  "certificateRequestMsg_marshal cr = Some data \<Longrightarrow> \<exists>r. data = typeCertificateRequest # r"
  "certificateStatusMsg_marshal cb st = Some data \<Longrightarrow> \<exists>r. data = typeCertificateStatus # r"
  "serverKeyExchangeMsg_marshal key = Some data \<Longrightarrow> \<exists>r. data = typeServerKeyExchange # r"
  "clientKeyExchangeMsg_marshal ckx = Some data \<Longrightarrow> \<exists>r. data = typeClientKeyExchange # r"
  "certificateVerifyMsg_marshal cb cv = Some data \<Longrightarrow> \<exists>r. data = typeCertificateVerify # r"
  "finishedMsg_marshal cb vd = Some data \<Longrightarrow> \<exists>r. data = typeFinished # r"
  "encryptedExtensionsMsg_marshal cb ee = Some data \<Longrightarrow> \<exists>r. data = typeEncryptedExtensions # r"
  "keyUpdateMsg_marshal cb ku = Some data \<Longrightarrow> \<exists>r. data = typeKeyUpdate # r"
  by (auto simp: clientHelloMsg_marshal_def clientHelloMsg_marshalMsg_def client_message_bytes
      serverHelloMsg_marshal_def server_message_bytes ticket_marshal_bytes newSessionTicketMsg_marshal_def
      certificateMsgTLS13_marshal_def certificateMsg_marshal_def request_marshal_bytes
      certificateRequestMsg_marshal_def certificateStatusMsg_marshal_def serverKeyExchangeMsg_marshal_def
      clientKeyExchangeMsg_marshal_def certificateVerifyMsg_marshal_def finishedMsg_marshal_def
      encrypted_marshal_bytes keyUpdateMsg_marshal_def Let_def builder bind_eq_Some_conv cat_eq_Some
      simp del: prefixed.simps)

lemma decode_marshal:
  assumes "msg_marshal cb msg = Some data" and "msg_ok vers msg"
  shows "data \<noteq> [] \<and> decode cb vers (data ! 0) data = Inr (Some (Some (msg_received data msg)))"
proof (cases msg)
  case HelloRequest
  then show ?thesis
    using assms by (auto simp: decode_def helloRequestMsg_marshal_def helloRequestMsg_unmarshal_def)
next
  case (ClientHello m)
  then show ?thesis
    using assms marshal_type(1) [of m data] unmarshal_marshal [of m data] by (auto simp: decode_def)
next
  case (ServerHello m)
  then show ?thesis
    using assms marshal_type(2) [of m data] server_unmarshal_marshal [of m data] by (auto simp: decode_def)
next
  case (NewSessionTicketTLS13 m)
  then show ?thesis
    using assms marshal_type(3) [of m data] newSessionTicketTLS13_roundtrip [of m data] by (auto simp: decode_def)
next
  case (NewSessionTicket m)
  then show ?thesis
    using assms marshal_type(4) [of m data] newSessionTicketMsg_roundtrip [of m data] by (auto simp: decode_def)
next
  case (CertificateTLS13 m)
  then show ?thesis
    using assms marshal_type(5) [of m data] certificateTLS13_roundtrip [of m data] by (auto simp: decode_def)
next
  case (CertificateMsg m)
  then show ?thesis
    using assms marshal_type(6) [of m data] certificateMsg_roundtrip [of m data] by (auto simp: decode_def)
next
  case (CertificateRequestTLS13 m)
  then show ?thesis
    using assms marshal_type(7) [of m data] certificateRequestTLS13_roundtrip [of m data] by (auto simp: decode_def)
next
  case (CertificateRequest m)
  then show ?thesis
    using assms marshal_type(8) [of m data] certificateRequestMsg_roundtrip [of m data] by (auto simp: decode_def)
next
  case (CertificateStatus m)
  then show ?thesis
    using assms marshal_type(9) [of m data] certificateStatus_roundtrip [of m data] by (auto simp: decode_def)
next
  case (ServerKeyExchange m)
  then show ?thesis
    using assms by (auto simp: decode_def serverKeyExchangeMsg_marshal_def serverKeyExchangeMsg_unmarshal_def put24_def)
next
  case ServerHelloDone
  then show ?thesis
    using assms by (auto simp: decode_def serverHelloDoneMsg_marshal_def serverHelloDoneMsg_unmarshal_def)
next
  case (ClientKeyExchange m)
  then show ?thesis
    using assms marshal_type(11) [of m data] clientKeyExchangeMsg_roundtrip [of m data] by (auto simp: decode_def)
next
  case (CertificateVerify m)
  then show ?thesis
    using assms marshal_type(12) [of m data] certificateVerify_roundtrip [of m data] by (auto simp: decode_def)
next
  case (Finished m)
  then show ?thesis
    using assms marshal_type(13) [of m data] finished_roundtrip [of m data] by (auto simp: decode_def)
next
  case (EncryptedExtensions m)
  then show ?thesis
    using assms marshal_type(14) [of m data] encrypted_unmarshal_marshal [of m data] by (auto simp: decode_def)
next
  case EndOfEarlyData
  then show ?thesis
    using assms by (auto simp: decode_def endOfEarlyDataMsg_marshal_def endOfEarlyDataMsg_unmarshal_def)
next
  case (KeyUpdate m)
  then show ?thesis
    using assms marshal_type(15) [of m data] keyUpdate_roundtrip [of m data] by (auto simp: decode_def)
qed

end

subsection \<open>Properties\<close>

text \<open>(C23) Every handshake message that marshals is read back by \<open>unmarshalHandshakeMessage\<close>
  on a connection of the right version, and its bytes are added to the transcript. The two
  hellos come back with their \<open>original\<close> bytes set; the other messages come back unchanged.
  \<open>msg_ok\<close> asks for the version the message belongs to and for contents the wire format can
  represent, such as lengths that fit where the code writes them without a check.\<close>

theorem handshake_message_roundtrip:
  assumes "cryptobyte_laws cb" and "msg_marshal cb msg = Some data" and "msg_ok vers msg"
  shows "unmarshalHandshakeMessage cb vers data transcript =
    Inr (Inr (msg_received data msg, map_option (\<lambda>h. h @ data) transcript))"
  using cryptobyte_laws.decode_marshal [OF assms]
  by (simp add: unmarshalHandshakeMessage_def)

theorem handshake_message_roundtrip_witness:
  "unmarshalHandshakeMessage ref_cryptobyte 0x0303 [11, 0, 0, 9, 0, 0, 6, 0, 0, 3, 1, 2, 3] (Some [7]) =
    Inr (Inr (CertificateMsg [[1, 2, 3]], Some [7, 11, 0, 0, 9, 0, 0, 6, 0, 0, 3, 1, 2, 3]))"
proof -
  have "msg_marshal ref_cryptobyte (CertificateMsg [[1, 2, 3]]) = Some [11, 0, 0, 9, 0, 0, 6, 0, 0, 3, 1, 2, 3]"
    by (simp add: certificateMsg_marshal_def put24_def)
  from handshake_message_roundtrip [OF ref.cryptobyte_laws_axioms this, of "0x0303" "Some [7]"]
  show ?thesis by simp
qed

text \<open>(C24) No received message makes the parsers panic: for every version and every non-empty
  byte string the result is a message or one of the two alerts. (The five parsers that index
  slices by hand check the lengths first, some in 32-bit arithmetic that may wrap, so that the
  run-time check of each index and slice bound, which the model has in its place, never fails.)\<close>

theorem handshake_parse_never_panics:
  assumes "data \<noteq> []"
  shows "\<exists>r. unmarshalHandshakeMessage cb vers data transcript = Inr r \<and>
    (\<forall>a. r = Inl a \<longrightarrow> a = alertUnexpectedMessage \<or> a = alertDecodeError)"
proof -
  obtain d where "decode cb vers (data ! 0) data = Inr d"
    using decode_no_panic [of cb vers "data ! 0" data] by (cases "decode cb vers (data ! 0) data") auto
  with assms show ?thesis
    by (simp add: unmarshalHandshakeMessage_def split: option.splits)
qed

theorem handshake_parse_never_panics_witness:
  "\<exists>r. unmarshalHandshakeMessage ref_cryptobyte 0x0303 [11, 0, 0, 7, 0, 0, 4, 255, 255, 255, 9] None = Inr r \<and>
    (\<forall>a. r = Inl a \<longrightarrow> a = alertUnexpectedMessage \<or> a = alertDecodeError)"
  by (rule handshake_parse_never_panics) simp

end
