(* ===== verification/Record_Layer.thy ===== *)
theory Record_Layer
  imports Handshake_Types
begin

text \<open>
  One direction of the record layer, \<open>halfConn\<close> of \<open>src/conn.go\<close>, with the nonce wrappers
  and the MAC of \<open>src/cipher_suites.go\<close>.

  The ciphers themselves belong to the standard library and are values of the state, with
  the behaviour their interfaces document: a \<open>cipher.AEAD\<close> is a pair of functions \<open>Seal\<close>
  and \<open>Open\<close>, a \<open>cipher.Stream\<close> a key stream and a position in it, a \<open>cbcMode\<close> a block
  transformation and its chaining value, a \<open>hash.Hash\<close> a function on the bytes written. The
  laws the proofs need are those of the locale \<open>aead_laws\<close>.

  \<open>encrypt\<close> and \<open>decrypt\<close> return the new state with the result; an index or slice out of
  range, a nil dereference and the explicit \<open>panic\<close> of \<open>incSeq\<close> are values of \<open>go_panic\<close>.
\<close>

abbreviation (input) recordHeaderLen :: nat where "recordHeaderLen \<equiv> 5"
abbreviation (input) maxPlaintext :: nat where "maxPlaintext \<equiv> 16384"
abbreviation (input) maxCiphertext :: nat where "maxCiphertext \<equiv> 18432"
abbreviation (input) maxCiphertextTLS13 :: nat where "maxCiphertextTLS13 \<equiv> 16640"

abbreviation (input) alertCloseNotify :: u8 where "alertCloseNotify \<equiv> 0"
abbreviation (input) alertBadRecordMAC :: u8 where "alertBadRecordMAC \<equiv> 20"
abbreviation (input) alertRecordOverflow :: u8 where "alertRecordOverflow \<equiv> 22"
abbreviation (input) alertInternalError :: u8 where "alertInternalError \<equiv> 80"

subsection \<open>Ciphers\<close>

record cipher_AEAD =
  raw_Seal :: "bytes \<Rightarrow> bytes \<Rightarrow> bytes \<Rightarrow> bytes"
  raw_Open :: "bytes \<Rightarrow> bytes \<Rightarrow> bytes \<Rightarrow> bytes option"
  raw_Overhead :: nat

text \<open>The two wrappers that build a 12-byte nonce from the 8 bytes of a record.\<close>

datatype aead =
    prefixNonceAEAD bytes cipher_AEAD
  | xorNonceAEAD bytes cipher_AEAD

fun aead_Overhead :: "aead \<Rightarrow> nat" where
  "aead_Overhead (prefixNonceAEAD nonce a) = raw_Overhead a"
| "aead_Overhead (xorNonceAEAD nonceMask a) = raw_Overhead a"

fun aead_explicitNonceLen :: "aead \<Rightarrow> nat" where
  "aead_explicitNonceLen (prefixNonceAEAD nonce a) = 8"
| "aead_explicitNonceLen (xorNonceAEAD nonceMask a) = 0"

text \<open>\<open>copy(nonce[4:], n)\<close> and the loop \<open>nonceMask[4+i] ^= n[i]\<close>.\<close>

definition put_nonce :: "bytes \<Rightarrow> bytes \<Rightarrow> bytes" where
  "put_nonce nonce n = take 4 nonce @ take (length nonce - 4) n @ drop (4 + length n) nonce"

fun xor_nonce :: "nat \<Rightarrow> bytes \<Rightarrow> bytes \<Rightarrow> bytes" where
  "xor_nonce i nonceMask [] = nonceMask"
| "xor_nonce i nonceMask (b # n) = xor_nonce (Suc i) (nonceMask[4 + i := nonceMask ! (4 + i) XOR b]) n"

fun aead_Seal :: "aead \<Rightarrow> bytes \<Rightarrow> bytes \<Rightarrow> bytes \<Rightarrow> bytes \<times> aead" where
  "aead_Seal (prefixNonceAEAD nonce a) n plaintext additionalData =
     (let nonce = put_nonce nonce n
      in (raw_Seal a nonce plaintext additionalData, prefixNonceAEAD nonce a))"
| "aead_Seal (xorNonceAEAD nonceMask a) n plaintext additionalData =
     (let nonceMask = xor_nonce 0 nonceMask n;
          result = raw_Seal a nonceMask plaintext additionalData;
          nonceMask = xor_nonce 0 nonceMask n
      in (result, xorNonceAEAD nonceMask a))"

fun aead_Open :: "aead \<Rightarrow> bytes \<Rightarrow> bytes \<Rightarrow> bytes \<Rightarrow> bytes option \<times> aead" where
  "aead_Open (prefixNonceAEAD nonce a) n ciphertext additionalData =
     (let nonce = put_nonce nonce n
      in (raw_Open a nonce ciphertext additionalData, prefixNonceAEAD nonce a))"
| "aead_Open (xorNonceAEAD nonceMask a) n ciphertext additionalData =
     (let nonceMask = xor_nonce 0 nonceMask n;
          result = raw_Open a nonceMask ciphertext additionalData;
          nonceMask = xor_nonce 0 nonceMask n
      in (result, xorNonceAEAD nonceMask a))"

record stream =
  st_key :: "nat \<Rightarrow> u8"
  st_pos :: nat

definition XORKeyStream :: "stream \<Rightarrow> bytes \<Rightarrow> bytes \<times> stream" where
  "XORKeyStream s src =
     (map (\<lambda>i. src ! i XOR st_key s (st_pos s + i)) [0..<length src], s\<lparr>st_pos := st_pos s + length src\<rparr>)"

record cbcMode =
  cbc_BlockSize :: nat
  cbc_crypt :: "bytes \<Rightarrow> bytes \<Rightarrow> bytes"
  cbc_chain :: "bytes \<Rightarrow> bytes \<Rightarrow> bytes"
  cbc_iv :: bytes

definition SetIV :: "cbcMode \<Rightarrow> bytes \<Rightarrow> cbcMode" where
  "SetIV c iv = c\<lparr>cbc_iv := iv\<rparr>"

definition CryptBlocks :: "cbcMode \<Rightarrow> bytes \<Rightarrow> bytes \<times> cbcMode" where
  "CryptBlocks c src = (cbc_crypt c (cbc_iv c) src, c\<lparr>cbc_iv := cbc_chain c (cbc_iv c) src\<rparr>)"

datatype cipher = Stream stream | Aead aead | Cbc cbcMode

record mac =
  mac_Sum :: "bytes \<Rightarrow> bytes"
  mac_Size :: nat

text \<open>The data past the MAC only evens out the running time.\<close>

definition tls10MAC :: "mac \<Rightarrow> bytes \<Rightarrow> bytes \<Rightarrow> bytes \<Rightarrow> bytes" where
  "tls10MAC h seq header data = mac_Sum h (seq @ header @ data)"

subsection \<open>The state of one direction\<close>

datatype conn_error =
    LocalAlert u8
  | RemoteAlert u8
  | RecordHeaderError string
  | IO_EOF
  | IO_ErrUnexpectedEOF
  | NetError bool
  | PermanentError conn_error
  | ErrorMsg string

text \<open>
  \<open>LocalAlert\<close> and \<open>RemoteAlert\<close> are the \<open>net.OpError\<close> values of an alert sent and received, which
  are net errors, as \<open>permanentError\<close> is; the flag of \<open>NetError\<close> is its \<open>Temporary()\<close>.
\<close>

fun is_net_error :: "conn_error \<Rightarrow> bool" where
  "is_net_error (LocalAlert _) = True"
| "is_net_error (RemoteAlert _) = True"
| "is_net_error (NetError _) = True"
| "is_net_error (PermanentError _) = True"
| "is_net_error _ = False"

fun Temporary :: "conn_error \<Rightarrow> bool" where
  "Temporary (NetError t) = t"
| "Temporary _ = False"

record halfConn =
  hc_handshakeLen :: "int list"
  hc_handshakeBuf :: "bytes option"
  hc_err :: "conn_error option"
  hc_version :: u16
  hc_cipher :: "cipher option"
  hc_mac :: "mac option"
  hc_seq :: bytes
  hc_nextCipher :: "cipher option"
  hc_nextMac :: "mac option"
  hc_level :: nat
  hc_trafficSecret :: bytes

text \<open>\<open>setErrorLocked\<close> records the error for good, a net error wrapped as permanent, and returns it.\<close>

definition setErrorLocked :: "halfConn \<Rightarrow> conn_error option \<Rightarrow> conn_error option \<times> halfConn" where
  "setErrorLocked hc err =
     (let err = (case err of
                   Some e \<Rightarrow> Some (if is_net_error e then PermanentError e else e)
                 | None \<Rightarrow> None)
      in (err, hc\<lparr>hc_err := err\<rparr>))"

definition prepareCipherSpec :: "halfConn \<Rightarrow> u16 \<Rightarrow> cipher option \<Rightarrow> mac option \<Rightarrow> halfConn" where
  "prepareCipherSpec hc version cipher mac =
     hc\<lparr>hc_version := version, hc_nextCipher := cipher, hc_nextMac := mac\<rparr>"

definition changeCipherSpec :: "halfConn \<Rightarrow> u8 + halfConn" where
  "changeCipherSpec hc =
     (if hc_nextCipher hc = None \<or> hc_version hc = VersionTLS13 then Inl alertInternalError
      else Inr (hc\<lparr>hc_cipher := hc_nextCipher hc, hc_mac := hc_nextMac hc, hc_nextCipher := None,
                  hc_nextMac := None, hc_seq := replicate 8 0\<rparr>))"

text \<open>The key derivation and the AEAD constructor of the suite are those of \<open>key_schedule.go\<close>.\<close>

definition setTrafficSecret :: "halfConn \<Rightarrow> (bytes \<Rightarrow> bytes \<times> bytes) \<Rightarrow> (bytes \<Rightarrow> bytes \<Rightarrow> aead) \<Rightarrow>
    nat \<Rightarrow> bytes \<Rightarrow> halfConn" where
  "setTrafficSecret hc trafficKey suite_aead level secret =
     (let (key, iv) = trafficKey secret
      in hc\<lparr>hc_trafficSecret := secret, hc_level := level, hc_cipher := Some (Aead (suite_aead key iv)),
           hc_seq := replicate 8 0\<rparr>)"

text \<open>\<open>for i := 7; i >= 0; i--\<close>: the first argument is \<open>i + 1\<close>.\<close>

fun incSeq_loop :: "nat \<Rightarrow> bytes \<Rightarrow> bytes may_panic" where
  "incSeq_loop 0 seq = Inl (PanicMsg ''TLS: sequence number wraparound'')"
| "incSeq_loop (Suc i) seq =
     (let seq = seq[i := seq ! i + 1]
      in if seq ! i \<noteq> 0 then Inr seq else incSeq_loop i seq)"

definition incSeq :: "halfConn \<Rightarrow> halfConn may_panic" where
  "incSeq hc = map_sum id (\<lambda>seq. hc\<lparr>hc_seq := seq\<rparr>) (incSeq_loop 8 (hc_seq hc))"

definition explicitNonceLen :: "halfConn \<Rightarrow> nat" where
  "explicitNonceLen hc =
     (case hc_cipher hc of
        None \<Rightarrow> 0
      | Some (Stream s) \<Rightarrow> 0
      | Some (Aead a) \<Rightarrow> aead_explicitNonceLen a
      | Some (Cbc c) \<Rightarrow> if hc_version hc \<ge> VersionTLS11 then cbc_BlockSize c else 0)"

subsection \<open>CBC padding\<close>

text \<open>
  \<open>byte(int32(^t) >> 31)\<close>: all ones if bit 31 of \<open>t\<close> is clear, else zero. The loop checks
  the last bytes one by one.
\<close>

definition msb_mask :: "u64 \<Rightarrow> u8" where
  "msb_mask t = ucast (signed_drop_bit 31 (ucast (NOT t) :: 32 word))"

definition padding_step :: "bytes \<Rightarrow> u8 \<Rightarrow> nat \<Rightarrow> u8 \<Rightarrow> u8" where
  "padding_step payload paddingLen i good =
     (let t = ucast paddingLen - of_nat i;
          m = msb_mask t;
          b = payload ! (length payload - 1 - i)
      in good AND NOT ((m AND paddingLen) XOR (m AND b)))"

definition collapse_good :: "u8 \<Rightarrow> u8" where
  "collapse_good good =
     (let good = good AND push_bit 4 good;
          good = good AND push_bit 2 good;
          good = good AND push_bit 1 good
      in signed_drop_bit 7 good)"

definition extractPadding :: "bytes \<Rightarrow> nat \<times> u8" where
  "extractPadding payload =
     (if length payload < 1 then (0, 0)
      else
        let paddingLen = payload ! (length payload - 1);
            t = of_nat (length payload - 1) - ucast paddingLen;
            good = msb_mask t;
            toCheck = (if 256 > length payload then length payload else 256);
            good = fold (padding_step payload paddingLen) [0..<toCheck] good;
            good = collapse_good good;
            paddingLen = paddingLen AND good
        in (unat paddingLen + 1, good))"

definition roundUp :: "nat \<Rightarrow> nat \<Rightarrow> nat" where
  "roundUp a b = a + (b - a mod b) mod b"

subsection \<open>Decryption\<close>

text \<open>The inner content type is the last byte that is not zero; the first argument is \<open>i + 1\<close>.\<close>

fun scan_type :: "nat \<Rightarrow> bytes \<Rightarrow> (u8 \<times> bytes) option" where
  "scan_type 0 plaintext = None"
| "scan_type (Suc i) plaintext =
     (if plaintext ! i \<noteq> 0 then Some (plaintext ! i, take i plaintext) else scan_type i plaintext)"

definition unwrap_tls13 :: "u8 \<Rightarrow> bytes \<Rightarrow> u8 + u8 \<times> bytes" where
  "unwrap_tls13 typ plaintext =
     (if typ \<noteq> recordTypeApplicationData then Inl alertUnexpectedMessage
      else if length plaintext > maxPlaintext + 1 then Inl alertRecordOverflow
      else if plaintext = [] then Inr (typ, plaintext)
      else case scan_type (length plaintext) plaintext of
             Some r \<Rightarrow> Inr r
           | None \<Rightarrow> Inl alertUnexpectedMessage)"

text \<open>
  What the cipher stage hands on: the payload (decrypted in place), the plaintext (set only
  by an AEAD), and the padding of CBC.
\<close>

record opened =
  op_payload :: bytes
  op_plaintext :: bytes
  op_paddingLen :: nat
  op_paddingGood :: u8

definition aead_additional :: "halfConn \<Rightarrow> bytes \<Rightarrow> nat \<Rightarrow> int \<Rightarrow> bytes" where
  "aead_additional hc record hdr n =
     hc_seq hc @ take hdr record @ [word_of_int (n div 256), word_of_int n]"

definition open_cipher :: "halfConn \<Rightarrow> bytes \<Rightarrow> bytes \<Rightarrow> cipher \<Rightarrow> ((u8 + opened) \<times> cipher) may_panic" where
  "open_cipher hc record payload ciph =
    (let enl = explicitNonceLen hc in
     case ciph of
       Stream s \<Rightarrow>
         (let (payload, s) = XORKeyStream s payload
          in Inr (Inr \<lparr>op_payload = payload, op_plaintext = [], op_paddingLen = 0, op_paddingGood = 255\<rparr>,
                  Stream s))
     | Aead a \<Rightarrow>
         if length payload < enl then Inr (Inl alertBadRecordMAC, ciph)
         else
           let nonce = take enl payload;
               nonce = (if length nonce = 0 then hc_seq hc else nonce);
               payload = drop enl payload;
               additionalData = (if hc_version hc = VersionTLS13 then take recordHeaderLen record
                 else aead_additional hc record 3 (int (length payload) - int (aead_Overhead a)))
           in (case aead_Open a nonce payload additionalData of
                 (None, a) \<Rightarrow> Inr (Inl alertBadRecordMAC, Aead a)
               | (Some plaintext, a) \<Rightarrow>
                   Inr (Inr \<lparr>op_payload = payload, op_plaintext = plaintext, op_paddingLen = 0,
                             op_paddingGood = 255\<rparr>, Aead a))
     | Cbc c \<Rightarrow>
         (case hc_mac hc of
            None \<Rightarrow> Inl NilDeref
          | Some h \<Rightarrow>
              let blockSize = cbc_BlockSize c;
                  minPayload = enl + roundUp (mac_Size h + 1) blockSize
              in if length payload mod blockSize \<noteq> 0 \<or> length payload < minPayload
                 then Inr (Inl alertBadRecordMAC, ciph)
                 else
                   let (c, payload) = (if enl > 0 then (SetIV c (take enl payload), drop enl payload)
                                       else (c, payload));
                       (payload, c) = CryptBlocks c payload;
                       (paddingLen, paddingGood) = extractPadding payload
                   in Inr (Inr \<lparr>op_payload = payload, op_plaintext = [], op_paddingLen = paddingLen,
                                op_paddingGood = paddingGood\<rparr>, Cbc c)))"

definition check_mac :: "halfConn \<Rightarrow> mac \<Rightarrow> bytes \<Rightarrow> opened \<Rightarrow> u8 + bytes" where
  "check_mac hc h record op =
    (let payload = op_payload op;
         macSize = mac_Size h
     in if length payload < macSize then Inl alertBadRecordMAC
        else
          let n = int (length payload) - int macSize - int (op_paddingLen op);
              n = (if bit (word_of_int n :: u32) 31 then 0 else nat n);
              record = record[3 := of_nat (n div 256), 4 := of_nat n];
              remoteMAC = take macSize (drop n payload);
              localMAC = tls10MAC h (hc_seq hc) (take recordHeaderLen record) (take n payload);
              macAndPaddingGood = (if localMAC = remoteMAC then 1 else 0) AND op_paddingGood op
          in if macAndPaddingGood \<noteq> 1 then Inl alertBadRecordMAC else Inr (take n payload))"

definition finish_decrypt :: "halfConn \<Rightarrow> bytes \<Rightarrow> u8 \<Rightarrow> opened \<Rightarrow> ((u8 + bytes \<times> u8) \<times> halfConn) may_panic" where
  "finish_decrypt hc record typ op =
    (case (case hc_mac hc of None \<Rightarrow> Inr (op_plaintext op) | Some h \<Rightarrow> check_mac hc h record op) of
       Inl a \<Rightarrow> Inr (Inl a, hc)
     | Inr plaintext \<Rightarrow>
         (case incSeq hc of
            Inl p \<Rightarrow> Inl p
          | Inr hc \<Rightarrow> Inr (Inr (plaintext, typ), hc)))"

definition decrypt :: "halfConn \<Rightarrow> bytes \<Rightarrow> ((u8 + bytes \<times> u8) \<times> halfConn) may_panic" where
  "decrypt hc record =
    (if length record < recordHeaderLen then Inl SliceBounds
     else
       let typ = record ! 0;
           payload = drop recordHeaderLen record
       in if hc_version hc = VersionTLS13 \<and> typ = recordTypeChangeCipherSpec then Inr (Inr (payload, typ), hc)
          else case hc_cipher hc of
                 None \<Rightarrow> finish_decrypt hc record typ \<lparr>op_payload = payload, op_plaintext = payload,
                           op_paddingLen = 0, op_paddingGood = 255\<rparr>
               | Some ciph \<Rightarrow>
                   (case open_cipher hc record payload ciph of
                      Inl p \<Rightarrow> Inl p
                    | Inr (Inl a, ciph) \<Rightarrow> Inr (Inl a, hc\<lparr>hc_cipher := Some ciph\<rparr>)
                    | Inr (Inr op, ciph) \<Rightarrow>
                        let hc = hc\<lparr>hc_cipher := Some ciph\<rparr> in
                        if hc_version hc = VersionTLS13 then
                          (case unwrap_tls13 typ (op_plaintext op) of
                             Inl a \<Rightarrow> Inr (Inl a, hc)
                           | Inr (typ, plaintext) \<Rightarrow>
                               finish_decrypt hc record typ (op\<lparr>op_plaintext := plaintext\<rparr>))
                        else finish_decrypt hc record typ op))"

subsection \<open>Encryption\<close>

text \<open>
  The slot of \<open>handshakeLen\<close> that a handshake message uses up, and the message type's own
  change of the record: a NewSessionTicket becomes an empty application data record.
\<close>

definition handshake_slot :: "u8 \<Rightarrow> nat option" where
  "handshake_slot typ =
    (if typ = typeEncryptedExtensions then Some 2
     else if typ = typeCertificate then Some 3
     else if typ = typeCertificateVerify then Some 4
     else if typ = typeFinished then Some 5
     else if typ = typeNewSessionTicket then Some 6
     else None)"

definition take_slot :: "halfConn \<Rightarrow> u8 \<Rightarrow> int \<times> halfConn" where
  "take_slot hc typ =
    (case handshake_slot typ of
       None \<Rightarrow> (0, hc)
     | Some i \<Rightarrow> (hc_handshakeLen hc ! i, hc\<lparr>hc_handshakeLen := (hc_handshakeLen hc)[i := 0]\<rparr>))"

text \<open>The zero bytes come from the 8192-byte buffer \<open>empty\<close> of \<open>tls.go\<close>.\<close>

abbreviation (input) empty_len :: int where "empty_len \<equiv> 8192"

definition pad_record :: "halfConn \<Rightarrow> aead \<Rightarrow> bytes \<Rightarrow> bytes \<Rightarrow> ((conn_error + bytes) \<times> halfConn) may_panic" where
  "pad_record hc a record payload =
    (if record ! 0 = recordTypeHandshake \<and> hc_handshakeLen hc ! 1 \<noteq> 0 then
       if payload = [] then Inl IndexOutOfRange
       else
         let (padding, hc) = take_slot hc (payload ! 0);
             record = (if payload ! 0 = typeNewSessionTicket
                       then record[5 := recordTypeApplicationData, 6 := 0] else record);
             padding = padding - (int (length record) + int (aead_Overhead a))
         in if padding < 0 then Inr (Inl (ErrorMsg ''padding''), hc)
            else if padding > empty_len then Inl SliceBounds
            else Inr (Inr (record @ replicate (nat padding) 0), hc)
     else Inr (Inr record, hc))"

definition seal_tls13 :: "halfConn \<Rightarrow> aead \<Rightarrow> bytes \<Rightarrow> bytes \<Rightarrow> bytes \<Rightarrow>
    ((conn_error + bytes) \<times> halfConn) may_panic" where
  "seal_tls13 hc a nonce record payload =
    (let record = record @ payload;
         record = record @ [record ! 0]
     in case pad_record hc a record payload of
          Inl p \<Rightarrow> Inl p
        | Inr (Inl e, hc) \<Rightarrow> Inr (Inl e, hc)
        | Inr (Inr record, hc) \<Rightarrow>
            let record = record[0 := recordTypeApplicationData];
                n = length record + aead_Overhead a - recordHeaderLen;
                record = record[3 := of_nat (n div 256), 4 := of_nat n];
                (sealed, a) = aead_Seal a nonce (drop recordHeaderLen record) (take recordHeaderLen record)
            in Inr (Inr (take recordHeaderLen record @ sealed), hc\<lparr>hc_cipher := Some (Aead a)\<rparr>))"

text \<open>
  \<open>rand\<close> is what the random source will return; \<open>io.ReadFull\<close> takes \<open>n\<close> bytes of it.
\<close>

definition explicit_nonce :: "halfConn \<Rightarrow> bytes \<Rightarrow> (conn_error + bytes) \<times> bytes" where
  "explicit_nonce hc rand =
    (let n = explicitNonceLen hc in
     if n = 0 then (Inr [], rand)
     else
       let isCBC = (case hc_cipher hc of Some (Cbc _) \<Rightarrow> True | _ \<Rightarrow> False) in
       if \<not> isCBC \<and> n < 16 then (Inr (take n (hc_seq hc @ replicate n 0)), rand)
       else if length rand < n then (Inl (if rand = [] then IO_EOF else IO_ErrUnexpectedEOF), [])
       else (Inr (take n rand), drop n rand))"

definition seal_cipher :: "halfConn \<Rightarrow> cipher \<Rightarrow> bytes \<Rightarrow> bytes \<Rightarrow> bytes \<Rightarrow>
    ((conn_error + bytes) \<times> halfConn) may_panic" where
  "seal_cipher hc ciph explicitNonce record payload =
    (case ciph of
       Stream s \<Rightarrow>
         (case hc_mac hc of
            None \<Rightarrow> Inl NilDeref
          | Some h \<Rightarrow>
              let mac = tls10MAC h (hc_seq hc) (take recordHeaderLen record) payload;
                  (x, s) = XORKeyStream s payload;
                  (y, s) = XORKeyStream s mac
              in Inr (Inr (record @ x @ y), hc\<lparr>hc_cipher := Some (Stream s)\<rparr>))
     | Aead a \<Rightarrow>
         let nonce = (if length explicitNonce = 0 then hc_seq hc else explicitNonce) in
         if hc_version hc = VersionTLS13 then seal_tls13 hc a nonce record payload
         else
           let additionalData = hc_seq hc @ take recordHeaderLen record;
               (sealed, a) = aead_Seal a nonce payload additionalData
           in Inr (Inr (record @ sealed), hc\<lparr>hc_cipher := Some (Aead a)\<rparr>)
     | Cbc c \<Rightarrow>
         (case hc_mac hc of
            None \<Rightarrow> Inl NilDeref
          | Some h \<Rightarrow>
              let mac = tls10MAC h (hc_seq hc) (take recordHeaderLen record) payload;
                  blockSize = cbc_BlockSize c;
                  plaintextLen = length payload + length mac;
                  paddingLen = blockSize - plaintextLen mod blockSize;
                  dst = payload @ mac @ replicate paddingLen (of_nat (paddingLen - 1));
                  c = (if length explicitNonce > 0 then SetIV c explicitNonce else c);
                  (dst, c) = CryptBlocks c dst
              in Inr (Inr (record @ dst), hc\<lparr>hc_cipher := Some (Cbc c)\<rparr>)))"

definition encrypt :: "halfConn \<Rightarrow> bytes \<Rightarrow> bytes \<Rightarrow> bytes \<Rightarrow>
    ((conn_error + bytes) \<times> halfConn \<times> bytes) may_panic" where
  "encrypt hc record payload rand =
    (case hc_cipher hc of
       None \<Rightarrow> Inr (Inr (record @ payload), hc, rand)
     | Some ciph \<Rightarrow>
         (case explicit_nonce hc rand of
            (Inl e, rand) \<Rightarrow> Inr (Inl e, hc, rand)
          | (Inr explicitNonce, rand) \<Rightarrow>
              (case seal_cipher hc ciph explicitNonce (record @ explicitNonce) payload of
                 Inl p \<Rightarrow> Inl p
               | Inr (Inl e, hc) \<Rightarrow> Inr (Inl e, hc, rand)
               | Inr (Inr record, hc) \<Rightarrow>
                   let n = length record - recordHeaderLen;
                       record = record[3 := of_nat (n div 256), 4 := of_nat n]
                   in (case incSeq hc of
                         Inl p \<Rightarrow> Inl p
                       | Inr hc \<Rightarrow> Inr (Inr record, hc, rand)))))"

end
