(* ===== verification/Conn.thy ===== *)
theory Conn
  imports Record_Layer
begin

text \<open>
  The connection, \<open>Conn\<close> of \<open>src/conn.go\<close>: its state and the writing half of the record
  layer, with the QUIC event queue of \<open>src/quic.go\<close> that replaces it on a QUIC transport.

  The network is part of the state. \<open>c_wire\<close> is what \<open>conn.Read\<close> will return, one element a
  call, with the end of the list an EOF for good; \<open>c_writes\<close> is the outcome of each
  \<open>conn.Write\<close> to come, where \<open>None\<close> and the end of the list are full writes and \<open>Some (k, e)\<close>
  writes \<open>k\<close> bytes and fails with \<open>e\<close>; \<open>c_sent\<close> is all that was written. A theorem that holds
  for every \<open>c_wire\<close> and \<open>c_writes\<close> holds for every peer and every way the transport cuts the
  stream into reads. \<open>c_rand\<close> is what the random source will return.

  The mutexes, deadlines and the \<open>sync.Pool\<close> of output buffers have no state that these
  functions' results depend on and are left out.
\<close>

abbreviation (input) alertLevelWarning :: u8 where "alertLevelWarning \<equiv> 1"
abbreviation (input) alertLevelError :: u8 where "alertLevelError \<equiv> 2"
abbreviation (input) alertProtocolVersion :: u8 where "alertProtocolVersion \<equiv> 70"
abbreviation (input) alertUserCanceled :: u8 where "alertUserCanceled \<equiv> 90"
abbreviation (input) alertNoRenegotiation :: u8 where "alertNoRenegotiation \<equiv> 100"
abbreviation (input) maxUselessRecords :: int where "maxUselessRecords \<equiv> 32"
abbreviation (input) maxHandshake :: nat where "maxHandshake \<equiv> 65536"
abbreviation (input) maxHandshakeCertificateMsg :: nat where "maxHandshakeCertificateMsg \<equiv> 262144"

datatype read_event = Chunk bytes | ReadErr conn_error

subsection \<open>QUIC events\<close>

datatype QUICEvent =
    QUICSetReadSecret nat u16 bytes
  | QUICSetWriteSecret nat u16 bytes
  | QUICWriteData nat bytes
  | QUICTransportParameters bytes
  | QUICTransportParametersRequired
  | QUICRejectedEarlyData
  | QUICHandshakeDone

text \<open>
  \<open>q_signals\<close> is what the QUIC layer will provide: each element the contents of \<open>readbuf\<close> at one
  signal, and the end of the list the cancellation of the connection.
\<close>

record quicState =
  q_events :: "QUICEvent list"
  q_signals :: "bytes list"

subsection \<open>State\<close>

record conn =
  c_isClient :: bool
  c_quic :: "quicState option"
  c_isHandshakeComplete :: bool
  c_handshakeErr :: "conn_error option"
  c_vers :: u16
  c_haveVers :: bool
  c_handshakes :: nat
  c_cipherSuite :: u16
  c_in :: halfConn
  c_out :: halfConn
  c_rawInput :: bytes
  c_input :: bytes
  c_hand :: bytes
  c_buffering :: bool
  c_sendBuf :: bytes
  c_bytesSent :: nat
  c_packetsSent :: nat
  c_retryCount :: int
  c_MaxUselessRecords :: int
  c_closeNotifySent :: bool
  c_closeNotifyErr :: "conn_error option"
  c_activeCall :: int
  c_DynamicRecordSizingDisabled :: bool
  c_Renegotiation :: nat
  c_wire :: "read_event list"
  c_writes :: "(nat \<times> conn_error) option list"
  c_sent :: bytes
  c_closed :: bool
  c_rand :: bytes

definition in_setErrorLocked :: "conn \<Rightarrow> conn_error option \<Rightarrow> conn_error option \<times> conn" where
  "in_setErrorLocked c err = (let (e, hc) = setErrorLocked (c_in c) err in (e, c\<lparr>c_in := hc\<rparr>))"

definition out_setErrorLocked :: "conn \<Rightarrow> conn_error option \<Rightarrow> conn_error option \<times> conn" where
  "out_setErrorLocked c err = (let (e, hc) = setErrorLocked (c_out c) err in (e, c\<lparr>c_out := hc\<rparr>))"

subsection \<open>QUIC\<close>

definition push_event :: "conn \<Rightarrow> QUICEvent \<Rightarrow> conn" where
  "push_event c e = c\<lparr>c_quic := map_option (\<lambda>q. q\<lparr>q_events := q_events q @ [e]\<rparr>) (c_quic c)\<rparr>"

definition quicSetReadSecret :: "conn \<Rightarrow> nat \<Rightarrow> u16 \<Rightarrow> bytes \<Rightarrow> conn" where
  "quicSetReadSecret c level suite secret = push_event c (QUICSetReadSecret level suite secret)"

definition quicSetWriteSecret :: "conn \<Rightarrow> nat \<Rightarrow> u16 \<Rightarrow> bytes \<Rightarrow> conn" where
  "quicSetWriteSecret c level suite secret = push_event c (QUICSetWriteSecret level suite secret)"

definition quicHandshakeComplete :: "conn \<Rightarrow> conn" where
  "quicHandshakeComplete c = push_event c QUICHandshakeDone"

definition quicRejectedEarlyData :: "conn \<Rightarrow> conn" where
  "quicRejectedEarlyData c = push_event c QUICRejectedEarlyData"

definition quicSetTransportParameters :: "conn \<Rightarrow> bytes \<Rightarrow> conn" where
  "quicSetTransportParameters c params = push_event c (QUICTransportParameters params)"

text \<open>Consecutive data of one level is gathered into one event.\<close>

definition add_crypto_data :: "nat \<Rightarrow> bytes \<Rightarrow> QUICEvent list \<Rightarrow> QUICEvent list" where
  "add_crypto_data level data events =
     (case (if events = [] then None else Some (last events)) of
        Some (QUICWriteData l d) \<Rightarrow>
          if l = level then butlast events @ [QUICWriteData l (d @ data)]
          else events @ [QUICWriteData level data]
      | _ \<Rightarrow> events @ [QUICWriteData level data])"

definition quicWriteCryptoData :: "conn \<Rightarrow> nat \<Rightarrow> bytes \<Rightarrow> conn" where
  "quicWriteCryptoData c level data =
     c\<lparr>c_quic := map_option (\<lambda>q. q\<lparr>q_events := add_crypto_data level data (q_events q)\<rparr>) (c_quic c)\<rparr>"

subsection \<open>Record sizes\<close>

abbreviation (input) tcpMSSEstimate :: int where "tcpMSSEstimate \<equiv> 1208"
abbreviation (input) recordSizeBoostThreshold :: nat where "recordSizeBoostThreshold \<equiv> 131072"

text \<open>The bytes left of a TCP segment for the payload, before the TLS 1.3 type byte.\<close>

definition payload_bytes :: "halfConn \<Rightarrow> int may_panic" where
  "payload_bytes out =
    (let payloadBytes = tcpMSSEstimate - int recordHeaderLen - int (explicitNonceLen out) in
     case hc_cipher out of
       None \<Rightarrow> Inr payloadBytes
     | Some (Stream s) \<Rightarrow>
         (case hc_mac out of None \<Rightarrow> Inl NilDeref | Some h \<Rightarrow> Inr (payloadBytes - int (mac_Size h)))
     | Some (Aead a) \<Rightarrow> Inr (payloadBytes - int (aead_Overhead a))
     | Some (Cbc b) \<Rightarrow>
         (case hc_mac out of
            None \<Rightarrow> Inl NilDeref
          | Some h \<Rightarrow>
              Inr ((payloadBytes AND NOT (int (cbc_BlockSize b) - 1)) - 1 - int (mac_Size h))))"

definition maxPayloadSizeForWrite :: "conn \<Rightarrow> u8 \<Rightarrow> (int \<times> conn) may_panic" where
  "maxPayloadSizeForWrite c typ =
    (if c_DynamicRecordSizingDisabled c \<or> typ \<noteq> recordTypeApplicationData then Inr (int maxPlaintext, c)
     else if c_bytesSent c \<ge> recordSizeBoostThreshold then Inr (int maxPlaintext, c)
     else case payload_bytes (c_out c) of
            Inl p \<Rightarrow> Inl p
          | Inr payloadBytes \<Rightarrow>
              let payloadBytes = (if c_vers c = VersionTLS13 then payloadBytes - 1 else payloadBytes);
                  pkt = c_packetsSent c;
                  c = c\<lparr>c_packetsSent := pkt + 1\<rparr>
              in if pkt > 1000 then Inr (int maxPlaintext, c)
                 else let n = payloadBytes * int (pkt + 1)
                      in Inr (if n > int maxPlaintext then int maxPlaintext else n, c))"

subsection \<open>Writing to the transport\<close>

fun net_Write :: "conn \<Rightarrow> bytes \<Rightarrow> (nat \<times> conn_error option) \<times> conn" where
  "net_Write c data =
     (case c_writes c of
        Some (k, e) # ws \<Rightarrow>
          ((min k (length data), Some e), c\<lparr>c_writes := ws, c_sent := c_sent c @ take k data\<rparr>)
      | None # ws \<Rightarrow> ((length data, None), c\<lparr>c_writes := ws, c_sent := c_sent c @ data\<rparr>)
      | [] \<Rightarrow> ((length data, None), c\<lparr>c_sent := c_sent c @ data\<rparr>))"

definition conn_write :: "conn \<Rightarrow> bytes \<Rightarrow> (nat \<times> conn_error option) \<times> conn" where
  "conn_write c data =
     (if c_buffering c then ((length data, None), c\<lparr>c_sendBuf := c_sendBuf c @ data\<rparr>)
      else
        let ((n, err), c) = net_Write c data
        in ((n, err), c\<lparr>c_bytesSent := c_bytesSent c + n\<rparr>))"

definition flush :: "conn \<Rightarrow> (nat \<times> conn_error option) \<times> conn" where
  "flush c =
     (if c_sendBuf c = [] then ((0, None), c)
      else
        let ((n, err), c) = net_Write c (c_sendBuf c)
        in ((n, err), c\<lparr>c_bytesSent := c_bytesSent c + n, c_sendBuf := [], c_buffering := False\<rparr>))"

subsection \<open>Writing records\<close>

definition record_header :: "u8 \<Rightarrow> u16 \<Rightarrow> nat \<Rightarrow> bytes" where
  "record_header typ vers m =
     (let vers = (if vers = 0 then VersionTLS10 else if vers = VersionTLS13 then VersionTLS12 else vers)
      in [typ, ucast (drop_bit 8 vers), ucast vers, of_nat (m div 256), of_nat m])"

lemma maxPayload_progress:
  assumes "maxPayloadSizeForWrite c typ = Inr (k, c')" "k \<le> 0"
  shows "c_packetsSent c \<le> 1000" "c_packetsSent c' = Suc (c_packetsSent c)"
  using assms
  by (auto simp: maxPayloadSizeForWrite_def Let_def split: if_splits sum.splits)

lemma packetsSent_write: "conn_write c data = (r, c') \<Longrightarrow> c_packetsSent c' = c_packetsSent c"
  by (auto simp: conn_write_def Let_def split: if_splits prod.splits list.splits option.splits)

lemma write_loop_progress:
  assumes "maxPayloadSizeForWrite c typ = Inr (k, c1)" "data \<noteq> []"
    and "conn_write (c1\<lparr>c_out := out, c_rand := rand\<rparr>) outBuf = (r, c2)"
    and "\<not> (if int (length data) > k then k else int (length data)) < 0"
  shows "length (drop (nat (if int (length data) > k then k else int (length data))) data) < length data \<or>
    length (drop (nat (if int (length data) > k then k else int (length data))) data) = length data \<and>
      1001 - c_packetsSent c2 < 1001 - c_packetsSent c"
  using maxPayload_progress [OF assms(1)] packetsSent_write [OF assms(3)] assms(2,4)
  by (cases "k = 0") auto

text \<open>
  The loop of \<open>writeRecordLocked\<close>. A payload size of zero makes no progress in the data, but it
  raises \<open>packetsSent\<close>, and past 1000 the size is \<open>maxPlaintext\<close>: the loop ends for every cipher.
\<close>

function write_loop :: "u8 \<Rightarrow> bytes \<Rightarrow> nat \<Rightarrow> conn \<Rightarrow> ((nat \<times> conn_error option) \<times> conn) may_panic" where
  "write_loop typ data n c =
    (if data = [] then Inr ((n, None), c)
     else case maxPayloadSizeForWrite c typ of
            Inl p \<Rightarrow> Inl p
          | Inr (maxPayload, c) \<Rightarrow>
              let m = (if int (length data) > maxPayload then maxPayload else int (length data)) in
              if m < 0 then Inl SliceBounds
              else (case encrypt (c_out c) (record_header typ (c_vers c) (nat m)) (take (nat m) data) (c_rand c) of
                      Inl p \<Rightarrow> Inl p
                    | Inr (Inl e, out, rand) \<Rightarrow> Inr ((n, Some e), c\<lparr>c_out := out, c_rand := rand\<rparr>)
                    | Inr (Inr outBuf, out, rand) \<Rightarrow>
                        (case conn_write (c\<lparr>c_out := out, c_rand := rand\<rparr>) outBuf of
                           ((_, Some e), c) \<Rightarrow> Inr ((n, Some e), c)
                         | ((_, None), c) \<Rightarrow> write_loop typ (drop (nat m) data) (n + nat m) c)))"
  by pat_completeness auto

termination
  by (relation "measures [\<lambda>(typ, data, n, c). length data, \<lambda>(typ, data, n, c). 1001 - c_packetsSent c]")
    (simp, simp only: in_measures prod.case, metis write_loop_progress)

declare write_loop.simps [simp del]

text \<open>
  \<open>writeRecordLocked\<close> up to the change of cipher that follows a ChangeCipherSpec record. An
  alert has no such end, so this is all of it that \<open>sendAlertLocked\<close> calls.
\<close>

definition write_record_body :: "conn \<Rightarrow> u8 \<Rightarrow> bytes \<Rightarrow> ((nat \<times> conn_error option) \<times> conn) may_panic" where
  "write_record_body c typ data =
    (if c_quic c \<noteq> None then
       if typ \<noteq> recordTypeHandshake then
         Inr ((0, Some (ErrorMsg ''tls: internal error: sending non-handshake message to QUIC transport'')), c)
       else
         let c = quicWriteCryptoData c (hc_level (c_out c)) data in
         if \<not> c_buffering c then
           (case flush c of
              ((_, Some e), c) \<Rightarrow> Inr ((0, Some e), c)
            | ((_, None), c) \<Rightarrow> Inr ((length data, None), c))
         else Inr ((length data, None), c)
     else write_loop typ data 0 c)"

definition alert_level :: "u8 \<Rightarrow> u8" where
  "alert_level a = (if a = alertNoRenegotiation \<or> a = alertCloseNotify then alertLevelWarning else alertLevelError)"

definition sendAlertLocked :: "conn \<Rightarrow> u8 \<Rightarrow> (conn_error option \<times> conn) may_panic" where
  "sendAlertLocked c a =
    (if c_quic c \<noteq> None then Inr (out_setErrorLocked c (Some (LocalAlert a)))
     else case write_record_body c recordTypeAlert [alert_level a, a] of
            Inl p \<Rightarrow> Inl p
          | Inr ((_, writeErr), c) \<Rightarrow>
              if a = alertCloseNotify then Inr (writeErr, c)
              else Inr (out_setErrorLocked c (Some (LocalAlert a))))"

definition sendAlert :: "conn \<Rightarrow> u8 \<Rightarrow> (conn_error option \<times> conn) may_panic" where
  "sendAlert c a = sendAlertLocked c a"

definition writeRecordLocked :: "conn \<Rightarrow> u8 \<Rightarrow> bytes \<Rightarrow> ((nat \<times> conn_error option) \<times> conn) may_panic" where
  "writeRecordLocked c typ data =
    (case write_record_body c typ data of
       Inl p \<Rightarrow> Inl p
     | Inr ((n, Some e), c) \<Rightarrow> Inr ((n, Some e), c)
     | Inr ((n, None), c) \<Rightarrow>
         if c_quic c = None \<and> typ = recordTypeChangeCipherSpec \<and> c_vers c \<noteq> VersionTLS13 then
           (case changeCipherSpec (c_out c) of
              Inl a \<Rightarrow> map_sum id (\<lambda>(e, c). ((n, e), c)) (sendAlertLocked c a)
            | Inr out \<Rightarrow> Inr ((n, None), c\<lparr>c_out := out\<rparr>))
         else Inr ((n, None), c))"

text \<open>
  The buffer that gathers the server's flight, from the first message after the ServerHello up
  to the Finished, which is sent together with what was gathered.
\<close>

definition gather_handshake :: "conn \<Rightarrow> bytes \<Rightarrow> ((nat \<times> conn_error option) \<times> conn) may_panic" where
  "gather_handshake c data =
    (case hc_handshakeBuf (c_out c) of
       Some buf \<Rightarrow>
         if data \<noteq> [] \<and> data ! 0 \<noteq> typeServerHello then
           if data ! 0 \<noteq> typeFinished
           then Inr ((length data, None), c\<lparr>c_out := (c_out c)\<lparr>hc_handshakeBuf := Some (buf @ data)\<rparr>\<rparr>)
           else writeRecordLocked (c\<lparr>c_out := (c_out c)\<lparr>hc_handshakeBuf := None\<rparr>\<rparr>) recordTypeHandshake (buf @ data)
         else writeRecordLocked c recordTypeHandshake data
     | None \<Rightarrow> writeRecordLocked c recordTypeHandshake data)"

definition writeRecord :: "conn \<Rightarrow> u8 \<Rightarrow> bytes \<Rightarrow> ((nat \<times> conn_error option) \<times> conn) may_panic" where
  "writeRecord c typ data =
    (if typ = recordTypeHandshake then gather_handshake c data else writeRecordLocked c typ data)"

definition writeChangeCipherRecord :: "conn \<Rightarrow> (conn_error option \<times> conn) may_panic" where
  "writeChangeCipherRecord c =
    map_sum id (\<lambda>((_, err), c). (err, c)) (writeRecordLocked c recordTypeChangeCipherSpec [1])"

subsection \<open>Handshake, Write and Close\<close>

text \<open>
  \<open>handshakeContext\<close> under a context that cannot be cancelled; \<open>handshakeFn\<close> is the client's or
  the server's handshake.
\<close>

type_synonym handshake_fn = "conn \<Rightarrow> (conn_error option \<times> conn) may_panic"

definition handshakeContext :: "handshake_fn \<Rightarrow> conn \<Rightarrow> (conn_error option \<times> conn) may_panic" where
  "handshakeContext handshakeFn c =
    (if c_isHandshakeComplete c then Inr (None, c)
     else if c_handshakeErr c \<noteq> None then Inr (c_handshakeErr c, c)
     else case handshakeFn c of
            Inl p \<Rightarrow> Inl p
          | Inr (err, c) \<Rightarrow>
              let c = (if err = None then c\<lparr>c_handshakes := c_handshakes c + 1\<rparr> else snd (flush c));
                  err = (if err = None \<and> \<not> c_isHandshakeComplete c
                         then Some (ErrorMsg ''tls: internal error: handshake should have had a result'') else err)
              in if err \<noteq> None \<and> c_isHandshakeComplete c
                 then Inl (PanicMsg ''tls: internal error: handshake returned an error but is marked successful'')
                 else
                   let c = c\<lparr>c_handshakeErr := err\<rparr>;
                       c = (if c_quic c \<noteq> None \<and> err = None
                            then quicSetReadSecret (quicHandshakeComplete c) 3 (c_cipherSuite c) (hc_trafficSecret (c_in c))
                            else c)
                   in Inr (err, c))"

definition write_data :: "conn \<Rightarrow> bytes \<Rightarrow> ((nat \<times> conn_error option) \<times> conn) may_panic" where
  "write_data c b =
    (case hc_err (c_out c) of
       Some e \<Rightarrow> Inr ((0, Some e), c)
     | None \<Rightarrow>
         if \<not> c_isHandshakeComplete c then Inr ((0, Some (ErrorMsg ''tls: internal error'')), c)
         else if c_closeNotifySent c then Inr ((0, Some (ErrorMsg ''tls: protocol is shutdown'')), c)
         else
           let split = (length b > 1 \<and> c_vers c = VersionTLS10 \<and>
                        (case hc_cipher (c_out c) of Some (Cbc _) \<Rightarrow> True | _ \<Rightarrow> False));
               finish = (\<lambda>m c b.
                 (case writeRecordLocked c recordTypeApplicationData b of
                    Inl p \<Rightarrow> Inl p
                  | Inr ((n, err), c) \<Rightarrow>
                      let (err, c) = out_setErrorLocked c err in Inr ((n + m, err), c)))
           in if split then
                (case writeRecordLocked c recordTypeApplicationData (take 1 b) of
                   Inl p \<Rightarrow> Inl p
                 | Inr ((n, Some e), c) \<Rightarrow> let (err, c) = out_setErrorLocked c (Some e) in Inr ((n, err), c)
                 | Inr ((n, None), c) \<Rightarrow> finish 1 c (drop 1 b))
              else finish 0 c b)"

text \<open>\<open>activeCall\<close> holds twice the number of writers, plus one once \<open>Close\<close> was called.\<close>

definition Write :: "handshake_fn \<Rightarrow> conn \<Rightarrow> bytes \<Rightarrow> ((nat \<times> conn_error option) \<times> conn) may_panic" where
  "Write handshakeFn c b =
    (if odd (c_activeCall c) then Inr ((0, Some (ErrorMsg ''use of closed network connection'')), c)
     else
       let c = c\<lparr>c_activeCall := c_activeCall c + 2\<rparr>;
           done = (\<lambda>(r, c). (r, c\<lparr>c_activeCall := c_activeCall c - 2\<rparr>))
       in (case handshakeContext handshakeFn c of
             Inl p \<Rightarrow> Inl p
           | Inr (Some e, c) \<Rightarrow> Inr (done ((0, Some e), c))
           | Inr (None, c) \<Rightarrow> map_sum id done (write_data c b)))"

definition closeNotify :: "conn \<Rightarrow> (conn_error option \<times> conn) may_panic" where
  "closeNotify c =
    (if c_closeNotifySent c then Inr (c_closeNotifyErr c, c)
     else case sendAlertLocked c alertCloseNotify of
            Inl p \<Rightarrow> Inl p
          | Inr (err, c) \<Rightarrow> Inr (err, c\<lparr>c_closeNotifyErr := err, c_closeNotifySent := True\<rparr>))"

text \<open>\<open>closeErr\<close> is what \<open>conn.Close\<close> of the transport returns.\<close>

definition Close :: "conn_error option \<Rightarrow> conn \<Rightarrow> (conn_error option \<times> conn) may_panic" where
  "Close closeErr c =
    (let x = c_activeCall c in
     if odd x then Inr (Some (ErrorMsg ''use of closed network connection''), c)
     else
       let c = c\<lparr>c_activeCall := x + 1\<rparr> in
       if x \<noteq> 0 then Inr (closeErr, c\<lparr>c_closed := True\<rparr>)
       else case (if c_isHandshakeComplete c then closeNotify c else Inr (None, c)) of
              Inl p \<Rightarrow> Inl p
            | Inr (alertErr, c) \<Rightarrow>
                Inr (if closeErr \<noteq> None then closeErr else alertErr, c\<lparr>c_closed := True\<rparr>))"

definition CloseWrite :: "conn \<Rightarrow> (conn_error option \<times> conn) may_panic" where
  "CloseWrite c =
    (if \<not> c_isHandshakeComplete c then Inr (Some (ErrorMsg ''tls: CloseWrite called before handshake complete''), c)
     else closeNotify c)"

subsection \<open>Reading records\<close>

text \<open>
  \<open>readFromUntil\<close> over the reads to come: \<open>atLeastReader\<close> turns an EOF that comes too early into
  \<open>io.ErrUnexpectedEOF\<close> and passes other errors on.
\<close>

fun read_until :: "nat \<Rightarrow> bytes \<Rightarrow> read_event list \<Rightarrow> conn_error option \<times> bytes \<times> read_event list" where
  "read_until n raw [] = (if length raw \<ge> n then None else Some IO_ErrUnexpectedEOF, raw, [])"
| "read_until n raw (ev # wire) =
     (if length raw \<ge> n then (None, raw, ev # wire)
      else case ev of
             Chunk b \<Rightarrow> read_until n (raw @ b) wire
           | ReadErr e \<Rightarrow> (Some (if e = IO_EOF then IO_ErrUnexpectedEOF else e), raw, wire))"

definition readFromUntil :: "conn \<Rightarrow> nat \<Rightarrow> conn_error option \<times> conn" where
  "readFromUntil c n =
     (let (err, raw, wire) = read_until n (c_rawInput c) (c_wire c)
      in (err, c\<lparr>c_rawInput := raw, c_wire := wire\<rparr>))"

text \<open>How one record ends: with the result of the call, or dropped and to be read again.\<close>

datatype outcome = Done "conn_error option" | Retry

definition fail_in :: "conn \<Rightarrow> conn_error \<Rightarrow> (outcome \<times> conn) may_panic" where
  "fail_in c e = (let (err, c) = in_setErrorLocked c (Some e) in Inr (Done err, c))"

text \<open>\<open>c.in.setErrorLocked(c.sendAlert(a))\<close>, and \<open>c.sendAlert(a)\<close> followed by another error.\<close>

definition alert_in :: "conn \<Rightarrow> u8 \<Rightarrow> (outcome \<times> conn) may_panic" where
  "alert_in c a =
    (case sendAlert c a of
       Inl p \<Rightarrow> Inl p
     | Inr (err, c) \<Rightarrow> let (err, c) = in_setErrorLocked c err in Inr (Done err, c))"

definition alert_then :: "conn \<Rightarrow> u8 \<Rightarrow> conn_error \<Rightarrow> (outcome \<times> conn) may_panic" where
  "alert_then c a e =
    (case sendAlert c a of
       Inl p \<Rightarrow> Inl p
     | Inr (_, c) \<Rightarrow> fail_in c e)"

text \<open>An error of the transport stays for good unless it is a temporary net error.\<close>

definition read_failed :: "conn \<Rightarrow> conn_error \<Rightarrow> outcome \<times> conn" where
  "read_failed c err =
     (let c = (if \<not> is_net_error err \<or> \<not> Temporary err then snd (in_setErrorLocked c (Some err)) else c)
      in (Done (Some err), c))"

definition handle_alert :: "conn \<Rightarrow> bytes \<Rightarrow> (outcome \<times> conn) may_panic" where
  "handle_alert c data =
    (if c_quic c \<noteq> None then alert_in c alertUnexpectedMessage
     else if length data \<noteq> 2 then alert_in c alertUnexpectedMessage
     else if data ! 1 = alertCloseNotify then fail_in c IO_EOF
     else if c_vers c = VersionTLS13 then
       if data ! 1 = alertUserCanceled then Inr (Retry, c) else fail_in c (RemoteAlert (data ! 1))
     else if data ! 0 = alertLevelWarning then Inr (Retry, c)
     else if data ! 0 = alertLevelError then fail_in c (RemoteAlert (data ! 1))
     else alert_in c alertUnexpectedMessage)"

definition handle_ccs :: "bool \<Rightarrow> bool \<Rightarrow> conn \<Rightarrow> bytes \<Rightarrow> (outcome \<times> conn) may_panic" where
  "handle_ccs expectChangeCipherSpec handshakeComplete c data =
    (if length data \<noteq> 1 \<or> data ! 0 \<noteq> 1 then alert_in c alertDecodeError
     else if c_hand c \<noteq> [] then alert_in c alertUnexpectedMessage
     else if c_vers c = VersionTLS13 \<and> \<not> handshakeComplete then Inr (Retry, c)
     else if \<not> expectChangeCipherSpec then alert_in c alertUnexpectedMessage
     else case changeCipherSpec (c_in c) of
            Inl a \<Rightarrow> alert_in c a
          | Inr hc \<Rightarrow> Inr (Done None, c\<lparr>c_in := hc\<rparr>))"

definition handle_record :: "bool \<Rightarrow> bool \<Rightarrow> conn \<Rightarrow> u8 \<Rightarrow> bytes \<Rightarrow> (outcome \<times> conn) may_panic" where
  "handle_record expectChangeCipherSpec handshakeComplete c typ data =
    (if length data > maxPlaintext then alert_in c alertRecordOverflow
     else if hc_cipher (c_in c) = None \<and> typ = recordTypeApplicationData then alert_in c alertUnexpectedMessage
     else
       let c = (if typ \<noteq> recordTypeAlert \<and> typ \<noteq> recordTypeChangeCipherSpec \<and> data \<noteq> []
                then c\<lparr>c_retryCount := 0\<rparr> else c)
       in if c_vers c = VersionTLS13 \<and> typ \<noteq> recordTypeHandshake \<and> c_hand c \<noteq> []
          then alert_in c alertUnexpectedMessage
          else if typ = recordTypeAlert then handle_alert c data
          else if typ = recordTypeChangeCipherSpec then handle_ccs expectChangeCipherSpec handshakeComplete c data
          else if typ = recordTypeApplicationData then
            if \<not> handshakeComplete \<or> expectChangeCipherSpec then alert_in c alertUnexpectedMessage
            else if data = [] then Inr (Retry, c)
            else Inr (Done None, c\<lparr>c_input := data\<rparr>)
          else if typ = recordTypeHandshake then
            if data = [] \<or> expectChangeCipherSpec then alert_in c alertUnexpectedMessage
            else Inr (Done None, c\<lparr>c_hand := c_hand c @ data\<rparr>)
          else alert_in c alertUnexpectedMessage)"

text \<open>The checks of a record header; \<open>Inr\<close> is the length of the body.\<close>

definition check_header :: "bool \<Rightarrow> conn \<Rightarrow> bytes \<Rightarrow> ((outcome \<times> conn) may_panic) + nat" where
  "check_header handshakeComplete c hdr =
    (let typ = hdr ! 0;
         vers = push_bit 8 (ucast (hdr ! 1)) OR ucast (hdr ! 2) :: u16;
         expectedVers = (if c_vers c = VersionTLS13 then VersionTLS12 else c_vers c);
         n = unat (hdr ! 3) * 256 + unat (hdr ! 4)
     in if \<not> handshakeComplete \<and> typ = 0x80 then
          Inl (alert_then c alertProtocolVersion (RecordHeaderError ''unsupported SSLv2 handshake received''))
        else if c_haveVers c \<and> vers \<noteq> expectedVers then
          Inl (alert_then c alertProtocolVersion (RecordHeaderError ''received record with version''))
        else if \<not> c_haveVers c \<and> ((typ \<noteq> recordTypeAlert \<and> typ \<noteq> recordTypeHandshake) \<or> vers \<ge> 0x1000) then
          Inl (fail_in c (RecordHeaderError ''first record does not look like a TLS handshake''))
        else if c_vers c = VersionTLS13 \<and> n > maxCiphertextTLS13 \<or> n > maxCiphertext then
          Inl (alert_then c alertRecordOverflow (RecordHeaderError ''oversized record received with length''))
        else Inr n)"

definition read_body :: "bool \<Rightarrow> bool \<Rightarrow> conn \<Rightarrow> nat \<Rightarrow> (outcome \<times> conn) may_panic" where
  "read_body expectChangeCipherSpec handshakeComplete c n =
    (case readFromUntil c (recordHeaderLen + n) of
       (Some err, c) \<Rightarrow> Inr (read_failed c err)
     | (None, c) \<Rightarrow>
         let record = take (recordHeaderLen + n) (c_rawInput c);
             c = c\<lparr>c_rawInput := drop (recordHeaderLen + n) (c_rawInput c)\<rparr>
         in (case decrypt (c_in c) record of
               Inl p \<Rightarrow> Inl p
             | Inr (Inl a, hc) \<Rightarrow> alert_in (c\<lparr>c_in := hc\<rparr>) a
             | Inr (Inr (data, typ), hc) \<Rightarrow>
                 handle_record expectChangeCipherSpec handshakeComplete (c\<lparr>c_in := hc\<rparr>) typ data))"

text \<open>\<open>readRecordOrCCS\<close> for one record, the calls of \<open>retryReadRecord\<close> left as \<open>Retry\<close>.\<close>

definition read_one :: "bool \<Rightarrow> conn \<Rightarrow> (outcome \<times> conn) may_panic" where
  "read_one expectChangeCipherSpec c =
    (case hc_err (c_in c) of
       Some e \<Rightarrow> Inr (Done (Some e), c)
     | None \<Rightarrow>
         let handshakeComplete = c_isHandshakeComplete c in
         if c_input c \<noteq> [] then
           fail_in c (ErrorMsg ''tls: internal error: attempted to read record with pending application data'')
         else if c_quic c \<noteq> None then
           fail_in c (ErrorMsg ''tls: internal error: attempted to read record with QUIC transport'')
         else case readFromUntil c recordHeaderLen of
                (Some err, c) \<Rightarrow>
                  Inr (read_failed c (if err = IO_ErrUnexpectedEOF \<and> c_rawInput c = [] then IO_EOF else err))
              | (None, c) \<Rightarrow>
                  (case check_header handshakeComplete c (take recordHeaderLen (c_rawInput c)) of
                     Inl r \<Rightarrow> r
                   | Inr n \<Rightarrow> read_body expectChangeCipherSpec handshakeComplete c n))"

definition retry_limit :: "conn \<Rightarrow> conn" where
  "retry_limit c =
     (let c = c\<lparr>c_retryCount := c_retryCount c + 1\<rparr>
      in if c_MaxUselessRecords c \<le> 0 then c\<lparr>c_MaxUselessRecords := maxUselessRecords\<rparr> else c)"

text \<open>
  A dropped record leaves the count of dropped records as it was, so the count only grows until
  the limit ends the recursion, whatever the peer sends.
\<close>

lemma in_setErrorLocked_simps [simp]:
  "snd (in_setErrorLocked c e) = c\<lparr>c_in := snd (setErrorLocked (c_in c) e)\<rparr>"
  "snd (out_setErrorLocked c e) = c\<lparr>c_out := snd (setErrorLocked (c_out c) e)\<rparr>"
  by (simp_all add: in_setErrorLocked_def out_setErrorLocked_def split_beta)

lemma never_Retry [simp]:
  "fail_in c e \<noteq> Inr (Retry, c')" "alert_in c a \<noteq> Inr (Retry, c')" "alert_then c a e \<noteq> Inr (Retry, c')"
  "Inr (read_failed c e) \<noteq> Inr (Retry, c')" "read_failed c e \<noteq> (Retry, c')"
  by (simp_all add: fail_in_def alert_in_def alert_then_def read_failed_def Let_def
      split: sum.splits prod.splits)

lemma handle_record_Retry:
  "handle_record e h c typ data = Inr (Retry, c') \<Longrightarrow> c' = c"
  by (auto simp: handle_record_def handle_alert_def handle_ccs_def Let_def split: if_splits sum.splits)

lemma readFromUntil_state:
  "readFromUntil c n = (err, c') \<Longrightarrow> c' = c\<lparr>c_rawInput := c_rawInput c', c_wire := c_wire c'\<rparr>"
  by (auto simp: readFromUntil_def split: prod.splits)

lemma check_header_Retry [simp]: "check_header h c hdr \<noteq> Inl (Inr (Retry, c'))"
  by (simp add: check_header_def Let_def)

lemma read_one_Retry:
  assumes "read_one e c = Inr (Retry, c')"
  shows "c_retryCount c' = c_retryCount c \<and> c_MaxUselessRecords c' = c_MaxUselessRecords c"
proof -
  obtain c1 n where c1: "readFromUntil c recordHeaderLen = (None, c1)"
      "read_body e (c_isHandshakeComplete c) c1 n = Inr (Retry, c')"
    using assms
    by (auto simp: read_one_def Let_def split: if_splits option.splits prod.splits sum.splits)
  then obtain c2 hc t data where c2: "readFromUntil c1 (recordHeaderLen + n) = (None, c2)"
      "handle_record e (c_isHandshakeComplete c)
         (c2\<lparr>c_rawInput := drop (recordHeaderLen + n) (c_rawInput c2), c_in := hc\<rparr>) t data = Inr (Retry, c')"
    by (auto simp: read_body_def Let_def split: option.splits prod.splits sum.splits)
  have "c' = c2\<lparr>c_rawInput := drop (recordHeaderLen + n) (c_rawInput c2), c_in := hc\<rparr>"
    by (rule handle_record_Retry [OF c2(2)])
  moreover have "c_retryCount c2 = c_retryCount c1 \<and> c_MaxUselessRecords c2 = c_MaxUselessRecords c1"
    by (subst (1 2) readFromUntil_state [OF c2(1)]) simp
  moreover have "c_retryCount c1 = c_retryCount c \<and> c_MaxUselessRecords c1 = c_MaxUselessRecords c"
    by (subst (1 2) readFromUntil_state [OF c1(1)]) simp
  ultimately show ?thesis by simp
qed

definition useless_limit :: "conn \<Rightarrow> int" where
  "useless_limit c = (if c_MaxUselessRecords c \<le> 0 then maxUselessRecords else c_MaxUselessRecords c)"

function readRecordOrCCS :: "bool \<Rightarrow> conn \<Rightarrow> (conn_error option \<times> conn) may_panic" where
  "readRecordOrCCS expectChangeCipherSpec c =
    (case read_one expectChangeCipherSpec c of
       Inl p \<Rightarrow> Inl p
     | Inr (Done err, c) \<Rightarrow> Inr (err, c)
     | Inr (Retry, c) \<Rightarrow>
         let c = retry_limit c in
         if c_retryCount c > c_MaxUselessRecords c then
           (case sendAlert c alertUnexpectedMessage of
              Inl p \<Rightarrow> Inl p
            | Inr (_, c) \<Rightarrow> Inr (in_setErrorLocked c (Some (ErrorMsg ''tls: too many ignored records''))))
         else readRecordOrCCS expectChangeCipherSpec c)"
  by pat_completeness auto

termination
  by (relation "measure (\<lambda>(e, c). nat (useless_limit c - c_retryCount c))")
    (auto dest!: read_one_Retry simp: useless_limit_def retry_limit_def Let_def)

declare readRecordOrCCS.simps [simp del]

definition readRecord :: "conn \<Rightarrow> (conn_error option \<times> conn) may_panic" where
  "readRecord c = readRecordOrCCS False c"

definition readChangeCipherSpec :: "conn \<Rightarrow> (conn_error option \<times> conn) may_panic" where
  "readChangeCipherSpec c = readRecordOrCCS True c"

end
