(* ===== verification/Record_Codec.thy ===== *)
theory Record_Codec
  imports Record_Layer
begin

text \<open>
  Correctness of the record layer: sequence numbers, CBC padding, and the TLS 1.3 records
  with which the server imitates the lengths of its target.
\<close>

subsection \<open>CBC padding\<close>

lemma word_eq_max: "(g :: u8) = 255 \<longleftrightarrow> (\<forall>n < 8. bit g n)"
proof -
  have "(255 :: u8) = - 1" by simp
  then show ?thesis by (auto simp: bit_eq_iff bit_simps)
qed

lemma and_255 [simp]: "(x :: u8) AND 255 = x" "255 AND x = (x :: u8)"
proof -
  have m: "(255 :: u8) = - 1" by simp
  show "x AND 255 = x" "255 AND x = x" unfolding m by simp_all
qed

lemma no_bit_31: "m < 2 ^ 31 \<Longrightarrow> \<not> bit (of_nat m :: u64) 31"
  by (simp only: bit_of_nat_iff) (simp add: bit_iff_odd)

lemma bit_31_diff:
  assumes "a < 2 ^ 31" and "b < 2 ^ 31"
  shows "bit (of_nat a - of_nat b :: u64) 31 \<longleftrightarrow> a < b"
proof (cases "b \<le> a")
  case True
  then have "of_nat a - of_nat b = (of_nat (a - b) :: u64)" by simp
  moreover have "\<not> bit (of_nat (a - b) :: u64) 31"
    using assms by (intro no_bit_31) simp
  ultimately show ?thesis using True by simp
next
  case False
  then have "of_nat a - of_nat b = (- of_nat (b - a) :: u64)" by simp
  also have "\<dots> = NOT (of_nat (b - a) - 1)" by (simp add: minus_eq_not_minus_1)
  also have "of_nat (b - a) - 1 = (of_nat (b - a - 1) :: u64)" using False by simp
  finally show ?thesis
    using False assms no_bit_31 [of "b - a - 1"] by (simp add: bit_not_iff)
qed

lemma msb_mask_eq: "msb_mask t = (if bit t 31 then 0 else 255)"
proof -
  have "bit (msb_mask t) n \<longleftrightarrow> \<not> bit t 31" if "n < 8" for n
    using that by (cases n) (auto simp: msb_mask_def bit_simps)
  then show ?thesis by (auto simp: word_eq_max intro: bit_word_eqI)
qed

text \<open>The reference: the last byte is the padding length and all padding bytes repeat it.\<close>

definition valid_padding :: "bytes \<Rightarrow> bool" where
  "valid_padding payload \<longleftrightarrow> payload \<noteq> [] \<and> unat (last payload) < length payload \<and>
     (\<forall>b \<in> set (drop (length payload - 1 - unat (last payload)) payload). b = last payload)"

lemma bit_and_shift: "k \<le> n \<Longrightarrow> n < 8 \<Longrightarrow> bit (g AND push_bit k g :: u8) n = (bit g n \<and> bit g (n - k))"
  by (simp only: bit_and_iff bit_push_bit_iff) simp

lemma collapse_good_eq: "collapse_good g = (if g = 255 then 255 else 0)"
proof -
  define g1 where "g1 = g AND push_bit 4 g"
  define g2 where "g2 = g1 AND push_bit 2 g1"
  define g3 where "g3 = g2 AND push_bit 1 g2"
  have "bit g3 7 \<longleftrightarrow> bit g2 7 \<and> bit g2 6"
    using bit_and_shift [of 1 7 g2] by (simp add: g3_def)
  moreover have "bit g2 7 \<longleftrightarrow> bit g1 7 \<and> bit g1 5" "bit g2 6 \<longleftrightarrow> bit g1 6 \<and> bit g1 4"
    using bit_and_shift [of 2 7 g1] bit_and_shift [of 2 6 g1] by (simp_all add: g2_def)
  moreover have "bit g1 7 \<longleftrightarrow> bit g 7 \<and> bit g 3" "bit g1 6 \<longleftrightarrow> bit g 6 \<and> bit g 2"
      "bit g1 5 \<longleftrightarrow> bit g 5 \<and> bit g 1" "bit g1 4 \<longleftrightarrow> bit g 4 \<and> bit g 0"
    using bit_and_shift [of 4 7 g] bit_and_shift [of 4 6 g] bit_and_shift [of 4 5 g] bit_and_shift [of 4 4 g]
    by (simp_all add: g1_def)
  moreover have "(\<forall>k < 8. bit g k) \<longleftrightarrow>
      bit g 0 \<and> bit g 1 \<and> bit g 2 \<and> bit g 3 \<and> bit g 4 \<and> bit g 5 \<and> bit g 6 \<and> bit g 7"
    by (auto simp: All_less_Suc eval_nat_numeral)
  ultimately have "bit g3 7 \<longleftrightarrow> (\<forall>k < 8. bit g k)" by blast
  moreover have "bit (signed_drop_bit 7 g3) n = bit g3 7" if "n < 8" for n
    using that by (cases n) (auto simp: bit_simps)
  moreover have "collapse_good g = signed_drop_bit 7 g3"
    by (simp only: collapse_good_def Let_def g1_def g2_def g3_def)
  ultimately have "bit (collapse_good g) n \<longleftrightarrow> (\<forall>k < 8. bit g k)" if "n < 8" for n
    using that by simp
  then show ?thesis by (auto simp: word_eq_max intro: bit_word_eqI)
qed

lemma clear_eq_max: "g AND NOT (p XOR b) = (255 :: u8) \<longleftrightarrow> g = 255 \<and> p = b"
proof -
  have "p = b \<longleftrightarrow> (\<forall>n < 8. bit p n = bit b n)" by (auto simp: bit_eq_iff dest: bit_imp_le_length)
  then show ?thesis by (auto simp: word_eq_max bit_simps)
qed

lemma padding_step_eq_max:
  assumes "i < 256"
  shows "padding_step payload p i g = 255 \<longleftrightarrow>
    g = 255 \<and> (i \<le> unat p \<longrightarrow> payload ! (length payload - 1 - i) = p)"
proof -
  have "bit (ucast p - of_nat i :: u64) 31 \<longleftrightarrow> unat p < i"
    using bit_31_diff [of "unat p" i] assms unat_u8_less [of p] by simp
  then show ?thesis
    by (auto simp: padding_step_def Let_def msb_mask_eq clear_eq_max)
qed

lemma fold_padding_eq_max:
  "\<forall>i \<in> set is. i < 256 \<Longrightarrow> fold (padding_step payload p) is g = 255 \<longleftrightarrow>
    g = 255 \<and> (\<forall>i \<in> set is. i \<le> unat p \<longrightarrow> payload ! (length payload - 1 - i) = p)"
  by (induction "is" arbitrary: g) (auto simp: padding_step_eq_max)

lemma valid_padding_iff:
  assumes "payload \<noteq> []" and "p = last payload"
  shows "valid_padding payload \<longleftrightarrow> unat p < length payload \<and>
    (\<forall>i < min 256 (length payload). i \<le> unat p \<longrightarrow> payload ! (length payload - 1 - i) = p)"
proof -
  have "(\<forall>b \<in> set (drop (length payload - 1 - unat p) payload). b = p) \<longleftrightarrow>
      (\<forall>i \<le> unat p. payload ! (length payload - 1 - i) = p)" if len: "unat p < length payload"
  proof
    assume all: "\<forall>b \<in> set (drop (length payload - 1 - unat p) payload). b = p"
    show "\<forall>i \<le> unat p. payload ! (length payload - 1 - i) = p"
    proof (intro allI impI)
      fix i assume i: "i \<le> unat p"
      have "drop (length payload - 1 - unat p) payload ! (unat p - i) = payload ! (length payload - 1 - i)"
        using i len by simp
      moreover have "unat p - i < length (drop (length payload - 1 - unat p) payload)" using len by simp
      ultimately show "payload ! (length payload - 1 - i) = p" using all by (metis nth_mem)
    qed
  next
    assume all: "\<forall>i \<le> unat p. payload ! (length payload - 1 - i) = p"
    show "\<forall>b \<in> set (drop (length payload - 1 - unat p) payload). b = p"
    proof
      fix b assume "b \<in> set (drop (length payload - 1 - unat p) payload)"
      then obtain k where k: "k < Suc (unat p)" "b = payload ! (length payload - 1 - unat p + k)"
        using len by (auto simp: in_set_conv_nth)
      have "length payload - 1 - (unat p - k) = length payload - 1 - unat p + k" using k len by simp
      with all k show "b = p" by (metis diff_le_self)
    qed
  qed
  moreover have "(\<forall>i < min 256 (length payload). i \<le> unat p \<longrightarrow> payload ! (length payload - 1 - i) = p) \<longleftrightarrow>
      (\<forall>i \<le> unat p. payload ! (length payload - 1 - i) = p)" if len: "unat p < length payload"
  proof -
    have "i < min 256 (length payload)" if "i \<le> unat p" for i
      using that len unat_u8_less [of p] by linarith
    then show ?thesis by blast
  qed
  ultimately show ?thesis
    using assms unfolding valid_padding_def by blast
qed

lemma extractPadding_eq:
  assumes "length payload < 2 ^ 31"
  shows "extractPadding payload =
    (if payload = [] then (0, 0)
     else if valid_padding payload then (unat (last payload) + 1, 255) else (1, 0))"
proof (cases "payload = []")
  case True
  then show ?thesis by (simp add: extractPadding_def)
next
  case False
  define p where "p = last payload"
  define n where "n = min 256 (length payload)"
  define good where "good = fold (padding_step payload p) [0..<n] (msb_mask (of_nat (length payload - 1) - ucast p))"
  have "bit (of_nat (length payload - 1) - ucast p :: u64) 31 \<longleftrightarrow> length payload - 1 < unat p"
    using bit_31_diff [of "length payload - 1" "unat p"] assms unat_u8_less [of p] by simp
  then have "msb_mask (of_nat (length payload - 1) - ucast p) = 255 \<longleftrightarrow> unat p < length payload"
    using False by (cases payload) (auto simp: msb_mask_eq)
  then have good: "good = 255 \<longleftrightarrow> valid_padding payload"
    unfolding good_def valid_padding_iff [OF False p_def]
    by (subst fold_padding_eq_max) (auto simp: n_def)
  have "extractPadding payload = (unat (p AND collapse_good good) + 1, collapse_good good)"
    using False unfolding extractPadding_def Let_def good_def n_def p_def
    by (simp add: last_conv_nth min_def del: of_nat_diff)
  then show ?thesis using False good by (simp add: collapse_good_eq p_def)
qed

subsection \<open>Sequence numbers\<close>

definition seq_value :: "bytes \<Rightarrow> nat" where
  "seq_value seq = foldl (\<lambda>n b. n * 256 + unat b) 0 seq"

lemma seq_value_snoc: "seq_value (seq @ [b]) = seq_value seq * 256 + unat b"
  by (simp add: seq_value_def)

lemma seq_value_less: "seq_value seq < 256 ^ length seq"
proof (induction seq rule: rev_induct)
  case (snoc b seq)
  have "seq_value seq * 256 + unat b < (seq_value seq + 1) * 256" using unat_u8_less [of b] by simp
  also have "\<dots> \<le> 256 ^ length seq * 256" using snoc by (intro mult_right_mono) simp_all
  finally show ?case by (simp add: seq_value_snoc mult.commute)
qed (simp add: seq_value_def)

lemma seq_value_max: "\<forall>b \<in> set seq. b = 255 \<Longrightarrow> seq_value seq = 256 ^ length seq - 1"
proof (induction seq rule: rev_induct)
  case (snoc b seq)
  have "(1 :: nat) \<le> 256 ^ length seq" by simp
  with snoc show ?case by (simp add: seq_value_snoc diff_mult_distrib)
qed (simp add: seq_value_def)

lemma incSeq_loop_spec:
  assumes "i \<le> length seq"
  shows "(\<exists>s. incSeq_loop i seq = Inr s \<and> length s = length seq \<and> drop i s = drop i seq \<and>
      seq_value (take i s) = seq_value (take i seq) + 1) \<or>
    (incSeq_loop i seq = Inl (PanicMsg ''TLS: sequence number wraparound'') \<and>
      (\<forall>b \<in> set (take i seq). b = 255))"
  using assms
proof (induction i arbitrary: seq)
  case (Suc i)
  let ?b = "seq ! i" and ?s = "seq[i := seq ! i + 1]"
  have take_seq: "take (Suc i) seq = take i seq @ [?b]" using Suc.prems by (simp add: take_Suc_conv_app_nth)
  have take_s: "take (Suc i) s = take i s @ [s ! i]" if "length s = length seq" for s
    using that Suc.prems by (simp add: take_Suc_conv_app_nth)
  have drop_i: "drop i s = s ! i # drop (Suc i) s" if "length s = length seq" for s
    using that Suc.prems by (simp add: Cons_nth_drop_Suc)
  show ?case
  proof (cases "?b + 1 = 0")
    case False
    have "unat (?b + 1) = unat ?b + 1" using False by (simp add: unatSuc add.commute)
    then show ?thesis
      using False Suc.prems take_seq take_s [of ?s] by (simp add: Let_def seq_value_snoc)
  next
    case True
    then have b: "?b = 255" by (simp add: eq_neg_iff_add_eq_0 [symmetric])
    have loop: "incSeq_loop (Suc i) seq = incSeq_loop i ?s" using True Suc.prems by (simp add: Let_def)
    have len: "length ?s = length seq" "i \<le> length ?s" using Suc.prems by simp_all
    consider s where "incSeq_loop i ?s = Inr s" "length s = length ?s" "drop i s = drop i ?s"
        "seq_value (take i s) = seq_value (take i ?s) + 1"
      | "incSeq_loop i ?s = Inl (PanicMsg ''TLS: sequence number wraparound'')" "\<forall>b \<in> set (take i ?s). b = 255"
      using Suc.IH [OF len(2)] by blast
    then show ?thesis
    proof cases
      case (1 s)
      then have s: "s ! i = 0" "drop (Suc i) s = drop (Suc i) seq"
        using drop_i [of s] drop_i [of ?s] len True Suc.prems by simp_all
      have "seq_value (take (Suc i) s) = seq_value (take (Suc i) seq) + 1"
        using 1 s len take_s [of s] take_seq b by (simp add: seq_value_snoc)
      with loop 1 s show ?thesis by simp
    next
      case 2
      with loop b take_seq show ?thesis by simp
    qed
  qed
qed simp

subsection \<open>Nonces\<close>

lemma xor_nonce_nth:
  "4 + i + length n \<le> length m \<Longrightarrow> length (xor_nonce i m n) = length m \<and>
    (\<forall>j < length m. xor_nonce i m n ! j =
      (if 4 + i \<le> j \<and> j < 4 + i + length n then m ! j XOR n ! (j - 4 - i) else m ! j))"
proof (induction i m n rule: xor_nonce.induct)
  case (2 i m b n)
  let ?m = "m[4 + i := m ! (4 + i) XOR b]"
  have IH: "length (xor_nonce (Suc i) ?m n) = length m"
    "j < length m \<Longrightarrow> xor_nonce (Suc i) ?m n ! j =
      (if 4 + Suc i \<le> j \<and> j < 4 + Suc i + length n then ?m ! j XOR n ! (j - 4 - Suc i) else ?m ! j)" for j
    using 2 by auto
  have "xor_nonce i m (b # n) ! j =
      (if 4 + i \<le> j \<and> j < 4 + i + length (b # n) then m ! j XOR (b # n) ! (j - 4 - i) else m ! j)"
    if "j < length m" for j
    using IH(2) [OF that] that
    by (cases "j = 4 + i") (auto simp: nth_Cons' nth_list_update)
  then show ?case using IH(1) by simp
qed auto

lemma xor_nonce_involutive:
  assumes "4 + length n \<le> length m"
  shows "xor_nonce 0 (xor_nonce 0 m n) n = m"
proof (rule nth_equalityI)
  note x = xor_nonce_nth [of 0 n m] xor_nonce_nth [of 0 n "xor_nonce 0 m n"]
  show "length (xor_nonce 0 (xor_nonce 0 m n) n) = length m" using x assms by simp
  fix j assume "j < length (xor_nonce 0 (xor_nonce 0 m n) n)"
  then show "xor_nonce 0 (xor_nonce 0 m n) n ! j = m ! j"
    using x assms by (auto simp: xor.assoc)
qed

subsection \<open>What a record cipher promises\<close>

text \<open>
  The standard library's AEADs: \<open>Open\<close> undoes \<open>Seal\<close> under the same nonce and additional
  data, and a sealed text is longer by the overhead. The wrappers of \<open>cipher_suites.go\<close> keep
  this for two ends in step, each with its own wrapper state.
\<close>

locale aead_laws =
  fixes a :: cipher_AEAD
  assumes open_seal: "raw_Open a n (raw_Seal a n p ad) ad = Some p"
    and seal_length: "length (raw_Seal a n p ad) = length p + raw_Overhead a"

locale record_aead =
  fixes in_step :: "aead \<Rightarrow> aead \<Rightarrow> bool" and overhead :: nat and explicit :: nat
  assumes step_open: "\<lbrakk>in_step s r; length n = 8; aead_Seal s n p ad = (c, s')\<rbrakk> \<Longrightarrow>
      \<exists>r'. aead_Open r n c ad = (Some p, r') \<and> in_step s' r'"
    and step_length: "\<lbrakk>in_step s r; aead_Seal s n p ad = (c, s')\<rbrakk> \<Longrightarrow> length c = length p + overhead"
    and step_sizes: "in_step s r \<Longrightarrow> aead_Overhead s = overhead \<and> aead_Overhead r = overhead \<and>
      aead_explicitNonceLen s = explicit \<and> aead_explicitNonceLen r = explicit"

lemma put_nonce_take: "length nonce = 12 \<Longrightarrow> length n = 8 \<Longrightarrow> put_nonce nonce n = take 4 nonce @ n"
  by (simp add: put_nonce_def)

sublocale aead_laws \<subseteq> xor: record_aead
  "\<lambda>s r. \<exists>m. length m = 12 \<and> s = xorNonceAEAD m a \<and> r = xorNonceAEAD m a" "raw_Overhead a" 0
  by unfold_locales (auto simp: Let_def xor_nonce_involutive open_seal seal_length)

sublocale aead_laws \<subseteq> prefix: record_aead
  "\<lambda>s r. \<exists>m n. length m = 12 \<and> length n = 12 \<and> take 4 m = take 4 n \<and>
     s = prefixNonceAEAD m a \<and> r = prefixNonceAEAD n a" "raw_Overhead a" 8
  by unfold_locales (auto simp: Let_def put_nonce_take open_seal seal_length)

text \<open>A concrete AEAD with these laws: a 16-byte tag computed from nonce, data and text.\<close>

definition sum_tag :: "bytes \<Rightarrow> bytes" where
  "sum_tag x = replicate 16 (foldr (+) x 0)"

definition sum_aead :: cipher_AEAD where
  "sum_aead = \<lparr>
     raw_Seal = (\<lambda>n p ad. map (\<lambda>b. b XOR sum_tag n ! 0) p @ sum_tag (n @ ad @ p)),
     raw_Open = (\<lambda>n c ad.
       if length c < 16 then None
       else let p = map (\<lambda>b. b XOR sum_tag n ! 0) (take (length c - 16) c)
            in if drop (length c - 16) c = sum_tag (n @ ad @ p) then Some p else None),
     raw_Overhead = 16\<rparr>"

interpretation sum: aead_laws sum_aead
  by unfold_locales (simp_all add: sum_aead_def sum_tag_def xor.assoc comp_def)

subsection \<open>Two ends in step\<close>

definition peers :: "(aead \<Rightarrow> aead \<Rightarrow> bool) \<Rightarrow> u16 \<Rightarrow> halfConn \<Rightarrow> halfConn \<Rightarrow> bool" where
  "peers in_step v out inn \<longleftrightarrow> hc_version out = v \<and> hc_version inn = v \<and>
     (\<exists>s r. hc_cipher out = Some (Aead s) \<and> hc_cipher inn = Some (Aead r) \<and> in_step s r) \<and>
     hc_mac inn = None \<and> hc_seq inn = hc_seq out \<and> length (hc_seq out) = 8"

lemma incSeq_next:
  assumes "length (hc_seq hc) = 8" "seq_value (hc_seq hc) < 2 ^ 64 - 1"
  obtains seq where "incSeq_loop 8 (hc_seq hc) = Inr seq" "length seq = 8"
    "seq_value seq = seq_value (hc_seq hc) + 1"
proof -
  have "\<not> (\<forall>b \<in> set (take 8 (hc_seq hc)). b = 255)"
    using assms seq_value_max [of "hc_seq hc"] by auto
  then show thesis using incSeq_loop_spec [of 8 "hc_seq hc"] assms that by auto
qed

lemma length_bytes_set: "length r = 5 \<Longrightarrow> r[0 := x, 3 := y, 4 := z] = [x, r ! 1, r ! 2, y, z]"
  by (simp add: list_eq_iff_nth_eq nth_Cons' less_Suc_eq numeral_eq_Suc)

lemma header_set:
  assumes "length r = 5"
  shows "(r @ x)[3 := b, 4 := c] = r[3 := b, 4 := c] @ x" "(r @ x)[0 := b] = r[0 := b] @ x"
  using assms by (simp_all add: list_update_append)

context record_aead
begin

lemma tls13_record:
  assumes "explicit = 0" "peers in_step VersionTLS13 out inn" "length hdr = 5"
    and seq: "seq_value (hc_seq out) < 2 ^ 64 - 1"
    and pad: "\<And>s. aead_Overhead s = overhead \<Longrightarrow> pad_record out s (hdr @ payload @ [hdr ! 0]) payload =
      Inr (Inr (hdr @ inner), out\<lparr>hc_handshakeLen := hl\<rparr>)"
    and inner: "length inner \<le> maxPlaintext + 1" "scan_type (length inner) inner = Some (typ, plain)"
  shows "\<exists>record out' inn'. encrypt out hdr payload rand = Inr (Inr record, out', rand) \<and>
    length record = 5 + length inner + overhead \<and> hc_handshakeLen out' = hl \<and>
    take 5 record = [recordTypeApplicationData, hdr ! 1, hdr ! 2,
      of_nat ((length record - 5) div 256), of_nat (length record - 5)] \<and>
    decrypt inn record = Inr (Inr (plain, typ), inn') \<and>
    seq_value (hc_seq out') = seq_value (hc_seq out) + 1 \<and> hc_err inn' = hc_err inn \<and>
    peers in_step VersionTLS13 out' inn' \<and>
    out' = out\<lparr>hc_handshakeLen := hl, hc_cipher := hc_cipher out', hc_seq := hc_seq out'\<rparr>"
proof -
  obtain s r where sr: "hc_cipher out = Some (Aead s)" "hc_cipher inn = Some (Aead r)" "in_step s r"
    and v: "hc_version out = VersionTLS13" "hc_version inn = VersionTLS13" "hc_mac inn = None"
      "hc_seq inn = hc_seq out" "length (hc_seq out) = 8"
    using assms(2) by (auto simp: peers_def)
  note sizes = step_sizes [OF sr(3)]
  obtain seq' where seq': "incSeq_loop 8 (hc_seq out) = Inr seq'" "length seq' = 8"
      "seq_value seq' = seq_value (hc_seq out) + 1"
    using incSeq_next [OF v(5) seq] by metis
  let ?n = "length inner + overhead"
  let ?hdr = "[recordTypeApplicationData, hdr ! 1, hdr ! 2, of_nat (?n div 256), of_nat ?n]"
  obtain c s' where c: "aead_Seal s (hc_seq out) inner ?hdr = (c, s')" by fastforce
  obtain r' where r': "aead_Open r (hc_seq out) c ?hdr = (Some inner, r')" "in_step s' r'"
    using step_open [OF sr(3) v(5) c] by blast
  have len: "length c = ?n" by (rule step_length [OF sr(3) c])
  have hdr_upd: "hdr[0 := recordTypeApplicationData, 3 := y, 4 := z] =
      [recordTypeApplicationData, hdr ! 1, hdr ! 2, y, z]" for y z
    by (rule length_bytes_set [OF assms(3)])
  have nonempty: "inner \<noteq> []" using inner(2) by auto
  have enl: "explicitNonceLen out = 0" "explicitNonceLen inn = 0"
    using sizes sr assms(1) by (simp_all add: explicitNonceLen_def)
  have "encrypt out hdr payload rand = Inr (Inr (?hdr @ c),
      out\<lparr>hc_handshakeLen := hl, hc_cipher := Some (Aead s'), hc_seq := seq'\<rparr>, rand)"
    using sr sizes v enl pad [of s] assms(3) seq' len c
    by (simp add: encrypt_def explicit_nonce_def seal_cipher_def seal_tls13_def Let_def header_set hdr_upd
        incSeq_def nth_append)
  moreover have "decrypt inn (?hdr @ c) =
      Inr (Inr (plain, typ), inn\<lparr>hc_cipher := Some (Aead r'), hc_seq := seq'\<rparr>)"
    using sr sizes v enl seq' len r' inner nonempty
    by (simp add: decrypt_def open_cipher_def Let_def unwrap_tls13_def finish_decrypt_def incSeq_def)
  moreover have "peers in_step VersionTLS13 (out\<lparr>hc_handshakeLen := hl, hc_cipher := Some (Aead s'), hc_seq := seq'\<rparr>)
      (inn\<lparr>hc_cipher := Some (Aead r'), hc_seq := seq'\<rparr>)"
    using v r' seq' by (simp add: peers_def)
  ultimately show ?thesis using len seq'(3)
    by (intro exI [of _ "?hdr @ c"] exI conjI) (assumption | simp)+
qed

end

lemma scan_type_zeros: "scan_type (length xs + k) (xs @ replicate k 0) = scan_type (length xs) xs"
proof (induction k)
  case (Suc k)
  have same: "scan_type i (ys @ zs) = scan_type i ys" if "i \<le> length ys" for i ys zs
    using that by (induction i) (simp_all add: nth_append)
  have "scan_type (length xs + Suc k) (xs @ replicate (Suc k) 0) =
      scan_type (length xs + k) ((xs @ replicate k 0) @ [0])"
    by (simp add: nth_append replicate_append_same [symmetric])
  also have "\<dots> = scan_type (length xs + k) (xs @ replicate k 0)" by (rule same) simp
  finally show ?case using Suc.IH by simp
qed simp

lemma scan_type_snoc: "b \<noteq> 0 \<Longrightarrow> scan_type (Suc (length xs)) (xs @ [b]) = Some (b, xs)"
  by simp

text \<open>Two ends of a TLS 1.3 connection under the AEAD \<open>a\<close>.\<close>

definition tls13_peers :: "cipher_AEAD \<Rightarrow> halfConn \<Rightarrow> halfConn \<Rightarrow> bool" where
  "tls13_peers a = peers (\<lambda>s r. \<exists>m. length m = 12 \<and> s = xorNonceAEAD m a \<and> r = xorNonceAEAD m a) VersionTLS13"

context aead_laws
begin

lemmas tls13_record_peers = xor.tls13_record [OF refl, folded tls13_peers_def]

end

lemma handshake_slot_cases:
  "handshake_slot t = Some i \<Longrightarrow> t \<noteq> 0 \<and> 2 \<le> i \<and> i \<le> 6 \<and> (i = 6 \<longleftrightarrow> t = typeNewSessionTicket)"
  by (simp add: handshake_slot_def split: if_splits)

text \<open>What the borrowed length does to a record, in terms of the slot and the room needed.\<close>

lemma pad_record_slot:
  assumes "length hdr = 5" "hdr ! 0 = recordTypeHandshake" "hc_handshakeLen hc ! 1 \<noteq> 0"
    and "payload \<noteq> []" "handshake_slot (payload ! 0) = Some i"
    and "payload ! 0 = typeNewSessionTicket \<longrightarrow> payload = [typeNewSessionTicket]"
    and inner: "inner = (if payload ! 0 = typeNewSessionTicket then [recordTypeApplicationData, 0]
      else payload @ [recordTypeHandshake])"
    and padding: "padding = hc_handshakeLen hc ! i - int (6 + length payload + aead_Overhead a)"
  shows "pad_record hc a (hdr @ payload @ [hdr ! 0]) payload =
    (if padding < 0 then Inr (Inl (ErrorMsg ''padding''), hc\<lparr>hc_handshakeLen := (hc_handshakeLen hc)[i := 0]\<rparr>)
     else if padding > 8192 then Inl SliceBounds
     else Inr (Inr (hdr @ inner @ replicate (nat padding) 0), hc\<lparr>hc_handshakeLen := (hc_handshakeLen hc)[i := 0]\<rparr>))"
proof -
  have first: "(hdr @ x) ! 0 = recordTypeHandshake" for x using assms(1,2) by (cases hdr) simp_all
  have upd: "(hdr @ [x, y])[5 := b, 6 := c] = hdr @ [b, c]" for x y b c
    using assms(1) by (simp add: list_update_append)
  have inner': "(if payload ! 0 = typeNewSessionTicket
      then (hdr @ payload @ [hdr ! 0])[5 := recordTypeApplicationData, 6 := 0]
      else hdr @ payload @ [hdr ! 0]) = hdr @ inner"
    using assms(2,6) inner upd by auto
  have len: "int (length (hdr @ inner)) + int (aead_Overhead a) = int (6 + length payload + aead_Overhead a)"
    using assms(1,6) inner by auto
  have slot: "take_slot hc (payload ! 0) =
      (hc_handshakeLen hc ! i, hc\<lparr>hc_handshakeLen := (hc_handshakeLen hc)[i := 0]\<rparr>)"
    using assms(5) by (simp add: take_slot_def)
  show ?thesis
    unfolding pad_record_def Let_def slot prod.case inner' len padding [symmetric]
    using first assms(3,4) by simp
qed

subsection \<open>The record layer's theorems\<close>

lemma tls13_data_record:
  assumes "aead_laws a" "tls13_peers a out inn"
    and "length hdr = 5" "hdr ! 0 \<noteq> 0" "length payload \<le> maxPlaintext"
    and "hdr ! 0 \<noteq> recordTypeHandshake \<or> hc_handshakeLen out ! 1 = 0"
    and "seq_value (hc_seq out) < 2 ^ 64 - 1"
  shows "\<exists>record out' inn'. encrypt out hdr payload rand = Inr (Inr record, out', rand) \<and>
    length record = 6 + length payload + raw_Overhead a \<and> hc_handshakeLen out' = hc_handshakeLen out \<and>
    take 5 record = [recordTypeApplicationData, hdr ! 1, hdr ! 2,
      of_nat ((length record - 5) div 256), of_nat (length record - 5)] \<and>
    decrypt inn record = Inr (Inr (payload, hdr ! 0), inn') \<and>
    seq_value (hc_seq out') = seq_value (hc_seq out) + 1 \<and> hc_err inn' = hc_err inn \<and>
    tls13_peers a out' inn' \<and> out' = out\<lparr>hc_cipher := hc_cipher out', hc_seq := hc_seq out'\<rparr>"
proof -
  have pad: "pad_record out s (hdr @ payload @ [hdr ! 0]) payload =
      Inr (Inr (hdr @ payload @ [hdr ! 0]), out\<lparr>hc_handshakeLen := hc_handshakeLen out\<rparr>)" for s
    using assms(3,6) by (auto simp: pad_record_def nth_append)
  have scan: "scan_type (length (payload @ [hdr ! 0])) (payload @ [hdr ! 0]) = Some (hdr ! 0, payload)"
    using assms(4) by simp
  show ?thesis
    using aead_laws.tls13_record_peers [OF assms(1,2,3,7) pad _ scan, of rand] assms(5)
    by (simp add: add.commute add.left_commute)
qed

lemma kept_len: "out' = out\<lparr>hc_handshakeLen := hl, hc_cipher := c, hc_seq := q\<rparr> \<Longrightarrow> hc_handshakeLen out' = hl"
  by simp

lemma target_record:
  assumes "aead_laws a" "tls13_peers a out inn"
    and "length hdr = 5" "hdr ! 0 = recordTypeHandshake" "hc_handshakeLen out ! 1 \<noteq> 0"
    and "payload \<noteq> []" "handshake_slot (payload ! 0) = Some i"
    and "payload ! 0 = typeNewSessionTicket \<longrightarrow> payload = [typeNewSessionTicket]"
    and "seq_value (hc_seq out) < 2 ^ 64 - 1"
    and padding: "padding = hc_handshakeLen out ! i - int (6 + length payload + raw_Overhead a)"
  shows "(padding < 0 \<longrightarrow> encrypt out hdr payload rand =
      Inr (Inl (ErrorMsg ''padding''), out\<lparr>hc_handshakeLen := (hc_handshakeLen out)[i := 0]\<rparr>, rand)) \<and>
    (padding > 8192 \<longrightarrow> encrypt out hdr payload rand = Inl SliceBounds) \<and>
    (0 \<le> padding \<and> padding \<le> 8192 \<and> length payload + nat padding \<le> maxPlaintext \<longrightarrow>
      (\<exists>record out' inn'. encrypt out hdr payload rand = Inr (Inr record, out', rand) \<and>
        int (length record) = hc_handshakeLen out ! i \<and>
        out' = out\<lparr>hc_handshakeLen := (hc_handshakeLen out)[i := 0], hc_cipher := hc_cipher out', hc_seq := hc_seq out'\<rparr> \<and>
        seq_value (hc_seq out') = seq_value (hc_seq out) + 1 \<and>
        decrypt inn record = Inr (Inr (if payload ! 0 = typeNewSessionTicket then ([], recordTypeApplicationData)
          else (payload, recordTypeHandshake)), inn') \<and> tls13_peers a out' inn'))"
proof -
  let ?NST = "payload ! 0 = typeNewSessionTicket"
  define inner where "inner = (if ?NST then [recordTypeApplicationData, 0] else payload @ [recordTypeHandshake])"
  have inner_len: "length inner = Suc (length payload)" using assms(8) by (auto simp: inner_def)
  obtain s where s: "hc_cipher out = Some (Aead s)" "hc_version out = VersionTLS13"
      "aead_Overhead s = raw_Overhead a" "aead_explicitNonceLen s = 0"
    using assms(2) by (auto simp: tls13_peers_def peers_def)
  have pad: "pad_record out s (hdr @ payload @ [hdr ! 0]) payload =
    (if padding < 0 then Inr (Inl (ErrorMsg ''padding''), out\<lparr>hc_handshakeLen := (hc_handshakeLen out)[i := 0]\<rparr>)
     else if padding > 8192 then Inl SliceBounds
     else Inr (Inr (hdr @ inner @ replicate (nat padding) 0), out\<lparr>hc_handshakeLen := (hc_handshakeLen out)[i := 0]\<rparr>))"
    if "aead_Overhead s = raw_Overhead a" for s
    using pad_record_slot [OF assms(3-8) inner_def, of padding s] padding that by simp
  have enc: "encrypt out hdr payload rand =
      Inr (Inl (ErrorMsg ''padding''), out\<lparr>hc_handshakeLen := (hc_handshakeLen out)[i := 0]\<rparr>, rand)" if "padding < 0"
    using that s pad [of s] assms(3)
    by (simp add: encrypt_def explicit_nonce_def explicitNonceLen_def seal_cipher_def seal_tls13_def nth_append)
  have pan: "encrypt out hdr payload rand = Inl SliceBounds" if "padding > 8192"
    using that s pad [of s] assms(3)
    by (simp add: encrypt_def explicit_nonce_def explicitNonceLen_def seal_cipher_def seal_tls13_def nth_append)
  have scan: "scan_type (length inner) inner =
      (if ?NST then Some (recordTypeApplicationData, []) else Some (recordTypeHandshake, payload))"
    by (simp add: inner_def)
  have ok: "\<exists>record out' inn'. encrypt out hdr payload rand = Inr (Inr record, out', rand) \<and>
      length record = 5 + length (inner @ replicate (nat padding) 0) + raw_Overhead a \<and>
      out' = out\<lparr>hc_handshakeLen := (hc_handshakeLen out)[i := 0], hc_cipher := hc_cipher out', hc_seq := hc_seq out'\<rparr> \<and>
      seq_value (hc_seq out') = seq_value (hc_seq out) + 1 \<and>
      decrypt inn record = Inr (Inr (if ?NST then ([], recordTypeApplicationData)
        else (payload, recordTypeHandshake)), inn') \<and> tls13_peers a out' inn'"
    if "0 \<le> padding" "padding \<le> 8192" "length payload + nat padding \<le> maxPlaintext"
  proof -
    have "scan_type (length (inner @ replicate (nat padding) 0)) (inner @ replicate (nat padding) 0) =
        Some (if ?NST then recordTypeApplicationData else recordTypeHandshake, if ?NST then [] else payload)"
      using scan scan_type_zeros [of inner "nat padding"] by simp
    then show ?thesis
      using aead_laws.tls13_record_peers [OF assms(1,2,3,9), of payload "inner @ replicate (nat padding) 0"
          "(hc_handshakeLen out)[i := 0]" _ _ rand] pad that inner_len
      by (cases ?NST) (simp_all, blast+)
  qed
  have "int (5 + length (inner @ replicate (nat padding) 0) + raw_Overhead a) = hc_handshakeLen out ! i"
    if "0 \<le> padding" using that padding inner_len by simp
  then show ?thesis using enc pan ok by fastforce
qed

text \<open>The sequence number counts the records: \<open>incSeq\<close> adds one to its value and changes nothing
  else, up to \<open>2^64 - 1\<close>, where it panics rather than wrapping round to a used nonce.
\<close>

theorem incSeq_counts:
  assumes "length (hc_seq hc) = 8"
  shows "incSeq hc = Inl (PanicMsg ''TLS: sequence number wraparound'') \<and> seq_value (hc_seq hc) = 2 ^ 64 - 1 \<or>
    (\<exists>seq. incSeq hc = Inr (hc\<lparr>hc_seq := seq\<rparr>) \<and> length seq = 8 \<and>
      seq_value seq = seq_value (hc_seq hc) + 1 \<and> seq_value seq < 2 ^ 64)"
proof -
  have all: "take 8 s = s" if "length s = 8" for s :: bytes using that by simp
  consider (next_seq) s where "incSeq_loop 8 (hc_seq hc) = Inr s" "length s = 8" "seq_value s = seq_value (hc_seq hc) + 1"
    | (wrap) "incSeq_loop 8 (hc_seq hc) = Inl (PanicMsg ''TLS: sequence number wraparound'')"
        "\<forall>b \<in> set (hc_seq hc). b = 255"
    using incSeq_loop_spec [of 8 "hc_seq hc"] assms by auto
  then show ?thesis
  proof cases
    case next_seq
    then show ?thesis using seq_value_less [of s] by (auto simp: incSeq_def)
  next
    case wrap
    then show ?thesis using seq_value_max [of "hc_seq hc"] assms by (simp add: incSeq_def)
  qed
qed

definition idle_half :: halfConn where
  "idle_half = \<lparr>hc_handshakeLen = [0, 0, 0, 0, 0, 0, 0], hc_handshakeBuf = None, hc_err = None,
     hc_version = VersionTLS13, hc_cipher = Some (Aead (xorNonceAEAD (replicate 12 7) sum_aead)),
     hc_mac = None, hc_seq = [0, 0, 0, 0, 0, 0, 1, 255], hc_nextCipher = None, hc_nextMac = None,
     hc_level = 3, hc_trafficSecret = []\<rparr>"

theorem incSeq_counts_witness:
  "incSeq idle_half = Inr (idle_half\<lparr>hc_seq := [0, 0, 0, 0, 0, 0, 2, 0]\<rparr>) \<and>
   (incSeq idle_half = Inl (PanicMsg ''TLS: sequence number wraparound'') \<and>
      seq_value (hc_seq idle_half) = 2 ^ 64 - 1 \<or>
    (\<exists>seq. incSeq idle_half = Inr (idle_half\<lparr>hc_seq := seq\<rparr>) \<and> length seq = 8 \<and>
      seq_value seq = seq_value (hc_seq idle_half) + 1 \<and> seq_value seq < 2 ^ 64))"
proof
  have "incSeq_loop 8 [0, 0, 0, 0, 0, 0, 1, 255] = Inr [0, 0, 0, 0, 0, 0, 2, 0]" by code_simp
  then show "incSeq idle_half = Inr (idle_half\<lparr>hc_seq := [0, 0, 0, 0, 0, 0, 2, 0]\<rparr>)"
    by (simp add: incSeq_def idle_half_def)
qed (rule incSeq_counts, simp add: idle_half_def)

text \<open>(C21)
  A TLS 1.3 record that carries no borrowed length opens at the other end: for every lawful
  AEAD, payload up to \<open>maxPlaintext\<close> and non-zero record type, \<open>encrypt\<close> succeeds, the record is
  longer than the payload by header, type byte and overhead, and \<open>decrypt\<close> at a peer in step
  returns payload and type and leaves both ends in step for the next record.
\<close>

theorem tls13_record_roundtrip:
  assumes "aead_laws a" "tls13_peers a out inn"
    and "length hdr = 5" "hdr ! 0 \<noteq> 0" "length payload \<le> maxPlaintext"
    and "hdr ! 0 \<noteq> recordTypeHandshake \<or> hc_handshakeLen out ! 1 = 0"
    and "seq_value (hc_seq out) < 2 ^ 64 - 1"
  shows "\<exists>record out' inn'. encrypt out hdr payload rand = Inr (Inr record, out', rand) \<and>
    length record = 6 + length payload + raw_Overhead a \<and>
    decrypt inn record = Inr (Inr (payload, hdr ! 0), inn') \<and> tls13_peers a out' inn'"
  using tls13_data_record [OF assms, of rand] by blast

theorem tls13_record_roundtrip_witness:
  "\<exists>record out' inn'. encrypt idle_half [23, 3, 3, 0, 2] [104, 105] [] = Inr (Inr record, out', []) \<and>
    length record = 24 \<and> decrypt idle_half record = Inr (Inr ([104, 105], 23), inn') \<and>
    tls13_peers sum_aead out' inn'"
proof -
  have "\<exists>record out' inn'. encrypt idle_half [23, 3, 3, 0, 2] [104, 105] [] = Inr (Inr record, out', []) \<and>
      length record = 6 + length [104 :: u8, 105] + raw_Overhead sum_aead \<and>
      decrypt idle_half record = Inr (Inr ([104, 105], [23, 3, 3, 0, 2] ! 0), inn') \<and>
      tls13_peers sum_aead out' inn'"
    by (rule tls13_record_roundtrip [OF sum.aead_laws_axioms])
      (simp_all add: tls13_peers_def peers_def idle_half_def seq_value_def)
  then show ?thesis by (simp add: sum_aead_def)
qed

text \<open>(C20)
  The borrowed record lengths. While the target's lengths are loaded (\<open>handshakeLen[1]\<close> is not
  zero), a handshake message takes the slot of its type. The slot is cleared; if the message
  does not fit, \<open>encrypt\<close> returns an error; if more than 8192 bytes of padding are needed, it
  panics; otherwise the record on the wire is exactly as long as the target's. A record the
  peer may accept opens there as the message, and the placeholder for a NewSessionTicket opens
  as an empty application data record.
\<close>

theorem tls13_target_record:
  assumes "aead_laws a" "tls13_peers a out inn"
    and "length hdr = 5" "hdr ! 0 = recordTypeHandshake" "hc_handshakeLen out ! 1 \<noteq> 0"
    and "payload \<noteq> []" "handshake_slot (payload ! 0) = Some i"
    and "payload ! 0 = typeNewSessionTicket \<longrightarrow> payload = [typeNewSessionTicket]"
    and "seq_value (hc_seq out) < 2 ^ 64 - 1"
    and padding: "padding = hc_handshakeLen out ! i - int (6 + length payload + raw_Overhead a)"
  shows "(padding < 0 \<longrightarrow> encrypt out hdr payload rand =
      Inr (Inl (ErrorMsg ''padding''), out\<lparr>hc_handshakeLen := (hc_handshakeLen out)[i := 0]\<rparr>, rand)) \<and>
    (padding > 8192 \<longrightarrow> encrypt out hdr payload rand = Inl SliceBounds) \<and>
    (0 \<le> padding \<and> padding \<le> 8192 \<and> length payload + nat padding \<le> maxPlaintext \<longrightarrow>
      (\<exists>record out' inn'. encrypt out hdr payload rand = Inr (Inr record, out', rand) \<and>
        int (length record) = hc_handshakeLen out ! i \<and>
        hc_handshakeLen out' = (hc_handshakeLen out)[i := 0] \<and>
        decrypt inn record = Inr (Inr (if payload ! 0 = typeNewSessionTicket then ([], recordTypeApplicationData)
          else (payload, recordTypeHandshake)), inn') \<and> tls13_peers a out' inn'))"
  using target_record [OF assms] by (blast intro: kept_len)

definition loaded_half :: halfConn where
  "loaded_half = idle_half\<lparr>hc_handshakeLen := [127, 6, 36, 2000, 286, 58, 74]\<rparr>"

theorem tls13_target_record_witness:
  "(\<exists>record out' inn'. encrypt loaded_half [22, 3, 3, 0, 6] [8, 0, 0, 2, 0, 0] [] = Inr (Inr record, out', []) \<and>
      length record = 36 \<and> decrypt idle_half record = Inr (Inr ([8, 0, 0, 2, 0, 0], 22), inn')) \<and>
   (\<exists>record out' inn'. encrypt loaded_half [22, 3, 3, 0, 1] [4] [] = Inr (Inr record, out', []) \<and>
      length record = 74 \<and> decrypt idle_half record = Inr (Inr ([], 23), inn'))"
proof -
  have p: "tls13_peers sum_aead loaded_half idle_half"
    by (simp add: tls13_peers_def peers_def idle_half_def loaded_half_def)
  have q: "seq_value (hc_seq loaded_half) < 2 ^ 64 - 1" by (simp add: loaded_half_def idle_half_def seq_value_def)
  note t = tls13_target_record [OF sum.aead_laws_axioms p _ _ _ _ _ _ q refl]
  show ?thesis
    using t [of "[22, 3, 3, 0, 6]" "[8, 0, 0, 2, 0, 0]" 2 "[]"] t [of "[22, 3, 3, 0, 1]" "[4]" 6 "[]"]
    by (simp add: loaded_half_def handshake_slot_def sum_aead_def) blast
qed

text \<open>(C22)
  The constant-time check of CBC padding computes the reference definition: for a payload below
  \<open>2^31\<close> bytes it reports the padding's length with a full mask exactly if the last byte \<open>p\<close> leaves
  room for itself and the last \<open>p + 1\<close> bytes are all \<open>p\<close>, and a length of one with a zero mask
  otherwise.
\<close>

theorem extractPadding_correct:
  assumes "length payload < 2 ^ 31"
  shows "extractPadding payload =
    (if payload = [] then (0, 0)
     else if valid_padding payload then (unat (last payload) + 1, 255) else (1, 0))"
  by (rule extractPadding_eq [OF assms])

theorem extractPadding_correct_witness:
  "extractPadding [9, 9, 3, 3, 3, 3] = (4, 255) \<and> extractPadding [9, 9, 3, 2, 3, 3] = (1, 0)"
proof -
  have "valid_padding [9, 9, 3, 3, 3, 3]" "\<not> valid_padding [9, 9, 3, 2, 3, 3]"
    by (code_simp, code_simp)
  then show ?thesis
    using extractPadding_correct [of "[9, 9, 3, 3, 3, 3]"] extractPadding_correct [of "[9, 9, 3, 2, 3, 3]"]
    by simp
qed

end
