(* ===== verification/Conn_Reading.thy ===== *)
theory Conn_Reading
  imports Conn Record_Codec
begin

text \<open>
  What the reading half of a connection guarantees: the three outcomes that the comment on
  \<open>readRecordOrCCS\<close> promises, for every peer; errors that stay; and a bound on what one call
  takes from the network.
\<close>

subsection \<open>Writing leaves the reading half alone\<close>

definition in_part where
  "in_part c = (c_hand c, c_input c, c_in c, c_rawInput c, c_wire c, c_retryCount c,
     c_MaxUselessRecords c, c_vers c, c_haveVers c, c_isHandshakeComplete c, c_isClient c)"

lemma in_part_updates [simp]:
  "in_part (c\<lparr>c_out := out\<rparr>) = in_part c" "in_part (c\<lparr>c_rand := r\<rparr>) = in_part c"
  "in_part (c\<lparr>c_packetsSent := k\<rparr>) = in_part c" "in_part (c\<lparr>c_bytesSent := k\<rparr>) = in_part c"
  "in_part (c\<lparr>c_sendBuf := b\<rparr>) = in_part c" "in_part (c\<lparr>c_buffering := t\<rparr>) = in_part c"
  "in_part (c\<lparr>c_writes := ws\<rparr>) = in_part c" "in_part (c\<lparr>c_sent := b\<rparr>) = in_part c"
  "in_part (c\<lparr>c_quic := q\<rparr>) = in_part c" "in_part (c\<lparr>c_activeCall := z\<rparr>) = in_part c"
  by (simp_all add: in_part_def)

lemma in_part_write: "conn_write c data = (r, c') \<Longrightarrow> in_part c' = in_part c"
  by (auto simp: conn_write_def Let_def split: if_splits prod.splits list.splits option.splits)

lemma in_part_flush: "flush c = (r, c') \<Longrightarrow> in_part c' = in_part c"
  by (auto simp: flush_def Let_def split: if_splits prod.splits list.splits option.splits)

lemma in_part_maxPayload: "maxPayloadSizeForWrite c t = Inr (k, c') \<Longrightarrow> in_part c' = in_part c"
  by (auto simp: maxPayloadSizeForWrite_def Let_def split: if_splits sum.splits)

text \<open>The loop as a relation: one rule for each way an iteration ends.\<close>

inductive written :: "u8 \<Rightarrow> bytes \<Rightarrow> nat \<Rightarrow> conn \<Rightarrow> nat \<times> conn_error option \<Rightarrow> conn \<Rightarrow> bool" for t where
  written_nil: "written t [] n c (n, None) c"
| written_encrypt: "\<lbrakk>data \<noteq> []; maxPayloadSizeForWrite c t = Inr (k, c1); m = min k (int (length data)); 0 \<le> m;
    encrypt (c_out c1) (record_header t (c_vers c1) (nat m)) (take (nat m) data) (c_rand c1) = Inr (Inl e, out, rand)\<rbrakk> \<Longrightarrow>
    written t data n c (n, Some e) (c1\<lparr>c_out := out, c_rand := rand\<rparr>)"
| written_write: "\<lbrakk>data \<noteq> []; maxPayloadSizeForWrite c t = Inr (k, c1); m = min k (int (length data)); 0 \<le> m;
    encrypt (c_out c1) (record_header t (c_vers c1) (nat m)) (take (nat m) data) (c_rand c1) = Inr (Inr outBuf, out, rand);
    conn_write (c1\<lparr>c_out := out, c_rand := rand\<rparr>) outBuf = ((w, Some e), c2)\<rbrakk> \<Longrightarrow>
    written t data n c (n, Some e) c2"
| written_more: "\<lbrakk>data \<noteq> []; maxPayloadSizeForWrite c t = Inr (k, c1); m = min k (int (length data)); 0 \<le> m;
    encrypt (c_out c1) (record_header t (c_vers c1) (nat m)) (take (nat m) data) (c_rand c1) = Inr (Inr outBuf, out, rand);
    conn_write (c1\<lparr>c_out := out, c_rand := rand\<rparr>) outBuf = ((w, None), c2);
    written t (drop (nat m) data) (n + nat m) c2 r c'\<rbrakk> \<Longrightarrow>
    written t data n c r c'"

lemma write_loop_written: "write_loop t data n c = Inr (r, c') \<Longrightarrow> written t data n c r c'"
proof (induction t data n c rule: write_loop.induct)
  case (1 t data n c)
  show ?case
  proof (cases "data = []")
    case True
    then show ?thesis using "1.prems" by (auto simp: write_loop.simps intro: written_nil)
  next
    case False
    with "1.prems" obtain k c1 where k: "maxPayloadSizeForWrite c t = Inr (k, c1)"
      by (subst (asm) write_loop.simps) (auto split: sum.splits prod.splits)
    let ?m = "if int (length data) > k then k else int (length data)"
    let ?enc = "encrypt (c_out c1) (record_header t (c_vers c1) (nat ?m)) (take (nat ?m) data) (c_rand c1)"
    have m: "\<not> ?m < 0" using "1.prems" False k by (subst (asm) write_loop.simps) (auto simp: Let_def)
    with "1.prems" False k obtain res out rand where enc: "?enc = Inr (res, out, rand)"
      by (subst (asm) write_loop.simps) (auto simp: Let_def split: sum.splits prod.splits)
    have min: "?m = min k (int (length data))" by simp
    note step = False k min m [unfolded not_less]
    show ?thesis
    proof (cases res)
      case (Inl e)
      then have "r = (n, Some e)" "c' = c1\<lparr>c_out := out, c_rand := rand\<rparr>"
        using "1.prems" False k m enc by (subst (asm) write_loop.simps, simp add: Let_def)+
      with Inl show ?thesis using written_encrypt [OF step] enc by blast
    next
      case (Inr outBuf)
      obtain w err c2 where w: "conn_write (c1\<lparr>c_out := out, c_rand := rand\<rparr>) outBuf = ((w, err), c2)"
        by (metis prod.collapse)
      show ?thesis
      proof (cases err)
        case None
        then have "write_loop t (drop (nat ?m) data) (n + nat ?m) c2 = Inr (r, c')"
          using "1.prems" False k m enc Inr w by (subst (asm) write_loop.simps) (simp add: Let_def)
        with "1.IH" [OF False k refl refl m enc refl Inr refl w [symmetric] refl None]
        have "written t (drop (nat ?m) data) (n + nat ?m) c2 r c'" by blast
        with written_more [OF step] enc Inr w None show ?thesis by blast
      next
        case (Some e)
        then have "r = (n, Some e)" "c' = c2"
          using "1.prems" False k m enc Inr w by (subst (asm) write_loop.simps, simp add: Let_def)+
        with written_write [OF step] enc Inr w Some show ?thesis by blast
      qed
    qed
  qed
qed

lemma in_part_write_loop: "write_loop t data n c = Inr (r, c') \<Longrightarrow> in_part c' = in_part c"
proof (drule write_loop_written, induction rule: written.induct)
qed (auto dest!: in_part_maxPayload in_part_write)

lemma in_part_sendAlert: "sendAlert c a = Inr (r, c') \<Longrightarrow> in_part c' = in_part c"
  by (auto simp: sendAlert_def sendAlertLocked_def write_record_body_def out_setErrorLocked_def
      dest!: in_part_write_loop split: if_splits sum.splits prod.splits)

subsection \<open>The outcomes of a read\<close>

text \<open>
  The state that errors and dropped records leave as it was. \<open>failed\<close> is a read that ends with an
  error: nothing is delivered, and the error is recorded for good unless it is temporary.
\<close>

definition delivered where
  "delivered c = (c_hand c, c_input c, c_isHandshakeComplete c, c_vers c)"

definition failed :: "conn \<Rightarrow> conn_error option \<Rightarrow> conn \<Rightarrow> bool" where
  "failed c err c' \<longleftrightarrow> delivered c' = delivered c \<and>
     (\<exists>x. err = Some x \<and> (hc_err (c_in c') \<noteq> None \<or> Temporary x))"

definition succeeded :: "bool \<Rightarrow> conn \<Rightarrow> conn \<Rightarrow> bool" where
  "succeeded expectCCS c c' \<longleftrightarrow> hc_err (c_in c) = None \<and> c_input c = [] \<and>
    (if expectCCS then delivered c' = delivered c \<and> (\<exists>hc. changeCipherSpec hc = Inr (c_in c'))
     else (\<exists>d. d \<noteq> [] \<and> c_hand c' = c_hand c @ d \<and> c_input c' = []) \<or>
       (c_isHandshakeComplete c \<and> c_hand c' = c_hand c \<and> c_input c' \<noteq> [] \<and>
         (c_vers c = VersionTLS13 \<longrightarrow> c_hand c = [])))"

lemma delivered_updates [simp]:
  "delivered (c\<lparr>c_in := hc\<rparr>) = delivered c" "delivered (c\<lparr>c_rawInput := b\<rparr>) = delivered c"
  "delivered (c\<lparr>c_wire := w\<rparr>) = delivered c" "delivered (c\<lparr>c_retryCount := k\<rparr>) = delivered c"
  "delivered (c\<lparr>c_MaxUselessRecords := k\<rparr>) = delivered c"
  by (simp_all add: delivered_def)

lemma in_part_delivered: "in_part c' = in_part c \<Longrightarrow> delivered c' = delivered c"
  by (simp add: in_part_def delivered_def)

lemma fail_in_failed: "fail_in c e = Inr (Done err, c') \<Longrightarrow> failed c err c'"
  by (auto simp: fail_in_def failed_def in_setErrorLocked_def setErrorLocked_def Let_def)

lemma sendAlert_err: "sendAlert c a = Inr (err, c') \<Longrightarrow> a \<noteq> alertCloseNotify \<Longrightarrow> err \<noteq> None"
  by (auto simp: sendAlert_def sendAlertLocked_def out_setErrorLocked_def setErrorLocked_def Let_def
      split: if_splits sum.splits prod.splits)

lemma alert_in_failed: "alert_in c a = Inr (Done err, c') \<Longrightarrow> a \<noteq> alertCloseNotify \<Longrightarrow> failed c err c'"
  using sendAlert_err [of c a] in_part_delivered [OF in_part_sendAlert, of c a]
  by (fastforce simp: alert_in_def failed_def in_setErrorLocked_def setErrorLocked_def Let_def
      split: sum.splits prod.splits)

lemma alert_then_failed: "alert_then c a e = Inr (Done err, c') \<Longrightarrow> failed c err c'"
  using in_part_delivered [OF in_part_sendAlert, of c a]
  by (fastforce simp: alert_then_def failed_def dest: fail_in_failed split: sum.splits prod.splits)

lemma read_failed_failed: "read_failed c e = (Done err, c') \<Longrightarrow> failed c err c'"
  by (auto simp: read_failed_def failed_def setErrorLocked_def Let_def split: if_splits)

lemma read_failed_ends:
  "read_failed c1 e = (res, c') \<Longrightarrow> delivered c1 = delivered c \<Longrightarrow> \<exists>err. res = Done err \<and> failed c err c'"
  using read_failed_failed [of c1 e _ c'] by (cases res) (auto simp: failed_def)

lemma failed_delivered: "failed c1 err c' \<Longrightarrow> delivered c1 = delivered c \<Longrightarrow> failed c err c'"
  by (simp add: failed_def)

lemma alert_in_ends:
  "alert_in c1 a = Inr (res, c') \<Longrightarrow> a \<noteq> alertCloseNotify \<Longrightarrow> delivered c1 = delivered c \<Longrightarrow>
    \<exists>err. res = Done err \<and> failed c err c'"
  using alert_in_failed [of c1 a _ c'] by (cases res) (auto simp: failed_def)

lemma unwrap_tls13_alert: "unwrap_tls13 t p = Inl a \<Longrightarrow> a \<noteq> alertCloseNotify"
  by (auto simp: unwrap_tls13_def split: if_splits option.splits)

lemma check_mac_alert: "check_mac hc h rec op = Inl a \<Longrightarrow> a \<noteq> alertCloseNotify"
  by (auto simp: check_mac_def Let_def split: if_splits)

lemma open_cipher_alert: "open_cipher hc rec p ciph = Inr (Inl a, ciph') \<Longrightarrow> a \<noteq> alertCloseNotify"
  by (auto simp: open_cipher_def Let_def split: if_splits cipher.splits option.splits prod.splits)

lemma finish_decrypt_alert: "finish_decrypt hc rec t op = Inr (Inl a, hc') \<Longrightarrow> a \<noteq> alertCloseNotify"
  using check_mac_alert by (auto simp: finish_decrypt_def split: option.splits sum.splits)

lemma decrypt_alert:
  assumes "decrypt hc rec = Inr (Inl a, hc')"
  shows "a \<noteq> alertCloseNotify"
  using assms finish_decrypt_alert open_cipher_alert unwrap_tls13_alert
  by (auto simp: decrypt_def Let_def split: if_splits option.splits sum.splits prod.splits)

lemma handle_alert_result: "handle_alert c data = Inr (Done err, c') \<Longrightarrow> failed c err c'"
  by (auto simp: handle_alert_def dest: alert_in_failed fail_in_failed split: if_splits)

lemma changeCipherSpec_alert: "changeCipherSpec hc = Inl a \<Longrightarrow> a \<noteq> alertCloseNotify"
  by (auto simp: changeCipherSpec_def split: if_splits)

lemma handle_ccs_result:
  "handle_ccs e h c data = Inr (Done err, c') \<Longrightarrow> failed c err c' \<or>
    err = None \<and> e \<and> delivered c' = delivered c \<and> (\<exists>hc. changeCipherSpec hc = Inr (c_in c'))"
  by (auto simp: handle_ccs_def dest: alert_in_failed changeCipherSpec_alert split: if_splits sum.splits)

lemma handle_record_result:
  assumes "handle_record e h c t data = Inr (Done err, c')" and "h = c_isHandshakeComplete c"
    and "c_input c = []"
  shows "failed c err c' \<or> err = None \<and>
    (if e then delivered c' = delivered c \<and> (\<exists>hc. changeCipherSpec hc = Inr (c_in c'))
     else (\<exists>d. d \<noteq> [] \<and> c_hand c' = c_hand c @ d \<and> c_input c' = []) \<or>
       (c_isHandshakeComplete c \<and> c_hand c' = c_hand c \<and> c_input c' \<noteq> [] \<and>
         (c_vers c = VersionTLS13 \<longrightarrow> c_hand c = [])))"
proof -
  define c1 where "c1 = (if t \<noteq> recordTypeAlert \<and> t \<noteq> recordTypeChangeCipherSpec \<and> data \<noteq> []
    then c\<lparr>c_retryCount := 0\<rparr> else c)"
  have c1: "delivered c1 = delivered c" "c_hand c1 = c_hand c" "c_input c1 = []" "c_vers c1 = c_vers c"
    using assms(3) by (simp_all add: c1_def)
  have f: "failed c1 err c' \<Longrightarrow> failed c err c'" using c1 failed_delivered by blast
  note * = assms(1) [unfolded handle_record_def Let_def, folded c1_def]
  note alerts = alert_in_failed [where a = "10"] alert_in_failed [where a = "22"]
  show ?thesis
    using * assms(2,3) c1 f alerts [of c err c'] alerts [of c1 err c'] handle_alert_result [of c1 data err c']
      handle_ccs_result [of e h c1 data err c']
    by (simp split: if_splits) auto
qed

lemma check_header_failed: "check_header h c hdr = Inl (Inr (Done err, c')) \<Longrightarrow> failed c err c'"
  by (auto simp: check_header_def Let_def dest: alert_then_failed fail_in_failed split: if_splits)

lemma readFromUntil_frame:
  assumes "readFromUntil c n = (err, c1)"
  shows "delivered c1 = delivered c" "c_in c1 = c_in c" "c_retryCount c1 = c_retryCount c"
    "c_MaxUselessRecords c1 = c_MaxUselessRecords c"
  by (subst readFromUntil_state [OF assms], simp)+

lemma read_one_split:
  assumes "read_one e c = Inr (res, c')"
  obtains (quick) err where "res = Done err" "failed c err c'" "c' = c \<or> hc_err (c_in c) = None"
  | (rec) c1 n c2 hc t data where
      "hc_err (c_in c) = None" "c_input c = []" "c_quic c = None"
      "readFromUntil c recordHeaderLen = (None, c1)" "n \<le> maxCiphertext"
      "readFromUntil c1 (recordHeaderLen + n) = (None, c2)"
      "handle_record e (c_isHandshakeComplete c)
         (c2\<lparr>c_rawInput := drop (recordHeaderLen + n) (c_rawInput c2), c_in := hc\<rparr>) t data = Inr (res, c')"
proof (cases "hc_err (c_in c) \<noteq> None \<or> c_input c \<noteq> [] \<or> c_quic c \<noteq> None")
  case True
  have fails: "\<exists>err. res = Done err \<and> failed c err c'" if "fail_in c x = Inr (res, c')" for x
    using that fail_in_failed by (cases res) fastforce+
  have "\<exists>err. res = Done err \<and> failed c err c' \<and> (c' = c \<or> hc_err (c_in c) = None)"
    using True assms fails by (cases "hc_err (c_in c)") (auto simp: read_one_def Let_def failed_def split: if_splits)
  then show thesis using quick by blast
next
  case False
  then have ok: "hc_err (c_in c) = None" "c_input c = []" "c_quic c = None" by simp_all
  obtain r1 c1 where c1: "readFromUntil c recordHeaderLen = (r1, c1)" by fastforce
  note d1 = readFromUntil_frame [OF c1]
  show thesis
  proof (cases r1)
    case (Some x)
    then show thesis
      using assms quick ok c1 d1 by (auto simp: read_one_def dest: read_failed_ends [where c = c])
  next
    case None
    show thesis
    proof (cases "check_header (c_isHandshakeComplete c) c1 (take recordHeaderLen (c_rawInput c1))")
      case (Inl r)
      then have "r = Inr (res, c')" using assms ok c1 None by (simp add: read_one_def)
      with Inl show thesis
        using quick ok d1(1) by (cases res) (auto dest: check_header_failed failed_delivered)
    next
      case (Inr n)
      then have n: "n \<le> maxCiphertext" by (auto simp: check_header_def Let_def split: if_splits)
      have body: "read_body e (c_isHandshakeComplete c) c1 n = Inr (res, c')"
        using assms ok c1 None Inr by (simp add: read_one_def)
      obtain r2 c2 where c2: "readFromUntil c1 (recordHeaderLen + n) = (r2, c2)" by fastforce
      note d2 = readFromUntil_frame [OF c2]
      show thesis
      proof (cases r2)
        case (Some x)
        then show thesis
          using body c2 quick ok d1 d2 by (auto simp: read_body_def dest: read_failed_ends [where c = c])
      next
        case None2: None
        let ?c = "c2\<lparr>c_rawInput := drop (recordHeaderLen + n) (c_rawInput c2)\<rparr>"
        let ?dec = "decrypt (c_in c2) (take (recordHeaderLen + n) (c_rawInput c2))"
        obtain x hc where dec: "?dec = Inr (x, hc)"
          using body c2 None2 by (auto simp: read_body_def Let_def split: sum.splits)
        show thesis
        proof (cases x)
          case (Inl a)
          then have "alert_in (?c\<lparr>c_in := hc\<rparr>) a = Inr (res, c')"
            using body c2 None2 dec by (simp add: read_body_def Let_def)
          then show thesis
            using quick ok d1 d2 decrypt_alert [OF dec [unfolded Inl]]
            by (auto dest!: alert_in_ends [where c = c])
        next
          case (Inr p)
          then show thesis
            using rec [OF ok c1 [unfolded None] n c2 [unfolded None2]] body c2 None2 dec
            by (cases p) (simp add: read_body_def Let_def)
        qed
      qed
    qed
  qed
qed

lemma read_one_result:
  assumes "read_one e c = Inr (Done err, c')"
  shows "failed c err c' \<or> err = None \<and> succeeded e c c'"
  using assms
proof (cases rule: read_one_split)
  case (rec c1 n c2 hc t data)
  note d = readFromUntil_frame [OF rec(4)] readFromUntil_frame [OF rec(6)]
  let ?c = "c2\<lparr>c_rawInput := drop (recordHeaderLen + n) (c_rawInput c2), c_in := hc\<rparr>"
  have c: "delivered ?c = delivered c" using d by simp
  have "c_isHandshakeComplete ?c = c_isHandshakeComplete c" "c_input ?c = []"
    using c rec(2) by (simp_all add: delivered_def)
  then show ?thesis
    using handle_record_result [OF rec(7)] c rec(1,2) failed_delivered [OF _ c]
    by (auto simp: succeeded_def delivered_def split: if_splits)
qed simp

lemma read_one_Retry_frame:
  assumes "read_one e c = Inr (Retry, c')"
  shows "delivered c' = delivered c \<and> hc_err (c_in c) = None \<and> c_input c = []"
  using assms
proof (cases rule: read_one_split)
  case (rec c1 n c2 hc t data)
  then show ?thesis
    using handle_record_Retry [OF rec(7)] readFromUntil_frame [OF rec(4)] readFromUntil_frame [OF rec(6)]
    by simp_all
qed simp_all

lemma read_result:
  assumes "readRecordOrCCS e c = Inr (err, c')"
  shows "failed c err c' \<or> err = None \<and> succeeded e c c'"
  using assms
proof (induction e c rule: readRecordOrCCS.induct)
  case (1 e c)
  obtain res c1 where one: "read_one e c = Inr (res, c1)"
    using "1.prems" by (subst (asm) readRecordOrCCS.simps) (auto split: sum.splits)
  show ?case
  proof (cases res)
    case (Done x)
    then show ?thesis
      using "1.prems" one read_one_result [of e c x c1] by (subst (asm) readRecordOrCCS.simps) simp
  next
    case Retry
    note frame = read_one_Retry_frame [OF one [unfolded Retry]]
    let ?c = "retry_limit c1"
    have d: "delivered ?c = delivered c" using frame by (simp add: retry_limit_def Let_def)
    show ?thesis
    proof (cases "c_retryCount ?c > c_MaxUselessRecords ?c")
      case True
      then obtain y c2 where send: "sendAlert ?c alertUnexpectedMessage = Inr (y, c2)"
        and err: "(err, c') = in_setErrorLocked c2 (Some (ErrorMsg ''tls: too many ignored records''))"
        using "1.prems" one Retry
        by (subst (asm) readRecordOrCCS.simps) (auto simp: Let_def split: sum.splits)
      show ?thesis
        using in_part_delivered [OF in_part_sendAlert [OF send]] d err
        by (simp add: failed_def in_setErrorLocked_def setErrorLocked_def Let_def)
    next
      case False
      then have "readRecordOrCCS e ?c = Inr (err, c')"
        using "1.prems" one Retry by (subst (asm) readRecordOrCCS.simps) (simp add: Let_def)
      then have "failed ?c err c' \<or> err = None \<and> succeeded e ?c c'"
        using "1.IH" [OF one refl Retry refl False] by blast
      then show ?thesis
        using d frame failed_delivered [OF _ d] by (auto simp: succeeded_def delivered_def)
    qed
  qed
qed

subsection \<open>How much a read takes\<close>

text \<open>The bytes received but not consumed, and those still to come.\<close>

fun event_len :: "read_event \<Rightarrow> nat" where
  "event_len (Chunk b) = length b"
| "event_len (ReadErr e) = 0"

definition unread :: "conn \<Rightarrow> nat" where
  "unread c = length (c_rawInput c) + sum_list (map event_len (c_wire c))"

lemma in_part_unread: "in_part c' = in_part c \<Longrightarrow> unread c' = unread c"
  by (simp add: in_part_def unread_def)

lemma unread_updates [simp]:
  "unread (c\<lparr>c_in := hc\<rparr>) = unread c" "unread (c\<lparr>c_retryCount := k\<rparr>) = unread c"
  "unread (c\<lparr>c_MaxUselessRecords := k\<rparr>) = unread c" "unread (c\<lparr>c_hand := b\<rparr>) = unread c"
  "unread (c\<lparr>c_input := b\<rparr>) = unread c"
  by (simp_all add: unread_def)

lemma read_until_total:
  "read_until n raw w = (err, raw', w') \<Longrightarrow>
    length raw' + sum_list (map event_len w') = length raw + sum_list (map event_len w)"
  by (induction n raw w rule: read_until.induct) (auto split: if_splits read_event.splits)

lemma readFromUntil_unread: "readFromUntil c n = (err, c') \<Longrightarrow> unread c' = unread c"
  by (auto simp: readFromUntil_def unread_def dest: read_until_total split: prod.splits)

lemma fail_in_unread: "fail_in c e = Inr (res, c') \<Longrightarrow> unread c' = unread c"
  by (auto simp: fail_in_def in_setErrorLocked_def split: prod.splits)

lemma alert_unread:
  "alert_in c a = Inr (res, c') \<Longrightarrow> unread c' = unread c"
  "alert_then c a e = Inr (res, c') \<Longrightarrow> unread c' = unread c"
  by (auto simp: alert_in_def alert_then_def in_setErrorLocked_def
      dest!: in_part_unread [OF in_part_sendAlert] fail_in_unread split: sum.splits prod.splits)

lemma read_failed_unread: "read_failed c e = (res, c') \<Longrightarrow> unread c' = unread c"
  by (auto simp: read_failed_def Let_def)

lemma check_header_unread: "check_header h c hdr = Inl (Inr (res, c')) \<Longrightarrow> unread c' = unread c"
  by (auto simp: check_header_def Let_def dest: alert_unread fail_in_unread split: if_splits)

lemma handle_record_unread: "handle_record e h c t data = Inr (res, c') \<Longrightarrow> unread c' = unread c"
  by (auto simp: handle_record_def handle_alert_def handle_ccs_def Let_def dest!: alert_unread(1) fail_in_unread
      split: if_splits sum.splits)

lemma read_body_unread:
  assumes "read_body e h c n = Inr (res, c')"
  shows "unread c \<le> unread c' + (recordHeaderLen + n)"
proof -
  obtain r c1 where c1: "readFromUntil c (recordHeaderLen + n) = (r, c1)" by fastforce
  note u = readFromUntil_unread [OF c1]
  have "unread (c1\<lparr>c_rawInput := drop (recordHeaderLen + n) (c_rawInput c1)\<rparr>) + (recordHeaderLen + n) \<ge> unread c1"
    by (simp add: unread_def)
  then show ?thesis
    using assms c1 u
    by (auto simp: read_body_def Let_def dest!: read_failed_unread alert_unread(1) handle_record_unread
        split: option.splits sum.splits prod.splits)
qed

lemma read_one_unread:
  assumes "read_one e c = Inr (res, c')"
  shows "unread c \<le> unread c' + (recordHeaderLen + maxCiphertext)"
proof -
  obtain r c1 where c1: "readFromUntil c recordHeaderLen = (r, c1)" by fastforce
  note u = readFromUntil_unread [OF c1]
  have "unread c1 \<le> unread c' + (recordHeaderLen + maxCiphertext)"
    if "check_header h c1 hdr = Inr n" "read_body e h c1 n = Inr (res, c')" for h hdr n
    using that(1) read_body_unread [OF that(2)] by (auto simp: check_header_def Let_def split: if_splits)
  then show ?thesis
    using assms c1 u
    by (auto simp: read_one_def Let_def dest!: read_failed_unread fail_in_unread check_header_unread
        split: option.splits sum.splits if_splits)
qed

text \<open>
  One call as a number of turns: a turn takes at most one record from the stream (\<open>read_one\<close>), and
  only \<open>retryReadRecord\<close> below its limit goes on to another turn.
\<close>

inductive reads_in :: "bool \<Rightarrow> nat \<Rightarrow> conn \<Rightarrow> (conn_error option \<times> conn) may_panic \<Rightarrow> bool" where
  turn_panics: "read_one e c = Inl p \<Longrightarrow> reads_in e 1 c (Inl p)"
| turn_ends: "read_one e c = Inr (Done err, c') \<Longrightarrow> reads_in e 1 c (Inr (err, c'))"
| too_many: "\<lbrakk>read_one e c = Inr (Retry, c1); c_retryCount (retry_limit c1) > c_MaxUselessRecords (retry_limit c1)\<rbrakk> \<Longrightarrow>
    reads_in e 1 c (case sendAlert (retry_limit c1) alertUnexpectedMessage of
        Inl p \<Rightarrow> Inl p
      | Inr (_, c2) \<Rightarrow> Inr (in_setErrorLocked c2 (Some (ErrorMsg ''tls: too many ignored records''))))"
| another: "\<lbrakk>read_one e c = Inr (Retry, c1); \<not> c_retryCount (retry_limit c1) > c_MaxUselessRecords (retry_limit c1);
    reads_in e n (retry_limit c1) r\<rbrakk> \<Longrightarrow> reads_in e (Suc n) c r"

lemma reads_in_result: "reads_in e n c r \<Longrightarrow> readRecordOrCCS e c = r"
  by (induction rule: reads_in.induct) (simp_all add: readRecordOrCCS.simps Let_def)

lemma unread_retry_limit [simp]: "unread (retry_limit c) = unread c"
  by (simp add: retry_limit_def Let_def)

lemma too_many_unread:
  assumes "(case sendAlert c alertUnexpectedMessage of Inl p \<Rightarrow> Inl p
    | Inr (_, c2) \<Rightarrow> Inr (in_setErrorLocked c2 (Some e))) = Inr (err, c')"
  shows "unread c' = unread c"
proof -
  obtain y c2 where send: "sendAlert c alertUnexpectedMessage = Inr (y, c2)" "(err, c') = in_setErrorLocked c2 (Some e)"
    using assms by (auto split: sum.splits)
  then show ?thesis using in_part_unread [OF in_part_sendAlert [OF send(1)]]
    by (simp add: in_setErrorLocked_def split_beta)
qed

lemma reads_in_unread:
  "\<lbrakk>reads_in e n c r; r = Inr (err, c')\<rbrakk> \<Longrightarrow> unread c \<le> unread c' + n * (recordHeaderLen + maxCiphertext)"
proof (induction rule: reads_in.induct)
  case (turn_ends e c err c')
  then show ?case using read_one_unread by simp
next
  case (too_many e c c1)
  then show ?case using read_one_unread [OF too_many(1)] too_many_unread [OF too_many(3)] by simp
next
  case (another e c c1 n r)
  then show ?case using read_one_unread [OF another(1)] by simp
qed simp

lemma reads_in_exists: "\<exists>n. n \<le> nat (useless_limit c - c_retryCount c) + 1 \<and> reads_in e n c (readRecordOrCCS e c)"
proof (induction e c rule: readRecordOrCCS.induct)
  case (1 e c)
  consider (panics) p where "read_one e c = Inl p" | (ends) err c' where "read_one e c = Inr (Done err, c')"
    | (retry) c1 where "read_one e c = Inr (Retry, c1)"
    by (metis outcome.exhaust prod.exhaust sum.exhaust)
  then show ?case
  proof cases
    case panics
    then have "reads_in e 1 c (Inl p)" by (rule reads_in.turn_panics)
    then show ?thesis using reads_in_result by fastforce
  next
    case ends
    then have "reads_in e 1 c (Inr (err, c'))" by (rule reads_in.turn_ends)
    then show ?thesis using reads_in_result by fastforce
  next
    case retry
    let ?c = "retry_limit c1"
    show ?thesis
    proof (cases "c_retryCount ?c > c_MaxUselessRecords ?c")
      case True
      note reads_in.too_many [OF retry this]
      from this reads_in_result [OF this] show ?thesis by (intro exI [of _ 1]) simp
    next
      case False
      obtain n where n: "n \<le> nat (useless_limit ?c - c_retryCount ?c) + 1" "reads_in e n ?c (readRecordOrCCS e ?c)"
        using "1.IH" [OF retry refl refl refl False] by blast
      have "Suc (nat (useless_limit ?c - c_retryCount ?c)) = nat (useless_limit c - c_retryCount c)"
        using False read_one_Retry [OF retry] by (auto simp: useless_limit_def retry_limit_def Let_def split: if_splits)
      moreover have "readRecordOrCCS e c = readRecordOrCCS e ?c"
        using retry False by (simp add: readRecordOrCCS.simps [of e c] Let_def)
      ultimately show ?thesis using n reads_in.another [OF retry False n(2)] by (intro exI [of _ "Suc n"]) simp
    qed
  qed
qed

subsection \<open>Properties\<close>

text \<open>(C18) The promise of \<open>readRecordOrCCS\<close>'s comment, for every peer and every state: a call either
  ends with an error, delivers nothing and (unless the error is temporary) leaves an error that
  every later call returns; or it ends without error, and then exactly one thing happened. If a
  ChangeCipherSpec was expected, the cipher was changed. Otherwise either the handshake buffer
  grew, or application data was set, the latter only after the handshake and, in TLS 1.3, never in
  the middle of a handshake message.\<close>

theorem read_record_outcomes:
  assumes "readRecordOrCCS expectCCS c = Inr (err, c')"
  shows "failed c err c' \<and> (\<forall>y e. hc_err (c_in c') = Some y \<longrightarrow> readRecordOrCCS e c' = Inr (Some y, c')) \<or>
    err = None \<and> succeeded expectCCS c c'"
  using read_result [OF assms] by (auto simp: readRecordOrCCS.simps read_one_def)

definition sample_conn :: conn where
  "sample_conn = \<lparr>c_isClient = False, c_quic = None, c_isHandshakeComplete = True, c_handshakeErr = None,
     c_vers = VersionTLS13, c_haveVers = True, c_handshakes = 1, c_cipherSuite = 0x1301,
     c_in = idle_half, c_out = idle_half, c_rawInput = [], c_input = [], c_hand = [],
     c_buffering = False, c_sendBuf = [], c_bytesSent = 0, c_packetsSent = 0, c_retryCount = 0,
     c_MaxUselessRecords = 0, c_closeNotifySent = False, c_closeNotifyErr = None, c_activeCall = 0,
     c_DynamicRecordSizingDisabled = False, c_Renegotiation = 0, c_wire = [], c_writes = [], c_sent = [],
     c_closed = False, c_rand = []\<rparr>"

theorem read_record_outcomes_witness:
  "readRecordOrCCS False sample_conn = Inr (Some IO_EOF, sample_conn\<lparr>c_in := idle_half\<lparr>hc_err := Some IO_EOF\<rparr>\<rparr>) \<and>
   (let c' = sample_conn\<lparr>c_in := idle_half\<lparr>hc_err := Some IO_EOF\<rparr>\<rparr> in
    failed sample_conn (Some IO_EOF) c' \<and>
      (\<forall>y e. hc_err (c_in c') = Some y \<longrightarrow> readRecordOrCCS e c' = Inr (Some y, c')) \<or>
    Some IO_EOF = None \<and> succeeded False sample_conn c')"
proof -
  have "readRecordOrCCS False sample_conn = Inr (Some IO_EOF, sample_conn\<lparr>c_in := idle_half\<lparr>hc_err := Some IO_EOF\<rparr>\<rparr>)"
    by (simp add: readRecordOrCCS.simps read_one_def readFromUntil_def read_failed_def setErrorLocked_def
        sample_conn_def idle_half_def Let_def)
  from this read_record_outcomes [OF this] show ?thesis unfolding Let_def by (rule conjI)
qed

text \<open>(C19) A read ends, whatever the peer sends: with a limit of \<open>MaxUselessRecords\<close> (32 unless it
  is set) and \<open>k\<close> records already dropped, a call of \<open>readRecordOrCCS\<close> is over after at most
  \<open>limit - k + 1\<close> turns, each of which takes at most one record from the stream, and it has then
  consumed at most \<open>5 + maxCiphertext\<close> bytes for each turn.\<close>

theorem read_record_bounded:
  "\<exists>n. n \<le> nat (useless_limit c - c_retryCount c) + 1 \<and> reads_in expectCCS n c (readRecordOrCCS expectCCS c) \<and>
     (case readRecordOrCCS expectCCS c of
        Inl p \<Rightarrow> True
      | Inr (err, c') \<Rightarrow> unread c \<le> unread c' + n * (recordHeaderLen + maxCiphertext))"
proof -
  obtain n where n: "n \<le> nat (useless_limit c - c_retryCount c) + 1" "reads_in expectCCS n c (readRecordOrCCS expectCCS c)"
    using reads_in_exists by blast
  then show ?thesis using reads_in_unread [OF n(2)] by (auto split: sum.split prod.split)
qed

end
