(* ===== verification/Conn_Transfer.thy ===== *)
theory Conn_Transfer
  imports Conn_Reading
begin

text \<open>
  The two halves together: what one end of a TLS 1.3 connection writes, the other end reads,
  however the transport cuts the stream.
\<close>

subsection \<open>The stream that is still to be read\<close>

fun event_bytes :: "read_event \<Rightarrow> bytes" where
  "event_bytes (Chunk b) = b"
| "event_bytes (ReadErr e) = []"

definition in_stream :: "conn \<Rightarrow> bytes" where
  "in_stream c = c_rawInput c @ concat (map event_bytes (c_wire c))"

definition no_read_error :: "conn \<Rightarrow> bool" where
  "no_read_error c \<longleftrightarrow> (\<forall>ev \<in> set (c_wire c). \<exists>b. ev = Chunk b)"

lemma read_until_enough:
  assumes "\<forall>ev \<in> set w. \<exists>b. ev = Chunk b" "n \<le> length (raw @ concat (map event_bytes w))"
  shows "\<exists>raw' w'. read_until n raw w = (None, raw', w') \<and> n \<le> length raw' \<and>
    raw' @ concat (map event_bytes w') = raw @ concat (map event_bytes w) \<and>
    (\<forall>ev \<in> set w'. \<exists>b. ev = Chunk b)"
  using assms
proof (induction n raw w rule: read_until.induct)
  case (2 n raw ev w)
  then obtain b where b: "ev = Chunk b" by auto
  show ?case
  proof (cases "n \<le> length raw")
    case False
    then show ?thesis using "2.IH" [OF False b] "2.prems" b by simp
  qed (use "2.prems" b in simp)
qed simp

lemma readFromUntil_enough:
  assumes "no_read_error c" "n \<le> length (in_stream c)"
  obtains raw w where "readFromUntil c n = (None, c\<lparr>c_rawInput := raw, c_wire := w\<rparr>)"
    "n \<le> length raw" "raw @ concat (map event_bytes w) = in_stream c"
    "\<forall>ev \<in> set w. \<exists>b. ev = Chunk b"
  using read_until_enough [of "c_wire c" n "c_rawInput c"] assms that
  by (auto simp: readFromUntil_def no_read_error_def in_stream_def)

subsection \<open>One record\<close>

text \<open>An end that can deliver application data.\<close>

definition ready :: "conn \<Rightarrow> bool" where
  "ready d \<longleftrightarrow> c_isHandshakeComplete d \<and> c_quic d = None \<and> c_vers d = VersionTLS13 \<and> c_haveVers d \<and>
     c_input d = [] \<and> c_hand d = [] \<and> hc_err (c_in d) = None \<and> no_read_error d"

lemma length_word_of_nat:
  "n < 65536 \<Longrightarrow> unat (of_nat (n div 256) :: u8) * 256 + unat (of_nat n :: u8) = n"
  by (simp add: unat_of_nat take_bit_eq_mod)

lemma read_data_record:
  assumes "ready d" and "in_stream d = record @ rest"
    and "length record = 6 + length payload + overhead" "overhead \<le> 255"
    and "take 5 record = [recordTypeApplicationData, 3, 3,
      of_nat ((length record - 5) div 256), of_nat (length record - 5)]"
    and "decrypt (c_in d) record = Inr (Inr (payload, recordTypeApplicationData), inn')"
    and "payload \<noteq> []" "length payload \<le> maxPlaintext" "hc_cipher inn' \<noteq> None"
  obtains d' where "readRecord d = Inr (None, d')" "c_input d' = payload" "in_stream d' = rest"
    "c_in d' = inn'" "d' = d\<lparr>c_rawInput := c_rawInput d', c_wire := c_wire d', c_in := inn',
       c_retryCount := 0, c_input := payload\<rparr>" "no_read_error d'"
proof -
  let ?n = "length record - 5"
  have n: "?n \<le> maxCiphertextTLS13" "length record = 5 + ?n" using assms(3,4,8) by simp_all
  obtain raw w where 1: "readFromUntil d 5 = (None, d\<lparr>c_rawInput := raw, c_wire := w\<rparr>)"
      "5 \<le> length raw" "raw @ concat (map event_bytes w) = in_stream d" "\<forall>ev \<in> set w. \<exists>b. ev = Chunk b"
    by (rule readFromUntil_enough [of d 5]) (use assms(1-3) in \<open>auto simp: ready_def\<close>)
  let ?d1 = "d\<lparr>c_rawInput := raw, c_wire := w\<rparr>"
  have s1: "in_stream ?d1 = record @ rest" "no_read_error ?d1"
    using 1 assms(2) by (simp_all add: in_stream_def no_read_error_def)
  obtain raw2 w2 where 2: "readFromUntil ?d1 (5 + ?n) = (None, ?d1\<lparr>c_rawInput := raw2, c_wire := w2\<rparr>)"
      "5 + ?n \<le> length raw2" "raw2 @ concat (map event_bytes w2) = in_stream ?d1" "\<forall>ev \<in> set w2. \<exists>b. ev = Chunk b"
    by (rule readFromUntil_enough [of ?d1 "5 + ?n"]) (use s1 n in auto)
  have hdr: "take 5 raw = take 5 record"
  proof -
    have "take 5 (raw @ concat (map event_bytes w)) = take 5 (record @ rest)" using 1 assms(2) by simp
    then show ?thesis using 1(2) n by simp
  qed
  have split: "take (5 + ?n) raw2 = record" "drop (5 + ?n) raw2 @ concat (map event_bytes w2) = rest"
  proof -
    have eq: "raw2 @ concat (map event_bytes w2) = record @ rest" using 2 s1 by simp
    have "take (5 + ?n) (raw2 @ concat (map event_bytes w2)) = take (5 + ?n) (record @ rest)"
      "drop (5 + ?n) (raw2 @ concat (map event_bytes w2)) = drop (5 + ?n) (record @ rest)" by (simp_all only: eq)
    then show "take (5 + ?n) raw2 = record" "drop (5 + ?n) raw2 @ concat (map event_bytes w2) = rest"
      using 2(2) n by simp_all
  qed
  let ?d' = "d\<lparr>c_rawInput := drop (5 + ?n) raw2, c_wire := w2, c_in := inn', c_retryCount := 0, c_input := payload\<rparr>"
  have len: "unat (of_nat (?n div 256) :: u8) * 256 + unat (of_nat ?n :: u8) = ?n"
    by (rule length_word_of_nat) (use n in simp)
  have vers: "push_bit 8 (ucast (3 :: u8)) OR ucast (3 :: u8) = (VersionTLS12 :: u16)" by code_simp
  have check: "check_header True ?d1 (take 5 raw) = Inr ?n"
    unfolding hdr assms(5) check_header_def Let_def
    using assms(1) n len vers by (simp add: ready_def)
  have "read_one False d = Inr (Done None, ?d')"
    using assms(1,6-9) 1(1) 2(1) check split(1)
    by (auto simp: read_one_def ready_def read_body_def handle_record_def Let_def)
  then have "readRecord d = Inr (None, ?d')" by (simp add: readRecord_def readRecordOrCCS.simps)
  then show thesis using that [of ?d'] split(2) 2(4) by (simp add: in_stream_def no_read_error_def)
qed

subsection \<open>A whole write\<close>

text \<open>
  \<open>receives d bs d'\<close>: reading records and taking their data, as \<open>Read\<close> does, delivers the bytes
  \<open>bs\<close> and leaves the connection in state \<open>d'\<close>.
\<close>

inductive receives :: "conn \<Rightarrow> bytes \<Rightarrow> conn \<Rightarrow> bool" where
  receives_none: "receives d [] d"
| receives_record: "readRecord d = Inr (None, d1) \<Longrightarrow> receives (d1\<lparr>c_input := []\<rparr>) bs d' \<Longrightarrow>
    receives d (c_input d1 @ bs) d'"

text \<open>An end that can write application data, with a transport that takes every write.\<close>

definition writable :: "cipher_AEAD \<Rightarrow> conn \<Rightarrow> bool" where
  "writable a c \<longleftrightarrow> c_quic c = None \<and> c_vers c = VersionTLS13 \<and> \<not> c_buffering c \<and> c_writes c = []"

lemma maxPayload_data:
  assumes "hc_cipher (c_out c) = Some (Aead (xorNonceAEAD m a))" "raw_Overhead a \<le> 255"
    and "maxPayloadSizeForWrite c t = Inr (k, c1)"
  shows "1 \<le> k" "k \<le> int maxPlaintext" "c1 = c\<lparr>c_packetsSent := c_packetsSent c1\<rparr>"
proof -
  have "1 \<le> (1202 - int (raw_Overhead a)) * int (p + 1)" for p
    using assms(2) mult_mono [of 1 "1202 - int (raw_Overhead a)" 1 "int (p + 1)"] by simp
  moreover have "1 \<le> (1203 - int (raw_Overhead a)) * int (p + 1)" for p
    using assms(2) mult_mono [of 1 "1203 - int (raw_Overhead a)" 1 "int (p + 1)"] by simp
  ultimately show "1 \<le> k" "k \<le> int maxPlaintext" "c1 = c\<lparr>c_packetsSent := c_packetsSent c1\<rparr>"
    using assms(1,3)
    by (auto simp: maxPayloadSizeForWrite_def payload_bytes_def explicitNonceLen_def Let_def split: if_splits)
qed

lemma maxPayload_total:
  assumes "hc_cipher (c_out c) = Some (Aead (xorNonceAEAD m a))"
  obtains k c1 where "maxPayloadSizeForWrite c t = Inr (k, c1)"
  using assms that
  by (cases "maxPayloadSizeForWrite c t")
    (auto simp: maxPayloadSizeForWrite_def payload_bytes_def explicitNonceLen_def Let_def split: if_splits)

lemma record_header_tls13:
  "record_header t VersionTLS13 m = [t, 3, 3, of_nat (m div 256), of_nat m]"
  by (simp add: record_header_def Let_def)

text \<open>One turn of the loop: a record goes out that the other end can read.\<close>

lemma write_step:
  assumes "aead_laws a" "tls13_peers a (c_out c) inn" "writable a c" "raw_Overhead a \<le> 255"
    and "data \<noteq> []" "seq_value (hc_seq (c_out c)) < 2 ^ 64 - 1"
  obtains m rcd c' inn' where "0 < m" "m \<le> length data" "m \<le> maxPlaintext"
    "write_loop recordTypeApplicationData data n c = write_loop recordTypeApplicationData (drop m data) (n + m) c'"
    "c_sent c' = c_sent c @ rcd" "writable a c'"
    "length rcd = 6 + m + raw_Overhead a"
    "take 5 rcd = [recordTypeApplicationData, 3, 3, of_nat ((length rcd - 5) div 256), of_nat (length rcd - 5)]"
    "decrypt inn rcd = Inr (Inr (take m data, recordTypeApplicationData), inn')"
    "hc_err inn' = hc_err inn" "tls13_peers a (c_out c') inn'"
    "seq_value (hc_seq (c_out c')) = seq_value (hc_seq (c_out c)) + 1"
proof -
  obtain mask where ciph: "hc_cipher (c_out c) = Some (Aead (xorNonceAEAD mask a))"
    using assms(2) by (auto simp: tls13_peers_def peers_def)
  obtain k c1 where k: "maxPayloadSizeForWrite c recordTypeApplicationData = Inr (k, c1)"
    by (rule maxPayload_total [OF ciph])
  note kb = maxPayload_data [OF ciph assms(4) k]
  have c1: "c_out c1 = c_out c" "c_vers c1 = c_vers c" "c_rand c1 = c_rand c" "writable a c1" "c_sent c1 = c_sent c"
    using assms(3) by (subst kb(3), simp add: writable_def)+
  define m where "m = nat (min k (int (length data)))"
  have m: "0 < m" "m \<le> length data" "m \<le> maxPlaintext"
    using kb assms(5) by (auto simp: m_def)
  have mk: "int m = (if int (length data) > k then k else int (length data))"
    using kb assms(5) by (auto simp: m_def)
  let ?hdr = "record_header recordTypeApplicationData VersionTLS13 m"
  obtain rcd out' inn' where enc: "encrypt (c_out c) ?hdr (take m data) (c_rand c) = Inr (Inr rcd, out', c_rand c)"
    and rec: "length rcd = 6 + m + raw_Overhead a"
      "take 5 rcd = [recordTypeApplicationData, 3, 3, of_nat ((length rcd - 5) div 256), of_nat (length rcd - 5)]"
      "decrypt inn rcd = Inr (Inr (take m data, recordTypeApplicationData), inn')"
      "hc_err inn' = hc_err inn" "tls13_peers a out' inn'" "seq_value (hc_seq out') = seq_value (hc_seq (c_out c)) + 1"
    using tls13_data_record [OF assms(1,2), of ?hdr "take m data" "c_rand c"] m assms(6)
    by (auto simp: record_header_tls13)
  let ?c = "c1\<lparr>c_out := out', c_rand := c_rand c, c_sent := c_sent c1 @ rcd, c_bytesSent := c_bytesSent c1 + length rcd\<rparr>"
  have w: "conn_write (c1\<lparr>c_out := out', c_rand := c_rand c\<rparr>) rcd = ((length rcd, None), ?c)"
    using c1(4) by (simp add: conn_write_def writable_def)
  have step: "write_loop recordTypeApplicationData data n c = write_loop recordTypeApplicationData (drop m data) (n + m) ?c"
    using k enc w c1 assms(3,5)
    by (subst write_loop.simps) (simp add: Let_def mk [symmetric] writable_def)
  show thesis
    by (rule that [OF m step _ _ rec(1,2,3,4)]) (use c1 rec in \<open>simp_all add: writable_def\<close>)
qed

lemma transfer:
  assumes "aead_laws a" "raw_Overhead a \<le> 255"
    and "tls13_peers a (c_out c) inn" "writable a c"
    and "seq_value (hc_seq (c_out c)) + length data < 2 ^ 64"
  shows "\<exists>stream c'. write_loop recordTypeApplicationData data n c = Inr ((n + length data, None), c') \<and>
    c_sent c' = c_sent c @ stream \<and> writable a c' \<and>
    (\<forall>d rest. c_in d = inn \<and> ready d \<and> in_stream d = stream @ rest \<longrightarrow>
      (\<exists>d'. receives d data d' \<and> in_stream d' = rest \<and> ready d' \<and> tls13_peers a (c_out c') (c_in d')))"
  using assms(3-)
proof (induction "length data" arbitrary: data n c inn rule: less_induct)
  case less
  show ?case
  proof (cases "data = []")
    case True
    then show ?thesis
      using less.prems by (auto simp: write_loop.simps intro!: exI [of _ "[]"] receives_none)
  next
    case False
    then have seq: "seq_value (hc_seq (c_out c)) < 2 ^ 64 - 1" using less.prems(3) by (cases data) simp_all
    obtain m rcd c1 inn' where m: "0 < m" "m \<le> length data" "m \<le> maxPlaintext"
      and step: "write_loop recordTypeApplicationData data n c = write_loop recordTypeApplicationData (drop m data) (n + m) c1"
      and sent: "c_sent c1 = c_sent c @ rcd" "writable a c1"
      and rec: "length rcd = 6 + m + raw_Overhead a"
        "take 5 rcd = [recordTypeApplicationData, 3, 3, of_nat ((length rcd - 5) div 256), of_nat (length rcd - 5)]"
        "decrypt inn rcd = Inr (Inr (take m data, recordTypeApplicationData), inn')"
        "hc_err inn' = hc_err inn" "tls13_peers a (c_out c1) inn'"
        "seq_value (hc_seq (c_out c1)) = seq_value (hc_seq (c_out c)) + 1"
      by (rule write_step [OF assms(1) less.prems(1,2) assms(2) False seq])
    have "\<exists>stream c'. write_loop recordTypeApplicationData (drop m data) (n + m) c1 =
        Inr ((n + m + length (drop m data), None), c') \<and> c_sent c' = c_sent c1 @ stream \<and> writable a c' \<and>
      (\<forall>d rest. c_in d = inn' \<and> ready d \<and> in_stream d = stream @ rest \<longrightarrow>
        (\<exists>d'. receives d (drop m data) d' \<and> in_stream d' = rest \<and> ready d' \<and> tls13_peers a (c_out c') (c_in d')))"
      by (rule less.hyps) (use m sent rec less.prems(3) in simp_all)
    then obtain stream c' where IH: "write_loop recordTypeApplicationData (drop m data) (n + m) c1 =
        Inr ((n + length data, None), c')" "c_sent c' = c_sent c1 @ stream" "writable a c'"
      "\<And>d rest. c_in d = inn' \<Longrightarrow> ready d \<Longrightarrow> in_stream d = stream @ rest \<Longrightarrow>
        \<exists>d'. receives d (drop m data) d' \<and> in_stream d' = rest \<and> ready d' \<and> tls13_peers a (c_out c') (c_in d')"
      using m by auto
    have "\<exists>d'. receives d0 data d' \<and> in_stream d' = rest \<and> ready d' \<and> tls13_peers a (c_out c') (c_in d')"
      if d0: "c_in d0 = inn" "ready d0" "in_stream d0 = rcd @ stream @ rest" for d0 rest
    proof -
      have payload: "length rcd = 6 + length (take m data) + raw_Overhead a" "take m data \<noteq> []"
        "length (take m data) \<le> maxPlaintext" using rec(1) m False by auto
      have ciph: "hc_cipher inn' \<noteq> None" using rec(5) by (auto simp: tls13_peers_def peers_def)
      obtain d1 where d1: "readRecord d0 = Inr (None, d1)" "c_input d1 = take m data" "in_stream d1 = stream @ rest"
          "c_in d1 = inn'" "d1 = d0\<lparr>c_rawInput := c_rawInput d1, c_wire := c_wire d1, c_in := inn',
             c_retryCount := 0, c_input := take m data\<rparr>" "no_read_error d1"
        by (rule read_data_record [OF d0(2,3) payload(1) assms(2) rec(2) _ payload(2,3) ciph]) (use d0(1) rec(3) in simp_all)
      let ?d1 = "d1\<lparr>c_input := []\<rparr>"
      have "ready ?d1"
        using d0 d1(4,6) rec(4) by (subst d1(5)) (simp add: ready_def no_read_error_def)
      moreover have "in_stream ?d1 = stream @ rest" using d1(3) by (simp add: in_stream_def)
      ultimately obtain d' where "receives ?d1 (drop m data) d'" "in_stream d' = rest" "ready d'"
          "tls13_peers a (c_out c') (c_in d')"
        using IH(4) [of ?d1] d1(4) by auto
      then show ?thesis using receives_record [OF d1(1), of "drop m data" d'] d1(2) by auto
    qed
    then show ?thesis using step IH(1-3) sent(1) by (auto intro!: exI [of _ "rcd @ stream"])
  qed
qed

subsection \<open>Properties\<close>

text \<open>(C17) What one end of a TLS 1.3 connection writes, the other end reads. For a lawful AEAD and
  two ends in step, \<open>Write\<close> accepts all the data and puts a stream of records on the wire whose
  sizes follow the dynamic record sizing; an end that receives this stream, in whatever
  pieces, followed by whatever else, delivers exactly the data, stops exactly at its end and is
  in step with the writer again.\<close>

theorem tls13_write_read:
  assumes "aead_laws a" "raw_Overhead a \<le> 255"
    and "tls13_peers a (c_out c) inn" "writable a c"
    and "c_isHandshakeComplete c" "even (c_activeCall c)" "hc_err (c_out c) = None" "\<not> c_closeNotifySent c"
    and "seq_value (hc_seq (c_out c)) + length data < 2 ^ 64"
  shows "\<exists>stream c'. Write handshakeFn c data = Inr ((length data, None), c') \<and>
    c_sent c' = c_sent c @ stream \<and>
    (\<forall>d rest. c_in d = inn \<and> ready d \<and> in_stream d = stream @ rest \<longrightarrow>
      (\<exists>d'. receives d data d' \<and> in_stream d' = rest \<and> ready d' \<and> tls13_peers a (c_out c') (c_in d')))"
proof -
  let ?c = "c\<lparr>c_activeCall := c_activeCall c + 2\<rparr>"
  obtain stream c' where w: "write_loop recordTypeApplicationData data 0 ?c = Inr ((length data, None), c')"
      "c_sent c' = c_sent ?c @ stream" "writable a c'"
      "\<forall>d rest. c_in d = inn \<and> ready d \<and> in_stream d = stream @ rest \<longrightarrow>
        (\<exists>d'. receives d data d' \<and> in_stream d' = rest \<and> ready d' \<and> tls13_peers a (c_out c') (c_in d'))"
    using transfer [OF assms(1,2), of ?c inn data 0] assms(3,4,9) by (auto simp: writable_def)
  have quic: "c_quic c = None" "c_quic c' = None" "c_vers c = VersionTLS13" using assms(4) w(3) by (simp_all add: writable_def)
  let ?c' = "c'\<lparr>c_out := (c_out c')\<lparr>hc_err := None\<rparr>, c_activeCall := c_activeCall c' - 2\<rparr>"
  have "Write handshakeFn c data = Inr ((length data, None), ?c')"
    using assms(5-8) w(1) quic
    by (simp add: Write_def handshakeContext_def write_data_def writeRecordLocked_def write_record_body_def
        out_setErrorLocked_def setErrorLocked_def Let_def)
  moreover have "tls13_peers a (c_out ?c') inn' \<longleftrightarrow> tls13_peers a (c_out c') inn'" for inn'
    by (simp add: tls13_peers_def peers_def)
  ultimately show ?thesis using w(2,4) by (intro exI [of _ stream] exI [of _ ?c']) simp
qed

theorem tls13_write_read_witness:
  "\<exists>stream c'. Write (\<lambda>c. Inr (None, c)) sample_conn [104, 105] = Inr ((2, None), c') \<and> c_sent c' = stream \<and>
    (\<forall>rest. \<exists>d'. receives (sample_conn\<lparr>c_wire := [Chunk stream, Chunk rest]\<rparr>) [104, 105] d' \<and> in_stream d' = rest)"
proof -
  have "\<exists>stream c'. Write (\<lambda>c. Inr (None, c)) sample_conn [104, 105] =
      Inr ((length [104 :: u8, 105], None), c') \<and> c_sent c' = c_sent sample_conn @ stream \<and>
    (\<forall>d rest. c_in d = idle_half \<and> ready d \<and> in_stream d = stream @ rest \<longrightarrow>
      (\<exists>d'. receives d [104, 105] d' \<and> in_stream d' = rest \<and> ready d' \<and> tls13_peers sum_aead (c_out c') (c_in d')))"
    by (rule tls13_write_read [OF sum.aead_laws_axioms])
      (simp_all add: sample_conn_def writable_def idle_half_def tls13_peers_def peers_def sum_aead_def seq_value_def)
  then obtain c' where c': "Write (\<lambda>c. Inr (None, c)) sample_conn [104, 105] = Inr ((2, None), c')"
      "\<And>d rest. c_in d = idle_half \<Longrightarrow> ready d \<Longrightarrow> in_stream d = c_sent c' @ rest \<Longrightarrow>
        \<exists>d'. receives d [104, 105] d' \<and> in_stream d' = rest"
    by (fastforce simp: sample_conn_def numeral_2_eq_2)
  have "\<exists>d'. receives (sample_conn\<lparr>c_wire := [Chunk (c_sent c'), Chunk rest]\<rparr>) [104, 105] d' \<and> in_stream d' = rest" for rest
    by (rule c'(2)) (simp_all add: ready_def sample_conn_def no_read_error_def idle_half_def in_stream_def)
  then show ?thesis using c'(1) by blast
qed

end
