(* ===== verification/Conn_Handshake.thy ===== *)
theory Conn_Handshake
  imports Conn_Reading Handshake_Codec "HOL-Library.Monad_Syntax"
begin

text \<open>
  Handshake messages over the connection of \<open>src/conn.go\<close>: writing one with the transcript,
  gathering one from records (or, on QUIC, from the signals of \<open>src/quic.go\<close>), the messages
  that may follow the handshake, and \<open>Read\<close>.

  \<open>conn_env\<close> holds the functions of other files that these call: the client's handshake (for a
  renegotiation), the client's handling of a NewSessionTicket, and the key derivation of a TLS
  1.3 suite.
\<close>

record conn_env =
  env_clientHandshake :: handshake_fn
  env_handleNewSessionTicket :: "newSessionTicketMsgTLS13 \<Rightarrow> conn \<Rightarrow> (conn_error option \<times> conn) may_panic"
  env_nextTrafficSecret :: "u16 \<Rightarrow> bytes \<Rightarrow> bytes"
  env_trafficKey :: "u16 \<Rightarrow> bytes \<Rightarrow> bytes \<times> bytes"
  env_aead :: "u16 \<Rightarrow> bytes \<Rightarrow> bytes \<Rightarrow> aead"

subsection \<open>Writing\<close>

definition writeHandshakeRecord :: "'b cryptobyte \<Rightarrow> conn \<Rightarrow> handshakeMessage \<Rightarrow> bytes option \<Rightarrow>
    ((nat \<times> conn_error option) \<times> bytes option \<times> conn) may_panic" where
  "writeHandshakeRecord cb c msg transcript =
    (case msg_marshal cb msg of
       None \<Rightarrow> Inr ((0, Some (ErrorMsg ''marshal'')), transcript, c)
     | Some data \<Rightarrow>
         let transcript = map_option (\<lambda>h. h @ data) transcript
         in map_sum id (\<lambda>(r, c). (r, transcript, c)) (gather_handshake c data))"

subsection \<open>Reading\<close>

text \<open>\<open>quicWaitForSignal\<close>: the next signal's data, or the cancellation.\<close>

definition quicWaitForSignal :: "conn \<Rightarrow> (conn_error option \<times> conn) may_panic" where
  "quicWaitForSignal c =
    (case c_quic c of
       None \<Rightarrow> Inl NilDeref
     | Some q \<Rightarrow>
         (case q_signals q of
            [] \<Rightarrow> sendAlertLocked c alertCloseNotify
          | readbuf # signals \<Rightarrow>
              Inr (None, c\<lparr>c_hand := c_hand c @ readbuf, c_quic := Some (q\<lparr>q_signals := signals\<rparr>)\<rparr>)))"

fun signals_left :: "conn \<Rightarrow> nat" where
  "signals_left c = (case c_quic c of None \<Rightarrow> 0 | Some q \<Rightarrow> length (q_signals q))"

lemma quicWaitForSignal_progress:
  "quicWaitForSignal c = Inr (None, c') \<Longrightarrow> signals_left c' < signals_left c"
  by (auto simp: quicWaitForSignal_def sendAlertLocked_def out_setErrorLocked_def setErrorLocked_def Let_def
      split: option.splits list.splits)

function quicReadHandshakeBytes :: "nat \<Rightarrow> conn \<Rightarrow> (conn_error option \<times> conn) may_panic" where
  "quicReadHandshakeBytes n c =
    (if length (c_hand c) < n then
       (case quicWaitForSignal c of
          Inl p \<Rightarrow> Inl p
        | Inr (Some e, c) \<Rightarrow> Inr (Some e, c)
        | Inr (None, c) \<Rightarrow> quicReadHandshakeBytes n c)
     else Inr (None, c))"
  by pat_completeness auto

termination
  by (relation "measure (\<lambda>(n, c). signals_left c)") (auto dest: quicWaitForSignal_progress simp del: signals_left.simps)

declare quicReadHandshakeBytes.simps [simp del]

text \<open>
  The loop of \<open>readHandshakeBytes\<close> ends because a successful read either makes the handshake
  buffer longer or sets application data, and with application data pending the next read fails.
\<close>

lemma readRecord_progress:
  assumes "readRecord c = Inr (None, c')" "length (c_hand c) < n"
  shows "2 * (n - length (c_hand c')) + (if c_input c' = [] then 1 else 0)
    < 2 * (n - length (c_hand c)) + (if c_input c = [] then 1 else (0 :: nat))"
  using read_result [OF assms(1) [unfolded readRecord_def]] assms(2)
  by (auto simp: failed_def succeeded_def neq_Nil_conv)

function read_handshake_loop :: "nat \<Rightarrow> conn \<Rightarrow> (conn_error option \<times> conn) may_panic" where
  "read_handshake_loop n c =
    (if length (c_hand c) < n then
       (case readRecord c of
          Inl p \<Rightarrow> Inl p
        | Inr (Some e, c) \<Rightarrow> Inr (Some e, c)
        | Inr (None, c) \<Rightarrow> read_handshake_loop n c)
     else Inr (None, c))"
  by pat_completeness auto

termination
  by (relation "measure (\<lambda>(n, c). 2 * (n - length (c_hand c)) + (if c_input c = [] then 1 else 0))")
    (simp, simp only: in_measure prod.case readRecord_progress)

declare read_handshake_loop.simps [simp del]

definition readHandshakeBytes :: "nat \<Rightarrow> conn \<Rightarrow> (conn_error option \<times> conn) may_panic" where
  "readHandshakeBytes n c = (if c_quic c \<noteq> None then quicReadHandshakeBytes n c else read_handshake_loop n c)"

text \<open>
  A message or the error, with the transcript; \<open>Inl None\<close> would be neither, which
  \<open>setErrorLocked\<close> of a close notify could return.
\<close>

type_synonym read_message = "conn_error option + handshakeMessage \<times> bytes option"

definition unmarshal_message :: "'b cryptobyte \<Rightarrow> conn \<Rightarrow> bytes \<Rightarrow> bytes option \<Rightarrow> (read_message \<times> conn) may_panic" where
  "unmarshal_message cb c data transcript =
    (case unmarshalHandshakeMessage cb (c_vers c) data transcript of
       Inl p \<Rightarrow> Inl p
     | Inr (Inr m) \<Rightarrow> Inr (Inr m, c)
     | Inr (Inl a) \<Rightarrow>
         (case sendAlert c a of
            Inl p \<Rightarrow> Inl p
          | Inr (err, c) \<Rightarrow> let (err, c) = in_setErrorLocked c err in Inr (Inl err, c)))"

definition readHandshake :: "'b cryptobyte \<Rightarrow> conn \<Rightarrow> bytes option \<Rightarrow> (read_message \<times> conn) may_panic" where
  "readHandshake cb c transcript =
    (case readHandshakeBytes 4 c of
       Inl p \<Rightarrow> Inl p
     | Inr (Some e, c) \<Rightarrow> Inr (Inl (Some e), c)
     | Inr (None, c) \<Rightarrow>
         let data = c_hand c;
             maxHandshakeSize = (if c_haveVers c \<and> data ! 0 = typeCertificate
                                 then maxHandshakeCertificateMsg else maxHandshake);
             n = unat (data ! 1) * 65536 + unat (data ! 2) * 256 + unat (data ! 3)
         in if n > maxHandshakeSize then
              (case sendAlertLocked c alertInternalError of
                 Inl p \<Rightarrow> Inl p
               | Inr (_, c) \<Rightarrow>
                   let (err, c) = in_setErrorLocked c (Some (ErrorMsg ''tls: handshake message exceeds maximum''))
                   in Inr (Inl err, c))
            else (case readHandshakeBytes (4 + n) c of
                    Inl p \<Rightarrow> Inl p
                  | Inr (Some e, c) \<Rightarrow> Inr (Inl (Some e), c)
                  | Inr (None, c) \<Rightarrow>
                      unmarshal_message cb (c\<lparr>c_hand := drop (4 + n) (c_hand c)\<rparr>) (take (4 + n) (c_hand c)) transcript))"

subsection \<open>After the handshake\<close>

text \<open>\<open>c.sendAlert(a)\<close>, its result dropped, and another error returned, recorded or not.\<close>

definition alert_error :: "conn \<Rightarrow> u8 \<Rightarrow> string \<Rightarrow> (conn_error option \<times> conn) may_panic" where
  "alert_error c a msg = map_sum id (\<lambda>(_, c). (Some (ErrorMsg msg), c)) (sendAlert c a)"

definition alert_record_error :: "conn \<Rightarrow> u8 \<Rightarrow> string \<Rightarrow> (conn_error option \<times> conn) may_panic" where
  "alert_record_error c a msg = map_sum id (\<lambda>(_, c). in_setErrorLocked c (Some (ErrorMsg msg))) (sendAlert c a)"

definition handleRenegotiation :: "conn_env \<Rightarrow> 'b cryptobyte \<Rightarrow> conn \<Rightarrow> (conn_error option \<times> conn) may_panic" where
  "handleRenegotiation env cb c =
    (if c_vers c = VersionTLS13 then Inr (Some (ErrorMsg ''tls: internal error: unexpected renegotiation''), c)
     else case readHandshake cb c None of
            Inl p \<Rightarrow> Inl p
          | Inr (Inl err, c) \<Rightarrow> Inr (err, c)
          | Inr (Inr (msg, _), c) \<Rightarrow>
              if msg \<noteq> HelloRequest then alert_error c alertUnexpectedMessage ''tls: received unexpected handshake message''
              else if \<not> c_isClient c then sendAlert c alertNoRenegotiation
              else if c_Renegotiation c = 0 then sendAlert c alertNoRenegotiation
              else if c_Renegotiation c = 1 \<and> c_handshakes c > 1 then sendAlert c alertNoRenegotiation
              else if c_Renegotiation c > 2 then alert_error c alertInternalError ''tls: unknown Renegotiation value''
              else (case env_clientHandshake env (c\<lparr>c_isHandshakeComplete := False\<rparr>) of
                      Inl p \<Rightarrow> Inl p
                    | Inr (err, c) \<Rightarrow>
                        let c = c\<lparr>c_handshakeErr := err\<rparr>
                        in Inr (err, if err = None then c\<lparr>c_handshakes := c_handshakes c + 1\<rparr> else c)))"

definition set_traffic :: "conn_env \<Rightarrow> u16 \<Rightarrow> halfConn \<Rightarrow> bytes \<Rightarrow> halfConn" where
  "set_traffic env suite hc secret = setTrafficSecret hc (env_trafficKey env suite) (env_aead env suite) 0 secret"

definition handleKeyUpdate :: "conn_env \<Rightarrow> 'b cryptobyte \<Rightarrow> conn \<Rightarrow> keyUpdateMsg \<Rightarrow> (conn_error option \<times> conn) may_panic" where
  "handleKeyUpdate env cb c keyUpdate =
    (if c_quic c \<noteq> None then alert_record_error c alertUnexpectedMessage ''tls: received unexpected key update message''
     else case cipherSuiteTLS13ByID (c_cipherSuite c) of
            None \<Rightarrow>
              (case sendAlert c alertInternalError of
                 Inl p \<Rightarrow> Inl p
               | Inr (err, c) \<Rightarrow> Inr (in_setErrorLocked c err))
          | Some suite \<Rightarrow>
              let newSecret = env_nextTrafficSecret env suite (hc_trafficSecret (c_in c));
                  c = c\<lparr>c_in := set_traffic env suite (c_in c) newSecret\<rparr>
              in if \<not> ku_updateRequested keyUpdate then Inr (None, c)
                 else case keyUpdateMsg_marshal cb \<lparr>ku_updateRequested = False\<rparr> of
                        None \<Rightarrow> Inr (Some (ErrorMsg ''marshal''), c)
                      | Some msgBytes \<Rightarrow>
                          (case writeRecordLocked c recordTypeHandshake msgBytes of
                             Inl p \<Rightarrow> Inl p
                           | Inr ((_, Some e), c) \<Rightarrow> Inr (None, snd (out_setErrorLocked c (Some e)))
                           | Inr ((_, None), c) \<Rightarrow>
                               let newSecret = env_nextTrafficSecret env suite (hc_trafficSecret (c_out c))
                               in Inr (None, c\<lparr>c_out := set_traffic env suite (c_out c) newSecret\<rparr>)))"

definition handlePostHandshakeMessage :: "conn_env \<Rightarrow> 'b cryptobyte \<Rightarrow> conn \<Rightarrow> (conn_error option \<times> conn) may_panic" where
  "handlePostHandshakeMessage env cb c =
    (if c_vers c \<noteq> VersionTLS13 then handleRenegotiation env cb c
     else case readHandshake cb c None of
            Inl p \<Rightarrow> Inl p
          | Inr (Inl err, c) \<Rightarrow> Inr (err, c)
          | Inr (Inr (msg, _), c) \<Rightarrow>
              let c = c\<lparr>c_retryCount := c_retryCount c + 1\<rparr> in
              if c_retryCount c > c_MaxUselessRecords c then
                alert_record_error c alertUnexpectedMessage ''tls: too many non-advancing records''
              else (case msg of
                      NewSessionTicketTLS13 m \<Rightarrow> env_handleNewSessionTicket env m c
                    | KeyUpdate m \<Rightarrow> handleKeyUpdate env cb c m
                    | _ \<Rightarrow> alert_error c alertUnexpectedMessage ''tls: received unexpected handshake message''))"

text \<open>
  The loops of \<open>Read\<close>, which end when the peer lets them: \<open>None\<close> is a call that does not return.
\<close>

partial_function (option) post_loop :: "conn_env \<Rightarrow> 'b cryptobyte \<Rightarrow> conn \<Rightarrow> (conn_error option \<times> conn) may_panic option" where
  "post_loop env cb c =
    (if c_hand c = [] then Some (Inr (None, c))
     else case handlePostHandshakeMessage env cb c of
            Inl p \<Rightarrow> Some (Inl p)
          | Inr (Some e, c) \<Rightarrow> Some (Inr (Some e, c))
          | Inr (None, c) \<Rightarrow> post_loop env cb c)"

partial_function (option) input_loop :: "conn_env \<Rightarrow> 'b cryptobyte \<Rightarrow> conn \<Rightarrow> (conn_error option \<times> conn) may_panic option" where
  "input_loop env cb c =
    (if c_input c \<noteq> [] then Some (Inr (None, c))
     else case readRecord c of
            Inl p \<Rightarrow> Some (Inl p)
          | Inr (Some e, c) \<Rightarrow> Some (Inr (Some e, c))
          | Inr (None, c) \<Rightarrow>
              do { r \<leftarrow> post_loop env cb c;
                   (case r of
                      Inl p \<Rightarrow> Some (Inl p)
                    | Inr (Some e, c) \<Rightarrow> Some (Inr (Some e, c))
                    | Inr (None, c) \<Rightarrow> input_loop env cb c) })"

text \<open>\<open>Read\<close> into a buffer of \<open>len\<close> bytes: the bytes read, the error and the new state.\<close>

definition Read :: "conn_env \<Rightarrow> handshake_fn \<Rightarrow> 'b cryptobyte \<Rightarrow> conn \<Rightarrow> nat \<Rightarrow>
    ((bytes \<times> conn_error option) \<times> conn) may_panic option" where
  "Read env handshakeFn cb c len =
    (case handshakeContext handshakeFn c of
       Inl p \<Rightarrow> Some (Inl p)
     | Inr (Some e, c) \<Rightarrow> Some (Inr (([], Some e), c))
     | Inr (None, c) \<Rightarrow>
         if len = 0 then Some (Inr (([], None), c))
         else do {
           r \<leftarrow> input_loop env cb c;
           (case r of
              Inl p \<Rightarrow> Some (Inl p)
            | Inr (Some e, c) \<Rightarrow> Some (Inr (([], Some e), c))
            | Inr (None, c) \<Rightarrow>
                let b = take len (c_input c);
                    c = c\<lparr>c_input := drop len (c_input c)\<rparr>
                in if b \<noteq> [] \<and> c_input c = [] \<and> c_rawInput c \<noteq> [] \<and> c_rawInput c ! 0 = recordTypeAlert then
                     (case readRecord c of
                        Inl p \<Rightarrow> Some (Inl p)
                      | Inr (err, c) \<Rightarrow> Some (Inr ((b, err), c)))
                   else Some (Inr ((b, None), c)))
         })"

text \<open>
  The limit on messages after the handshake is the field \<open>MaxUselessRecords\<close> itself, which only
  \<open>retryReadRecord\<close> replaces by its default: while it is zero, the first KeyUpdate or
  NewSessionTicket already ends the connection.
\<close>

lemma post_handshake_limit_unset:
  assumes "c_vers c = VersionTLS13" "readHandshake cb c None = Inr (Inr m, c1)"
    and "c_MaxUselessRecords c1 = 0" "c_retryCount c1 = 0"
    and "handlePostHandshakeMessage env cb c = Inr (err, c')"
  shows "err = Some (ErrorMsg ''tls: too many non-advancing records'') \<and> hc_err (c_in c') = err"
  using assms
  by (cases "sendAlert (c1\<lparr>c_retryCount := 1\<rparr>) alertUnexpectedMessage")
    (auto simp: handlePostHandshakeMessage_def alert_record_error_def in_setErrorLocked_def setErrorLocked_def
      Let_def split: prod.splits)

end
