(* ===== verification/Dest_Meta.thy ===== *)
theory Dest_Meta
  imports Amortize
begin

text \<open>
  What the program learns of a destination's certificates, \<open>src/dest_cert_meta.go\<close>: the display
  data of the chain, kept per destination, and the sizes of the EncryptedExtensions messages it was
  seen to send, kept in a ring of eight samples. The classes of a ClientHello that the same file
  defines are in \<open>Amortize\<close>; the warming of plans is in \<open>Cert_Plan\<close>.

  A parsed \<open>x509.Certificate\<close> is the record \<open>x509\<close> of the fields the program reads. The two
  \<open>sync.Map\<close>s are the fields of \<open>destMeta\<close>. A copy of a slice is the same list.
\<close>

subsection \<open>Trimming white space\<close>

text \<open>\<open>strings.TrimSpace\<close>: the UTF-8 encodings of the runes that \<open>unicode.IsSpace\<close> accepts.\<close>

definition space_runes :: "string list" where
  "space_runes = map (map char_of)
     ([[9], [10], [11], [12], [13], [32], [0xC2, 0x85], [0xC2, 0xA0], [0xE1, 0x9A, 0x80]] @
      map (\<lambda>b. [0xE2, 0x80, b]) ([0x80..<0x8B] @ [0xA8, 0xA9, 0xAF]) @
      [[0xE2, 0x81, 0x9F], [0xE3, 0x80, 0x80 :: nat]])"

lemma strip_shorter:
  assumes "find (\<lambda>w. w \<noteq> [] \<and> take (length w) s = w) ws = Some w"
  shows "length (drop (length w) s) < length s"
proof -
  have "w \<noteq> []" "take (length w) s = w" using assms by (auto simp: find_Some_iff)
  then show ?thesis by (cases s) auto
qed

function strip :: "string list \<Rightarrow> string \<Rightarrow> string" where
  "strip ws s =
     (case find (\<lambda>w. w \<noteq> [] \<and> take (length w) s = w) ws of
        Some w \<Rightarrow> strip ws (drop (length w) s)
      | None \<Rightarrow> s)"
  by pat_completeness auto
termination
  by (relation "measure (\<lambda>(ws, s). length s)") (auto dest!: strip_shorter)

declare strip.simps [simp del]

definition TrimSpace :: "string \<Rightarrow> string" where
  "TrimSpace s = rev (strip (map rev space_runes) (rev (strip space_runes s)))"

subsection \<open>Learned certificate data\<close>

record x509 =
  xc_CommonName :: string
  xc_Organization :: "string list"
  xc_Country :: "string list"
  xc_IssuerCN :: string
  xc_IssuerOrganization :: "string list"
  xc_IssuerCountry :: "string list"
  xc_DNSNames :: "string list"
  xc_NotBefore :: gotime
  xc_NotAfter :: gotime
  xc_Raw :: bytes
  xc_hasPublicKey :: bool

record CertShapeHint =
  sh_PreferredChainDepth :: int
  sh_TargetChainLens :: "int list"

record destEEStats =
  ee_samples :: "int list"
  ee_n :: nat
  ee_idx :: nat

record destMeta =
  dm_certs :: "string \<rightharpoonup> DestCertMeta"
  dm_ee :: "string \<rightharpoonup> destEEStats"

definition NoteDestCertMeta :: "gotime \<Rightarrow> string \<Rightarrow> DestCertMeta option \<Rightarrow> destMeta \<Rightarrow> destMeta" where
  "NoteDestCertMeta now dest meta d =
     (let dest = TrimSpace dest in
      case meta of
        None \<Rightarrow> d
      | Some meta \<Rightarrow>
          if dest = [] then d
          else let cp = (if cm_Updated meta = 0 then meta\<lparr>cm_Updated := now\<rparr> else meta) in
            d\<lparr>dm_certs := (dm_certs d)(dest \<mapsto> cp)\<rparr>)"

definition GetDestCertMeta :: "string \<Rightarrow> destMeta \<Rightarrow> DestCertMeta option" where
  "GetDestCertMeta dest d =
     (let dest = TrimSpace dest in if dest = [] then None else dm_certs d dest)"

definition estimateParsedCertSize :: "x509 \<Rightarrow> int" where
  "estimateParsedCertSize c =
     300 + int (length (xc_CommonName c)) + sum_list (map (int \<circ> length) (xc_DNSNames c)) +
     (if xc_hasPublicKey c then 64 else 0)"

definition first_or_empty :: "string list \<Rightarrow> string" where
  "first_or_empty xs = (case xs of [] \<Rightarrow> [] | x # _ \<Rightarrow> x)"

text \<open>The body of the loop over \<open>chain[1:]\<close>.\<close>

definition learn_intermediate :: "nat \<times> x509 option \<Rightarrow> DestCertMeta \<Rightarrow> DestCertMeta" where
  "learn_intermediate = (\<lambda>(i, c) meta. case c of
     None \<Rightarrow> meta
   | Some c \<Rightarrow>
       let cn = (if xc_CommonName c = [] \<and> xc_Organization c \<noteq> [] then hd (xc_Organization c) else xc_CommonName c);
           meta = (if cn \<noteq> [] then meta\<lparr>cm_IntermediateNames := cm_IntermediateNames meta @ [cn]\<rparr> else meta)
       in if i = 1 then
            let meta = (if xc_CommonName c \<noteq> [] then meta\<lparr>cm_IssuerCN := xc_CommonName c\<rparr> else meta);
                meta = (if xc_Organization c \<noteq> [] then meta\<lparr>cm_IssuerOrg := hd (xc_Organization c)\<rparr> else meta)
            in if xc_Country c \<noteq> [] then meta\<lparr>cm_IssuerCountry := hd (xc_Country c)\<rparr> else meta
          else meta)"

definition parsed_len :: "x509 \<Rightarrow> int" where
  "parsed_len c = (if length (xc_Raw c) = 0 then estimateParsedCertSize c else int (length (xc_Raw c)))"

definition LearnDestCertMetaFromChain ::
    "gotime \<Rightarrow> string \<Rightarrow> x509 option list \<Rightarrow> destMeta \<Rightarrow> DestCertMeta option \<times> destMeta" where
  "LearnDestCertMetaFromChain now dest chain d =
     (case chain of
        Some leaf # _ \<Rightarrow>
          let meta = \<lparr>cm_CN = xc_CommonName leaf, cm_DNSNames = xc_DNSNames leaf,
                cm_Organization = first_or_empty (xc_Organization leaf),
                cm_NotBefore = xc_NotBefore leaf, cm_NotAfter = xc_NotAfter leaf,
                cm_ChainDepth = int (length chain), cm_ChainLens = [], cm_LeafLen = 0, cm_Updated = now,
                cm_IssuerCN = xc_IssuerCN leaf, cm_IssuerOrg = first_or_empty (xc_IssuerOrganization leaf),
                cm_IssuerCountry = first_or_empty (xc_IssuerCountry leaf), cm_IntermediateNames = []\<rparr>;
              meta = fold learn_intermediate (tl (enumerate 0 chain)) meta;
              lens = map (parsed_len \<circ> the) (filter (\<lambda>c. c \<noteq> None) chain);
              meta = meta\<lparr>cm_ChainLens := lens\<rparr>;
              meta = (case lens of n # _ \<Rightarrow> meta\<lparr>cm_LeafLen := n\<rparr> | [] \<Rightarrow> meta);
              d = (if dest \<noteq> [] then
                     let d = NoteDestCertMeta now dest (Some meta) d in
                     if cm_CN meta \<noteq> [] then NoteDestCertMeta now (cm_CN meta) (Some meta) d else d
                   else d)
          in (Some meta, d)
      | _ \<Rightarrow> (None, d))"

definition ShapeHintFromMeta :: "DestCertMeta option \<Rightarrow> CertShapeHint option" where
  "ShapeHintFromMeta meta =
     map_option (\<lambda>m. \<lparr>sh_PreferredChainDepth = cm_ChainDepth m, sh_TargetChainLens = cm_ChainLens m\<rparr>) meta"

definition CloneDestCertMeta :: "DestCertMeta option \<Rightarrow> DestCertMeta option" where
  "CloneDestCertMeta meta = meta"

definition ResolveDestCertMeta :: "RealityProfile option \<Rightarrow> string \<Rightarrow> string \<Rightarrow> destMeta \<Rightarrow> DestCertMeta option" where
  "ResolveDestCertMeta profile dest serverName d =
     (case Option.bind profile rp_CertMeta of
        Some m \<Rightarrow> CloneDestCertMeta (Some m)
      | None \<Rightarrow>
          (case GetDestCertMeta dest d of
             Some m \<Rightarrow> Some m
           | None \<Rightarrow>
               if serverName \<noteq> [] \<and> serverName \<noteq> dest then GetDestCertMeta serverName d else None))"

text \<open>The 32-bit FNV-1a hash of the fields that shape a plan; \<open>/\<close> rounds towards zero.\<close>

definition mix32 :: "u8 \<Rightarrow> u32 \<Rightarrow> u32" where
  "mix32 b h = (h XOR ucast b) * 16777619"

definition mixStr32 :: "string \<Rightarrow> nat \<Rightarrow> u32 \<Rightarrow> u32" where
  "mixStr32 str mx h = fold mix32 (string_to_bytes (take mx str)) h"

definition go_div :: "int \<Rightarrow> int \<Rightarrow> int" where
  "go_div a b = sgn a * sgn b * (\<bar>a\<bar> div \<bar>b\<bar>)"

definition metaFingerprint :: "DestCertMeta option \<Rightarrow> u32" where
  "metaFingerprint meta =
     (case meta of
        None \<Rightarrow> 0
      | Some m \<Rightarrow>
          let h = mixStr32 (cm_CN m) 64 2166136261;
              h = mixStr32 (cm_Organization m) 32 h;
              h = mixStr32 (cm_IssuerCN m) 48 h;
              h = mixStr32 (cm_IssuerOrg m) 32 h;
              h = mixStr32 (cm_IssuerCountry m) 8 h;
              h = mix32 (of_int (cm_ChainDepth m)) h;
              h = (case cm_ChainLens m of n # _ \<Rightarrow> mix32 (of_int (go_div n 64)) h | [] \<Rightarrow> h);
              h = (case cm_DNSNames m of n # _ \<Rightarrow> mixStr32 n 48 h | [] \<Rightarrow> h)
          in case cm_IntermediateNames m of
               n # ns \<Rightarrow> mix32 (of_nat (length (n # ns))) (mixStr32 n 32 h)
             | [] \<Rightarrow> h)"

definition truncatedPlanTime :: "gotime \<Rightarrow> gotime" where
  "truncatedPlanTime now = now - now mod Minute"

subsection \<open>Samples of EncryptedExtensions sizes\<close>

definition emptyEEStats :: destEEStats where
  "emptyEEStats = \<lparr>ee_samples = replicate 8 0, ee_n = 0, ee_idx = 0\<rparr>"

definition add_sample :: "int \<Rightarrow> destEEStats \<Rightarrow> destEEStats" where
  "add_sample eePlain st =
     st\<lparr>ee_samples := (ee_samples st)[ee_idx st mod length (ee_samples st) := eePlain],
        ee_idx := Suc (ee_idx st),
        ee_n := (if ee_n st < length (ee_samples st) then Suc (ee_n st) else ee_n st)\<rparr>"

definition NoteDestEEPlain :: "string \<Rightarrow> int \<Rightarrow> destMeta \<Rightarrow> destMeta" where
  "NoteDestEEPlain dest eePlain d =
     (let dest = TrimSpace dest in
      if dest = [] \<or> eePlain < 12 \<or> eePlain > 512 then d
      else let st = (case dm_ee d dest of Some st \<Rightarrow> st | None \<Rightarrow> emptyEEStats) in
        d\<lparr>dm_ee := (dm_ee d)(dest \<mapsto> add_sample eePlain st)\<rparr>)"

definition NoteDestEEFromRecordLens :: "string \<Rightarrow> lens \<Rightarrow> u8 \<Rightarrow> destMeta \<Rightarrow> destMeta" where
  "NoteDestEEFromRecordLens dest lens mode d =
     (if mode \<noteq> RecordModeSplit then d
      else let outer = lens ! 2 in
        if outer \<le> recordHeaderLen + 1 + 16 then d
        else NoteDestEEPlain dest (outer - recordHeaderLen - 1 - 16) d)"

text \<open>The insertion sort, as the code swaps: \<open>sink\<close> is the inner loop at \<open>j\<close>.\<close>

fun sink :: "int list \<Rightarrow> nat \<Rightarrow> int list" where
  "sink tmp 0 = tmp"
| "sink tmp (Suc j) =
     (if tmp ! j > tmp ! Suc j then sink (tmp[j := tmp ! Suc j, Suc j := tmp ! j]) j else tmp)"

definition insertion_sort :: "int list \<Rightarrow> int list" where
  "insertion_sort tmp = fold (\<lambda>i tmp. sink tmp i) [1..<length tmp] tmp"

definition GetDestEEPlainP90 :: "string \<Rightarrow> destMeta \<Rightarrow> int \<times> nat \<times> bool" where
  "GetDestEEPlainP90 dest d =
     (let dest = TrimSpace dest in
      if dest = [] then (0, 0, False)
      else case dm_ee d dest of
             None \<Rightarrow> (0, 0, False)
           | Some st \<Rightarrow>
               let n = ee_n st in
               if n \<le> 0 then (0, 0, False)
               else let tmp = insertion_sort (take n (ee_samples st));
                        idx = (length tmp * 9) div 10;
                        idx = (if idx \<ge> length tmp then length tmp - 1 else idx)
                    in (tmp ! idx, n, n \<ge> 3))"

subsection \<open>The sort sorts\<close>

lemma sink_append: "j < length xs \<Longrightarrow> sink (xs @ ys) j = sink xs j @ ys"
  by (induction xs j rule: sink.induct) (auto simp: nth_append list_update_append)

lemma sink_insort:
  assumes "sorted xs"
  shows "sink (xs @ [x]) (length xs) = insort x xs"
  using assms
proof (induction xs rule: rev_induct)
  case (snoc y xs)
  have "sink (xs @ [y, x]) (Suc (length xs)) = insort x (xs @ [y])"
  proof (cases "x < y")
    case True
    have "sink (xs @ [y, x]) (Suc (length xs)) = sink ((xs @ [x]) @ [y]) (length xs)"
      using True by (simp add: nth_append list_update_append)
    also have "\<dots> = insort x xs @ [y]"
      using snoc by (subst sink_append) (auto simp: sorted_append)
    also have "\<dots> = sort (x # xs @ [y])"
      using True snoc.prems by (intro properties_for_sort [symmetric]) (auto simp: sorted_append set_insort_key sorted_insort)
    also have "\<dots> = insort x (xs @ [y])" using snoc.prems by (simp add: sorted_sort_id)
    finally show ?thesis .
  next
    case False
    have "sort (x # xs @ [y]) = xs @ [y, x]"
      using False snoc.prems by (intro properties_for_sort) (auto simp: sorted_append)
    then have "insort x (xs @ [y]) = xs @ [y, x]" using snoc.prems by (simp add: sorted_sort_id)
    then show ?thesis using False by (simp add: nth_append)
  qed
  then show ?case by simp
qed simp

lemma insertion_sort_prefix:
  "k \<le> length xs \<Longrightarrow> fold (\<lambda>i tmp. sink tmp i) [1..<k] xs = sort (take k xs) @ drop k xs"
proof (induction k)
  case (Suc k)
  show ?case
  proof (cases "k = 0")
    case True
    then show ?thesis using Suc.prems by (cases xs) auto
  next
    case False
    have x: "drop k xs = [xs ! k] @ drop (Suc k) xs" using Suc.prems by (simp add: Cons_nth_drop_Suc)
    have "fold (\<lambda>i tmp. sink tmp i) [1..<Suc k] xs = sink (sort (take k xs) @ drop k xs) k"
      using False Suc by simp
    also have "\<dots> = sink (sort (take k xs) @ [xs ! k]) (length (sort (take k xs))) @ drop (Suc k) xs"
      using Suc.prems unfolding x by (subst append_assoc [symmetric], subst sink_append) auto
    also have "\<dots> = insort (xs ! k) (sort (take k xs)) @ drop (Suc k) xs" by (simp only: sink_insort sorted_sort)
    also have "insort (xs ! k) (sort (take k xs)) = sort (take (Suc k) xs)"
      using Suc.prems by (intro properties_for_sort [symmetric]) (auto simp: take_Suc_conv_app_nth sorted_insort)
    finally show ?thesis .
  qed
qed simp

lemma insertion_sort_correct: "insertion_sort xs = sort xs"
  using insertion_sort_prefix [of "length xs" xs] by (simp add: insertion_sort_def)


subsection \<open>The ring holds the last samples\<close>

text \<open>
  The abstract view of a destination's statistics is the list of all its samples. \<open>ring_of\<close>
  relates the ring to it; \<open>samples_of\<close> is what a sequence of notes adds for one destination.
\<close>

definition last_samples :: "int list \<Rightarrow> int list" where
  "last_samples hist = drop (length hist - 8) hist"

definition ring_of :: "int list \<Rightarrow> destEEStats \<Rightarrow> bool" where
  "ring_of hist st = (length (ee_samples st) = 8 \<and> ee_idx st = length hist \<and> ee_n st = min 8 (length hist) \<and>
     (\<forall>i < length hist. length hist \<le> i + 8 \<longrightarrow> ee_samples st ! (i mod 8) = hist ! i))"

definition samples_of :: "string \<Rightarrow> (string \<times> int) list \<Rightarrow> int list" where
  "samples_of dest nts = map snd (filter (\<lambda>(d, s). TrimSpace d = dest \<and> 12 \<le> s \<and> s \<le> 512) nts)"

definition note_all :: "(string \<times> int) list \<Rightarrow> destMeta \<Rightarrow> destMeta" where
  "note_all nts d = fold (\<lambda>(dest, s). NoteDestEEPlain dest s) nts d"

lemma ring_of_empty: "ring_of [] emptyEEStats"
  by (simp add: ring_of_def emptyEEStats_def)

lemma window_slot:
  assumes "i < n" "n \<le> i + 8" "i mod 8 = n mod 8"
  shows "n = i + (8 :: nat)"
proof -
  have "8 dvd n - i" using assms mod_eq_dvd_iff_nat [of i n 8] by simp
  then obtain k where k: "n - i = 8 * k" by (elim dvdE)
  then have "k = 1" using assms(1,2) by linarith
  then show ?thesis using k assms(1) by simp
qed

lemma ring_of_add:
  assumes "ring_of hist st"
  shows "ring_of (hist @ [s]) (add_sample s st)"
proof -
  let ?n = "length hist"
  have st: "length (ee_samples st) = 8" "ee_idx st = ?n" "ee_n st = min 8 ?n"
    and slots: "\<And>i. i < ?n \<Longrightarrow> ?n \<le> i + 8 \<Longrightarrow> ee_samples st ! (i mod 8) = hist ! i"
    using assms by (auto simp: ring_of_def)
  have "(ee_samples st)[?n mod 8 := s] ! (i mod 8) = (hist @ [s]) ! i" if "i < Suc ?n" "Suc ?n \<le> i + 8" for i
  proof (cases "i = ?n")
    case False
    then have "i mod 8 \<noteq> ?n mod 8" using that window_slot [of i ?n] by auto
    then show ?thesis using False that slots [of i] st by (simp add: nth_append)
  qed (simp add: st)
  then show ?thesis by (auto simp: ring_of_def add_sample_def st)
qed

lemma ring_of_window:
  assumes "ring_of hist st"
  shows "set (take (ee_n st) (ee_samples st)) = set (last_samples hist)"
proof -
  let ?n = "length hist"
  have st: "length (ee_samples st) = 8" "ee_n st = min 8 ?n"
    and slots: "\<And>i. i < ?n \<Longrightarrow> ?n \<le> i + 8 \<Longrightarrow> ee_samples st ! (i mod 8) = hist ! i"
    using assms by (auto simp: ring_of_def)
  have "\<exists>i < ?n. ?n \<le> i + 8 \<and> i mod 8 = j" if "j < min 8 ?n" for j
  proof -
    have j: "j < 8" "j < ?n" using that by auto
    let ?i = "j + 8 * ((?n - 1 - j) div 8)"
    have "8 * ((?n - 1 - j) div 8) + (?n - 1 - j) mod 8 = ?n - 1 - j" "(?n - 1 - j) mod 8 < 8" by simp_all
    then have "?i < ?n" "?n \<le> ?i + 8" using j by linarith+
    moreover have "?i mod 8 = j" using j by simp
    ultimately show ?thesis by blast
  qed
  then have sub: "\<exists>i < ?n. ?n - 8 \<le> i \<and> ee_samples st ! j = hist ! i" if "j < min 8 ?n" for j
    using that slots by (metis le_diff_conv)
  have sup: "\<exists>j < min 8 ?n. ee_samples st ! j = hist ! i" if "?n - 8 \<le> i" "i < ?n" for i
  proof -
    have "i mod 8 < min 8 ?n" using that by (auto intro: le_less_trans [OF mod_less_eq_dividend])
    then show ?thesis using slots [of i] that by (intro exI [of _ "i mod 8"]) simp
  qed
  have "x \<in> set (last_samples hist) \<longleftrightarrow> (\<exists>i < ?n. ?n - 8 \<le> i \<and> x = hist ! i)" for x
  proof
    assume "\<exists>i < ?n. ?n - 8 \<le> i \<and> x = hist ! i"
    then obtain i where "i < ?n" "?n - 8 \<le> i" "x = hist ! i" by blast
    then show "x \<in> set (last_samples hist)"
      by (auto simp: last_samples_def in_set_conv_nth intro!: exI [of _ "i - (?n - 8)"])
  next
    assume "x \<in> set (last_samples hist)"
    then obtain i where "i < ?n - (?n - 8)" "x = hist ! (?n - 8 + i)"
      by (auto simp: last_samples_def in_set_conv_nth)
    then show "\<exists>i < ?n. ?n - 8 \<le> i \<and> x = hist ! i" by (intro exI [of _ "?n - 8 + i"]) simp
  qed
  moreover have "x \<in> set (take (ee_n st) (ee_samples st)) \<longleftrightarrow> (\<exists>j < min 8 ?n. x = ee_samples st ! j)" for x
    using st by (auto simp: in_set_conv_nth)
  ultimately show ?thesis using sub sup by (metis subset_antisym subsetI)
qed


lemma note_all_ring:
  assumes "dest \<noteq> []"
  shows "case dm_ee (note_all nts \<lparr>dm_certs = certs, dm_ee = Map.empty\<rparr>) dest of
      None \<Rightarrow> samples_of dest nts = []
    | Some st \<Rightarrow> samples_of dest nts \<noteq> [] \<and> ring_of (samples_of dest nts) st"
proof (induction nts rule: rev_induct)
  case Nil
  then show ?case by (simp add: note_all_def samples_of_def)
next
  case (snoc nt nts)
  obtain d s where nt: "nt = (d, s)" by fastforce
  let ?d = "note_all nts \<lparr>dm_certs = certs, dm_ee = Map.empty\<rparr>"
  have all: "note_all (nts @ [nt]) \<lparr>dm_certs = certs, dm_ee = Map.empty\<rparr> = NoteDestEEPlain d s ?d"
    by (simp add: note_all_def nt)
  show ?case
  proof (cases "TrimSpace d = dest \<and> 12 \<le> s \<and> s \<le> 512")
    case True
    then have "samples_of dest (nts @ [nt]) = samples_of dest nts @ [s]"
      by (simp add: samples_of_def nt)
    then show ?thesis
      using snoc.IH True assms ring_of_add [of "samples_of dest nts" _ s] ring_of_add [OF ring_of_empty, of s]
      unfolding all by (auto simp: NoteDestEEPlain_def Let_def split: option.splits)
  next
    case False
    then have "samples_of dest (nts @ [nt]) = samples_of dest nts"
      by (auto simp: samples_of_def nt)
    moreover have "dm_ee (NoteDestEEPlain d s ?d) dest = dm_ee ?d dest"
      using False by (auto simp: NoteDestEEPlain_def Let_def)
    ultimately show ?thesis using snoc.IH unfolding all by (simp split: option.splits)
  qed
qed

text \<open>With at most eight samples the index of the 90th percentile is that of the maximum.\<close>

lemma p90_index: "0 < n \<Longrightarrow> n \<le> 8 \<Longrightarrow> (if (n * 9) div 10 \<ge> n then n - 1 else (n * 9) div 10) = n - (1 :: nat)"
proof -
  assume "0 < n" "n \<le> 8"
  then have "n \<in> {1, 2, 3, 4, 5, 6, 7, 8}" by auto
  then show ?thesis by auto
qed

lemma last_of_sort:
  fixes xs :: "int list"
  assumes "xs \<noteq> []"
  shows "sort xs ! (length xs - 1) = Max (set xs)"
proof (rule Max_eqI [symmetric])
  show "y \<le> sort xs ! (length xs - 1)" if "y \<in> set xs" for y
  proof -
    have "y \<in> set (sort xs)" using that by simp
    then obtain i where "i < length xs" "sort xs ! i = y" by (auto simp: in_set_conv_nth simp del: set_sort)
    then show ?thesis using sorted_nth_mono [OF sorted_sort [of xs], of i "length xs - 1"] by simp
  qed
  have "sort xs ! (length xs - 1) \<in> set (sort xs)" using assms by (intro nth_mem) simp
  then show "sort xs ! (length xs - 1) \<in> set xs" by simp
qed simp

text \<open>
  (C16) The calibration of EncryptedExtensions refines the list of samples. After any sequence of
  notes for any destinations, \<open>GetDestEEPlainP90\<close> returns the maximum of the last eight accepted
  samples of the destination (up to white space around its name), how many they are, and whether
  there are three; it returns nothing where there is no sample. The ring buffer, the insertion
  sort and the percentile index together compute this reference.
\<close>

theorem ee_calibration_refines_history:
  "GetDestEEPlainP90 dest (note_all nts \<lparr>dm_certs = certs, dm_ee = Map.empty\<rparr>) =
    (let hist = samples_of (TrimSpace dest) nts in
     if TrimSpace dest = [] \<or> hist = [] then (0, 0, False)
     else (Max (set (last_samples hist)), min 8 (length hist), length hist \<ge> 3))"
proof (cases "TrimSpace dest = []")
  case False
  let ?d = "note_all nts \<lparr>dm_certs = certs, dm_ee = Map.empty\<rparr>" and ?hist = "samples_of (TrimSpace dest) nts"
  note ring = note_all_ring [OF False, of nts certs]
  show ?thesis
  proof (cases "dm_ee ?d (TrimSpace dest)")
    case None
    then show ?thesis using ring by (simp add: GetDestEEPlainP90_def Let_def)
  next
    case (Some st)
    then have r: "?hist \<noteq> []" "ring_of ?hist st" using ring by auto
    then have n: "ee_n st = min 8 (length ?hist)" "length (ee_samples st) = 8" by (auto simp: ring_of_def)
    then have len: "length (take (ee_n st) (ee_samples st)) = ee_n st" "0 < ee_n st" "ee_n st \<le> 8"
      using r(1) by auto
    have "sort (take (ee_n st) (ee_samples st)) ! (ee_n st - 1) = Max (set (last_samples ?hist))"
      using last_of_sort [of "take (ee_n st) (ee_samples st)"] ring_of_window [OF r(2)] len by fastforce
    moreover have "GetDestEEPlainP90 dest ?d =
        (sort (take (ee_n st) (ee_samples st)) ! (ee_n st - 1), ee_n st, ee_n st \<ge> 3)"
      using False Some len(2)
      by (simp only: GetDestEEPlainP90_def Let_def if_False option.case insertion_sort_correct length_sort len(1)
          p90_index [OF len(2,3)]) simp
    ultimately show ?thesis using False r(1) n by (simp add: Let_def)
  qed
qed (simp add: GetDestEEPlainP90_def)

end
