(* ===== verification/Cert_Plan.thy ===== *)
theory Cert_Plan
  imports Dest_Meta Handshake_Codec
begin

text \<open>
  Certificates shaped like the target's, \<open>src/cert_plan.go\<close>, with \<open>WarmCertPlansForDest\<close> of
  \<open>src/dest_cert_meta.go\<close>. A plan is a leaf and a chain of fillers that is grown towards the length
  of the target's Certificate record, with the place in the leaf where the authentication code goes.

  The functions of \<open>crypto/x509\<close>, \<open>crypto/hmac\<close> and of the ML-DSA package are the record \<open>cert_lib\<close>.
  A fresh key of a filler is \<open>cl_GenerateKey\<close> of the position in the chain and the requested length,
  so two calls may use different keys. The keys and certificates that \<open>init\<close> makes are the record
  \<open>cert_globals\<close>. The clock is read once for a plan.
\<close>

subsection \<open>What the standard library provides\<close>

record cert_template =
  ct_SerialNumber :: int
  ct_CommonName :: string
  ct_Organization :: string
  ct_Country :: "string list"
  ct_NotBefore :: gotime
  ct_NotAfter :: gotime
  ct_DNSNames :: "string list"
  ct_IsCA :: bool
  ct_authExtension :: "bytes option"

record parsed_cert =
  pc_Signature :: bytes
  pc_Extensions :: "(nat list \<times> bytes) list"

record cert_lib =
  cl_CreateCertificate :: "cert_template \<Rightarrow> bytes \<Rightarrow> bytes option"
  cl_ParseCertificate :: "bytes \<Rightarrow> parsed_cert option"
  cl_GenerateKey :: "nat \<Rightarrow> int \<Rightarrow> bytes option"
  cl_HMAC_SHA512 :: "bytes \<Rightarrow> bytes \<Rightarrow> bytes"
  cl_UnmarshalBinaryPrivateKey :: "bytes \<Rightarrow> bytes option"
  cl_SignTo :: "bytes \<Rightarrow> bytes \<Rightarrow> bytes"

record cert_globals =
  cg_initErr :: "string option"
  cg_ed25519Priv :: bytes
  cg_signedCert :: bytes
  cg_signedCertMldsa65 :: bytes

definition realityAuthOID :: "nat list" where
  "realityAuthOID = [1, 3, 6, 1, 4, 1, 20226, 1, 1]"

abbreviation (input) mldsa65SigSize :: nat where "mldsa65SigSize \<equiv> 3309"

subsection \<open>Plans and budgets\<close>

record CertPlan =
  cp_LeafDER :: bytes
  cp_ChainDERs :: "bytes list"
  cp_HMACOffset :: int
  cp_HMACLen :: int
  cp_MLDSAOffset :: int
  cp_MLDSALen :: int
  cp_InnerMsgLen :: int
  cp_Mode :: u8
  cp_Budget :: int

record certPlanCacheKey =
  pk_budget :: int
  pk_mldsa :: bool
  pk_mode :: u8
  pk_chainN :: int
  pk_padHint :: int
  pk_metaFP :: u32

type_synonym certPlanCache = "certPlanCacheKey \<rightharpoonup> CertPlan"

abbreviation (input) certPlanCacheMaxEntries :: nat where "certPlanCacheMaxEntries \<equiv> 512"

definition estimateCertMsgLen :: "bytes \<Rightarrow> bytes list \<Rightarrow> int" where
  "estimateCertMsgLen leaf chain =
     1 + 3 + 1 + 3 + (3 + int (length leaf) + 2) + sum_list (map (\<lambda>c. 3 + int (length c) + 2) chain)"

definition plan_inner :: "CertPlan \<Rightarrow> int" where
  "plan_inner p = (if cp_InnerMsgLen p \<le> 0 then estimateCertMsgLen (cp_LeafDER p) (cp_ChainDERs p) else cp_InnerMsgLen p)"

definition certPlanFitsBudget :: "CertPlan option \<Rightarrow> int \<Rightarrow> bool" where
  "certPlanFitsBudget pp budget =
     (case pp of
        None \<Rightarrow> True
      | Some p \<Rightarrow> if budget \<le> 0 then True else recordHeaderLen + plan_inner p + 1 + 16 \<le> budget)"

definition certPlanFitsInnerBudget :: "CertPlan option \<Rightarrow> int \<Rightarrow> bool" where
  "certPlanFitsInnerBudget pp maxInner =
     (case pp of
        None \<Rightarrow> True
      | Some p \<Rightarrow> if maxInner \<le> 0 then True else plan_inner p \<le> maxInner)"

definition MaxCertInnerForBudget :: "int \<Rightarrow> int" where
  "MaxCertInnerForBudget budget =
     (if budget \<le> 0 then 0
      else let mx = budget - recordHeaderLen - 1 - 16 in if mx < 0 then 0 else mx)"

abbreviation (input) coalescedEETypical :: int where "coalescedEETypical \<equiv> 40"
abbreviation (input) coalescedCVEd25519 :: int where "coalescedCVEd25519 \<equiv> 72"
abbreviation (input) coalescedFinishedSHA256 :: int where "coalescedFinishedSHA256 \<equiv> 36"
abbreviation (input) coalescedEEHeadroom :: int where "coalescedEEHeadroom \<equiv> 40"
abbreviation (input) coalescedEECVFinishedOverhead :: int where "coalescedEECVFinishedOverhead \<equiv> 188"
abbreviation (input) coalescedSafetyInner :: int where "coalescedSafetyInner \<equiv> 48"

definition CoalescedCertBudget :: "int \<Rightarrow> int" where
  "CoalescedCertBudget r2Outer =
     (if r2Outer \<le> 512 then 0
      else let maxPlain = r2Outer - recordHeaderLen - 1 - 16 in
        if maxPlain \<le> 0 then 0
        else let maxCert = maxPlain - coalescedEECVFinishedOverhead - coalescedSafetyInner in
          if maxCert < 0 then 0 else maxCert)"

definition CoalescedCertBudgetForDest :: "int \<Rightarrow> string \<Rightarrow> destMeta \<Rightarrow> int" where
  "CoalescedCertBudgetForDest r2Outer dest d =
     (let base = CoalescedCertBudget r2Outer in
      if base \<le> 0 then 0
      else case GetDestEEPlainP90 dest d of (p90, _, ok) \<Rightarrow>
        if \<not> ok \<or> p90 \<le> coalescedEETypical then base
        else let maxPlain = r2Outer - recordHeaderLen - 1 - 16 in
          if maxPlain \<le> 0 then 0
          else let overhead = p90 + coalescedCVEd25519 + coalescedFinishedSHA256 + coalescedEEHeadroom;
                   overhead = (if overhead < coalescedEECVFinishedOverhead then coalescedEECVFinishedOverhead else overhead);
                   maxCert = maxPlain - overhead - coalescedSafetyInner
               in if maxCert < 0 then 0 else if maxCert > base then base else maxCert)"

subsection \<open>Places in a leaf\<close>

text \<open>The search for the signature, from the end of the DER.\<close>

fun locate_signature :: "bytes \<Rightarrow> bytes \<Rightarrow> nat \<Rightarrow> int" where
  "locate_signature der sig i =
     (if take 64 (drop i der) = sig then int i
      else case i of 0 \<Rightarrow> int (length der) - 64 | Suc i \<Rightarrow> locate_signature der sig i)"

definition locateHMACOffset :: "cert_lib \<Rightarrow> bytes \<Rightarrow> int" where
  "locateHMACOffset lib der =
     (if length der < 64 then -1
      else case cl_ParseCertificate lib der of
             None \<Rightarrow> int (length der) - 64
           | Some cert \<Rightarrow>
               if length (pc_Signature cert) \<noteq> 64 then int (length der) - 64
               else locate_signature der (pc_Signature cert) (length der - 64))"

definition locateMLDSAOffset :: "cert_lib \<Rightarrow> bytes \<Rightarrow> int" where
  "locateMLDSAOffset lib der =
     (case cl_ParseCertificate lib der of
        None \<Rightarrow> -1
      | Some cert \<Rightarrow>
          (case find (\<lambda>(oid, v). oid = realityAuthOID \<and> length v \<ge> mldsa65SigSize) (pc_Extensions cert) of
             Some (_, v) \<Rightarrow> indexBytes der (take (min 32 (length v)) v)
           | None \<Rightarrow>
               (case pc_Extensions cert of
                  (_, v) # _ \<Rightarrow>
                    if length v \<ge> mldsa65SigSize then indexBytes der (take (min 32 (length v)) v) else -1
                | [] \<Rightarrow> -1)))"

definition fallbackCertPlan :: "cert_lib \<Rightarrow> cert_globals \<Rightarrow> bool \<Rightarrow> CertPlan option" where
  "fallbackCertPlan lib g mldsa =
     (if cg_initErr g \<noteq> None \<or> length (cg_signedCert g) = 0 then None
      else if mldsa \<and> length (cg_signedCertMldsa65 g) > 0 then
        let leaf = cg_signedCertMldsa65 g in
        Some \<lparr>cp_LeafDER = leaf, cp_ChainDERs = [], cp_HMACOffset = locateHMACOffset lib leaf, cp_HMACLen = 64,
          cp_MLDSAOffset = locateMLDSAOffset lib leaf, cp_MLDSALen = int mldsa65SigSize,
          cp_InnerMsgLen = estimateCertMsgLen leaf [], cp_Mode = 0, cp_Budget = 0\<rparr>
      else
        let leaf = cg_signedCert g in
        Some \<lparr>cp_LeafDER = leaf, cp_ChainDERs = [], cp_HMACOffset = locateHMACOffset lib leaf, cp_HMACLen = 64,
          cp_MLDSAOffset = -1, cp_MLDSALen = 0,
          cp_InnerMsgLen = estimateCertMsgLen leaf [], cp_Mode = 0, cp_Budget = 0\<rparr>)"

subsection \<open>Leaves and fillers\<close>

definition Day :: duration where "Day = 24 * 60 * Minute"

definition createLeaf ::
    "cert_lib \<Rightarrow> cert_globals \<Rightarrow> gotime \<Rightarrow> bytes \<Rightarrow> int \<Rightarrow> DestCertMeta option \<Rightarrow> bytes option" where
  "createLeaf lib g clock extVal subjectPad meta =
     (let now = truncatedPlanTime clock;
          serial = (if UnixNano now \<le> 0 then 1 else UnixNano now);
          (notBefore, notAfter) = (now - 30 * Day, now + 365 * Day);
          (cn, org, dns) = (''www.example.com'', ''Cloud'', [''www.example.com'']);
          (cn, org, dns, notBefore, notAfter) =
            (case meta of
               None \<Rightarrow> (cn, org, dns, notBefore, notAfter)
             | Some m \<Rightarrow>
                 let cn = (if cm_CN m \<noteq> [] then cm_CN m else cn);
                     org = (if cm_Organization m \<noteq> [] then cm_Organization m else org);
                     (notBefore, notAfter) =
                       (if cm_NotBefore m \<noteq> 0 \<and> cm_NotAfter m \<noteq> 0 \<and> cm_NotBefore m < cm_NotAfter m then
                          if cm_NotAfter m < now then (now - 30 * Day, now + 365 * Day)
                          else (cm_NotBefore m, cm_NotAfter m)
                        else (notBefore, notAfter));
                     (cn, dns) =
                       (case cm_DNSNames m of
                          n # ns \<Rightarrow> (if cn = ''www.example.com'' \<or> cn = [] then n else cn, n # ns)
                        | [] \<Rightarrow> (cn, if cm_CN m \<noteq> [] then [cm_CN m] else dns))
                 in (cn, org, dns, notBefore, notAfter));
          (cn, dns) = (if subjectPad > 0 \<and> meta = None
                       then (replicate (nat subjectPad) CHR ''a'', [replicate (nat subjectPad) CHR ''a''])
                       else (cn, dns))
      in cl_CreateCertificate lib
           \<lparr>ct_SerialNumber = serial, ct_CommonName = cn, ct_Organization = org, ct_Country = [],
            ct_NotBefore = notBefore, ct_NotAfter = notAfter, ct_DNSNames = dns, ct_IsCA = False,
            ct_authExtension = (if length extVal > 0 then Some extVal else None)\<rparr> (cg_ed25519Priv g))"

definition filler_name :: "int \<Rightarrow> DestCertMeta option \<Rightarrow> nat \<Rightarrow> string" where
  "filler_name pad meta chainIdx =
     (let subjCN = (case meta of
                      None \<Rightarrow> []
                    | Some m \<Rightarrow>
                        let cn = (if chainIdx < length (cm_IntermediateNames m) then cm_IntermediateNames m ! chainIdx else [])
                        in if cn = [] then cm_IssuerCN m else cn)
      in if subjCN = [] then replicate (nat pad) CHR ''x''
         else if pad > int (length subjCN) + 8 then
           subjCN @ replicate (nat (pad - int (length subjCN))) CHR ''x''
         else subjCN)"

definition createFillerCertStyled ::
    "cert_lib \<Rightarrow> gotime \<Rightarrow> int \<Rightarrow> DestCertMeta option \<Rightarrow> nat \<Rightarrow> bytes option" where
  "createFillerCertStyled lib clock approxLen meta chainIdx =
     (case cl_GenerateKey lib chainIdx approxLen of
        None \<Rightarrow> None
      | Some priv \<Rightarrow>
          let pad = approxLen - 200;
              pad = (if pad < 0 then 0 else pad);
              pad = (if pad > 1800 then 1800 else pad);
              org = (case meta of Some m \<Rightarrow> cm_IssuerOrg m | None \<Rightarrow> []);
              country = (case meta of Some m \<Rightarrow> cm_IssuerCountry m | None \<Rightarrow> []);
              org = (if org = [] then ''Certificate Authority'' else org);
              now = truncatedPlanTime clock
          in cl_CreateCertificate lib
               \<lparr>ct_SerialNumber = int (2 + chainIdx), ct_CommonName = filler_name pad meta chainIdx,
                ct_Organization = org, ct_Country = (if country \<noteq> [] then [country] else []),
                ct_NotBefore = now - 365 * Day, ct_NotAfter = now + 2 * 365 * Day, ct_DNSNames = [],
                ct_IsCA = True, ct_authExtension = None\<rparr> priv)"

definition createFillerCert :: "cert_lib \<Rightarrow> gotime \<Rightarrow> int \<Rightarrow> bytes option" where
  "createFillerCert lib clock approxLen = createFillerCertStyled lib clock approxLen None 0"

text \<open>The binary search over the padding of the filler's name.\<close>

function filler_search ::
    "(int \<Rightarrow> bytes option) \<Rightarrow> int \<Rightarrow> int \<Rightarrow> int \<Rightarrow> int \<Rightarrow> bytes option \<Rightarrow> int \<Rightarrow> bytes option \<times> int" where
  "filler_search create want maxEntry lo hi best bestLen =
     (if lo \<le> hi then
        let mid = (lo + hi) div 2 in
        case create (mid + 200) of
          None \<Rightarrow> filler_search create want maxEntry lo (mid - 1) best bestLen
        | Some fc \<Rightarrow>
            let n = int (length fc) in
            if n \<le> maxEntry then
              let (best, bestLen) = (if n \<ge> bestLen then (Some fc, n) else (best, bestLen)) in
              if n < want then filler_search create want maxEntry (mid + 1) hi best bestLen
              else filler_search create want maxEntry lo (mid - 1) (Some fc) n
            else filler_search create want maxEntry lo (mid - 1) best bestLen
      else (best, bestLen))"
  by pat_completeness auto
termination
  by (relation "measure (\<lambda>(create, want, maxEntry, lo, hi, best, bestLen). nat (hi - lo + 1))") auto

definition createFillerCertFit ::
    "cert_lib \<Rightarrow> gotime \<Rightarrow> int \<Rightarrow> int \<Rightarrow> DestCertMeta option \<Rightarrow> nat \<Rightarrow> (bytes \<times> int) option" where
  "createFillerCertFit lib clock want maxEntry meta chainIdx =
     (if maxEntry < 64 then None
      else let want = (if want > maxEntry then maxEntry else want);
               want = (if want < 64 then 64 else want);
               hi = (if want > 1800 then 1800 else want)
           in case filler_search (\<lambda>approxLen. createFillerCertStyled lib clock approxLen meta chainIdx)
                     want maxEntry 0 hi None 0 of
                (None, _) \<Rightarrow> None
              | (Some best, bestLen) \<Rightarrow> if bestLen = 0 then None else Some (best, bestLen))"

subsection \<open>Growing towards a length\<close>

definition auth_slot :: "bool \<Rightarrow> bytes" where
  "auth_slot mldsa = (if mldsa then replicate mldsa65SigSize 0 else [])"

text \<open>1) Subject padding, in steps of 32.\<close>

fun pad_subject :: "(int \<Rightarrow> bytes option) \<Rightarrow> int \<Rightarrow> int list \<Rightarrow> bytes \<Rightarrow> int \<Rightarrow> bytes \<times> int" where
  "pad_subject create targetInner [] leaf cur = (leaf, cur)"
| "pad_subject create targetInner (st # steps) leaf cur =
     (if cur < targetInner then
        case create st of
          None \<Rightarrow> (leaf, cur)
        | Some nl \<Rightarrow>
            let nCur = estimateCertMsgLen nl [] in
            if nCur > targetInner then (leaf, cur) else pad_subject create targetInner steps nl nCur
      else (leaf, cur))"

text \<open>2) Fillers: the body of the loop, which breaks or takes one more, and the loop.\<close>

definition filler_want :: "CertShapeHint option \<Rightarrow> bytes list \<Rightarrow> int \<Rightarrow> int" where
  "filler_want shape chain want =
     (case shape of
        Some sh \<Rightarrow>
          if length (sh_TargetChainLens sh) > length chain + 1 then
            let hint = sh_TargetChainLens sh ! (length chain + 1) in
            if hint > 64 \<and> hint < want then hint else want
          else want
      | None \<Rightarrow> want)"

definition next_filler :: "(int \<Rightarrow> int \<Rightarrow> nat \<Rightarrow> (bytes \<times> int) option) \<Rightarrow> CertShapeHint option \<Rightarrow> int \<Rightarrow> bytes \<Rightarrow>
    bytes list \<Rightarrow> int \<Rightarrow> bytes option" where
  "next_filler create shape targetInner leaf chain cur =
     (let need = targetInner - cur in
      if need < 96 then None
      else let want = filler_want shape chain (need - 8) in
      if want < 64 then None
      else case create want (need - 5) (length chain) of
             None \<Rightarrow> None
           | Some (fc, actual) \<Rightarrow>
               if actual \<le> 0 then None
               else let nCur = estimateCertMsgLen leaf (chain @ [fc]) in
                 if nCur > targetInner then None
                 else if nCur - cur < 48 then None
                 else Some fc)"

function add_fillers :: "(int \<Rightarrow> int \<Rightarrow> nat \<Rightarrow> (bytes \<times> int) option) \<Rightarrow> CertShapeHint option \<Rightarrow> nat \<Rightarrow> int \<Rightarrow> bytes \<Rightarrow>
    bytes list \<Rightarrow> int \<Rightarrow> bytes list \<times> int" where
  "add_fillers create shape maxIntermediates targetInner leaf chain cur =
     (if length chain < maxIntermediates \<and> cur < targetInner then
        case next_filler create shape targetInner leaf chain cur of
          None \<Rightarrow> (chain, cur)
        | Some fc \<Rightarrow>
            add_fillers create shape maxIntermediates targetInner leaf (chain @ [fc])
              (estimateCertMsgLen leaf (chain @ [fc]))
      else (chain, cur))"
  by pat_completeness auto
termination
  by (relation "measure (\<lambda>(create, shape, mi, t, leaf, chain, cur). mi - length chain)") auto

text \<open>3) Extension padding, by binary search; \<open>usable\<close> is the check for the ML-DSA slot.\<close>

function pad_extension :: "(int \<Rightarrow> bytes option) \<Rightarrow> (bytes \<Rightarrow> bool) \<Rightarrow> int \<Rightarrow> bytes list \<Rightarrow> int \<Rightarrow> int \<Rightarrow>
    bytes \<Rightarrow> int \<Rightarrow> bytes \<times> int" where
  "pad_extension create usable targetInner chain lo hi bestLeaf bestCur =
     (if lo \<le> hi then
        let mid = (lo + hi) div 2 in
        case create mid of
          None \<Rightarrow> pad_extension create usable targetInner chain lo (mid - 1) bestLeaf bestCur
        | Some nl \<Rightarrow>
            if \<not> usable nl then pad_extension create usable targetInner chain lo (mid - 1) bestLeaf bestCur
            else let nCur = estimateCertMsgLen nl chain in
              if nCur \<le> targetInner then pad_extension create usable targetInner chain (mid + 1) hi nl nCur
              else pad_extension create usable targetInner chain lo (mid - 1) bestLeaf bestCur
      else (bestLeaf, bestCur))"
  by pat_completeness auto
termination
  by (relation "measure (\<lambda>(create, usable, t, chain, lo, hi, leaf, cur). nat (hi - lo + 1))") auto

definition max_intermediates :: "CertShapeHint option \<Rightarrow> nat" where
  "max_intermediates shape =
     (case shape of
        Some sh \<Rightarrow>
          if sh_PreferredChainDepth sh > 0 then
            let wantInter = sh_PreferredChainDepth sh - 1;
                wantInter = (if wantInter < 0 then 0 else wantInter)
            in if wantInter < 3 then nat wantInter else 3
          else 3
      | None \<Rightarrow> 3)"

definition extension_range :: "bool \<Rightarrow> int \<Rightarrow> int \<times> int" where
  "extension_range mldsa need =
     (let lo = 8;
          hi = need - 8;
          hi = (if hi > 4000 then 4000 else hi)
      in if mldsa then
           let lo = int mldsa65SigSize + 8;
               hi = int mldsa65SigSize + (need - 8);
               hi = (if hi > int mldsa65SigSize + 4000 then int mldsa65SigSize + 4000 else hi)
           in (lo, if hi < lo then lo else hi)
         else (lo, hi))"

definition growCertsToward :: "cert_lib \<Rightarrow> cert_globals \<Rightarrow> gotime \<Rightarrow> bytes \<Rightarrow> bool \<Rightarrow> int \<Rightarrow>
    DestCertMeta option \<Rightarrow> CertShapeHint option \<Rightarrow> bytes \<times> bytes list" where
  "growCertsToward lib g clock leaf mldsa targetInner meta shape =
     (let cur = estimateCertMsgLen leaf [] in
      if cur \<ge> targetInner then (leaf, [])
      else case (if meta = None then
                   pad_subject (\<lambda>st. createLeaf lib g clock (auth_slot mldsa) st meta) targetInner
                     [32, 64, 96, 128, 160, 192, 224, 256] leaf cur
                 else (leaf, cur)) of (leaf, cur) \<Rightarrow>
        (case add_fillers (\<lambda>want maxEntry i. createFillerCertFit lib clock want maxEntry meta i) shape
                (max_intermediates shape) targetInner leaf [] cur of (chain, cur) \<Rightarrow>
           let need = targetInner - cur in
           if cur < targetInner \<and> need > 16 then
             case extension_range mldsa need of (lo, hi) \<Rightarrow>
               (fst (pad_extension (\<lambda>mid. createLeaf lib g clock (replicate (nat mid) 0) 0 meta)
                  (\<lambda>nl. \<not> (mldsa \<and> locateMLDSAOffset lib nl < 0)) targetInner chain lo hi leaf cur), chain)
           else (leaf, chain)))"

declare filler_search.simps [simp del] add_fillers.simps [simp del] pad_extension.simps [simp del]
declare locate_signature.simps [simp del]


subsection \<open>Building and caching plans\<close>

definition target_inner :: "u8 \<Rightarrow> int \<Rightarrow> int \<times> int" where
  "target_inner mode budget =
     (let maxInner = (if mode = RecordModeSplit then MaxCertInnerForBudget budget
                      else if mode = RecordModeCoalesced then budget else 0)
      in (if maxInner > 256 + 32 then maxInner - 32 else 0, maxInner))"

definition buildCertPlan :: "cert_lib \<Rightarrow> cert_globals \<Rightarrow> gotime \<Rightarrow> int \<Rightarrow> bool \<Rightarrow> u8 \<Rightarrow>
    DestCertMeta option \<Rightarrow> CertShapeHint option \<Rightarrow> CertPlan option" where
  "buildCertPlan lib g clock budget mldsa mode meta shape =
     (if length (cg_ed25519Priv g) \<noteq> 64 then None
      else case createLeaf lib g clock (auth_slot mldsa) 0 meta of
        None \<Rightarrow> None
      | Some leaf0 \<Rightarrow>
          let (targetInner, maxInner) = target_inner mode budget;
              (leaf, chain) = (if targetInner > 0 then growCertsToward lib g clock leaf0 mldsa targetInner meta shape
                               else (leaf0, []))
          in case (if targetInner > 0 \<and> maxInner > 0 \<and> estimateCertMsgLen leaf chain > maxInner
                   then map_option (\<lambda>leaf. (leaf, [])) (createLeaf lib g clock (auth_slot mldsa) 0 meta)
                   else Some (leaf, chain)) of
               None \<Rightarrow> None
             | Some (leaf, chain) \<Rightarrow>
                 let hmacOff = locateHMACOffset lib leaf;
                     mOff = (if mldsa then locateMLDSAOffset lib leaf else -1)
                 in if hmacOff < 0 then None
                    else Some \<lparr>cp_LeafDER = leaf, cp_ChainDERs = chain, cp_HMACOffset = hmacOff, cp_HMACLen = 64,
                      cp_MLDSAOffset = (if mOff < 0 then -1 else mOff),
                      cp_MLDSALen = (if mOff < 0 then 0 else int mldsa65SigSize),
                      cp_InnerMsgLen = estimateCertMsgLen leaf chain, cp_Mode = mode, cp_Budget = budget\<rparr>)"

text \<open>The insertion into the plan cache, under its lock; \<open>order\<close> is the order of the map's keys.\<close>

definition put_plan :: "certPlanCacheKey list \<Rightarrow> certPlanCacheKey \<Rightarrow> CertPlan \<Rightarrow> certPlanCache \<Rightarrow> certPlanCache" where
  "put_plan order key p cache =
     (let cache = (if card (dom cache) \<ge> certPlanCacheMaxEntries then
                     (case order of stale # _ \<Rightarrow> cache(stale := None) | [] \<Rightarrow> cache)
                   else cache)
      in cache(key \<mapsto> p))"

definition plan_over :: "CertPlan \<Rightarrow> int \<Rightarrow> u8 \<Rightarrow> bool" where
  "plan_over p budget mode =
     (budget > 0 \<and>
      (if mode = RecordModeSplit then \<not> certPlanFitsBudget (Some p) budget
       else if mode = RecordModeCoalesced then \<not> certPlanFitsInnerBudget (Some p) budget
       else False))"

definition GetCertPlanWithMeta :: "cert_lib \<Rightarrow> cert_globals \<Rightarrow> gotime \<Rightarrow> certPlanCacheKey list \<Rightarrow> int \<Rightarrow> bool \<Rightarrow> u8 \<Rightarrow>
    string \<Rightarrow> DestCertMeta option \<Rightarrow> CertShapeHint option \<Rightarrow> destMeta \<Rightarrow> certPlanCache \<Rightarrow> CertPlan option \<times> certPlanCache" where
  "GetCertPlanWithMeta lib g clock order budget mldsa mode dest meta shape d cache =
     (let budget = (if budget < 0 then 0 else budget);
          meta = (case meta of None \<Rightarrow> GetDestCertMeta dest d | Some m \<Rightarrow> Some m);
          shape = (case shape of None \<Rightarrow> ShapeHintFromMeta meta | Some sh \<Rightarrow> Some sh);
          key = \<lparr>pk_budget = budget, pk_mldsa = mldsa, pk_mode = mode, pk_chainN = 0, pk_padHint = 0,
                 pk_metaFP = metaFingerprint meta\<rparr>
      in case cache key of
           Some p \<Rightarrow> (Some p, cache)
         | None \<Rightarrow>
             (case buildCertPlan lib g clock budget mldsa mode meta shape of
                None \<Rightarrow> (fallbackCertPlan lib g mldsa, cache)
              | Some p \<Rightarrow>
                  if plan_over p budget mode then
                    (case fallbackCertPlan lib g mldsa of
                       Some mn \<Rightarrow> (Some (if cp_InnerMsgLen mn < cp_InnerMsgLen p then mn else p), cache)
                     | None \<Rightarrow> (Some p, cache))
                  else (Some p, put_plan order key p cache)))"

definition GetCertPlanFor :: "cert_lib \<Rightarrow> cert_globals \<Rightarrow> gotime \<Rightarrow> certPlanCacheKey list \<Rightarrow> int \<Rightarrow> bool \<Rightarrow> u8 \<Rightarrow>
    string \<Rightarrow> CertShapeHint option \<Rightarrow> destMeta \<Rightarrow> certPlanCache \<Rightarrow> CertPlan option \<times> certPlanCache" where
  "GetCertPlanFor lib g clock order budget mldsa mode dest shape d cache =
     GetCertPlanWithMeta lib g clock order budget mldsa mode dest None shape d cache"

definition GetCertPlan :: "cert_lib \<Rightarrow> cert_globals \<Rightarrow> gotime \<Rightarrow> certPlanCacheKey list \<Rightarrow> int \<Rightarrow> bool \<Rightarrow> u8 \<Rightarrow>
    destMeta \<Rightarrow> certPlanCache \<Rightarrow> CertPlan option \<times> certPlanCache" where
  "GetCertPlan lib g clock order budget mldsa mode d cache =
     GetCertPlanFor lib g clock order budget mldsa mode [] None d cache"

definition warm_budgets :: "(int \<times> u8) list" where
  "warm_budgets = [(0, RecordModeSplit), (800, RecordModeSplit), (1500, RecordModeSplit), (2500, RecordModeSplit),
     (4000, RecordModeSplit), (CoalescedCertBudget 1200, RecordModeCoalesced),
     (CoalescedCertBudget 2500, RecordModeCoalesced), (CoalescedCertBudget 4000, RecordModeCoalesced)]"

text \<open>\<open>orders\<close> gives the order of the map's keys at each insertion.\<close>

definition WarmCertPlansForDest :: "cert_lib \<Rightarrow> cert_globals \<Rightarrow> gotime \<Rightarrow> (certPlanCache \<Rightarrow> certPlanCacheKey list) \<Rightarrow>
    string \<Rightarrow> destMeta \<Rightarrow> certPlanCache \<times> nat \<Rightarrow> certPlanCache \<times> nat" where
  "WarmCertPlansForDest lib g clock orders dest d =
     (let shape = ShapeHintFromMeta (GetDestCertMeta dest d) in
      fold (\<lambda>(budget, mode) (cache, warmed).
        if budget < 0 then (cache, warmed)
        else let cache = snd (GetCertPlanFor lib g clock (orders cache) budget False mode dest shape d cache);
                 cache = snd (GetCertPlanFor lib g clock (orders cache) budget True mode dest shape d cache)
             in (cache, Suc warmed)) warm_budgets)"

subsection \<open>Writing the authentication code\<close>

text \<open>A pooled HMAC state is its key and the bytes written since the last reset.\<close>

record pooledHMAC =
  ph_key :: bytes
  ph_written :: bytes

definition acquireHMACSHA512 :: "pooledHMAC option \<Rightarrow> bytes \<Rightarrow> pooledHMAC" where
  "acquireHMACSHA512 pooled key =
     (case pooled of
        Some ph \<Rightarrow> if ph_key ph = key then ph\<lparr>ph_written := []\<rparr> else \<lparr>ph_key = key, ph_written = []\<rparr>
      | None \<Rightarrow> \<lparr>ph_key = key, ph_written = []\<rparr>)"

definition hmac_Sum :: "cert_lib \<Rightarrow> pooledHMAC \<Rightarrow> bytes" where
  "hmac_Sum lib ph = cl_HMAC_SHA512 lib (ph_key ph) (ph_written ph)"

definition overwrite :: "nat \<Rightarrow> bytes \<Rightarrow> bytes \<Rightarrow> bytes" where
  "overwrite off new b = take off b @ new @ drop (off + length new) b"

text \<open>The second half of \<open>MaterializeCert\<close>: the ML-DSA signature over the transcript.\<close>

definition sign_mldsa :: "cert_lib \<Rightarrow> CertPlan \<Rightarrow> pooledHMAC \<Rightarrow> bytes \<Rightarrow> bytes \<Rightarrow> bytes \<Rightarrow> bytes \<Rightarrow> string + bytes" where
  "sign_mldsa lib plan h mldsaKey clientHelloOrig serverHelloOrig leaf =
     (if length mldsaKey > 0 \<and> cp_MLDSAOffset plan \<ge> 0 \<and> cp_MLDSALen plan > 0 then
        let h = h\<lparr>ph_written := ph_written h @ clientHelloOrig @ serverHelloOrig\<rparr> in
        case cl_UnmarshalBinaryPrivateKey lib mldsaKey of
          None \<Rightarrow> Inl ''REALITY: invalid Mldsa65Key''
        | Some priv \<Rightarrow>
            if cp_MLDSAOffset plan < 0 \<or> cp_MLDSAOffset plan + int mldsa65SigSize > int (length leaf) then
              Inl ''REALITY: ML-DSA offset out of range''
            else Inr (overwrite (nat (cp_MLDSAOffset plan)) (cl_SignTo lib priv (hmac_Sum lib h)) leaf)
      else Inr leaf)"

definition MaterializeCert :: "cert_lib \<Rightarrow> cert_globals \<Rightarrow> pooledHMAC option \<Rightarrow> CertPlan option \<Rightarrow> bytes \<Rightarrow> bytes \<Rightarrow>
    bytes \<Rightarrow> bytes \<Rightarrow> (string + bytes list) may_panic" where
  "MaterializeCert lib g pooled pp authKey mldsaKey clientHelloOrig serverHelloOrig =
     (case pp of
        None \<Rightarrow> Inr (Inl ''nil cert plan'')
      | Some plan \<Rightarrow>
          if length (cp_LeafDER plan) = 0 then Inr (Inl ''nil cert plan'')
          else let leaf = cp_LeafDER plan;
                   off = cp_HMACOffset plan;
                   off = (if off < 0 \<or> off + 64 > int (length leaf) then int (length leaf) - 64 else off)
          in if off < 0 then Inl SliceBounds
          else let h = acquireHMACSHA512 pooled authKey;
                   h = (if length (cg_ed25519Priv g) \<ge> 64 then h\<lparr>ph_written := ph_written h @ drop 32 (cg_ed25519Priv g)\<rparr> else h);
                   leaf = overwrite (nat off) (hmac_Sum lib h) leaf
          in Inr (map_sum id (\<lambda>leaf. leaf # cp_ChainDERs plan)
               (sign_mldsa lib plan h mldsaKey clientHelloOrig serverHelloOrig leaf)))"


text \<open>An older form of the same step, kept in the source.\<close>

definition writeMLDSA :: "cert_lib \<Rightarrow> cert_globals \<Rightarrow> bytes \<Rightarrow> int \<Rightarrow> int \<Rightarrow> bytes \<Rightarrow> bytes \<Rightarrow> bytes \<Rightarrow> bytes \<Rightarrow> string + bytes" where
  "writeMLDSA lib g leaf off mlen authKey clientHelloOrig serverHelloOrig mldsaKey =
     (if off < 0 \<or> mlen \<le> 0 \<or> off + mlen > int (length leaf) then Inl ''ML-DSA slot out of range''
      else if mlen < int mldsa65SigSize then Inl ''ML-DSA slot too small''
      else let h = \<lparr>ph_key = authKey, ph_written =
                      (if length (cg_ed25519Priv g) \<ge> 64 then drop 32 (cg_ed25519Priv g) else []) @
                      clientHelloOrig @ serverHelloOrig\<rparr>
        in case cl_UnmarshalBinaryPrivateKey lib mldsaKey of
             None \<Rightarrow> Inl ''invalid Mldsa65Key''
           | Some priv \<Rightarrow> Inr (overwrite (nat off) (cl_SignTo lib priv (hmac_Sum lib h)) leaf))"

subsection \<open>The estimate is the length of the message\<close>

text \<open>The Certificate message of a chain without staples or timestamps.\<close>

definition chain_msg :: "bytes list \<Rightarrow> certificateMsgTLS13" where
  "chain_msg certs = \<lparr>c13_certificate = \<lparr>cert_Certificate = certs, cert_OCSPStaple = None,
     cert_SignedCertificateTimestamps = None\<rparr>, c13_ocspStapling = False, c13_scts = False\<rparr>"

context cryptobyte_laws
begin

lemma cert_entries_length:
  "cats (map (cert_entry \<lparr>cert_Certificate = cs, cert_OCSPStaple = None, cert_SignedCertificateTimestamps = None\<rparr>)
     (enumerate n certs)) = Some d \<Longrightarrow> int (length d) = sum_list (map (\<lambda>c. 3 + int (length c) + 2) certs)"
proof (induction certs arbitrary: n d)
  case (Cons x xs)
  then show ?case
    by (auto simp: cert_entry_def leaf_ext_list_def x_if_def cat_eq_Some prefixed_eq_Some length_bytes_def be16_def
        be24_def split: if_splits)
qed simp

lemma chain_msg_length:
  assumes "certificateMsgTLS13_marshal cb (chain_msg (leaf # chain)) = Some data"
  shows "int (length data) = estimateCertMsgLen leaf chain"
proof -
  let ?c = "\<lparr>cert_Certificate = leaf # chain, cert_OCSPStaple = None, cert_SignedCertificateTimestamps = None\<rparr>"
  have marsh: "certificateMsgTLS13_marshal cb (chain_msg (leaf # chain)) = cat (Some [typeCertificate]) (prefixed 3 (cat (Some [0])
      (prefixed 3 (cats (map (cert_entry ?c) (enumerate 0 (leaf # chain)))))))"
    by (simp add: certificateMsgTLS13_marshal_def chain_msg_def Let_def builder marshalCertificate_bytes
        del: prefixed.simps cat.simps enumerate_simps)
  obtain d where "cats (map (cert_entry ?c) (enumerate 0 (leaf # chain))) = Some d"
    and "int (length data) = 8 + int (length d)"
    using assms unfolding marsh
    by (auto simp: cat_eq_Some prefixed_eq_Some length_bytes_def be24_def simp del: enumerate_simps)
  then show ?thesis using cert_entries_length [of _ 0 "leaf # chain"] by (simp add: estimateCertMsgLen_def)
qed

end

subsection \<open>Growth stays below the target\<close>

lemma pad_subject_fits:
  assumes "pad_subject create t steps leaf cur = (leaf', cur')" "cur = estimateCertMsgLen leaf []" "cur \<le> t"
  shows "cur' = estimateCertMsgLen leaf' [] \<and> cur' \<le> t"
  using assms
  by (induction create t steps leaf cur rule: pad_subject.induct)
    (auto simp: Let_def split: if_splits option.splits)

declare pad_subject.simps [simp del]

lemma next_filler_fits:
  "next_filler create shape t leaf chain cur = Some fc \<Longrightarrow> estimateCertMsgLen leaf (chain @ [fc]) \<le> t"
  by (auto simp: next_filler_def Let_def split: if_splits option.splits)

lemma add_fillers_fits:
  assumes "add_fillers create shape k t leaf chain cur = (chain', cur')"
    and "cur = estimateCertMsgLen leaf chain" "cur \<le> t"
  shows "cur' = estimateCertMsgLen leaf chain' \<and> cur' \<le> t"
  using assms
proof (induction create shape k t leaf chain cur rule: add_fillers.induct)
  case (1 create shape k t leaf chain cur)
  show ?case
    using "1.prems"(1) [unfolded add_fillers.simps [of create shape k t leaf chain cur]] "1.prems"(2,3) "1.IH"
    by (auto dest: next_filler_fits split: if_splits option.splits)
qed

lemma pad_extension_fits:
  assumes "pad_extension create usable t chain lo hi leaf cur = (leaf', cur')"
    and "cur = estimateCertMsgLen leaf chain" "cur \<le> t"
  shows "cur' = estimateCertMsgLen leaf' chain \<and> cur' \<le> t"
  using assms
proof (induction create usable t chain lo hi leaf cur rule: pad_extension.induct)
  case (1 create usable t chain lo hi leaf cur)
  show ?case
  proof (cases "lo \<le> hi")
    case True
    note step = "1.prems"(1) [unfolded pad_extension.simps [of create usable t chain lo hi leaf cur] Let_def if_P [OF True]]
    consider "create ((lo + hi) div 2) = None"
      | nl where "create ((lo + hi) div 2) = Some nl" "\<not> usable nl"
      | nl where "create ((lo + hi) div 2) = Some nl" "usable nl" "estimateCertMsgLen nl chain \<le> t"
      | nl where "create ((lo + hi) div 2) = Some nl" "usable nl" "\<not> estimateCertMsgLen nl chain \<le> t"
      by (cases "create ((lo + hi) div 2)") auto
    then show ?thesis
    proof cases
      case 1
      then show ?thesis using "1.IH"(1) [OF True refl] step "1.prems"(2,3) by simp
    next
      case 2
      then show ?thesis using "1.IH"(2) [OF True refl] step "1.prems"(2,3) by simp
    next
      case 3
      then show ?thesis using "1.IH"(3) [OF True refl _ _ refl] step by simp
    next
      case 4
      then show ?thesis using "1.IH"(4) [OF True refl _ _ refl] step "1.prems"(2,3) by simp
    qed
  next
    case False
    then show ?thesis
      using "1.prems" pad_extension.simps [of create usable t chain lo hi leaf cur] by simp
  qed
qed


lemma growCertsToward_fits:
  assumes "growCertsToward lib g clock leaf mldsa t meta shape = (leaf', chain)"
  shows "if estimateCertMsgLen leaf [] < t then estimateCertMsgLen leaf' chain \<le> t else leaf' = leaf \<and> chain = []"
proof (cases "estimateCertMsgLen leaf [] < t")
  case True
  obtain leaf1 cur1 where 1: "(if meta = None then
      pad_subject (\<lambda>st. createLeaf lib g clock (auth_slot mldsa) st meta) t
        [32, 64, 96, 128, 160, 192, 224, 256] leaf (estimateCertMsgLen leaf []) else (leaf, estimateCertMsgLen leaf [])) = (leaf1, cur1)"
    by fastforce
  then have c1: "cur1 = estimateCertMsgLen leaf1 [] \<and> cur1 \<le> t"
    using True pad_subject_fits [of _ t _ leaf "estimateCertMsgLen leaf []" leaf1 cur1]
    by (cases "meta = None") auto
  let ?fit = "\<lambda>want maxEntry i. createFillerCertFit lib clock want maxEntry meta i"
  obtain chain2 cur2 where 2: "add_fillers ?fit shape (max_intermediates shape) t leaf1 [] cur1 = (chain2, cur2)"
    by fastforce
  then have c2: "cur2 = estimateCertMsgLen leaf1 chain2" "cur2 \<le> t"
    using add_fillers_fits [OF 2] c1 by auto
  have c3: "estimateCertMsgLen (fst (pad_extension create usable t chain2 lo hi leaf1 cur2)) chain2 \<le> t" for create usable lo hi
    using pad_extension_fits [OF _ c2, of create usable lo hi]
    by (cases "pad_extension create usable t chain2 lo hi leaf1 cur2") auto
  have "growCertsToward lib g clock leaf mldsa t meta shape =
      (if cur2 < t \<and> t - cur2 > 16 then case extension_range mldsa (t - cur2) of (lo, hi) \<Rightarrow>
         (fst (pad_extension (\<lambda>mid. createLeaf lib g clock (replicate (nat mid) 0) 0 meta)
            (\<lambda>nl. \<not> (mldsa \<and> locateMLDSAOffset lib nl < 0)) t chain2 lo hi leaf1 cur2), chain2)
       else (leaf1, chain2))"
    using True unfolding growCertsToward_def Let_def 1 by (simp add: 2)
  then show ?thesis using True assms c2 c3 by (auto split: if_splits prod.splits)
next
  case False
  then show ?thesis using assms by (simp add: growCertsToward_def)
qed


text \<open>A leaf that is grown is one that \<open>createLeaf\<close> made.\<close>

lemma pad_subject_leaf:
  "\<lbrakk>\<And>st l. create st = Some l \<Longrightarrow> P l; P leaf\<rbrakk> \<Longrightarrow> P (fst (pad_subject create t steps leaf cur))"
  by (induction create t steps leaf cur rule: pad_subject.induct)
    (auto simp: pad_subject.simps Let_def split: option.splits)

lemma pad_extension_leaf:
  "\<lbrakk>\<And>n l. create n = Some l \<Longrightarrow> P l; P leaf\<rbrakk> \<Longrightarrow> P (fst (pad_extension create usable t chain lo hi leaf cur))"
proof (induction create usable t chain lo hi leaf cur rule: pad_extension.induct)
  case (1 create usable t chain lo hi leaf cur)
  then show ?case
    by (subst pad_extension.simps) (auto simp: Let_def split: option.splits)
qed

lemma growCertsToward_leaf:
  assumes "growCertsToward lib g clock leaf mldsa t meta shape = (leaf', chain)"
    and "P leaf" "\<And>ext pad l. createLeaf lib g clock ext pad meta = Some l \<Longrightarrow> P l"
  shows "P leaf'"
proof -
  have 1: "P (fst (pad_subject (\<lambda>st. createLeaf lib g clock (auth_slot mldsa) st meta) t steps leaf cur))" for steps cur
    using assms(3,2) by (rule pad_subject_leaf)
  have 2: "P (fst (pad_extension (\<lambda>mid. createLeaf lib g clock (replicate (nat mid) 0) 0 meta) u t chain lo hi l cur))"
    if "P l" for u chain lo hi l cur
    using assms(3) that by (rule pad_extension_leaf)
  show ?thesis
    using assms(1) 1 [of "[32, 64, 96, 128, 160, 192, 224, 256]" "estimateCertMsgLen leaf []"] 2 assms(2)
    unfolding growCertsToward_def Let_def by (auto split: if_splits prod.splits)
qed

subsection \<open>Plans fit their budget\<close>

lemma estimate_pos: "0 < estimateCertMsgLen leaf chain"
  by (induction chain) (auto simp: estimateCertMsgLen_def)

lemma locate_signature_range: "i + 64 \<le> length der \<Longrightarrow>
    0 \<le> locate_signature der sig i \<and> locate_signature der sig i + 64 \<le> int (length der)"
  by (induction i) (subst locate_signature.simps, auto)+

lemma locateHMACOffset_range:
  "64 \<le> length der \<Longrightarrow> 0 \<le> locateHMACOffset lib der \<and> locateHMACOffset lib der + 64 \<le> int (length der)"
  using locate_signature_range [of "length der - 64" der]
  by (auto simp: locateHMACOffset_def split: option.splits)

text \<open>
  A plan that may be used for a budget: its Certificate message fits, \<open>InnerMsgLen\<close> is the length of
  that message, and the authentication code has its place in the leaf.
\<close>

definition plan_ok :: "int \<Rightarrow> u8 \<Rightarrow> CertPlan \<Rightarrow> bool" where
  "plan_ok budget mode p = (\<not> plan_over p budget mode \<and>
     cp_InnerMsgLen p = estimateCertMsgLen (cp_LeafDER p) (cp_ChainDERs p) \<and>
     0 \<le> cp_HMACOffset p \<and> cp_HMACOffset p + 64 \<le> int (length (cp_LeafDER p)))"

definition plan_cache_ok :: "certPlanCache \<Rightarrow> bool" where
  "plan_cache_ok cache = (finite (dom cache) \<and> card (dom cache) \<le> certPlanCacheMaxEntries \<and>
     (\<forall>key \<in> dom cache. plan_ok (pk_budget key) (pk_mode key) (the (cache key))))"

lemma plan_cache_okD:
  assumes "plan_cache_ok cache" "cache key = Some p"
  shows "plan_ok (pk_budget key) (pk_mode key) p"
  using assms(1) domI [of cache key, OF assms(2)] assms(2) unfolding plan_cache_ok_def
  by (metis option.sel)

lemma not_over:
  assumes "estimateCertMsgLen leaf chain \<le> snd (target_inner mode budget)"
    and "cp_InnerMsgLen p = estimateCertMsgLen leaf chain" "mode = RecordModeSplit \<or> mode = RecordModeCoalesced"
  shows "\<not> plan_over p budget mode"
  using assms estimate_pos [of leaf chain]
  by (auto simp: plan_over_def certPlanFitsBudget_def certPlanFitsInnerBudget_def plan_inner_def target_inner_def
      MaxCertInnerForBudget_def Let_def split: if_splits)

lemma buildCertPlan_fits:
  assumes "length (cg_ed25519Priv g) = 64" "mode = RecordModeSplit \<or> mode = RecordModeCoalesced"
    and "createLeaf lib g clock (auth_slot mldsa) 0 meta = Some leaf0"
    and "estimateCertMsgLen leaf0 [] \<le> snd (target_inner mode budget)"
    and long: "\<And>ext pad l. createLeaf lib g clock ext pad meta = Some l \<Longrightarrow> 64 \<le> length l"
  shows "\<exists>p. buildCertPlan lib g clock budget mldsa mode meta shape = Some p \<and> plan_ok budget mode p"
proof -
  obtain t mx where t: "target_inner mode budget = (t, mx)" by fastforce
  then have le: "t \<le> mx" using assms(4) estimate_pos [of leaf0 "[]"]
    by (auto simp: target_inner_def Let_def split: if_splits)
  obtain leaf chain where gr: "(if t > 0 then growCertsToward lib g clock leaf0 mldsa t meta shape else (leaf0, [])) = (leaf, chain)"
    by fastforce
  have fits: "estimateCertMsgLen leaf chain \<le> mx"
    using gr growCertsToward_fits [of lib g clock leaf0 mldsa t meta shape leaf chain] assms(4) t le
    by (auto split: if_splits)
  have "64 \<le> length leaf"
    using gr growCertsToward_leaf [of lib g clock leaf0 mldsa t meta shape leaf chain "\<lambda>l. 64 \<le> length l"] long assms(3)
    by (auto split: if_splits)
  then have off: "0 \<le> locateHMACOffset lib leaf" "locateHMACOffset lib leaf + 64 \<le> int (length leaf)"
    using locateHMACOffset_range by auto
  define mOff where "mOff = (if mldsa then locateMLDSAOffset lib leaf else - 1)"
  let ?p = "\<lparr>cp_LeafDER = leaf, cp_ChainDERs = chain, cp_HMACOffset = locateHMACOffset lib leaf, cp_HMACLen = 64,
      cp_MLDSAOffset = (if mOff < 0 then -1 else mOff), cp_MLDSALen = (if mOff < 0 then 0 else 3309),
      cp_InnerMsgLen = estimateCertMsgLen leaf chain, cp_Mode = mode, cp_Budget = budget\<rparr>"
  have "buildCertPlan lib g clock budget mldsa mode meta shape = Some ?p"
    using assms(1,3) fits off unfolding buildCertPlan_def t by (simp add: gr Let_def mOff_def)
  moreover have "plan_ok budget mode ?p"
    using not_over [of leaf chain mode budget ?p] fits t assms(2) off by (simp add: plan_ok_def)
  ultimately show ?thesis by blast
qed

lemma put_plan_ok:
  assumes "plan_cache_ok cache" "plan_ok (pk_budget key) (pk_mode key) p"
    and "card (dom cache) = 512 \<Longrightarrow> order \<noteq> [] \<and> hd order \<in> dom cache"
  shows "plan_cache_ok (put_plan order key p cache)"
proof -
  define c where "c = (if card (dom cache) \<ge> 512 then (case order of stale # _ \<Rightarrow> cache(stale := None) | [] \<Rightarrow> cache) else cache)"
  have fin: "finite (dom cache)" "card (dom cache) \<le> 512" using assms(1) by (auto simp: plan_cache_ok_def)
  have "finite (dom c)" "card (dom c) < 512" "dom c \<subseteq> dom cache" "\<forall>k \<in> dom c. c k = cache k"
    using fin assms(3) card_Diff_singleton [of "hd order" "dom cache"]
    by (auto simp: c_def dom_fun_upd split: list.splits)
  then show ?thesis
    using assms(1,2) card_insert_le_m1 [of 512 "dom c" key]
    by (auto simp: put_plan_def plan_cache_ok_def simp flip: c_def)
qed


text \<open>
  (C13) A plan fits the record it is made for whenever the minimal leaf does. In either record mode, if
  the minimal leaf for the destination can be made and fits the budget, and every leaf has the 64
  bytes of its authentication slot, \<open>GetCertPlanWithMeta\<close> returns a plan whose Certificate message
  fits it (with header, content type and tag in split mode), whose \<open>InnerMsgLen\<close> is the estimate of
  that message and whose authentication slot lies inside the leaf, whatever the meta data and the
  shape hints ask for. It keeps the plan cache well formed: at most 512 plans, each one fit for the
  budget and mode of its key, so a later hit is as good as a new plan.
\<close>

theorem cert_plan_fits_budget:
  assumes "plan_cache_ok cache" "mode = RecordModeSplit \<or> mode = RecordModeCoalesced"
    and "length (cg_ed25519Priv g) = 64"
    and "meta' = (case meta of None \<Rightarrow> GetDestCertMeta dest d | Some m \<Rightarrow> Some m)"
    and "createLeaf lib g clock (auth_slot mldsa) 0 meta' = Some leaf0"
    and "estimateCertMsgLen leaf0 [] \<le> snd (target_inner mode budget)"
    and "\<And>ext pad l. createLeaf lib g clock ext pad meta' = Some l \<Longrightarrow> 64 \<le> length l"
    and "card (dom cache) = 512 \<Longrightarrow> order \<noteq> [] \<and> hd order \<in> dom cache"
  shows "\<exists>p cache'. GetCertPlanWithMeta lib g clock order budget mldsa mode dest meta shape d cache = (Some p, cache') \<and>
    plan_ok budget mode p \<and> plan_cache_ok cache'"
proof -
  have b: "0 < budget" using assms(6) estimate_pos [of leaf0 "[]"] assms(2)
    by (auto simp: target_inner_def MaxCertInnerForBudget_def Let_def split: if_splits)
  let ?key = "\<lparr>pk_budget = budget, pk_mldsa = mldsa, pk_mode = mode, pk_chainN = 0, pk_padHint = 0,
                 pk_metaFP = metaFingerprint meta'\<rparr>"
  let ?shape = "case shape of None \<Rightarrow> ShapeHintFromMeta meta' | Some sh \<Rightarrow> Some sh"
  show ?thesis
  proof (cases "cache ?key")
    case (Some p)
    then have "plan_ok budget mode p" using plan_cache_okD [OF assms(1) Some] by simp
    then show ?thesis using Some assms(1) b
      by (simp add: GetCertPlanWithMeta_def Let_def assms(4) [symmetric])
  next
    case None
    obtain p where p: "buildCertPlan lib g clock budget mldsa mode meta' ?shape = Some p" "plan_ok budget mode p"
      using buildCertPlan_fits [OF assms(3,2,5,6), of ?shape] assms(7) by blast
    have "plan_cache_ok (put_plan order ?key p cache)" using put_plan_ok [OF assms(1), of ?key p order] p(2) assms(8) by simp
    then show ?thesis using None p b
      by (simp add: GetCertPlanWithMeta_def Let_def assms(4) [symmetric] plan_ok_def)
  qed
qed

text \<open>A library whose certificates are 300 bytes, and keys and certificates made with it.\<close>

definition sample_lib :: cert_lib where
  "sample_lib = \<lparr>cl_CreateCertificate = (\<lambda>t k. Some (replicate 300 48)), cl_ParseCertificate = (\<lambda>der. None),
     cl_GenerateKey = (\<lambda>i n. Some (replicate 64 1)), cl_HMAC_SHA512 = (\<lambda>key msg. replicate 64 (sum_list (key @ msg))),
     cl_UnmarshalBinaryPrivateKey = (\<lambda>key. Some key), cl_SignTo = (\<lambda>key msg. replicate 3309 (hd key))\<rparr>"

definition sample_globals :: cert_globals where
  "sample_globals = \<lparr>cg_initErr = None, cg_ed25519Priv = replicate 64 2, cg_signedCert = replicate 200 48,
     cg_signedCertMldsa65 = []\<rparr>"

theorem cert_plan_fits_budget_witness:
  "\<exists>p cache'. GetCertPlanWithMeta sample_lib sample_globals 0 [] 1500 False 0 ''a.example'' None None
      \<lparr>dm_certs = Map.empty, dm_ee = Map.empty\<rparr> Map.empty = (Some p, cache') \<and>
    plan_ok 1500 0 p \<and> plan_cache_ok cache'"
proof (rule cert_plan_fits_budget)
  show "createLeaf sample_lib sample_globals 0 (auth_slot False) 0
      (case None of None \<Rightarrow> GetDestCertMeta ''a.example'' \<lparr>dm_certs = Map.empty, dm_ee = Map.empty\<rparr> | Some m \<Rightarrow> Some m) =
    Some (replicate 300 48)"
    by (auto simp: createLeaf_def sample_lib_def split: prod.splits)
  show "64 \<le> length l" if "createLeaf sample_lib sample_globals 0 ext pad
      (case None of None \<Rightarrow> GetDestCertMeta ''a.example'' \<lparr>dm_certs = Map.empty, dm_ee = Map.empty\<rparr> | Some m \<Rightarrow> Some m) =
    Some l" for ext pad l
    using that by (auto simp: createLeaf_def sample_lib_def split: prod.splits)
qed (auto simp: plan_cache_ok_def sample_globals_def estimateCertMsgLen_def target_inner_def MaxCertInnerForBudget_def)

subsection \<open>The coalesced flight fits\<close>

text \<open>
  (C15) Room for the coalesced flight. If a Certificate message fits the positive budget that is
  derived from the target's coalesced record, then EncryptedExtensions, Certificate,
  CertificateVerify and Finished together fit that record, so that the padding is not negative, as
  long as the EncryptedExtensions message exceeds the larger of 40 and the calibrated size of the
  destination by no more than 88 bytes; a Finished message longer than that of SHA-256 uses up the
  same reserve. The calibration never raises the budget.
\<close>

theorem coalesced_flight_fits:
  assumes "0 < CoalescedCertBudgetForDest r2Outer dest d" "certLen \<le> CoalescedCertBudgetForDest r2Outer dest d"
    and "GetDestEEPlainP90 dest d = (p90, n, calibrated)"
    and "eeLen \<le> (if calibrated then max 40 p90 else 40) + 88 - (finLen - 36)" "cvLen \<le> 72"
  shows "5 + (eeLen + certLen + cvLen + finLen) + 1 + 16 \<le> r2Outer \<and>
    CoalescedCertBudgetForDest r2Outer dest d \<le> CoalescedCertBudget r2Outer"
  using assms
  by (auto simp: CoalescedCertBudgetForDest_def CoalescedCertBudget_def Let_def max_def split: if_splits)

theorem coalesced_flight_fits_witness:
  "0 < CoalescedCertBudgetForDest 2000 ''a'' \<lparr>dm_certs = Map.empty, dm_ee = Map.empty\<rparr> \<and>
    5 + (76 + 1742 + 72 + 52) + 1 + 16 \<le> (2000 :: int)"
proof -
  have p: "GetDestEEPlainP90 ''a'' \<lparr>dm_certs = Map.empty, dm_ee = Map.empty\<rparr> = (0, 0, False)"
    by (simp add: GetDestEEPlainP90_def Let_def)
  have b: "CoalescedCertBudgetForDest 2000 ''a'' \<lparr>dm_certs = Map.empty, dm_ee = Map.empty\<rparr> = 1742"
    by (simp add: CoalescedCertBudgetForDest_def CoalescedCertBudget_def Let_def p)
  show ?thesis
    using coalesced_flight_fits [of 2000 "''a''" "\<lparr>dm_certs = Map.empty, dm_ee = Map.empty\<rparr>" 1742 0 0 False 76 52 72] p b
    by simp
qed


subsection \<open>The authentication code is in its place\<close>

lemma length_overwrite: "off + length new \<le> length b \<Longrightarrow> length (overwrite off new b) = length b"
  by (simp add: overwrite_def)

lemma overwrite_slot: "off + length new \<le> length b \<Longrightarrow> take (length new) (drop off (overwrite off new b)) = new"
  by (simp add: overwrite_def)

lemma overwrite_outside:
  "off + length new \<le> length b \<Longrightarrow> i < off \<or> off + length new \<le> i \<Longrightarrow> i < length b \<Longrightarrow> overwrite off new b ! i = b ! i"
  by (auto simp: overwrite_def nth_append)

lemma slice_eqI:
  assumes "off + n \<le> length b" "length b' = length b" "\<And>i. off \<le> i \<Longrightarrow> i < off + n \<Longrightarrow> b' ! i = b ! i"
  shows "take n (drop off b') = take n (drop off b)"
  using assms by (intro nth_equalityI) auto

lemma acquireHMACSHA512_fresh: "acquireHMACSHA512 pooled key = \<lparr>ph_key = key, ph_written = []\<rparr>"
  by (cases pooled) (auto simp: acquireHMACSHA512_def)

text \<open>
  (C14) \<open>MaterializeCert\<close> authenticates the chain and changes nothing else. For a plan with its slot
  inside the leaf, and an ML-DSA slot (if there is a key and a slot) inside the leaf and apart from
  it, the call succeeds for every pooled HMAC state: the first certificate carries
  HMAC-SHA512(\<open>AuthKey\<close>, public key) at \<open>HMACOffset\<close> and, with ML-DSA, the signature over
  HMAC-SHA512(\<open>AuthKey\<close>, public key, ClientHello, ServerHello) at \<open>MLDSAOffset\<close>; it has the length of
  the plan's leaf and the same bytes outside of the slots; the chain is the plan's.
\<close>

theorem materialized_cert_authenticates:
  assumes "length (cg_ed25519Priv g) = 64" "\<And>key msg. length (cl_HMAC_SHA512 lib key msg) = 64"
    and "0 \<le> cp_HMACOffset plan" "cp_HMACOffset plan + 64 \<le> int (length (cp_LeafDER plan))"
    and "signs = (mldsaKey \<noteq> [] \<and> 0 \<le> cp_MLDSAOffset plan \<and> 0 < cp_MLDSALen plan)"
    and "signs \<Longrightarrow> cl_UnmarshalBinaryPrivateKey lib mldsaKey = Some priv \<and> (\<forall>msg. length (cl_SignTo lib priv msg) = 3309) \<and>
      cp_MLDSAOffset plan + 3309 \<le> int (length (cp_LeafDER plan)) \<and>
      (cp_HMACOffset plan + 64 \<le> cp_MLDSAOffset plan \<or> cp_MLDSAOffset plan + 3309 \<le> cp_HMACOffset plan)"
  shows "\<exists>leaf. MaterializeCert lib g pooled (Some plan) authKey mldsaKey ch sh = Inr (Inr (leaf # cp_ChainDERs plan)) \<and>
    length leaf = length (cp_LeafDER plan) \<and>
    take 64 (drop (nat (cp_HMACOffset plan)) leaf) = cl_HMAC_SHA512 lib authKey (drop 32 (cg_ed25519Priv g)) \<and>
    (signs \<longrightarrow> take 3309 (drop (nat (cp_MLDSAOffset plan)) leaf) =
      cl_SignTo lib priv (cl_HMAC_SHA512 lib authKey (drop 32 (cg_ed25519Priv g) @ ch @ sh))) \<and>
    (\<forall>i < length leaf. \<not> (cp_HMACOffset plan \<le> int i \<and> int i < cp_HMACOffset plan + 64) \<and>
      \<not> (signs \<and> cp_MLDSAOffset plan \<le> int i \<and> int i < cp_MLDSAOffset plan + 3309) \<longrightarrow>
      leaf ! i = cp_LeafDER plan ! i)"
proof -
  define off where "off = nat (cp_HMACOffset plan)"
  define tag where "tag = cl_HMAC_SHA512 lib authKey (drop 32 (cg_ed25519Priv g))"
  define leaf1 where "leaf1 = overwrite off tag (cp_LeafDER plan)"
  have off: "int off = cp_HMACOffset plan" "off + 64 \<le> length (cp_LeafDER plan)" "length tag = 64"
    using assms(2-4) by (auto simp: off_def tag_def)
  have l1: "length leaf1 = length (cp_LeafDER plan)" "take 64 (drop off leaf1) = tag"
    using off length_overwrite [of off tag] overwrite_slot [of off tag] by (auto simp: leaf1_def)
  have out1: "leaf1 ! i = cp_LeafDER plan ! i" if "i < off \<or> off + 64 \<le> i" "i < length (cp_LeafDER plan)" for i
    using that off overwrite_outside [of off tag "cp_LeafDER plan" i] by (simp add: leaf1_def)
  let ?h = "\<lparr>ph_key = authKey, ph_written = drop 32 (cg_ed25519Priv g)\<rparr>"
  have mat: "MaterializeCert lib g pooled (Some plan) authKey mldsaKey ch sh =
      Inr (map_sum id (\<lambda>leaf. leaf # cp_ChainDERs plan) (sign_mldsa lib plan ?h mldsaKey ch sh leaf1))"
    using assms(1,3,4) off
    by (auto simp: MaterializeCert_def Let_def acquireHMACSHA512_fresh hmac_Sum_def leaf1_def tag_def off_def)
  show ?thesis
  proof (cases signs)
    case False
    then have "sign_mldsa lib plan ?h mldsaKey ch sh leaf1 = Inr leaf1"
      using assms(5) by (auto simp: sign_mldsa_def)
    then show ?thesis
      using mat l1 out1 off False by (auto simp: off_def [symmetric] tag_def [symmetric])
  next
    case True
    define m where "m = nat (cp_MLDSAOffset plan)"
    define sig where "sig = cl_SignTo lib priv (cl_HMAC_SHA512 lib authKey (drop 32 (cg_ed25519Priv g) @ ch @ sh))"
    define leaf2 where "leaf2 = overwrite m sig leaf1"
    have m: "int m = cp_MLDSAOffset plan" "m + 3309 \<le> length leaf1" "length sig = 3309"
        "off + 64 \<le> m \<or> m + 3309 \<le> off"
      using assms(5,6) True l1(1) off by (auto simp: m_def sig_def)
    have l2: "length leaf2 = length (cp_LeafDER plan)" "take 3309 (drop m leaf2) = sig"
      using m l1(1) length_overwrite [of m sig leaf1] overwrite_slot [of m sig leaf1] by (auto simp: leaf2_def)
    have out2: "leaf2 ! i = leaf1 ! i" if "i < m \<or> m + 3309 \<le> i" "i < length leaf1" for i
      using that m overwrite_outside [of m sig leaf1 i] by (simp add: leaf2_def)
    have "take 64 (drop off leaf2) = take 64 (drop off leaf1)"
      using off l1(1) l2(1) m(4) by (intro slice_eqI out2) auto
    moreover have "sign_mldsa lib plan ?h mldsaKey ch sh leaf1 = Inr leaf2"
      using True assms(5,6) m l1(1) by (auto simp: sign_mldsa_def hmac_Sum_def leaf2_def sig_def m_def)
    ultimately show ?thesis
      using mat l1 l2 out1 out2 off m True
      by (auto simp: off_def [symmetric] tag_def [symmetric] m_def [symmetric] sig_def [symmetric])
  qed
qed

theorem materialized_cert_authenticates_witness:
  "\<exists>leaf. MaterializeCert sample_lib sample_globals (Some \<lparr>ph_key = [9], ph_written = [1]\<rparr>)
      (Some \<lparr>cp_LeafDER = replicate 300 48, cp_ChainDERs = [[7]], cp_HMACOffset = 236, cp_HMACLen = 64,
        cp_MLDSAOffset = -1, cp_MLDSALen = 0, cp_InnerMsgLen = 0, cp_Mode = 0, cp_Budget = 0\<rparr>) [5] [] [] [] =
        Inr (Inr [leaf, [7]]) \<and> length leaf = 300 \<and> take 64 (drop 236 leaf) = replicate 64 69"
proof -
  have "(5 :: u8) + sum_list (drop 32 (replicate 64 2)) = 69" by (simp add: sum_list_replicate)
  then show ?thesis
    using materialized_cert_authenticates [of sample_globals sample_lib "\<lparr>cp_LeafDER = replicate 300 48, cp_ChainDERs = [[7]],
        cp_HMACOffset = 236, cp_HMACLen = 64, cp_MLDSAOffset = -1, cp_MLDSALen = 0, cp_InnerMsgLen = 0, cp_Mode = 0,
        cp_Budget = 0\<rparr>" False "[]" "[]" "Some \<lparr>ph_key = [9], ph_written = [1]\<rparr>" "[5]" "[]" "[]"]
    by (auto simp: sample_globals_def sample_lib_def)
qed

end
