(* ===== verification/Replay_Guard.thy ===== *)
theory Replay_Guard
  imports Prelude
begin

text \<open>
  The replay guard (\<open>src/replay_guard.go\<close>): sixteen maps from ClientHello random prefixes to
  the time they were last accepted, with a global count. Where the code ranges over a map,
  the order of the keys is an argument. \<open>CheckAndMark\<close> is the capacity gate followed by the
  marking under the lock of the shard; other calls may run between the two, so both are
  steps of their own in the interleaved system below.
\<close>

subsection \<open>State\<close>

abbreviation (input) defaultReplayGuardMaxEntries :: int where "defaultReplayGuardMaxEntries \<equiv> 100000"
abbreviation (input) replayShardCount :: nat where "replayShardCount \<equiv> 16"

type_synonym seen = "bytes \<rightharpoonup> int"

record ReplayGuard =
  rg_shards :: "seen list"
  rg_window :: duration
  rg_maxEntries :: int
  rg_count :: int
  rg_evictCursor :: u64
  rg_evictSeed :: u64

definition NewReplayGuard :: "int \<Rightarrow> duration \<Rightarrow> int \<Rightarrow> ReplayGuard" where
  "NewReplayGuard nowNano window maxEntries =
     (let maxEntries = (if maxEntries \<le> 0 then defaultReplayGuardMaxEntries else maxEntries)
      in \<lparr>rg_shards = replicate replayShardCount Map.empty, rg_window = window,
          rg_maxEntries = maxEntries, rg_count = 0, rg_evictCursor = 0,
          rg_evictSeed = of_int nowNano\<rparr>)"

definition shardFor :: "bytes \<Rightarrow> nat" where
  "shardFor randomPrefix =
     (let h = (push_bit 24 (ucast (randomPrefix ! 0)) OR push_bit 16 (ucast (randomPrefix ! 1)) OR
               push_bit 8 (ucast (randomPrefix ! 2)) OR ucast (randomPrefix ! 3) :: u32)
      in unat (h mod 16))"

subsection \<open>Operations\<close>

definition map_keys :: "bytes list \<Rightarrow> seen \<Rightarrow> bytes list" where
  "map_keys order seen = filter (\<lambda>k. seen k \<noteq> None) (remdups order)"

definition delete_key :: "bytes \<Rightarrow> seen \<times> int \<Rightarrow> seen \<times> int" where
  "delete_key k s = ((fst s)(k := None), snd s - 1)"

text \<open>The loop that deletes expired entries.\<close>

definition expire_visit :: "int \<Rightarrow> duration \<Rightarrow> bytes \<Rightarrow> seen \<times> int \<Rightarrow> seen \<times> int" where
  "expire_visit nowNano window k s =
     (case fst s k of
        None \<Rightarrow> s
      | Some v \<Rightarrow> if window < nowNano - v then delete_key k s else s)"

definition expire_loop :: "int \<Rightarrow> duration \<Rightarrow> bytes list \<Rightarrow> seen \<times> int \<Rightarrow> seen \<times> int" where
  "expire_loop nowNano window order s = fold (expire_visit nowNano window) (map_keys order (fst s)) s"

text \<open>The loop that drops about a tenth of the shard; \<open>i\<close> counts the visited keys.\<close>

fun drop_loop :: "u64 \<Rightarrow> nat \<Rightarrow> bytes list \<Rightarrow> seen \<times> int \<Rightarrow> seen \<times> int" where
  "drop_loop seed i [] s = s"
| "drop_loop seed i (k # ks) s =
     (let i = i + 1;
          h = seed + of_nat i * 0x85ebca6b
      in drop_loop seed i ks (if unat (h mod 10) = 0 then delete_key k s else s))"

definition evictOneShard :: "int \<Rightarrow> bytes list \<Rightarrow> bytes list \<Rightarrow> ReplayGuard \<Rightarrow> ReplayGuard" where
  "evictOneShard nowNano order1 order2 g =
     (let g = g\<lparr>rg_evictCursor := rg_evictCursor g + 1\<rparr>;
          idx = unat (rg_evictCursor g mod 16);
          (seen, count) = expire_loop nowNano (rg_window g) order1 (rg_shards g ! idx, rg_count g)
      in
      if count < rg_maxEntries g
      then g\<lparr>rg_shards := (rg_shards g)[idx := seen], rg_count := count\<rparr>
      else
        let seed = rg_evictSeed g + 0x9e3779b97f4a7c15;
            (seen, count) = drop_loop seed 0 (map_keys order2 seen) (seen, count)
        in g\<lparr>rg_shards := (rg_shards g)[idx := seen], rg_count := count, rg_evictSeed := seed\<rparr>)"

text \<open>
  The capacity gate at the head of \<open>CheckAndMark\<close>; the flag tells whether the call goes on. It is one
  step of the interleavings below. The code loads the count, evicts and loads the count again, so
  that calls may run between these; as long as no load finds the guard full, there is only the
  first load.
\<close>

definition capacity_gate :: "int \<Rightarrow> bytes list \<Rightarrow> bytes list \<Rightarrow> ReplayGuard \<Rightarrow> bool \<times> ReplayGuard" where
  "capacity_gate nowNano order1 order2 g =
     (if rg_maxEntries g \<le> rg_count g then
        let g = evictOneShard nowNano order1 order2 g in
        if rg_maxEntries g \<le> rg_count g then (False, g) else (True, g)
      else (True, g))"

definition mark_shard :: "int \<Rightarrow> bytes \<Rightarrow> ReplayGuard \<Rightarrow> bool \<times> ReplayGuard" where
  "mark_shard nowNano randomPrefix g =
     (let idx = shardFor randomPrefix;
          seen = rg_shards g ! idx
      in
      case seen randomPrefix of
        None \<Rightarrow> (True, g\<lparr>rg_shards := (rg_shards g)[idx := seen(randomPrefix \<mapsto> nowNano)],
                 rg_count := rg_count g + 1\<rparr>)
      | Some existing \<Rightarrow>
          if rg_window g < nowNano - existing
          then (True, g\<lparr>rg_shards := (rg_shards g)[idx := seen(randomPrefix \<mapsto> nowNano)]\<rparr>)
          else (False, g))"

definition CheckAndMark ::
    "int \<Rightarrow> bytes list \<Rightarrow> bytes list \<Rightarrow> bytes \<Rightarrow> ReplayGuard \<Rightarrow> bool \<times> ReplayGuard" where
  "CheckAndMark nowNano order1 order2 randomPrefix g =
     (case capacity_gate nowNano order1 order2 g of
        (False, g) \<Rightarrow> (False, g)
      | (True, g) \<Rightarrow> mark_shard nowNano randomPrefix g)"

text \<open>One tick of \<open>gcLoop\<close> with its cursor.\<close>

definition gc_tick :: "int \<Rightarrow> bytes list \<Rightarrow> u64 \<Rightarrow> ReplayGuard \<Rightarrow> u64 \<times> ReplayGuard" where
  "gc_tick nowNano order cursor g =
     (let idx = unat (cursor mod 16);
          cursor = cursor + 1;
          (seen, count) = expire_loop nowNano (rg_window g) order (rg_shards g ! idx, rg_count g)
      in (cursor, g\<lparr>rg_shards := (rg_shards g)[idx := seen], rg_count := count\<rparr>))"

definition gcInterval :: "duration \<Rightarrow> duration" where
  "gcInterval window =
     (let gcInterval = (if 0 \<le> window then window div 4 else - ((- window) div 4))
      in if gcInterval < 5 * Second then 5 * Second else gcInterval)"

definition Count :: "ReplayGuard \<Rightarrow> int" where
  "Count g = rg_count g"

text \<open>\<open>InitGlobalReplayGuard\<close> and \<open>GetGlobalReplayGuard\<close> over the global (nil until initialised).\<close>

definition InitGlobalReplayGuard :: "int \<Rightarrow> duration \<Rightarrow> ReplayGuard option \<Rightarrow> ReplayGuard option" where
  "InitGlobalReplayGuard nowNano window glob =
     (case glob of
        Some g \<Rightarrow> Some g
      | None \<Rightarrow>
          let window = (if window \<le> 0 then 90 * Second else window)
          in Some (NewReplayGuard nowNano window 0))"

subsection \<open>The invariant: the count is exact\<close>

definition live :: "seen \<Rightarrow> int" where
  "live s = int (card (dom s))"

definition guard_ok :: "ReplayGuard \<Rightarrow> bool" where
  "guard_ok g \<longleftrightarrow> length (rg_shards g) = 16 \<and> (\<forall>s \<in> set (rg_shards g). finite (dom s)) \<and>
     rg_count g = (\<Sum>s \<leftarrow> rg_shards g. live s)"

lemma shardFor_less [simp]: "shardFor p < 16"
proof -
  have "unat (h mod 16) < 16" for h :: u32 by (simp add: unat_mod)
  then show ?thesis by (simp add: shardFor_def Let_def)
qed

lemma idx_less [simp]: "unat ((c :: u64) mod 16) < 16"
  by (simp add: unat_mod)

lemma sum_list_update_int:
  "i < length xs \<Longrightarrow> (\<Sum>s \<leftarrow> xs[i := y]. (f s :: int)) = (\<Sum>s \<leftarrow> xs. f s) - f (xs ! i) + f y"
proof (induction xs arbitrary: i)
  case (Cons x xs)
  then show ?case by (cases i) simp_all
qed simp

lemma guard_ok_shard: "\<lbrakk>guard_ok g; i < 16\<rbrakk> \<Longrightarrow> finite (dom (rg_shards g ! i))"
  by (simp add: guard_ok_def)

lemma guard_ok_update:
  assumes "guard_ok g" and "i < 16" and "finite (dom s)"
    and "c = rg_count g - live (rg_shards g ! i) + live s"
  shows "guard_ok (g\<lparr>rg_shards := (rg_shards g)[i := s], rg_count := c\<rparr>)"
  using assms set_update_subset_insert [of "rg_shards g" i s]
  by (auto simp: guard_ok_def sum_list_update_int)

text \<open>What a deletion loop may do: remove entries and count each removal.\<close>

definition removes :: "seen \<times> int \<Rightarrow> seen \<times> int \<Rightarrow> bool" where
  "removes s s' \<longleftrightarrow> fst s' \<subseteq>\<^sub>m fst s \<and>
     (finite (dom (fst s)) \<longrightarrow> snd s' - live (fst s') = snd s - live (fst s)) \<and> snd s' \<le> snd s"

lemma removes_refl [simp]: "removes s s"
  by (simp add: removes_def)

lemma removes_finite: "\<lbrakk>removes s s'; finite (dom (fst s))\<rbrakk> \<Longrightarrow> finite (dom (fst s'))"
  by (auto simp: removes_def dest: map_le_implies_dom_le intro: finite_subset)

lemma removes_trans: "\<lbrakk>removes a b; removes b c\<rbrakk> \<Longrightarrow> removes a c"
  using removes_finite [of a b] by (auto simp: removes_def intro: map_le_trans)

lemma removes_delete: "fst s k \<noteq> None \<Longrightarrow> removes s (delete_key k s)"
proof -
  assume "fst s k \<noteq> None"
  then have "k \<in> dom (fst s)" by blast
  then have "card (dom (fst s) - {k}) = card (dom (fst s)) - 1" "0 < card (dom (fst s))" if "finite (dom (fst s))"
    using that by (auto simp: card_gt_0_iff)
  then show ?thesis by (auto simp: removes_def delete_key_def live_def map_le_def)
qed

lemma removes_expire: "removes s (expire_visit now w k s)"
  by (auto simp: expire_visit_def removes_delete split: option.split)

lemma removes_fold:
  assumes "\<And>k s. removes s (f k s)"
  shows "removes s (fold f ks s)"
proof (induction ks arbitrary: s)
  case (Cons k ks)
  then show ?case using removes_trans [OF assms [of s k]] by simp
qed simp

lemma removes_expire_loop: "removes s (expire_loop now w order s)"
  by (simp add: expire_loop_def removes_fold removes_expire)

lemma delete_key_other: "\<lbrakk>fst s k \<noteq> None; k \<noteq> k'\<rbrakk> \<Longrightarrow> fst (delete_key k' s) k \<noteq> None"
  by (simp add: delete_key_def)

lemma removes_drop_loop:
  "\<lbrakk>distinct ks; \<forall>k \<in> set ks. fst s k \<noteq> None\<rbrakk> \<Longrightarrow> removes s (drop_loop seed i ks s)"
proof (induction ks arbitrary: i s)
  case (Cons k ks)
  let ?s = "if unat ((seed + of_nat (i + 1) * 0x85ebca6b) mod 10) = 0 then delete_key k s else s"
  have 1: "removes s ?s" using Cons.prems(2) removes_delete by simp
  have "\<forall>k \<in> set ks. fst ?s k \<noteq> None"
    using Cons.prems by (auto simp: delete_key_def)
  then have "removes ?s (drop_loop seed (i + 1) ks ?s)" using Cons.IH Cons.prems(1) by auto
  then show ?case using removes_trans [OF 1] by (simp only: drop_loop.simps Let_def)
qed simp

lemma map_keys_props [simp]: "distinct (map_keys order seen)"
  "\<forall>k \<in> set (map_keys order seen). seen k \<noteq> None"
  "set (map_keys order seen) = set order \<inter> dom seen"
  by (auto simp: map_keys_def)

lemma expire_keeps:
  assumes "fst s k = Some v" and "now - v \<le> w"
  shows "fst (expire_loop now w order s) k = Some v"
proof -
  have "fst (fold (expire_visit now w) ks s) k = Some v" for ks
    using assms(1)
  proof (induction ks arbitrary: s)
    case (Cons x ks)
    have "fst (expire_visit now w x s) k = Some v"
      using Cons.prems assms(2) by (cases "x = k") (auto simp: expire_visit_def delete_key_def split: option.split)
    then show ?case using Cons.IH by simp
  qed simp
  then show ?thesis by (simp add: expire_loop_def)
qed

text \<open>The state of the swept shard after \<open>evictOneShard\<close>.\<close>

lemma evictOneShard_removes:
  obtains idx seen count where "idx = unat ((rg_evictCursor g + 1) mod 16)"
    "removes (rg_shards g ! idx, rg_count g) (seen, count)"
    "rg_shards (evictOneShard now o1 o2 g) = (rg_shards g)[idx := seen]"
    "rg_count (evictOneShard now o1 o2 g) = count"
proof -
  let ?i = "unat ((rg_evictCursor g + 1) mod 16)"
  obtain s1 c1 where 1: "expire_loop now (rg_window g) o1 (rg_shards g ! ?i, rg_count g) = (s1, c1)" by fastforce
  have r1: "removes (rg_shards g ! ?i, rg_count g) (s1, c1)"
    using removes_expire_loop [of "(rg_shards g ! ?i, rg_count g)"] 1 by metis
  show thesis
  proof (cases "c1 < rg_maxEntries g")
    case True
    then show thesis using that [of ?i s1 c1] r1 1 by (simp add: evictOneShard_def Let_def)
  next
    case False
    let ?seed = "rg_evictSeed g + 0x9e3779b97f4a7c15"
    obtain s2 c2 where 2: "drop_loop ?seed 0 (map_keys o2 s1) (s1, c1) = (s2, c2)" by fastforce
    have "removes (s1, c1) (s2, c2)"
      using removes_drop_loop [of "map_keys o2 s1" "(s1, c1)" ?seed 0] 2 by auto
    from removes_trans [OF r1 this] show thesis
      using that [of ?i s2 c2] False 1 2 by (simp add: evictOneShard_def Let_def)
  qed
qed

lemma evictOneShard_fields [simp]:
  "rg_window (evictOneShard now o1 o2 g) = rg_window g"
  "rg_maxEntries (evictOneShard now o1 o2 g) = rg_maxEntries g"
  "rg_evictCursor (evictOneShard now o1 o2 g) = rg_evictCursor g + 1"
  by (simp_all add: evictOneShard_def Let_def split: prod.split)

lemma guard_ok_removes:
  assumes "guard_ok g" and "i < 16" and "removes (rg_shards g ! i, rg_count g) (s, c)"
    and "rg_shards g' = (rg_shards g)[i := s]" and "rg_count g' = c"
  shows "guard_ok g'"
proof -
  have "finite (dom s)" using removes_finite [OF assms(3)] guard_ok_shard [OF assms(1,2)] by simp
  moreover have "c = rg_count g - live (rg_shards g ! i) + live s"
    using assms(3) guard_ok_shard [OF assms(1,2)] by (simp add: removes_def)
  ultimately have "guard_ok (g\<lparr>rg_shards := (rg_shards g)[i := s], rg_count := c\<rparr>)"
    using guard_ok_update [OF assms(1,2)] by blast
  then show ?thesis using assms(4,5) by (simp add: guard_ok_def)
qed

lemma evictOneShard_ok: "guard_ok g \<Longrightarrow> guard_ok (evictOneShard now o1 o2 g)"
proof -
  assume g: "guard_ok g"
  show ?thesis
  proof (rule evictOneShard_removes [of g now o1 o2])
    fix idx seen count
    assume "idx = unat ((rg_evictCursor g + 1) mod 16)"
      "removes (rg_shards g ! idx, rg_count g) (seen, count)"
      "rg_shards (evictOneShard now o1 o2 g) = (rg_shards g)[idx := seen]"
      "rg_count (evictOneShard now o1 o2 g) = count"
    then show ?thesis by (intro guard_ok_removes [OF g]) simp_all
  qed
qed

lemma evictOneShard_count_le: "rg_count (evictOneShard now o1 o2 g) \<le> rg_count g"
  by (rule evictOneShard_removes [of g now o1 o2]) (auto simp: removes_def)

lemma capacity_gate_ok: "guard_ok g \<Longrightarrow> guard_ok (snd (capacity_gate now o1 o2 g))"
  by (simp add: capacity_gate_def Let_def evictOneShard_ok)

lemma mark_shard_ok:
  assumes "guard_ok g"
  shows "guard_ok (snd (mark_shard now p g))"
proof (cases "(rg_shards g ! shardFor p) p")
  case None
  have f: "finite (dom (rg_shards g ! shardFor p))" using guard_ok_shard [OF assms] by simp
  have "p \<notin> dom (rg_shards g ! shardFor p)" using None by blast
  then have "guard_ok (g\<lparr>rg_shards := (rg_shards g)[shardFor p := (rg_shards g ! shardFor p)(p \<mapsto> now)],
      rg_count := rg_count g + 1\<rparr>)"
    using f by (intro guard_ok_update [OF assms]) (simp_all add: live_def)
  then show ?thesis using None by (simp add: mark_shard_def Let_def)
next
  case (Some v)
  then have "p \<in> dom (rg_shards g ! shardFor p)" by blast
  then have "guard_ok (g\<lparr>rg_shards := (rg_shards g)[shardFor p := (rg_shards g ! shardFor p)(p \<mapsto> now)],
      rg_count := rg_count g\<rparr>)"
    using guard_ok_shard [OF assms]
    by (intro guard_ok_update [OF assms]) (simp_all add: live_def insert_absorb)
  then show ?thesis using Some assms by (simp add: mark_shard_def Let_def)
qed

lemma gc_tick_ok: "guard_ok g \<Longrightarrow> guard_ok (snd (gc_tick now order cursor g))"
proof -
  assume "guard_ok g"
  moreover obtain s c where 1: "expire_loop now (rg_window g) order
      (rg_shards g ! unat (cursor mod 16), rg_count g) = (s, c)" by fastforce
  moreover have "removes (rg_shards g ! unat (cursor mod 16), rg_count g) (s, c)"
    using removes_expire_loop [of "(rg_shards g ! unat (cursor mod 16), rg_count g)"] 1 by metis
  ultimately show ?thesis
    using guard_ok_removes [of g "unat (cursor mod 16)" s c] by (simp add: gc_tick_def Let_def)
qed

subsection \<open>Eviction makes progress\<close>

text \<open>Ten consecutive buckets that do not wrap around hit zero once, since the multiplier is
  7 modulo 10; of twenty, ten do not wrap.\<close>

definition bucket :: "u64 \<Rightarrow> nat \<Rightarrow> nat" where
  "bucket seed i = unat ((seed + of_nat i * 0x85ebca6b) mod 10)"

lemma bucket_nat: "bucket seed i = (unat seed + i * 2246822507) mod 2 ^ 64 mod 10"
proof -
  have "unat (seed + of_nat i * 0x85ebca6b) = (unat seed + i * 2246822507) mod 2 ^ 64"
    by (simp add: unat_word_ariths unsigned_of_nat take_bit_eq_mod mod_simps)
  then show ?thesis by (simp add: bucket_def unat_mod)
qed

lemma ten_hit_zero: "\<exists>j < 10. (a + j * 2246822507) mod 10 = (0 :: nat)"
proof -
  have "(a + j * 2246822507) mod 10 = (a mod 10 + j * 7) mod 10" for j :: nat
  proof -
    have "a + j * 2246822507 = (a mod 10 + j * 7) + 10 * (a div 10 + j * 224682250)"
      using mod_mult_div_eq [of a 10] by (simp add: algebra_simps)
    then show ?thesis by (simp only: mod_mult_self2)
  qed
  moreover have "\<exists>j < 10. (r + j * 7) mod 10 = 0" if "r < 10" for r :: nat
  proof (intro exI conjI)
    have "r \<in> set [0..<10]" using that by simp
    then show "(r + (7 * r mod 10) * 7) mod 10 = 0" by (simp add: upt_rec) (elim disjE; simp)
  qed simp
  ultimately show ?thesis by simp
qed

lemma bucket_hit: "\<exists>i. 0 < i \<and> i \<le> 20 \<and> bucket seed i = 0"
proof -
  let ?f = "\<lambda>i. unat seed + i * 2246822507 :: nat"
  have small: "unat seed < 2 ^ 64" using unsigned_less [of seed, where ?'a = nat] by simp
  have run: "\<exists>i. 0 < i \<and> i \<le> 20 \<and> bucket seed i = 0"
    if "0 < b" "b \<le> 11" "\<And>j. j < 10 \<Longrightarrow> ?f (b + j) mod 2 ^ 64 = ?f (b + j) - w" "w \<le> ?f b" for b w
  proof -
    obtain j where j: "j < 10" "(?f b - w + j * 2246822507) mod 10 = 0"
      using ten_hit_zero [of "?f b - w"] by auto
    have "?f (b + j) mod 2 ^ 64 = ?f b - w + j * 2246822507"
      using that(3) [OF j(1)] that(4) by (simp add: algebra_simps)
    then have "bucket seed (b + j) = 0" using j(2) by (simp add: bucket_nat)
    then show ?thesis using that(1,2) j(1) by (intro exI [of _ "b + j"]) simp
  qed
  show ?thesis
  proof (cases "?f 10 < 2 ^ 64")
    case True
    show ?thesis
    proof (rule run [of 1 0])
      fix j :: nat assume "j < 10"
      then have "?f (1 + j) \<le> ?f 10" by simp
      then show "?f (1 + j) mod 2 ^ 64 = ?f (1 + j) - 0" using True by simp
    qed simp_all
  next
    case False
    show ?thesis
    proof (rule run [of 11 "2 ^ 64"])
      fix j :: nat assume "j < 10"
      then have "?f 10 \<le> ?f (11 + j)" "?f (11 + j) < 2 * 2 ^ 64" using small by simp_all
      then show "?f (11 + j) mod 2 ^ 64 = ?f (11 + j) - 2 ^ 64"
        using False by (simp add: mod_if [of "?f (11 + j)"] le_mod_geq)
    qed (use False in simp_all)
  qed
qed

lemma drop_loop_progress:
  assumes "distinct ks" and "\<forall>k \<in> set ks. fst s k \<noteq> None"
    and "i < j" and "j \<le> i + length ks" and "bucket seed j = 0"
  shows "snd (drop_loop seed i ks s) < snd s"
  using assms
proof (induction ks arbitrary: i s)
  case (Cons k ks)
  let ?s = "if bucket seed (i + 1) = 0 then delete_key k s else s"
  have step: "drop_loop seed i (k # ks) s = drop_loop seed (i + 1) ks ?s"
    by (simp only: drop_loop.simps Let_def bucket_def)
  have pres: "\<forall>k \<in> set ks. fst ?s k \<noteq> None" using Cons.prems(1,2) by (auto simp: delete_key_def)
  show ?case
  proof (cases "j = i + 1")
    case True
    have "removes ?s (drop_loop seed (i + 1) ks ?s)"
      using removes_drop_loop [OF _ pres] Cons.prems(1) by simp
    then have "snd (drop_loop seed (i + 1) ks ?s) \<le> snd ?s" by (simp add: removes_def)
    then show ?thesis unfolding step using True Cons.prems(5) by (simp add: delete_key_def)
  next
    case False
    have "snd (drop_loop seed (i + 1) ks ?s) < snd ?s"
      using Cons.IH [OF _ pres, of "i + 1"] Cons.prems False by simp
    moreover have "snd ?s \<le> snd s" by (simp add: delete_key_def)
    ultimately show ?thesis unfolding step by linarith
  qed
qed simp

lemma removes_none:
  assumes "removes s s'" and "snd s' = snd s" and "finite (dom (fst s))"
  shows "fst s' = fst s"
proof -
  have "card (dom (fst s')) = card (dom (fst s))" using assms by (simp add: removes_def live_def)
  moreover have le: "fst s' \<subseteq>\<^sub>m fst s" using assms(1) by (simp add: removes_def)
  ultimately have "dom (fst s') = dom (fst s)"
    using map_le_implies_dom_le assms(3) by (intro card_subset_eq)
  then show ?thesis using le by (intro map_le_antisym) (auto simp: map_le_def)
qed

lemma map_keys_length: "finite (dom seen) \<Longrightarrow> dom seen \<subseteq> set order \<Longrightarrow> length (map_keys order seen) = card (dom seen)"
  using distinct_card [of "map_keys order seen"] by (simp add: Int_absorb1)

text \<open>Sweeping a shard of at least twenty entries of a full guard frees an entry.\<close>

lemma evictOneShard_progress:
  fixes g :: ReplayGuard
  defines "idx \<equiv> unat ((rg_evictCursor g + 1) mod 16)"
  assumes "guard_ok g" and "rg_count g \<le> rg_maxEntries g" and "20 \<le> card (dom (rg_shards g ! idx))"
    and "dom (rg_shards g ! idx) \<subseteq> set o2"
  shows "rg_count (evictOneShard now o1 o2 g) < rg_maxEntries g"
proof -
  let ?s = "rg_shards g ! idx"
  have f: "finite (dom ?s)" using guard_ok_shard [OF assms(2)] by (simp add: idx_def)
  obtain s1 c1 where 1: "expire_loop now (rg_window g) o1 (?s, rg_count g) = (s1, c1)" by fastforce
  have le: "c1 \<le> rg_count g" using removes_expire_loop [of "(?s, rg_count g)" now "rg_window g" o1] 1
    by (simp add: removes_def)
  show ?thesis
  proof (cases "c1 < rg_maxEntries g")
    case True
    then show ?thesis using 1 by (simp add: evictOneShard_def Let_def flip: idx_def)
  next
    case False
    then have "c1 = rg_count g" using le assms(3) by simp
    then have s1: "s1 = ?s" using removes_none [OF removes_expire_loop [of "(?s, rg_count g)" now "rg_window g" o1]] 1 f by simp
    let ?seed = "rg_evictSeed g + 0x9e3779b97f4a7c15"
    obtain s2 c2 where 2: "drop_loop ?seed 0 (map_keys o2 s1) (s1, c1) = (s2, c2)" by fastforce
    obtain j where j: "0 < j" "j \<le> 20" "bucket ?seed j = 0" using bucket_hit by blast
    have "20 \<le> length (map_keys o2 s1)" using map_keys_length [OF f assms(5)] assms(4) s1 by simp
    then have "c2 < c1"
      using drop_loop_progress [of "map_keys o2 s1" "(s1, c1)" 0 j ?seed] j 2 by auto
    then show ?thesis using 1 2 False assms(3) \<open>c1 = rg_count g\<close>
      by (simp add: evictOneShard_def Let_def flip: idx_def)
  qed
qed

subsection \<open>A full guard admits again after at most sixteen attempts\<close>

lemma capacity_gate_rejects:
  assumes "guard_ok g" and "rg_count g \<le> rg_maxEntries g" and "capacity_gate now o1 o2 g = (False, g')"
  shows "rg_shards g' = rg_shards g \<and> rg_count g' = rg_count g \<and> rg_count g = rg_maxEntries g \<and>
    rg_maxEntries g' = rg_maxEntries g \<and> rg_evictCursor g' = rg_evictCursor g + 1"
proof -
  have g': "g' = evictOneShard now o1 o2 g" "rg_maxEntries g \<le> rg_count g'" "rg_maxEntries g \<le> rg_count g"
    using assms(3) by (auto simp: capacity_gate_def Let_def split: if_splits)
  then have c: "rg_count g' = rg_count g" "rg_count g = rg_maxEntries g"
    using evictOneShard_count_le [of now o1 o2 g] assms(2) by auto
  have "rg_shards g' = rg_shards g"
  proof (rule evictOneShard_removes [of g now o1 o2])
    fix idx seen count
    assume i: "idx = unat ((rg_evictCursor g + 1) mod 16)"
      "removes (rg_shards g ! idx, rg_count g) (seen, count)"
      "rg_shards (evictOneShard now o1 o2 g) = (rg_shards g)[idx := seen]"
      "rg_count (evictOneShard now o1 o2 g) = count"
    then have "seen = rg_shards g ! idx"
      using removes_none [OF i(2)] guard_ok_shard [OF assms(1), of idx] c g'(1) by simp
    then show ?thesis using i(3) g'(1) by simp
  qed
  then show ?thesis using c g'(1) by simp
qed

fun gate_iter :: "(nat \<Rightarrow> int) \<Rightarrow> (nat \<Rightarrow> bytes list) \<Rightarrow> (nat \<Rightarrow> bytes list) \<Rightarrow> nat \<Rightarrow> ReplayGuard \<Rightarrow> ReplayGuard" where
  "gate_iter now o1 o2 0 g = g"
| "gate_iter now o1 o2 (Suc n) g =
     snd (capacity_gate (now n) (o1 n) (o2 n) (gate_iter now o1 o2 n g))"

lemma gate_iter_rejected:
  assumes "guard_ok g" and "rg_count g \<le> rg_maxEntries g"
    and "\<And>i. i < n \<Longrightarrow> \<not> fst (capacity_gate (now i) (o1 i) (o2 i) (gate_iter now o1 o2 i g))"
  shows "let h = gate_iter now o1 o2 n g in guard_ok h \<and> rg_shards h = rg_shards g \<and>
    rg_count h = rg_count g \<and> rg_maxEntries h = rg_maxEntries g \<and>
    rg_evictCursor h = rg_evictCursor g + of_nat n"
  using assms(3)
proof (induction n)
  case 0
  then show ?case using assms(1) by simp
next
  case (Suc n)
  define h where "h = gate_iter now o1 o2 n g"
  have h: "guard_ok h" "rg_shards h = rg_shards g" "rg_count h = rg_count g"
      "rg_maxEntries h = rg_maxEntries g" "rg_evictCursor h = rg_evictCursor g + of_nat n"
    using Suc by (simp_all add: Let_def h_def)
  obtain h' where h': "capacity_gate (now n) (o1 n) (o2 n) h = (False, h')"
    using Suc.prems [of n] by (cases "capacity_gate (now n) (o1 n) (o2 n) h") (simp add: h_def)
  then have "guard_ok h'" using capacity_gate_ok [OF h(1)] by (metis snd_conv)
  then show ?case
    using capacity_gate_rejects [OF h(1) _ h'] h assms(2) h'
    by (simp add: Let_def algebra_simps flip: h_def)
qed

lemma big_shard:
  assumes "guard_ok g" and "305 \<le> rg_count g"
  shows "\<exists>j < 16. 20 \<le> card (dom (rg_shards g ! j))"
proof (rule ccontr)
  assume "\<not> ?thesis"
  then have "\<forall>j < 16. live (rg_shards g ! j) \<le> 19" by (fastforce simp: live_def not_le)
  then have "\<forall>s \<in> set (rg_shards g). live s \<le> 19"
    using assms(1) by (auto simp: guard_ok_def in_set_conv_nth)
  then have "(\<Sum>s \<leftarrow> rg_shards g. live s) \<le> (\<Sum>s \<leftarrow> rg_shards g. 19)" by (intro sum_list_mono) blast
  also have "\<dots> = 304" using assms(1) by (simp add: sum_list_const_mult guard_ok_def sum_list_triv)
  finally show False using assms by (simp add: guard_ok_def)
qed

lemma cursor_reaches:
  assumes "j < 16"
  shows "\<exists>i < 16. unat ((c + of_nat i + 1 :: u64) mod 16) = j"
proof -
  define i where "i = (j + 16 - (unat c + 1) mod 16) mod 16"
  have u: "unat (c + of_nat i + 1) = (unat c + i + 1) mod 2 ^ 64"
    by (simp add: unat_word_ariths unsigned_of_nat take_bit_eq_mod mod_simps)
  have "unat ((c + of_nat i + 1) mod 16) = (unat c + i + 1) mod 2 ^ 64 mod 16"
    by (simp only: unat_mod u) simp
  also have "\<dots> = (unat c + i + 1) mod 16" by (rule mod_mod_cancel) simp
  also have "\<dots> = ((unat c + 1) mod 16 + i) mod 16"
    using mod_add_left_eq [of "unat c + 1" 16 i] by (simp add: ac_simps)
  also have "\<dots> = ((unat c + 1) mod 16 + (j + 16 - (unat c + 1) mod 16)) mod 16"
    unfolding i_def by (rule mod_add_right_eq)
  also have "\<dots> = j" using assms mod_less_divisor [of 16 "unat c + 1"] by simp
  finally show ?thesis by (intro exI [of _ i]) (simp add: i_def)
qed

subsection \<open>The interleaved system\<close>

text \<open>Callers between the gate and the marking are counted; at most \<open>C\<close> of them exist.\<close>

datatype replay_event =
    Gate int "bytes list" "bytes list"
  | Mark int bytes
  | Gc int "bytes list" u64

definition replay_step :: "nat \<Rightarrow> replay_event \<Rightarrow> ReplayGuard \<times> nat \<Rightarrow> ReplayGuard \<times> nat" where
  "replay_step C ev s =
     (case (ev, s) of
        (Gate now o1 o2, (g, pending)) \<Rightarrow>
          if pending < C
          then (case capacity_gate now o1 o2 g of (ok, g') \<Rightarrow> (g', if ok then pending + 1 else pending))
          else s
      | (Mark now p, (g, pending)) \<Rightarrow>
          if 0 < pending then (snd (mark_shard now p g), pending - 1) else s
      | (Gc now order cursor, (g, pending)) \<Rightarrow> (snd (gc_tick now order cursor g), pending))"

definition replay_inv :: "nat \<Rightarrow> ReplayGuard \<times> nat \<Rightarrow> bool" where
  "replay_inv C s \<longleftrightarrow> (case s of (g, pending) \<Rightarrow>
     guard_ok g \<and> pending \<le> C \<and> rg_count g + int pending \<le> rg_maxEntries g - 1 + int C)"

lemma capacity_gate_fields:
  "rg_maxEntries (snd (capacity_gate now o1 o2 g)) = rg_maxEntries g"
  "rg_window (snd (capacity_gate now o1 o2 g)) = rg_window g"
  "rg_count (snd (capacity_gate now o1 o2 g)) \<le> rg_count g"
  "fst (capacity_gate now o1 o2 g) \<Longrightarrow> rg_count (snd (capacity_gate now o1 o2 g)) < rg_maxEntries g"
  using evictOneShard_count_le [of now o1 o2 g]
  by (auto simp: capacity_gate_def Let_def split: if_splits)

lemma mark_shard_fields:
  "rg_maxEntries (snd (mark_shard now p g)) = rg_maxEntries g"
  "rg_window (snd (mark_shard now p g)) = rg_window g"
  "rg_count (snd (mark_shard now p g)) \<le> rg_count g + 1"
  by (simp_all add: mark_shard_def Let_def split: option.split)

lemma gc_tick_fields:
  "rg_maxEntries (snd (gc_tick now order cursor g)) = rg_maxEntries g"
  "rg_window (snd (gc_tick now order cursor g)) = rg_window g"
  "rg_count (snd (gc_tick now order cursor g)) \<le> rg_count g"
  using removes_expire_loop [of "(rg_shards g ! unat (cursor mod 16), rg_count g)" now "rg_window g" order]
  by (auto simp: gc_tick_def Let_def removes_def split: prod.split)

interpretation replay: event_system "replay_step C" "replay_inv C" for C
proof
  fix s ev
  assume inv: "replay_inv C s"
  obtain g n where s: "s = (g, n)" by (cases s)
  show "replay_inv C (replay_step C ev s)"
  proof (cases ev)
    case (Gate now o1 o2)
    obtain ok g' where c: "capacity_gate now o1 o2 g = (ok, g')" by fastforce
    then show ?thesis
      using inv capacity_gate_ok [of g now o1 o2] capacity_gate_fields [of now o1 o2 g]
      by (auto simp: s Gate replay_step_def replay_inv_def)
  next
    case (Mark now p)
    then show ?thesis
      using inv mark_shard_ok [of g now p] mark_shard_fields [of now p g]
      by (auto simp: s replay_step_def replay_inv_def)
  next
    case (Gc now order cursor)
    then show ?thesis
      using inv gc_tick_ok [of g now order cursor] gc_tick_fields [of now order cursor g]
      by (auto simp: s replay_step_def replay_inv_def)
  qed
qed

subsection \<open>An accepted prefix stays known\<close>

definition seen_at :: "ReplayGuard \<Rightarrow> bytes \<Rightarrow> int option" where
  "seen_at g p = (rg_shards g ! shardFor p) p"

definition event_time :: "replay_event \<Rightarrow> int" where
  "event_time ev = (case ev of Gate now _ _ \<Rightarrow> now | Mark now _ \<Rightarrow> now | Gc now _ _ \<Rightarrow> now)"

lemma mark_shard_keeps:
  assumes "length (rg_shards g) = 16" and "seen_at g p = Some t" and "now - t \<le> rg_window g"
  shows "seen_at (snd (mark_shard now q g)) p = Some t"
  using assms
  by (cases "q = p"; cases "shardFor q = shardFor p")
    (auto simp: seen_at_def mark_shard_def Let_def split: option.split)

lemma gc_tick_keeps:
  assumes "length (rg_shards g) = 16" and "seen_at g p = Some t" and "now - t \<le> rg_window g"
  shows "seen_at (snd (gc_tick now order cursor g)) p = Some t"
proof -
  let ?i = "unat (cursor mod 16)"
  obtain s c where 1: "expire_loop now (rg_window g) order (rg_shards g ! ?i, rg_count g) = (s, c)" by fastforce
  show ?thesis
  proof (cases "?i = shardFor p")
    case True
    then have "s p = Some t"
      using expire_keeps [of "(rg_shards g ! ?i, rg_count g)" p t now "rg_window g" order] assms 1
      by (simp add: seen_at_def)
    then show ?thesis using True 1 assms(1) by (simp add: gc_tick_def Let_def seen_at_def)
  next
    case False
    then show ?thesis using 1 assms(2) by (simp add: gc_tick_def Let_def seen_at_def)
  qed
qed

lemma replay_step_keeps:
  assumes "guard_ok g" and "seen_at g p = Some t" and "event_time ev - t \<le> rg_window g"
    and "rg_count g < rg_maxEntries g" and "replay_step C ev (g, n) = (g', n')"
  shows "guard_ok g' \<and> seen_at g' p = Some t \<and> rg_window g' = rg_window g \<and>
    rg_maxEntries g' = rg_maxEntries g \<and> rg_count g' \<le> rg_count g + 1"
proof -
  have l: "length (rg_shards g) = 16" using assms(1) by (simp add: guard_ok_def)
  show ?thesis
  proof (cases ev)
    case (Gate now o1 o2)
    then have "g' = g" using assms(4,5) by (auto simp: replay_step_def capacity_gate_def split: if_splits)
    then show ?thesis using assms by simp
  next
    case (Mark now q)
    then have "g' = g \<or> g' = snd (mark_shard now q g)"
      using assms(5) by (auto simp: replay_step_def split: if_splits)
    then show ?thesis
      using assms mark_shard_ok [OF assms(1)] mark_shard_fields [of now q g] Mark
        mark_shard_keeps [OF l assms(2), of now q] by (auto simp: event_time_def)
  next
    case (Gc now order cursor)
    then have "g' = snd (gc_tick now order cursor g)" using assms(5) by (simp add: replay_step_def)
    then show ?thesis
      using assms gc_tick_ok [OF assms(1)] gc_tick_fields [of now order cursor g] Gc
        gc_tick_keeps [OF l assms(2), of now order cursor] by (auto simp: event_time_def)
  qed
qed

lemma replay_run_keeps:
  "\<lbrakk>guard_ok g; seen_at g p = Some t; \<forall>ev \<in> set evs. event_time ev - t \<le> rg_window g;
    rg_count g + int (length evs) \<le> rg_maxEntries g; fold (replay_step C) evs (g, n) = (g', n')\<rbrakk> \<Longrightarrow>
   seen_at g' p = Some t \<and> rg_window g' = rg_window g \<and> rg_maxEntries g' = rg_maxEntries g \<and>
   rg_count g' \<le> rg_count g + int (length evs)"
proof (induction evs arbitrary: g n)
  case (Cons ev evs)
  obtain g1 n1 where 1: "replay_step C ev (g, n) = (g1, n1)" by fastforce
  have s: "guard_ok g1" "seen_at g1 p = Some t" "rg_window g1 = rg_window g"
      "rg_maxEntries g1 = rg_maxEntries g" "rg_count g1 \<le> rg_count g + 1"
    using replay_step_keeps [OF Cons.prems(1,2) _ _ 1] Cons.prems(3,4) by auto
  show ?case using Cons.IH [OF s(1,2), of n1] s Cons.prems 1 by fastforce
qed simp

lemma mark_shard_True:
  assumes "mark_shard t p g = (True, g')" and "guard_ok g"
  shows "seen_at g' p = Some t \<and> rg_window g' = rg_window g \<and> rg_maxEntries g' = rg_maxEntries g \<and>
    rg_count g' \<le> rg_count g + 1"
  using assms by (auto simp: mark_shard_def Let_def seen_at_def guard_ok_def split: option.splits if_splits)

lemma NewReplayGuard_ok: "guard_ok (NewReplayGuard now w n)"
  by (simp add: NewReplayGuard_def guard_ok_def Let_def live_def sum_list_replicate)

text \<open>A guard at its limit: twenty entries in each shard.\<close>

definition sample_keys :: "bytes list" where
  "sample_keys = map (\<lambda>i. [of_nat i]) [0..<20]"

definition full_guard :: ReplayGuard where
  "full_guard = \<lparr>rg_shards = replicate 16 (map_of (map (\<lambda>k. (k, 0)) sample_keys)), rg_window = 90,
     rg_maxEntries = 320, rg_count = 320, rg_evictCursor = 0, rg_evictSeed = 0\<rparr>"

lemma sample_shard_dom: "dom (map_of (map (\<lambda>k. (k, 0 :: int)) sample_keys)) = set sample_keys"
  by (simp add: dom_map_of_conv_image_fst image_image)

lemma sample_keys_card: "card (set sample_keys) = 20"
proof -
  have "inj_on (\<lambda>i. [of_nat i :: u8]) {0..<20}"
    by (auto simp: inj_on_def word_unat_eq_iff unsigned_of_nat take_bit_eq_mod)
  then show ?thesis by (simp add: sample_keys_def card_image)
qed

lemma full_guard_ok: "guard_ok full_guard"
  using sample_shard_dom sample_keys_card
  by (simp add: full_guard_def guard_ok_def live_def sum_list_replicate)

subsection \<open>Properties\<close>

text \<open>(C30) No replay within the window while the guard has room: once a random prefix has been
  accepted at time \<open>t\<close>, every later check of it up to the end of the window is refused, whatever
  gates, markings and collections of any callers come in between in any order within the window, if
  their number is at most the number of free places. (A guard at its capacity evicts prefixes
  whose window has not passed.)\<close>

theorem replay_refused_within_window:
  assumes "guard_ok g" and "mark_shard t p g = (True, g1)"
    and "fold (replay_step C) evs (g1, n) = (g2, n2)"
    and "\<forall>ev \<in> set evs. event_time ev - t \<le> rg_window g"
    and "rg_count g + 1 + int (length evs) \<le> rg_maxEntries g" and "t' - t \<le> rg_window g"
  shows "fst (mark_shard t' p g2) = False"
proof -
  have g1: "guard_ok g1" using mark_shard_ok [OF assms(1)] assms(2) by (metis snd_conv)
  note m = mark_shard_True [OF assms(2,1)]
  have "seen_at g2 p = Some t \<and> rg_window g2 = rg_window g1"
    using replay_run_keeps [OF g1 _ _ _ assms(3)] m assms(4,5) by auto
  then show ?thesis using assms(6) m by (simp add: mark_shard_def Let_def seen_at_def)
qed

theorem replay_refused_within_window_witness:
  "\<exists>g1 g2 n2. mark_shard 5 (replicate 20 0) (NewReplayGuard 0 90 0) = (True, g1) \<and>
     fold (replay_step 1) [Gate 6 [] [], Mark 7 (replicate 20 1), Gc 8 [] 0] (g1, 0) = (g2, n2) \<and>
     fst (mark_shard 9 (replicate 20 0) g2) = False"
proof -
  obtain g1 where g1: "mark_shard 5 (replicate 20 0) (NewReplayGuard 0 90 0) = (True, g1)"
    by (simp add: mark_shard_def NewReplayGuard_def Let_def)
  obtain g2 n2 where g2: "fold (replay_step 1) [Gate 6 [] [], Mark 7 (replicate 20 1), Gc 8 [] 0] (g1, 0) = (g2, n2)"
    by fastforce
  have "rg_count (NewReplayGuard 0 90 0) = 0" "rg_maxEntries (NewReplayGuard 0 90 0) = 100000"
      "rg_window (NewReplayGuard 0 90 0) = 90"
    by (simp_all add: NewReplayGuard_def)
  then have "fst (mark_shard 9 (replicate 20 0) g2) = False"
    by (intro replay_refused_within_window [OF NewReplayGuard_ok g1 g2]) (simp_all add: event_time_def)
  then show ?thesis using g1 g2 by blast
qed

text \<open>(C31) The global count is always the number of stored prefixes, and the guard is bounded:
  with at most \<open>C\<close> callers at once between the gate and the marking, in any interleaving,
  it never holds more than its limit plus \<open>C - 1\<close> prefixes (exactly its limit for one caller).\<close>

theorem replay_guard_bounded:
  assumes "fold (replay_step C) evs (NewReplayGuard now w limit, 0) = (g, n)" and "0 < limit" and "0 < C"
  shows "Count g = (\<Sum>s \<leftarrow> rg_shards g. int (card (dom s))) \<and> Count g \<le> limit - 1 + int C"
proof -
  have m: "rg_maxEntries (fst (replay_step C ev s)) = rg_maxEntries (fst s)" for ev s
    using capacity_gate_fields(1) mark_shard_fields(1) gc_tick_fields(1)
    by (cases ev; cases s) (auto simp: replay_step_def split: prod.split dest!: arg_cong [where f = snd])
  have "rg_maxEntries (fst (fold (replay_step C) evs s)) = rg_maxEntries (fst s)" for s
    by (induction evs arbitrary: s) (simp_all add: m)
  from this [of "(NewReplayGuard now w limit, 0)"] have "rg_maxEntries g = limit"
    using assms(1,2) by (simp add: NewReplayGuard_def Let_def)
  moreover have "replay_inv C (NewReplayGuard now w limit, 0)"
    using NewReplayGuard_ok assms(2,3) by (simp add: replay_inv_def) (simp add: NewReplayGuard_def Let_def)
  then have "replay_inv C (g, n)" using replay.run_inv [of C _ evs] assms(1) by metis
  ultimately show ?thesis by (auto simp: replay_inv_def guard_ok_def Count_def live_def)
qed

theorem replay_guard_bounded_witness:
  "\<exists>g n. fold (replay_step 2) [Gate 1 [] [], Gate 2 [] [], Mark 3 (replicate 20 7), Mark 4 (replicate 20 8)]
       (NewReplayGuard 0 90 1, 0) = (g, n) \<and> Count g \<le> 2"
proof -
  obtain g n where "fold (replay_step 2) [Gate 1 [] [], Gate 2 [] [], Mark 3 (replicate 20 7), Mark 4 (replicate 20 8)]
       (NewReplayGuard 0 90 1, 0) = (g, n)" by fastforce
  with replay_guard_bounded [OF this] show ?thesis by simp
qed

text \<open>(C32) An attacker who fills the guard does not block it: in a guard at its limit (of at
  least 305 entries), of any sixteen consecutive attempts at least one passes the capacity
  gate, because the eviction cursor reaches a shard of at least twenty entries and the
  pseudo-random drop removes one of them for every seed.\<close>

theorem full_guard_admits_within_sixteen:
  assumes "guard_ok g" and "rg_count g \<le> rg_maxEntries g" and "305 \<le> rg_maxEntries g"
    and "\<forall>i. \<forall>s \<in> set (rg_shards g). dom s \<subseteq> set (o2 i)"
  shows "\<exists>i < 16. fst (capacity_gate (now i) (o1 i) (o2 i) (gate_iter now o1 o2 i g))"
proof (rule ccontr)
  assume "\<not> ?thesis"
  then have rej: "\<And>i. i < 16 \<Longrightarrow> \<not> fst (capacity_gate (now i) (o1 i) (o2 i) (gate_iter now o1 o2 i g))" by blast
  obtain g' where "capacity_gate (now 0) (o1 0) (o2 0) g = (False, g')"
    using rej [of 0] by (cases "capacity_gate (now 0) (o1 0) (o2 0) g") simp
  then have full: "rg_count g = rg_maxEntries g" using capacity_gate_rejects [OF assms(1,2)] by blast
  then obtain j where j: "j < 16" "20 \<le> card (dom (rg_shards g ! j))"
    using big_shard [OF assms(1)] assms(3) by auto
  obtain i where i: "i < 16" "unat ((rg_evictCursor g + of_nat i + 1) mod 16) = j"
    using cursor_reaches [OF j(1)] by blast
  define h where "h = gate_iter now o1 o2 i g"
  have h: "guard_ok h" "rg_shards h = rg_shards g" "rg_count h = rg_count g"
      "rg_maxEntries h = rg_maxEntries g" "rg_evictCursor h = rg_evictCursor g + of_nat i"
    using gate_iter_rejected [OF assms(1,2), of i now o1 o2] rej i(1) by (simp_all add: Let_def h_def)
  have "rg_shards g ! j \<in> set (rg_shards g)" using assms(1) j(1) by (simp add: guard_ok_def)
  then have "rg_count (evictOneShard (now i) (o1 i) (o2 i) h) < rg_maxEntries h"
    using evictOneShard_progress [OF h(1), of "o2 i" "now i" "o1 i"] h i(2) j full assms(4) by simp
  then have "fst (capacity_gate (now i) (o1 i) (o2 i) h)" by (simp add: capacity_gate_def Let_def)
  then show False using rej [OF i(1)] by (simp add: h_def)
qed

theorem full_guard_admits_within_sixteen_witness:
  "\<exists>i < 16. fst (capacity_gate 5 [] sample_keys
     (gate_iter (\<lambda>_. 5) (\<lambda>_. []) (\<lambda>_. sample_keys) i full_guard))"
proof -
  have g: "rg_count full_guard = 320" "rg_maxEntries full_guard = 320"
      "set (rg_shards full_guard) = {map_of (map (\<lambda>k. (k, 0)) sample_keys)}"
    by (simp_all add: full_guard_def)
  show ?thesis
    by (rule full_guard_admits_within_sixteen [of _ "\<lambda>_. sample_keys" "\<lambda>_. 5" "\<lambda>_. []"])
      (simp_all only: full_guard_ok g, simp_all add: sample_shard_dom)
qed

end
