(* ===== verification/Capture.thy ===== *)
theory Capture
  imports Cache_Manager Server_Hello
begin

text \<open>
  Measuring the flight of the target: \<open>parseRecordLens\<close> of \<open>src/probe_common.go\<close>, which reads the
  record lengths from a finished capture, and \<open>captureTargetRecords\<close> of
  \<open>src/server_amortize.go\<close>, which reads them from the live connection.

  The connection to the target is the list of the results of its \<open>Read\<close> calls, each the bytes and
  the error of one call; past the end of the list every call fails. The state of
  \<open>captureTargetRecords\<close> is the record \<open>capture\<close>: \<open>s2cSaved\<close>, \<open>handshakeLen\<close>, the named results,
  the \<open>handshakeBuf\<close> of the connection (its capacity, when it is made) and the cache. The probe
  that the code starts in the background is an entry of \<open>ca_probes\<close>.
\<close>

abbreviation (input) maxRecordSize :: int where "maxRecordSize \<equiv> 65536"
abbreviation (input) maxTargetReads :: nat where "maxTargetReads \<equiv> 64"

definition bigEndianUint16 :: "bytes \<Rightarrow> u16" where
  "bigEndianUint16 b = push_bit 8 (ucast (b ! 0)) OR ucast (b ! 1)"

text \<open>The checks of a record header; the caller has more than \<open>recordHeaderLen\<close> bytes.\<close>

definition record_header_ok :: "nat \<Rightarrow> bytes \<Rightarrow> bool" where
  "record_header_ok i saved =
     (\<not> (bigEndianUint16 (take 2 (drop 1 saved)) \<noteq> VersionTLS12 \<or>
         i = 0 \<and> (saved ! 0 \<noteq> recordTypeHandshake \<or> saved ! 5 \<noteq> typeServerHello) \<or>
         i = 1 \<and> (saved ! 0 \<noteq> recordTypeChangeCipherSpec \<or> saved ! 5 \<noteq> 1) \<or>
         1 < i \<and> saved ! 0 \<noteq> recordTypeApplicationData))"

definition record_len :: "bytes \<Rightarrow> int" where
  "record_len saved = recordHeaderLen + uint (bigEndianUint16 (take 2 (drop 3 saved)))"

subsection \<open>A finished capture\<close>

text \<open>The turns of the inner loop, with \<open>lens\<close> the lengths so far and \<open>i\<close> the \<open>recordIndex\<close>.\<close>

function parse_loop :: "'b cryptobyte \<Rightarrow> nat \<Rightarrow> bytes \<Rightarrow> lens \<Rightarrow> u16 \<Rightarrow> lens \<times> u16 \<times> bool" where
  "parse_loop cb i saved lens cipherSuite =
     (if i < 7 \<and> int (length saved) > recordHeaderLen then
        if \<not> record_header_ok i saved then (lens, cipherSuite, False)
        else let handshakeLen = record_len saved in
        if handshakeLen > maxTLSRecordPayload then (lens, cipherSuite, False)
        else if i = 1 \<and> handshakeLen > 0 \<and> handshakeLen \<noteq> 6 then (lens, cipherSuite, False)
        else if int (length saved) < handshakeLen then (lens, cipherSuite, 0 < i)
        else let lens = lens[i := handshakeLen] in
        if i = 0 then
          (case serverHelloMsg_unmarshal cb (drop 5 (take (nat handshakeLen) saved)) of
             None \<Rightarrow> (lens, cipherSuite, False)
           | Some hello \<Rightarrow> parse_loop cb (Suc i) (drop (nat handshakeLen) saved) lens (sh_cipherSuite hello))
        else parse_loop cb (Suc i) (drop (nat handshakeLen) saved) lens cipherSuite
      else (lens, cipherSuite, 0 < i))"
  by pat_completeness auto
termination
  by (relation "measure (\<lambda>(cb, i, saved, lens, cipherSuite). 7 - i)") auto

definition parseRecordLens :: "'b cryptobyte \<Rightarrow> bytes \<Rightarrow> lens \<times> u16 \<times> bool" where
  "parseRecordLens cb data = parse_loop cb 0 data (replicate 7 0) 0"

subsection \<open>The live capture\<close>

record capture =
  ca_saved :: bytes
  ca_handshakeLen :: int
  ca_usedLen :: lens
  ca_hello :: "serverHelloMsg option"
  ca_r0Template :: bytes
  ca_path :: AmortizePath
  ca_handshakeBuf :: "int option"
  ca_cache :: CacheManager
  ca_probes :: "string list"

text \<open>The arguments of the call that do not change: the modes and keys, and the time of the lookup.\<close>

record capture_args =
  cx_now :: gotime
  cx_mode :: AmortizeMode
  cx_dest :: string
  cx_serverName :: string
  cx_alpn :: string
  cx_chClass :: string
  cx_softClass :: string

text \<open>A turn of the inner loop returns from the function, leaves the loop or goes on.\<close>

datatype turn = Returns "string option" capture | Breaks capture | Continues capture

definition live_hello :: "'b cryptobyte \<Rightarrow> bytes \<Rightarrow> serverHelloMsg option" where
  "live_hello cb data =
     (case serverHelloMsg_unmarshal cb data of
        None \<Rightarrow> None
      | Some hello \<Rightarrow>
          if sh_vers hello \<noteq> VersionTLS12 \<or> sh_supportedVersion hello \<noteq> VersionTLS13 \<or>
             cipherSuiteTLS13ByID (sh_cipherSuite hello) = None
          then None else Some hello)"

text \<open>The lookup after the live R0: on a hit at L1 the cached lengths replace the reads of R1 to R6.\<close>

definition l1_fast_path :: "capture_args \<Rightarrow> serverHelloMsg \<Rightarrow> capture \<Rightarrow> turn" where
  "l1_fast_path x hello st =
     (if ResolveAmortizeMode (cx_mode x) \<noteq> AmortizeL0 then
        let (res, m) = LookupAmortizeSoft (cx_now x) (cx_mode x) (cx_dest x) (cx_serverName x)
                         (cx_alpn x) VersionTLS13 (cx_chClass x) (cx_softClass x)
                         (sh_cipherSuite hello) (ks_group (sh_serverShare hello)) (ca_cache st);
            st = st\<lparr>ca_cache := m\<rparr>
        in case lr_Profile res of
             Some p \<Rightarrow>
               if lr_Path res = PathL1 \<and> ValidateRecordLens (rp_RecordLens p) then
                 Returns None (st\<lparr>ca_usedLen := ca_handshakeLen st # tl (rp_RecordLens p), ca_path := PathL1\<rparr>)
               else if lr_Path res = PathL0 then
                 Continues (st\<lparr>ca_probes := ca_probes st @
                   [CacheKeyV2 (cx_dest x) (cx_serverName x) (cx_alpn x) VersionTLS13 (cx_chClass x)]\<rparr>)
               else Continues st
           | None \<Rightarrow>
               Continues (st\<lparr>ca_probes := ca_probes st @
                 [CacheKeyV2 (cx_dest x) (cx_serverName x) (cx_alpn x) VersionTLS13 (cx_chClass x)]\<rparr>)
      else Continues st)"

definition take_server_hello :: "'b cryptobyte \<Rightarrow> capture_args \<Rightarrow> capture \<Rightarrow> turn" where
  "take_server_hello cb x st =
     (let msg = drop 5 (take (nat (ca_handshakeLen st)) (ca_saved st)) in
      case live_hello cb msg of
        None \<Rightarrow> Returns (Some ''invalid ServerHello'') (st\<lparr>ca_hello := None\<rparr>)
      | Some hello \<Rightarrow>
          l1_fast_path x hello (st\<lparr>ca_hello := Some hello, ca_r0Template := msg,
            ca_usedLen := (ca_usedLen st)[0 := ca_handshakeLen st]\<rparr>))"

text \<open>The end of a turn: the record is consumed, and R5 or R6 may end the capture.\<close>

definition consume_record :: "nat \<Rightarrow> capture \<Rightarrow> turn" where
  "consume_record i st =
     (let st = st\<lparr>ca_saved := drop (nat (ca_handshakeLen st)) (ca_saved st), ca_handshakeLen := 0\<rparr> in
      if i = 5 \<and> ca_saved st = [] then Returns None st
      else if i = 6 then Returns None st
      else Continues st)"

definition capture_turn :: "'b cryptobyte \<Rightarrow> capture_args \<Rightarrow> nat \<Rightarrow> capture \<Rightarrow> turn" where
  "capture_turn cb x i st =
     (if ca_usedLen st ! i \<noteq> 0 then Continues st
      else if i = 6 \<and> ca_saved st = [] then Returns None st
      else let new = (ca_handshakeLen st = 0 \<and> int (length (ca_saved st)) > recordHeaderLen) in
      if new \<and> \<not> record_header_ok i (ca_saved st) then
        Returns (Some (''unexpected record type at index '' @ [char_of (48 + i)])) st
      else let st = (if new then st\<lparr>ca_handshakeLen := record_len (ca_saved st)\<rparr> else st) in
      if ca_handshakeLen st > maxTLSRecordPayload then Returns (Some ''record exceeds TLS max'') st
      else if i = 1 \<and> ca_handshakeLen st > 0 \<and> ca_handshakeLen st \<noteq> 6 then
        Returns (Some ''invalid CCS length'') st
      else let st = (if i = 2 \<and> ca_handshakeLen st > 512 then
                       st\<lparr>ca_usedLen := (ca_usedLen st)[i := ca_handshakeLen st],
                          ca_handshakeBuf := Some (ca_handshakeLen st)\<rparr> else st);
               st = (if i = 6 \<and> ca_handshakeLen st > 0 then
                       st\<lparr>ca_usedLen := (ca_usedLen st)[i := ca_handshakeLen st]\<rparr> else st) in
      if ca_handshakeLen st = 0 \<or> int (length (ca_saved st)) < ca_handshakeLen st then Breaks st
      else if i = 0 then
        (case take_server_hello cb x st of
           Continues st \<Rightarrow> consume_record i st
         | t \<Rightarrow> t)
      else consume_record i (st\<lparr>ca_usedLen := (ca_usedLen st)[i := ca_handshakeLen st]\<rparr>))"

text \<open>\<open>for i, t := range types\<close>.\<close>

fun capture_turns :: "'b cryptobyte \<Rightarrow> capture_args \<Rightarrow> nat list \<Rightarrow> capture \<Rightarrow> turn" where
  "capture_turns cb x [] st = Continues st"
| "capture_turns cb x (i # is) st =
     (case capture_turn cb x i st of
        Continues st \<Rightarrow> capture_turns cb x is st
      | t \<Rightarrow> t)"

type_synonym target_read = "bytes \<times> string option"

text \<open>The end of an outer turn: an error of the read counts only when no bytes are left.\<close>

definition after_turns :: "string option \<Rightarrow> capture \<Rightarrow> turn" where
  "after_turns readErr st =
     (case readErr of
        Some e \<Rightarrow>
          if ca_saved st = [] then
            if ca_usedLen st ! 0 \<noteq> 0 \<and> ca_usedLen st ! 5 \<noteq> 0 then Returns None st
            else Returns (Some e) st
          else Continues st
      | None \<Rightarrow> Continues st)"

text \<open>What one \<open>Read\<close> of the target leads to: a result of the function, or the next read.\<close>

definition capture_read :: "'b cryptobyte \<Rightarrow> capture_args \<Rightarrow> target_read \<Rightarrow> capture \<Rightarrow> turn" where
  "capture_read cb x r st =
     (case r of (data, readErr) \<Rightarrow>
        if data = [] then
          (case readErr of Some e \<Rightarrow> Returns (Some e) st | None \<Rightarrow> Continues st)
        else if int (length (ca_saved st)) + int (length data) > maxRecordSize then
          Returns (Some ''target handshake too large'') st
        else case capture_turns cb x [0..<7] (st\<lparr>ca_saved := ca_saved st @ data\<rparr>) of
               Returns e st \<Rightarrow> Returns e st
             | Breaks st \<Rightarrow> after_turns readErr st
             | Continues st \<Rightarrow> after_turns readErr st)"

fun capture_loop :: "'b cryptobyte \<Rightarrow> capture_args \<Rightarrow> nat \<Rightarrow> target_read list \<Rightarrow> capture \<Rightarrow> string option \<times> capture" where
  "capture_loop cb x reads rs st =
     (if reads \<ge> maxTargetReads then
        if ca_usedLen st ! 0 \<noteq> 0 then (None, st)
        else (Some ''too many target reads without complete handshake records'', st)
      else case rs of
             [] \<Rightarrow> (Some ''EOF'', st)
           | r # rs \<Rightarrow>
               (case capture_read cb x r st of
                  Returns e st \<Rightarrow> (e, st)
                | Breaks st \<Rightarrow> capture_loop cb x (Suc reads) rs st
                | Continues st \<Rightarrow> capture_loop cb x (Suc reads) rs st))"

definition captureTargetRecords :: "'b cryptobyte \<Rightarrow> capture_args \<Rightarrow> target_read list \<Rightarrow> CacheManager \<Rightarrow> string option \<times> capture" where
  "captureTargetRecords cb x rs m =
     capture_loop cb x 0 rs \<lparr>ca_saved = [], ca_handshakeLen = 0, ca_usedLen = replicate 7 0, ca_hello = None,
       ca_r0Template = [], ca_path = PathL0, ca_handshakeBuf = None, ca_cache = m, ca_probes = []\<rparr>"

declare parse_loop.simps [simp del]
declare capture_loop.simps [simp del]

subsection \<open>Headers\<close>

text \<open>A record of the flight at slot \<open>i\<close>: a header that the checks accept, with its own length.\<close>

definition flight_record :: "nat \<Rightarrow> bytes \<Rightarrow> bool" where
  "flight_record i r = (5 < length r \<and> int (length r) \<le> maxTLSRecordPayload \<and> record_header_ok i r \<and>
     record_len r = int (length r) \<and> (i = 1 \<longrightarrow> length r = 6) \<and> (i = 2 \<longrightarrow> length r \<le> 512))"

definition flight :: "bytes list \<Rightarrow> bool" where
  "flight rs = (length rs = 6 \<and> list_all (\<lambda>i. flight_record i (rs ! i)) [0..<6])"

lemma flight_nth: "flight rs \<Longrightarrow> i < 6 \<Longrightarrow> flight_record i (rs ! i)"
  by (simp add: flight_def list_all_iff)

lemma header_prefix:
  assumes "5 < length s" "5 < length r" "take 6 s = take 6 r"
  shows "record_header_ok i s = record_header_ok i r" "record_len s = record_len r"
proof -
  have nth: "s ! k = r ! k" if "k < 6" for k
    using assms(3) nth_take [OF that, of s] nth_take [OF that, of r] by simp
  have "take 2 (drop k s) = take 2 (drop k r)" if "k \<le> 4" for k
    using arg_cong [OF assms(3), of "\<lambda>xs. take 2 (drop k xs)"] that by (simp add: drop_take min_absorb1)
  from this [of 1] this [of 3] show "record_header_ok i s = record_header_ok i r" "record_len s = record_len r"
    by (simp_all add: record_header_ok_def record_len_def nth)
qed

subsection \<open>A flight in any chunks\<close>

text \<open>
  The state between two turns: the records \<open>done\<close> are measured and \<open>p\<close> is the pending input. The
  lookup after R0 is a miss, with \<open>m\<close> the cache it is made in.
\<close>

definition lens_of :: "bytes list \<Rightarrow> lens" where
  "lens_of done = map (int \<circ> length) done @ replicate (7 - length done) 0"

definition l1_miss :: "capture_args \<Rightarrow> serverHelloMsg \<Rightarrow> CacheManager \<Rightarrow> bool" where
  "l1_miss x hello m = (ResolveAmortizeMode (cx_mode x) = AmortizeL0 \<or>
     lr_Path (fst (LookupAmortizeSoft (cx_now x) (cx_mode x) (cx_dest x) (cx_serverName x) (cx_alpn x)
       VersionTLS13 (cx_chClass x) (cx_softClass x) (sh_cipherSuite hello)
       (ks_group (sh_serverShare hello)) m)) \<noteq> PathL1)"

definition measured :: "CacheManager \<Rightarrow> serverHelloMsg \<Rightarrow> bytes list \<Rightarrow> bytes \<Rightarrow> capture \<Rightarrow> bool" where
  "measured m hello done p st =
     (ca_usedLen st = lens_of done \<and> ca_saved st = p \<and> ca_path st = PathL0 \<and> ca_handshakeBuf st = None \<and>
      (case done of
         [] \<Rightarrow> ca_cache st = m
       | r0 # _ \<Rightarrow> ca_hello st = Some hello \<and> ca_r0Template st = drop 5 r0))"

text \<open>\<open>handshakeLen\<close> belongs to the record \<open>r\<close> being read: 0 until its header is in.\<close>

definition header_state :: "bytes \<Rightarrow> capture \<Rightarrow> bool" where
  "header_state r st = (ca_handshakeLen st = 0 \<or>
     ca_handshakeLen st = int (length r) \<and> 5 < length (ca_saved st))"

lemma lens_of_slots:
  assumes "length done < 7"
  shows "lens_of done ! length done = 0" "(lens_of done)[length done := int (length r)] = lens_of (done @ [r])"
proof -
  have "7 - length done = Suc (6 - length done)" using assms by simp
  then show "lens_of done ! length done = 0" "(lens_of done)[length done := int (length r)] = lens_of (done @ [r])"
    by (simp_all add: lens_of_def nth_append list_update_append)
qed

lemma l1_fast_path_miss:
  assumes "l1_miss x hello (ca_cache st)"
  obtains m' ps where "l1_fast_path x hello st = Continues (st\<lparr>ca_cache := m', ca_probes := ps\<rparr>)"
proof (cases "ResolveAmortizeMode (cx_mode x) = AmortizeL0")
  case True
  then have "l1_fast_path x hello st = Continues (st\<lparr>ca_cache := ca_cache st, ca_probes := ca_probes st\<rparr>)"
    by (simp add: l1_fast_path_def)
  then show thesis by (rule that)
next
  case False
  obtain res m' where l: "LookupAmortizeSoft (cx_now x) (cx_mode x) (cx_dest x) (cx_serverName x) (cx_alpn x)
      VersionTLS13 (cx_chClass x) (cx_softClass x) (sh_cipherSuite hello)
      (ks_group (sh_serverShare hello)) (ca_cache st) = (res, m')" by fastforce
  let ?ps = "if lr_Profile res = None \<or> lr_Path res = PathL0 then ca_probes st @
    [CacheKeyV2 (cx_dest x) (cx_serverName x) (cx_alpn x) VersionTLS13 (cx_chClass x)] else ca_probes st"
  have "lr_Path res \<noteq> PathL1" using assms False l by (simp add: l1_miss_def)
  then have "l1_fast_path x hello st = Continues (st\<lparr>ca_cache := m', ca_probes := ?ps\<rparr>)"
    using False by (cases "lr_Profile res") (simp_all add: l1_fast_path_def l)
  then show thesis by (rule that)
qed

text \<open>The turn of the record that is complete: it is measured and consumed.\<close>

lemma turn_complete:
  assumes "flight_record (length done) r" "length done < 6"
    and "measured m hello done (r @ s) st" "header_state r st"
    and "done = [] \<Longrightarrow> live_hello cb (drop 5 r) = Some hello \<and> l1_miss x hello m"
  obtains st' where "measured m hello (done @ [r]) s st'" "ca_handshakeLen st' = 0"
    "capture_turn cb x (length done) st =
       (if length done = 5 \<and> s = [] then Returns None st' else Continues st')"
proof -
  let ?i = "length done" and ?st = "st\<lparr>ca_handshakeLen := int (length r)\<rparr>"
  have len: "5 < length r" "int (length r) \<le> 16384" "?i = 1 \<longrightarrow> length r = 6" "?i = 2 \<longrightarrow> length r \<le> 512"
    and hd: "record_header_ok ?i (r @ s)" "record_len (r @ s) = int (length r)"
    using assms(1) header_prefix(1) [of "r @ s" r ?i] header_prefix(2) [of "r @ s" r] by (auto simp: flight_record_def)
  have st: "ca_usedLen st = lens_of done" "ca_saved st = r @ s"
    using assms(3) by (auto simp: measured_def)
  have hl: "(if ca_handshakeLen st = 0 then ?st else st) = ?st"
    using assms(4) by (auto simp: header_state_def)
  have turn: "capture_turn cb x ?i st =
      (if ?i = 0 then (case take_server_hello cb x ?st of Continues st \<Rightarrow> consume_record ?i st | t \<Rightarrow> t)
       else consume_record ?i (?st\<lparr>ca_usedLen := lens_of (done @ [r])\<rparr>))"
    using assms(2) len hd hl lens_of_slots [of "done"] assms(4)
    by (auto simp: capture_turn_def Let_def st header_state_def cong: if_cong)
  show thesis
  proof (cases "done")
    case Nil
    let ?s1 = "?st\<lparr>ca_hello := Some hello, ca_r0Template := drop 5 r,
      ca_usedLen := (ca_usedLen ?st)[0 := ca_handshakeLen ?st]\<rparr>"
    have "l1_miss x hello (ca_cache ?s1)" using assms(3,5) Nil by (simp add: measured_def)
    from l1_fast_path_miss [OF this]
    obtain m' ps where fast: "l1_fast_path x hello ?s1 = Continues (?s1\<lparr>ca_cache := m', ca_probes := ps\<rparr>)" .
    have turn0: "capture_turn cb x 0 st =
        (case take_server_hello cb x ?st of Continues st \<Rightarrow> consume_record 0 st | t \<Rightarrow> t)"
      using turn by (simp only: Nil list.size if_True simp_thms)
    show thesis
      apply (rule that [of "?st\<lparr>ca_hello := Some hello, ca_r0Template := drop 5 r,
        ca_usedLen := lens_of [r], ca_cache := m', ca_probes := ps, ca_saved := s, ca_handshakeLen := 0\<rparr>"])
      using assms(3,5) Nil fast lens_of_slots(2) [of "[]" r] st
      by (auto simp: turn0 take_server_hello_def consume_record_def measured_def Let_def)
  next
    case (Cons r0 rs)
    let ?s2 = "?st\<lparr>ca_usedLen := lens_of (done @ [r]), ca_saved := s, ca_handshakeLen := 0\<rparr>"
    have "measured m hello (done @ [r]) s ?s2" using assms(3) Cons by (simp add: measured_def)
    moreover have "done \<noteq> []" using Cons by simp
    then have "capture_turn cb x ?i st = (if ?i = 5 \<and> s = [] then Returns None ?s2 else Continues ?s2)"
      using assms(2) by (simp add: turn consume_record_def Let_def st)
    ultimately show thesis by (intro that) simp_all
  qed
qed

text \<open>The turn of the record that is still short of bytes: the inner loop ends.\<close>

lemma turn_short:
  assumes "flight_record (length done) r" "length done < 6"
    and "measured m hello done s st" "header_state r st" "r = s @ rest" "rest \<noteq> []"
  obtains st' where "measured m hello done s st'" "header_state r st'"
    "capture_turn cb x (length done) st = Breaks st'"
proof -
  let ?i = "length done"
  let ?st = "if 5 < length s then st\<lparr>ca_handshakeLen := int (length r)\<rparr> else st"
  have len: "5 < length r" "int (length r) \<le> 16384" "?i = 1 \<longrightarrow> length r = 6" "?i = 2 \<longrightarrow> length r \<le> 512"
    using assms(1) by (auto simp: flight_record_def)
  have hd: "record_header_ok ?i s" "record_len s = int (length r)" if "5 < length s"
    using assms(1,5) header_prefix(1) [of s r ?i] header_prefix(2) [of s r] that by (auto simp: flight_record_def)
  have st: "ca_usedLen st = lens_of done" "ca_saved st = s"
    using assms(3) by (auto simp: measured_def)
  have short: "length s < length r" using assms(5,6) by simp
  have hl: "ca_handshakeLen st = 0 \<or> ca_handshakeLen st = int (length r) \<and> 5 < length s"
    using assms(4) st by (simp add: header_state_def)
  have "measured m hello done s ?st" using assms(3) by (simp add: measured_def split: list.splits)
  moreover have "header_state r ?st" using st hl by (auto simp: header_state_def)
  moreover have "capture_turn cb x ?i st = Breaks ?st"
  proof (cases "5 < length s")
    case True
    then show ?thesis
      using len hd short hl assms(2) lens_of_slots(1) [of "done"]
      by (auto simp: capture_turn_def Let_def st)
  next
    case False
    then show ?thesis
      using hl assms(2) lens_of_slots(1) [of "done"] by (simp add: capture_turn_def Let_def st)
  qed
  ultimately show thesis by (rule that)
qed

text \<open>The turns that a read leads to: the flight is complete, or a strict prefix of a record is left.\<close>

lemma skip_measured:
  assumes "measured m hello done p st" "list_all (\<lambda>r. r \<noteq> []) done" "i < length done"
  shows "capture_turn cb x i st = Continues st"
  using assms by (simp add: capture_turn_def measured_def lens_of_def nth_append list_all_length)

lemma turns_skip:
  assumes "measured m hello done p st" "list_all (\<lambda>r. r \<noteq> []) done" "k \<le> length done" "length done \<le> 7"
  shows "capture_turns cb x [k..<7] st = capture_turns cb x [length done..<7] st"
  using assms(3)
proof (induction k rule: inc_induct)
  case (step k)
  then have "capture_turns cb x [k..<7] st = capture_turns cb x (k # [Suc k..<7]) st"
    using assms(4) by (simp add: upt_conv_Cons)
  then show ?case using step.IH skip_measured [OF assms(1,2) step.hyps(2), of cb x] by simp
qed simp

definition flight_turns :: "CacheManager \<Rightarrow> serverHelloMsg \<Rightarrow> bytes list \<Rightarrow> bytes \<Rightarrow> turn \<Rightarrow> bool" where
  "flight_turns m hello rs rest t =
     (if rest = [] then \<exists>st. t = Returns None st \<and> measured m hello rs [] st
      else \<exists>st done todo p. t = Breaks st \<and> rs = done @ todo \<and> todo \<noteq> [] \<and> measured m hello done p st \<and>
        header_state (hd todo) st \<and> length p < length (hd todo) \<and> concat todo = p @ rest)"

lemma turns_of_flight:
  assumes "flight (done @ todo)" "todo \<noteq> []"
    and "live_hello cb (drop 5 ((done @ todo) ! 0)) = Some hello" "l1_miss x hello m"
    and "measured m hello done s st" "header_state (hd todo) st" "concat todo = s @ rest"
  shows "flight_turns m hello (done @ todo) rest (capture_turns cb x [length done..<7] st)"
  using assms
proof (induction todo arbitrary: "done" s st)
  case (Cons r todo)
  have n: "length done < 6" "length done + length todo = 5" using Cons.prems(1) by (auto simp: flight_def)
  have fr: "flight_record (length done) r" using flight_nth [OF Cons.prems(1) n(1)] by simp
  have upt: "capture_turns cb x [length done..<7] st = capture_turns cb x (length done # [Suc (length done)..<7]) st"
    using n by (simp add: upt_conv_Cons)
  show ?case
  proof (cases "length s < length r")
    case True
    then have r: "r = s @ drop (length s) r" "drop (length s) r \<noteq> []"
      using Cons.prems(7) by (auto simp: append_eq_append_conv2)
    obtain st' where "measured m hello done s st'" "header_state r st'"
        "capture_turn cb x (length done) st = Breaks st'"
      using turn_short [OF fr n(1) Cons.prems(5) _ r] Cons.prems(6) by auto
    moreover have "rest \<noteq> []" using Cons.prems(7) True
      by (metis append_Nil2 concat.simps(2) length_append not_add_less1)
    ultimately show ?thesis using Cons.prems(7) unfolding upt flight_turns_def
      by (simp, intro exI [of _ "done"] exI [of _ "r # todo"] exI [of _ s]) (simp add: True)
  next
    case False
    then obtain s' where s: "s = r @ s'" "concat todo = s' @ rest"
      using Cons.prems(7) by (auto simp: append_eq_append_conv2)
    obtain st' where st': "measured m hello (done @ [r]) s' st'" "ca_handshakeLen st' = 0"
        "capture_turn cb x (length done) st =
          (if length done = 5 \<and> s' = [] then Returns None st' else Continues st')"
      using turn_complete [OF fr n(1), of m hello s' st cb x] Cons.prems(3-6) s(1)
      by (metis append_Nil list.sel(1) nth_Cons_0)
    show ?thesis
    proof (cases "todo = []")
      case True
      then show ?thesis using st' s(2) n by (simp add: upt flight_turns_def)
    next
      case False
      then have "length done \<noteq> 5" using n by auto
      moreover have "header_state (hd todo) st'" using st'(2) by (simp add: header_state_def)
      ultimately have "header_state (hd todo) st'" and
        nxt: "capture_turns cb x [length done..<7] st = capture_turns cb x [length (done @ [r])..<7] st'"
        using upt st'(3) by simp_all
      moreover have "flight ((done @ [r]) @ todo)" "live_hello cb (drop 5 (((done @ [r]) @ todo) ! 0)) = Some hello"
        using Cons.prems(1,3) by simp_all
      ultimately show ?thesis
        using Cons.IH [OF _ False, of "done @ [r]" s' st'] Cons.prems(4) st'(1) s(2)
        unfolding nxt by simp
    qed
  qed
qed simp

lemma loop_of_flight:
  assumes "flight (done @ todo)" "todo \<noteq> []" "length (concat (done @ todo)) \<le> 65536"
    and "live_hello cb (drop 5 ((done @ todo) ! 0)) = Some hello" "l1_miss x hello m"
    and "measured m hello done p st" "header_state (hd todo) st" "length p < length (hd todo)"
    and "concat todo = p @ concat chunks" "list_all (\<lambda>c. c \<noteq> []) chunks" "n + length chunks \<le> maxTargetReads"
  shows "\<exists>st'. capture_loop cb x n (map (\<lambda>c. (c, None)) chunks @ later) st = (None, st') \<and>
    measured m hello (done @ todo) [] st'"
  using assms
proof (induction chunks arbitrary: "done" todo p st n)
  case Nil
  then have "length (concat todo) < length (hd todo)" by simp
  then show ?case using Nil.prems(2) by (cases todo) auto
next
  case (Cons c chunks)
  let ?st = "st\<lparr>ca_saved := p @ c\<rparr>"
  have st: "measured m hello done (p @ c) ?st" "header_state (hd todo) ?st" "ca_saved st = p"
    using Cons.prems(6,7) by (auto simp: measured_def header_state_def split: list.splits)
  have le: "length done \<le> 6" using Cons.prems(1) by (simp add: flight_def)
  then have "done ! i \<noteq> []" if "i < length done" for i
    using flight_nth [OF Cons.prems(1), of i] that by (auto simp: flight_record_def nth_append)
  then have ne: "list_all (\<lambda>r. r \<noteq> []) done" "length done \<le> 7"
    using le by (simp_all add: list_all_length)
  have "length p + length c \<le> length (concat (done @ todo))" using Cons.prems(9) by simp
  then have "capture_read cb x (c, None) st = (case capture_turns cb x [length done..<7] ?st of
      Returns e st \<Rightarrow> Returns e st | Breaks st \<Rightarrow> Continues st | Continues st \<Rightarrow> Continues st)"
    using Cons.prems(3,10) turns_skip [OF st(1) ne(1) _ ne(2), of 0 cb x]
    by (simp add: capture_read_def after_turns_def st(3) split: turn.splits)
  moreover have "flight_turns m hello (done @ todo) (concat chunks) (capture_turns cb x [length done..<7] ?st)"
    using turns_of_flight [OF Cons.prems(1,2,4,5) st(1,2)] Cons.prems(9) by simp
  ultimately consider (all) st' where "capture_read cb x (c, None) st = Returns None st'"
      "measured m hello (done @ todo) [] st'"
    | (part) st' done' todo' p' where "capture_read cb x (c, None) st = Continues st'"
      "done @ todo = done' @ todo'" "todo' \<noteq> []" "measured m hello done' p' st'" "header_state (hd todo') st'"
      "length p' < length (hd todo')" "concat todo' = p' @ concat chunks"
    by (auto simp: flight_turns_def split: if_splits)
  then show ?case
  proof cases
    case all
    then show ?thesis using Cons.prems(11) by (subst capture_loop.simps) simp
  next
    case part
    then have "\<exists>st''. capture_loop cb x (Suc n) (map (\<lambda>c. (c, None)) chunks @ later) st' = (None, st'') \<and>
        measured m hello (done' @ todo') [] st''"
      using Cons.IH [of done' todo' p' st' "Suc n"] Cons.prems by simp
    then show ?thesis using part(1,2) Cons.prems(11) by (subst capture_loop.simps) simp
  qed
qed

text \<open>The parser of a finished capture reads the same lengths.\<close>

lemma parse_of_flight:
  assumes "flight (done @ todo)" "done \<noteq> []"
  shows "parse_loop cb (length done) (concat todo) (lens_of done) suite = (lens_of (done @ todo), suite, True)"
  using assms
proof (induction todo arbitrary: "done")
  case Nil
  then show ?case by (subst parse_loop.simps) simp
next
  case (Cons r todo)
  have n: "length done < 6" using Cons.prems(1) by (auto simp: flight_def)
  have fr: "flight_record (length done) r" using flight_nth [OF Cons.prems(1) n] by simp
  have hd: "record_header_ok (length done) (r @ concat todo)" "record_len (r @ concat todo) = int (length r)"
    using fr header_prefix(1) [of "r @ concat todo" r] header_prefix(2) [of "r @ concat todo" r]
    by (auto simp: flight_record_def)
  have "parse_loop cb (length done) (r @ concat todo) (lens_of done) suite =
      parse_loop cb (length (done @ [r])) (concat todo) (lens_of (done @ [r])) suite"
    using Cons.prems(2) fr n lens_of_slots(2) [of "done" r] hd
    by (subst parse_loop.simps) (auto simp: flight_record_def Let_def)
  then show ?case using Cons.IH [of "done @ [r]"] Cons.prems by simp
qed

text \<open>
  (C12) \<open>captureTargetRecords\<close> measures a split flight of the target however the network cuts it. Let
  the target send the six records ServerHello to Finished, with an acceptable ServerHello, an
  EncryptedExtensions record of at most 512 bytes and at most 64 KiB in all, in at most 64 reads,
  and let the lookup after R0 not be an L1 hit. Then the capture succeeds on path L0, with the
  length of each record, no R6, the ServerHello and its bytes as the template; and
  \<open>parseRecordLens\<close> reads the same lengths from the whole flight.
\<close>

theorem capture_measures_flight:
  assumes "flight rs" "length (concat rs) \<le> 65536"
    and "live_hello cb (drop 5 (hd rs)) = Some hello" "l1_miss x hello m"
    and "concat chunks = concat rs" "list_all (\<lambda>c. c \<noteq> []) chunks" "length chunks \<le> 64"
  shows "(\<exists>st. captureTargetRecords cb x (map (\<lambda>c. (c, None)) chunks @ later) m = (None, st) \<and>
      ca_usedLen st = map (int \<circ> length) rs @ [0] \<and> ca_path st = PathL0 \<and> ca_handshakeBuf st = None \<and>
      ca_hello st = Some hello \<and> ca_r0Template st = drop 5 (hd rs)) \<and>
    parseRecordLens cb (concat rs) = (map (int \<circ> length) rs @ [0], sh_cipherSuite hello, True)"
proof
  obtain r0 rs' where rs: "rs = r0 # rs'" using assms(1) by (cases rs) (auto simp: flight_def)
  have fr: "flight_record 0 r0" using flight_nth [OF assms(1), of 0] rs by simp
  then have r0: "0 < length r0" by (auto simp: flight_record_def)
  have lens0: "replicate 7 0 = lens_of []" by (simp add: lens_of_def)
  have lens: "lens_of rs = map (int \<circ> length) rs @ [0]" using assms(1) by (simp add: lens_of_def flight_def)
  let ?st = "\<lparr>ca_saved = [], ca_handshakeLen = 0, ca_usedLen = replicate 7 0, ca_hello = None,
       ca_r0Template = [], ca_path = PathL0, ca_handshakeBuf = None, ca_cache = m, ca_probes = []\<rparr>"
  have "measured m hello [] [] ?st" "header_state (hd rs) ?st"
    by (simp_all add: measured_def lens_of_def header_state_def)
  then obtain st where "capture_loop cb x 0 (map (\<lambda>c. (c, None)) chunks @ later) ?st = (None, st)"
      "measured m hello rs [] st"
    using loop_of_flight [of "[]" rs cb hello x m "[]" ?st chunks 0 later] assms r0
    by (auto simp only: append_Nil list.sel nth_Cons_0 list.size rs list.simps add_0)
  then show "\<exists>st. captureTargetRecords cb x (map (\<lambda>c. (c, None)) chunks @ later) m = (None, st) \<and>
      ca_usedLen st = map (int \<circ> length) rs @ [0] \<and> ca_path st = PathL0 \<and> ca_handshakeBuf st = None \<and>
      ca_hello st = Some hello \<and> ca_r0Template st = drop 5 (hd rs)"
    using lens rs by (simp add: captureTargetRecords_def measured_def)
  have hd: "record_header_ok 0 (concat rs)" "record_len (concat rs) = int (length r0)"
    using fr header_prefix(1) [of "concat rs" r0 0] header_prefix(2) [of "concat rs" r0] rs
    by (auto simp: flight_record_def)
  have "serverHelloMsg_unmarshal cb (drop 5 r0) = Some hello"
    using assms(3) rs by (simp add: live_hello_def split: option.splits if_splits)
  then have "parseRecordLens cb (concat rs) =
      parse_loop cb (length [r0]) (concat rs') (lens_of [r0]) (sh_cipherSuite hello)"
    using fr hd rs lens_of_slots(2) [of "[]" r0] unfolding parseRecordLens_def
    by (subst parse_loop.simps) (simp add: flight_record_def Let_def lens0)
  then show "parseRecordLens cb (concat rs) = (map (int \<circ> length) rs @ [0], sh_cipherSuite hello, True)"
    using parse_of_flight [of "[r0]" rs' cb "sh_cipherSuite hello"] assms(1) rs lens by simp
qed

text \<open>
  A record R2 of more than 512 bytes that arrives in two reads is measured twice. Its length goes to
  slot 2 when its header is in; the next read skips slot 2, and the turn of slot 3 completes the
  same record. The Certificate slot then holds the length of the coalesced flight.
\<close>

lemma large_record_measured_twice:
  assumes "ca_usedLen st = [l0, 6, 0, 0, 0, 0, 0]" "0 < l0" "ca_saved st = []" "ca_handshakeLen st = 0"
    and "record_header_ok 2 (p @ q)" "record_len (p @ q) = int (length (p @ q))"
    and "512 < length (p @ q)" "int (length (p @ q)) \<le> maxTLSRecordPayload" "5 < length p" "q \<noteq> []"
  shows "\<exists>st1 st2. capture_read cb x (p, None) st = Continues st1 \<and>
    capture_read cb x (q, None) st1 = Continues st2 \<and> ca_saved st2 = [] \<and>
    ca_usedLen st2 = [l0, 6, int (length (p @ q)), int (length (p @ q)), 0, 0, 0]"
proof -
  let ?n = "int (length (p @ q))"
  let ?st1 = "st\<lparr>ca_saved := p, ca_handshakeLen := ?n, ca_usedLen := [l0, 6, ?n, 0, 0, 0, 0], ca_handshakeBuf := Some ?n\<rparr>"
  let ?st2 = "?st1\<lparr>ca_saved := [], ca_handshakeLen := 0, ca_usedLen := [l0, 6, ?n, ?n, 0, 0, 0]\<rparr>"
  have hd: "record_header_ok 2 p" "record_len p = ?n"
    using assms(5,6,9) header_prefix(1) [of p "p @ q" 2] header_prefix(2) [of p "p @ q"] by simp_all
  have upt: "[0..<7] = [0, 1, 2, 3, 4, 5, 6 :: nat]" by (simp add: upt_rec)
  have "capture_turns cb x [0..<7] (st\<lparr>ca_saved := p\<rparr>) = Breaks ?st1"
    using assms hd by (simp add: upt capture_turn_def Let_def)
  then have "capture_read cb x (p, None) st = Continues ?st1"
    using assms by (auto simp: capture_read_def after_turns_def)
  moreover have "capture_turns cb x [0..<7] (?st1\<lparr>ca_saved := p @ q\<rparr>) = Breaks ?st2"
    using assms by (simp add: upt capture_turn_def consume_record_def Let_def)
  then have "capture_read cb x (q, None) ?st1 = Continues ?st2"
    using assms by (simp add: capture_read_def after_turns_def)
  ultimately show ?thesis by fastforce
qed

text \<open>
  A NewSessionTicket that is cut by the network ends the capture with the error of the next read:
  slot 6 is set when its header is in, no turn is left to complete the record, and the bytes that
  stay pending keep the end of the input from counting as a complete flight.
\<close>

lemma cut_ticket_fails:
  assumes "ca_usedLen st = [l0, 6, l2, l3, l4, l5, 0]" "0 \<notin> {l0, l2, l3, l4, l5}" "ca_saved st = p" "p \<noteq> []"
    and "ca_handshakeLen st = 0" "record_header_ok 6 (p @ c)" "record_len (p @ c) = n" "int (length (p @ c)) < n"
    and "n \<le> maxTLSRecordPayload" "5 < length (p @ c)" "c \<noteq> []" "reads < 63"
  shows "fst (capture_loop cb x reads [(c, None), ([], Some e)] st) = Some e"
proof -
  let ?st = "st\<lparr>ca_saved := p @ c, ca_handshakeLen := n, ca_usedLen := [l0, 6, l2, l3, l4, l5, n]\<rparr>"
  have upt: "[0..<7] = [0, 1, 2, 3, 4, 5, 6 :: nat]" by (simp add: upt_rec)
  have "capture_turns cb x [0..<7] (st\<lparr>ca_saved := p @ c\<rparr>) = Breaks ?st"
    using assms by (simp add: upt capture_turn_def Let_def)
  then have "capture_read cb x (c, None) st = Continues ?st"
    using assms by (auto simp: capture_read_def after_turns_def)
  then show ?thesis using assms by (simp add: capture_loop.simps capture_read_def)
qed

text \<open>A flight with an X25519 ServerHello and one-byte encrypted records.\<close>

definition sample_server :: serverHelloMsg where
  "sample_server = (serverHelloMsg_zero None)\<lparr>sh_vers := 0x0303, sh_random := replicate 32 7,
     sh_cipherSuite := 0x1301, sh_supportedVersion := 0x0304,
     sh_serverShare := \<lparr>ks_group = 29, ks_data = replicate 32 9\<rparr>\<rparr>"

definition sample_server_hello :: bytes where
  "sample_server_hello = [2, 0, 0, 86, 3, 3] @ replicate 32 7 @ [0, 0x13, 0x01, 0, 0, 46,
     0, 43, 0, 2, 3, 4, 0, 51, 0, 36, 0, 29, 0, 32] @ replicate 32 9"

lemma sample_server_marshal: "serverHelloMsg_marshal ref_cryptobyte sample_server = Some sample_server_hello"
  by (simp add: serverHelloMsg_marshal_def ref.server_extensions_bytes ref.server_message_bytes server_ext_list_def
      x_if_def x_alpnProtocol_def x_sctList_def sample_server_def serverHelloMsg_zero_def sample_server_hello_def
      length_bytes_def be16_def be24_def)

lemma sample_live_hello:
  "live_hello ref_cryptobyte sample_server_hello = Some (sample_server\<lparr>sh_original := Some sample_server_hello\<rparr>)"
proof -
  have "canonical_server sample_server"
    by (simp add: canonical_server_def sample_server_def serverHelloMsg_zero_def)
  from ref.server_unmarshal_marshal [OF sample_server_marshal this] show ?thesis
    by (simp add: live_hello_def sample_server_def serverHelloMsg_zero_def cipherSuiteTLS13ByID_def cipherSuitesTLS13_def)
qed

definition sample_flight :: "bytes list" where
  "sample_flight = [[22, 3, 3, 0, 90] @ sample_server_hello, [20, 3, 3, 0, 1, 1], [23, 3, 3, 0, 1, 8],
     [23, 3, 3, 0, 1, 11], [23, 3, 3, 0, 1, 15], [23, 3, 3, 0, 1, 20]]"

definition sample_args :: capture_args where
  "sample_args = \<lparr>cx_now = 0, cx_mode = AmortizeL0, cx_dest = [], cx_serverName = [], cx_alpn = [],
     cx_chClass = [], cx_softClass = []\<rparr>"

lemma sample_flight_ok: "flight sample_flight"
  by (simp add: flight_def flight_record_def upt_rec sample_flight_def record_header_ok_def record_len_def
      bigEndianUint16_def sample_server_hello_def)

theorem capture_measures_flight_witness:
  "\<exists>st. captureTargetRecords ref_cryptobyte sample_args
      (map (\<lambda>c. (c, None)) [take 3 (concat sample_flight), drop 3 (concat sample_flight)]) NewCacheManager = (None, st) \<and>
    ca_usedLen st = [95, 6, 6, 6, 6, 6, 0]"
proof -
  have "live_hello ref_cryptobyte (drop 5 (hd sample_flight)) =
      Some (sample_server\<lparr>sh_original := Some sample_server_hello\<rparr>)"
    by (simp add: sample_flight_def sample_live_hello)
  moreover have "l1_miss sample_args hello NewCacheManager" for hello
    by (simp add: l1_miss_def sample_args_def ResolveAmortizeMode_def)
  moreover have "map (int \<circ> length) sample_flight = [95, 6, 6, 6, 6, 6]" "length (concat sample_flight) = 125"
      "concat sample_flight \<noteq> []"
    by (simp_all add: sample_flight_def sample_server_hello_def)
  ultimately show ?thesis
    using capture_measures_flight [OF sample_flight_ok, of ref_cryptobyte
        "sample_server\<lparr>sh_original := Some sample_server_hello\<rparr>" sample_args NewCacheManager
        "[take 3 (concat sample_flight), drop 3 (concat sample_flight)]" "[]"]
    by (auto simp del: concat_eq_Nil_conv)
qed

end
