(* ===== verification/Server_Auth.thy ===== *)
theory Server_Auth
  imports Replay_Guard Record_Codec Capture "HOL-Library.Multiset"
begin

text \<open>
  Who may go on: the admission of a connection in \<open>src/server_amortize.go\<close>. It holds the quota of
  handshake slots per source, the throttle of failed authentications per source, and
  \<open>authenticateClientHello\<close>, which decides from the ClientHello alone whether the peer knows the
  server's key, and then asks the replay guard.

  X25519, HKDF and AES-GCM are the record \<open>auth_lib\<close>; an AEAD is a value of \<open>cipher_AEAD\<close> as in the
  record layer, with the laws of \<open>aead_laws\<close>. The \<open>sessionId\<close> of a parsed ClientHello is a slice of
  \<open>original\<close> at offset 39, so clearing it changes the additional data.
\<close>

subsection \<open>Slots per source\<close>

abbreviation (input) handshakeSourceQuota :: int where "handshakeSourceQuota \<equiv> 250"
abbreviation (input) maxConcurrentHandshakes :: nat where "maxConcurrentHandshakes \<equiv> 1000"

type_synonym source_slots = "string \<rightharpoonup> int"

definition slots_of :: "source_slots \<Rightarrow> string \<Rightarrow> int" where
  "slots_of slots host = (case slots host of Some n \<Rightarrow> n | None \<Rightarrow> 0)"

definition handshakeAcquireSource :: "string \<Rightarrow> source_slots \<Rightarrow> bool \<times> source_slots" where
  "handshakeAcquireSource host slots =
     (if host = [] then (True, slots)
      else if slots_of slots host \<ge> handshakeSourceQuota then (False, slots)
      else (True, slots(host \<mapsto> slots_of slots host + 1)))"

definition handshakeReleaseSource :: "string \<Rightarrow> source_slots \<Rightarrow> source_slots" where
  "handshakeReleaseSource host slots =
     (if host = [] then slots
      else if slots_of slots host > 1 then slots(host \<mapsto> slots_of slots host - 1)
      else slots(host := None))"

text \<open>
  The use that \<open>Server\<close> makes of them: the quota is taken first, then a place in the semaphore
  \<open>handshakeSem\<close> or, when the context ends while it waits, the quota is given back; both are given
  back when \<open>Server\<close> returns. \<open>ad_waiting\<close> and \<open>ad_running\<close> are the connections in between.
\<close>

record admission =
  ad_slots :: source_slots
  ad_waiting :: "string multiset"
  ad_running :: "string multiset"

datatype admission_event = Arrive string | Enter string | Cancel string | Leave string

fun admission_step :: "admission_event \<Rightarrow> admission \<Rightarrow> admission" where
  "admission_step (Arrive host) s =
     (case handshakeAcquireSource host (ad_slots s) of
        (True, slots) \<Rightarrow> s\<lparr>ad_slots := slots, ad_waiting := ad_waiting s + {#host#}\<rparr>
      | (False, slots) \<Rightarrow> s\<lparr>ad_slots := slots\<rparr>)"
| "admission_step (Enter host) s =
     (if host \<in># ad_waiting s \<and> size (ad_running s) < maxConcurrentHandshakes then
        s\<lparr>ad_waiting := ad_waiting s - {#host#}, ad_running := ad_running s + {#host#}\<rparr>
      else s)"
| "admission_step (Cancel host) s =
     (if host \<in># ad_waiting s then
        s\<lparr>ad_waiting := ad_waiting s - {#host#}, ad_slots := handshakeReleaseSource host (ad_slots s)\<rparr>
      else s)"
| "admission_step (Leave host) s =
     (if host \<in># ad_running s then
        s\<lparr>ad_running := ad_running s - {#host#}, ad_slots := handshakeReleaseSource host (ad_slots s)\<rparr>
      else s)"

definition held :: "admission \<Rightarrow> string \<Rightarrow> nat" where
  "held s host = count (ad_waiting s) host + count (ad_running s) host"

definition admission_inv :: "admission \<Rightarrow> bool" where
  "admission_inv s \<longleftrightarrow> size (ad_running s) \<le> maxConcurrentHandshakes \<and>
     (\<forall>host. host \<noteq> [] \<longrightarrow> held s host \<le> 250 \<and>
        ad_slots s host = (if held s host = 0 then None else Some (int (held s host))))"

lemma admission_slots:
  assumes "admission_inv s" "host \<noteq> []"
  shows "slots_of (ad_slots s) host = int (held s host)"
  using assms by (simp add: admission_inv_def slots_of_def)

lemma held_pos: "h \<in># ad_waiting s \<or> h \<in># ad_running s \<Longrightarrow> 0 < held s h"
  by (auto simp: held_def)

lemma release_inv:
  assumes "admission_inv s" "0 < held s h" "size (ad_running s') \<le> 1000"
    and "ad_slots s' = handshakeReleaseSource h (ad_slots s)"
    and "\<And>k. held s' k = (if k = h then held s k - 1 else held s k)"
  shows "admission_inv s'"
  using assms(1,2,3,5) admission_slots [OF assms(1), of h]
  by (auto simp: admission_inv_def assms(4) handshakeReleaseSource_def)

lemma acquire_inv:
  assumes "admission_inv s" "handshakeAcquireSource h (ad_slots s) = (True, slots)" "ad_slots s' = slots" "size (ad_running s') \<le> 1000"
    and "\<And>k. held s' k = (if k = h then Suc (held s k) else held s k)"
  shows "admission_inv s'"
  using assms(1,4,5) admission_slots [OF assms(1), of h] assms(2)
  by (auto simp: admission_inv_def assms(3) handshakeAcquireSource_def split: if_splits)

interpretation admission: event_system admission_step admission_inv
proof
  fix s ev
  assume inv: "admission_inv s"
  then have size: "size (ad_running s) \<le> 1000" by (simp add: admission_inv_def)
  show "admission_inv (admission_step ev s)"
  proof (cases ev)
    case (Arrive h)
    obtain ok slots where a: "handshakeAcquireSource h (ad_slots s) = (ok, slots)" by fastforce
    show ?thesis
    proof (cases ok)
      case True
      then show ?thesis
        using a size unfolding Arrive by (intro acquire_inv [OF inv, of h slots]) (auto simp: held_def)
    next
      case False
      then have "slots = ad_slots s" using a by (auto simp: handshakeAcquireSource_def split: if_splits)
      then show ?thesis using False a inv by (simp add: Arrive)
    qed
  next
    case (Enter h)
    show ?thesis
    proof (cases "h \<in># ad_waiting s \<and> size (ad_running s) < 1000")
      case True
      then have "held (admission_step ev s) k = held s k" for k
        by (auto simp: Enter held_def simp flip: count_greater_zero_iff)
      then show ?thesis using inv True by (auto simp: admission_inv_def Enter)
    qed (use inv in \<open>auto simp: Enter\<close>)
  next
    case (Cancel h)
    show ?thesis
    proof (cases "h \<in># ad_waiting s")
      case True
      then show ?thesis
        using size unfolding Cancel by (intro release_inv [OF inv held_pos, of h]) (auto simp: held_def simp flip: count_greater_zero_iff)
    qed (use inv in \<open>auto simp: Cancel\<close>)
  next
    case (Leave h)
    show ?thesis
    proof (cases "h \<in># ad_running s")
      case True
      then show ?thesis
        using size unfolding Leave
        by (intro release_inv [OF inv held_pos, of h]) (auto simp: held_def size_Diff_singleton simp flip: count_greater_zero_iff)
    qed (use inv in \<open>auto simp: Leave\<close>)
  qed
qed


subsection \<open>Hosts of addresses\<close>

text \<open>\<open>net.SplitHostPort\<close>: the host, or an error.\<close>

definition SplitHost :: "string \<Rightarrow> string option" where
  "SplitHost hostport =
     (let i = LastIndexByte hostport CHR '':'' in
      if i < 0 then None
      else if hostport ! 0 = CHR ''['' then
        let end = length (takeWhile (\<lambda>c. c \<noteq> CHR '']'') hostport) in
        if end \<ge> length hostport then None
        else if end + 1 = length hostport then None
        else if int (end + 1) \<noteq> i then None
        else if CHR ''['' \<in> set (drop 1 hostport) then None
        else if CHR '']'' \<in> set (drop (end + 1) hostport) then None
        else Some (drop 1 (take end hostport))
      else let host = take (nat i) hostport in
        if CHR '':'' \<in> set host then None
        else if CHR ''['' \<in> set hostport then None
        else if CHR '']'' \<in> set hostport then None
        else Some host)"

definition host_of :: "string \<Rightarrow> string" where
  "host_of addr = (case SplitHost addr of Some host \<Rightarrow> host | None \<Rightarrow> addr)"

text \<open>\<open>sourceHostOf\<close>; a connection without a remote address has the source \<open>''\<close>.\<close>

definition sourceHostOf :: "string option \<Rightarrow> string" where
  "sourceHostOf addr = (case addr of None \<Rightarrow> [] | Some a \<Rightarrow> host_of a)"

subsection \<open>The throttle of failed authentications\<close>

abbreviation (input) authFailWindow :: duration where "authFailWindow \<equiv> Minute"
abbreviation (input) authFailLimit :: int where "authFailLimit \<equiv> 20"
abbreviation (input) authFailMaxEntries :: nat where "authFailMaxEntries \<equiv> 10000"

record authFailEntry =
  af_count :: int
  af_first :: gotime

type_synonym auth_fails = "string \<rightharpoonup> authFailEntry"

definition authFailThrottled :: "gotime \<Rightarrow> string \<Rightarrow> auth_fails \<Rightarrow> bool \<times> auth_fails" where
  "authFailThrottled now remoteAddr entries =
     (let host = host_of remoteAddr in
      case entries host of
        None \<Rightarrow>
          let entries = (if card (dom entries) \<ge> authFailMaxEntries then Map.empty else entries)
          in (False, entries(host \<mapsto> \<lparr>af_count = 1, af_first = now\<rparr>))
      | Some e \<Rightarrow>
          if time_Sub now (af_first e) > authFailWindow then
            (False, entries(host \<mapsto> \<lparr>af_count = 1, af_first = now\<rparr>))
          else (af_count e + 1 > authFailLimit, entries(host \<mapsto> e\<lparr>af_count := af_count e + 1\<rparr>)))"

definition fails_ok :: "auth_fails \<Rightarrow> bool" where
  "fails_ok entries \<longleftrightarrow> finite (dom entries) \<and> card (dom entries) \<le> authFailMaxEntries"

interpretation throttle: event_system "\<lambda>(now, addr) entries. snd (authFailThrottled now addr entries)" fails_ok
proof
  fix s :: auth_fails and ev :: "gotime \<times> string"
  assume ok: "fails_ok s"
  obtain now addr where ev: "ev = (now, addr)" by fastforce
  have "card (insert (host_of addr) (dom s)) = card (dom s)" if "s (host_of addr) = Some e" for e
    using that by (simp add: domI insert_absorb)
  then show "fails_ok ((\<lambda>(now, addr) entries. snd (authFailThrottled now addr entries)) ev s)"
    using ok by (auto simp: ev fails_ok_def authFailThrottled_def Let_def card_insert_if split: option.splits)
qed

text \<open>The failures of one host in a run: the verdict on each.\<close>

fun throttle_verdicts :: "string \<Rightarrow> (gotime \<times> string) list \<Rightarrow> auth_fails \<Rightarrow> bool list" where
  "throttle_verdicts host [] entries = []"
| "throttle_verdicts host ((now, addr) # evs) entries =
     (case authFailThrottled now addr entries of
        (throttled, entries) \<Rightarrow>
          (if host_of addr = host then [throttled] else []) @ throttle_verdicts host evs entries)"

text \<open>
  The specification: the failures of a source fall into windows, each of which starts at a failure and
  holds those that follow it up to a minute later; in every window the first twenty are mirrored.
\<close>

function fail_windows :: "gotime list \<Rightarrow> gotime list list" where
  "fail_windows [] = []"
| "fail_windows (t # ts) =
     (t # takeWhile (\<lambda>now. time_Sub now t \<le> authFailWindow) ts) #
     fail_windows (dropWhile (\<lambda>now. time_Sub now t \<le> authFailWindow) ts)"
  by pat_completeness auto
termination
  by (relation "measure length") (auto simp: le_imp_less_Suc length_dropWhile_le)

definition window_verdicts :: "gotime list list \<Rightarrow> bool list" where
  "window_verdicts ws = concat (map (\<lambda>w. map (\<lambda>k. k \<ge> 20) [0..<length w]) ws)"

definition fail_times :: "string \<Rightarrow> (gotime \<times> string) list \<Rightarrow> gotime list" where
  "fail_times host evs = map fst (filter (\<lambda>(now, addr). host_of addr = host) evs)"

lemma fail_times_simps [simp]:
  "fail_times host [] = []"
  "fail_times host ((now, addr) # evs) = (if host_of addr = host then [now] else []) @ fail_times host evs"
  by (simp_all add: fail_times_def)

definition known_sources :: "(gotime \<times> string) list \<Rightarrow> auth_fails \<Rightarrow> string set \<Rightarrow> bool" where
  "known_sources evs entries H \<longleftrightarrow> finite H \<and> card H \<le> authFailMaxEntries \<and> dom entries \<subseteq> H \<and> host_of ` snd ` set evs \<subseteq> H"

lemma known_sources_step:
  assumes "known_sources ((now, addr) # evs) entries H"
  shows "known_sources evs (snd (authFailThrottled now addr entries)) H"
    and "entries (host_of addr) = None \<Longrightarrow> \<not> authFailMaxEntries \<le> card (dom entries)"
proof -
  have H: "finite H" "card H \<le> 10000" "dom entries \<subseteq> H" "host_of addr \<in> H" "host_of ` snd ` set evs \<subseteq> H"
    using assms by (auto simp: known_sources_def)
  then show "known_sources evs (snd (authFailThrottled now addr entries)) H"
    by (auto simp: known_sources_def authFailThrottled_def Let_def split: option.split)
  assume "entries (host_of addr) = None"
  then have "dom entries \<subset> H" using H(3,4) by blast
  then have "card (dom entries) < card H" by (rule psubset_card_mono [OF H(1)])
  then show "\<not> authFailMaxEntries \<le> card (dom entries)" using H(2) by simp
qed

lemma authFailThrottled_other:
  assumes "known_sources ((now, addr) # evs) entries H" "host_of addr \<noteq> host"
  shows "snd (authFailThrottled now addr entries) host = entries host"
  using known_sources_step(2) [OF assms(1)] assms(2) by (auto simp: authFailThrottled_def Let_def split: option.split)

lemma throttle_verdicts_counted:
  assumes "entries host = Some \<lparr>af_count = int c, af_first = t\<rparr>" "known_sources evs entries H"
  shows "throttle_verdicts host evs entries =
    map (\<lambda>k. c + k \<ge> 20) [0..<length (takeWhile (\<lambda>now. time_Sub now t \<le> authFailWindow) (fail_times host evs))] @
    window_verdicts (fail_windows (dropWhile (\<lambda>now. time_Sub now t \<le> authFailWindow) (fail_times host evs)))"
  using assms
proof (induction evs arbitrary: c t entries)
  case Nil
  then show ?case by (simp add: window_verdicts_def)
next
  case (Cons ev evs)
  obtain now addr where ev: "ev = (now, addr)" by fastforce
  obtain th entries' where th: "authFailThrottled now addr entries = (th, entries')" by fastforce
  note known = known_sources_step(1) [OF Cons.prems(2) [unfolded ev]]
  show ?case
  proof (cases "host_of addr = host")
    case False
    then have "entries' host = entries host" using authFailThrottled_other [OF Cons.prems(2) [unfolded ev]] th by simp
    then show ?thesis using Cons.IH [of entries' c t] Cons.prems(1) False known by (simp add: ev th)
  next
    case True
    show ?thesis
    proof (cases "time_Sub now t \<le> Minute")
      case In: True
      then have "th = (c \<ge> 20)" "entries' host = Some \<lparr>af_count = int (Suc c), af_first = t\<rparr>"
        using th True Cons.prems(1) by (auto simp: authFailThrottled_def)
      then show ?thesis using Cons.IH [of entries' "Suc c" t] known True In
        by (simp add: ev th upt_conv_Cons map_Suc_upt [symmetric] del: map_Suc_upt upt_Suc)
    next
      case Out: False
      then have "\<not> th" "entries' host = Some \<lparr>af_count = int 1, af_first = now\<rparr>"
        using th True Cons.prems(1) by (auto simp: authFailThrottled_def)
      then show ?thesis using Cons.IH [of entries' 1 now] known True Out
        by (simp add: ev th window_verdicts_def upt_conv_Cons map_Suc_upt [symmetric] del: map_Suc_upt upt_Suc)
    qed
  qed
qed

lemma throttle_verdicts_fresh:
  "\<lbrakk>entries host = None; known_sources evs entries H\<rbrakk> \<Longrightarrow>
   throttle_verdicts host evs entries = window_verdicts (fail_windows (fail_times host evs))"
proof (induction evs arbitrary: entries)
  case Nil
  then show ?case by (simp add: window_verdicts_def)
next
  case (Cons ev evs)
  obtain now addr where ev: "ev = (now, addr)" by fastforce
  obtain th entries' where th: "authFailThrottled now addr entries = (th, entries')" by fastforce
  note known = known_sources_step(1) [OF Cons.prems(2) [unfolded ev]]
  show ?case
  proof (cases "host_of addr = host")
    case False
    then have "entries' host = None" using authFailThrottled_other [OF Cons.prems(2) [unfolded ev]] th Cons.prems(1) by simp
    then show ?thesis using Cons.IH [of entries'] False known by (simp add: ev th)
  next
    case True
    then have "\<not> th" "entries' host = Some \<lparr>af_count = int 1, af_first = now\<rparr>"
      using th Cons.prems(1) by (auto simp: authFailThrottled_def)
    then show ?thesis using throttle_verdicts_counted [of entries' host 1 now evs H] known True
      by (simp add: ev th window_verdicts_def upt_conv_Cons map_Suc_upt [symmetric] del: map_Suc_upt upt_Suc)
  qed
qed


subsection \<open>Authentication of a ClientHello\<close>

record auth_lib =
  al_X25519 :: "bytes \<Rightarrow> bytes \<Rightarrow> bytes option"
  al_HKDF_SHA256 :: "bytes \<Rightarrow> bytes \<Rightarrow> bytes \<Rightarrow> nat \<Rightarrow> bytes option"
  al_NewGCM :: "bytes \<Rightarrow> cipher_AEAD"

record auth_config =
  ac_PrivateKey :: bytes
  ac_MinClientVer :: "bytes option"
  ac_MaxClientVer :: "bytes option"
  ac_MaxTimeDiff :: duration
  ac_ShortIds :: "bytes \<Rightarrow> bool"
  ac_ServerNames :: "string \<Rightarrow> bool"

text \<open>What the connection learns of the client.\<close>

record auth_info =
  au_AuthKey :: bytes
  au_ClientVer :: bytes
  au_ClientTime :: gotime
  au_ClientShortId :: bytes

abbreviation (input) EncapsulationKeySize768 :: nat where "EncapsulationKeySize768 \<equiv> 1184"

definition reality_share :: "keyShare list \<Rightarrow> bytes option" where
  "reality_share keyShares =
     (case find (\<lambda>ks. ks_group ks = X25519 \<and> length (ks_data ks) = 32) keyShares of
        Some ks \<Rightarrow> Some (ks_data ks)
      | None \<Rightarrow>
          map_option (\<lambda>ks. drop EncapsulationKeySize768 (ks_data ks))
            (find (\<lambda>ks. ks_group ks = X25519MLKEM768 \<and> length (ks_data ks) = EncapsulationKeySize768 + 32) keyShares))"

definition reality_key :: "auth_lib \<Rightarrow> bytes \<Rightarrow> clientHelloMsg \<Rightarrow> bytes option" where
  "reality_key lib priv ch =
     Option.bind (reality_share (ch_keyShares ch)) (\<lambda>peerPub.
     Option.bind (al_X25519 lib priv peerPub) (\<lambda>shared.
     al_HKDF_SHA256 lib shared (take 20 (ch_random ch)) (string_to_bytes ''REALITY'') (length shared)))"

text \<open>\<open>copy\<close> of the session id into 32 bytes, and the original with the session id cleared.\<close>

definition session_ciphertext :: "clientHelloMsg \<Rightarrow> bytes" where
  "session_ciphertext ch = take 32 (ch_sessionId ch @ replicate 32 0)"

definition cleared_original :: "clientHelloMsg \<Rightarrow> bytes" where
  "cleared_original ch =
     (let original = (case ch_original ch of Some b \<Rightarrow> b | None \<Rightarrow> []);
          n = min 32 (length (ch_sessionId ch))
      in take 39 original @ replicate n 0 @ drop (39 + n) original)"

definition bigEndianUint24 :: "bytes \<Rightarrow> u32 may_panic" where
  "bigEndianUint24 b = (if length b < 3 then Inl IndexOutOfRange else Inr (of_be24 (b ! 0) (b ! 1) (b ! 2)))"

definition duration_Abs :: "duration \<Rightarrow> duration" where
  "duration_Abs d = (if d = minDuration then maxDuration else \<bar>d\<bar>)"

definition version_outside :: "(u32 \<Rightarrow> u32 \<Rightarrow> bool) \<Rightarrow> bytes \<Rightarrow> bytes option \<Rightarrow> bool may_panic" where
  "version_outside out ver limit =
     (case limit of
        None \<Rightarrow> Inr False
      | Some v \<Rightarrow>
          (case (bigEndianUint24 ver, bigEndianUint24 v) of
             (Inr a, Inr b) \<Rightarrow> Inr (out a b)
           | _ \<Rightarrow> Inl IndexOutOfRange))"

text \<open>The condition that refuses a client, with the disjuncts in the order of the code.\<close>

definition client_refused :: "gotime \<Rightarrow> auth_config \<Rightarrow> auth_info \<Rightarrow> bool may_panic" where
  "client_refused now cfg info =
     (let maxTimeDiff = (if ac_MaxTimeDiff cfg = 0 then 90 * Second else ac_MaxTimeDiff cfg) in
      case version_outside (<) (au_ClientVer info) (ac_MinClientVer cfg) of
        Inl p \<Rightarrow> Inl p
      | Inr True \<Rightarrow> Inr True
      | Inr False \<Rightarrow>
          (case version_outside (>) (au_ClientVer info) (ac_MaxClientVer cfg) of
             Inl p \<Rightarrow> Inl p
           | Inr True \<Rightarrow> Inr True
           | Inr False \<Rightarrow>
               Inr (maxTimeDiff \<ge> 0 \<and> duration_Abs (time_Sub now (au_ClientTime info)) > maxTimeDiff \<or>
                    \<not> ac_ShortIds cfg (au_ClientShortId info))))"

definition client_info :: "bytes \<Rightarrow> bytes \<Rightarrow> auth_info" where
  "client_info authKey plain =
     (let plainText = take 32 (plain @ replicate 32 0) in
      \<lparr>au_AuthKey = authKey, au_ClientVer = take 3 plainText,
       au_ClientTime = unixEpoch + uint (of_be32 (plainText ! 4) (plainText ! 5) (plainText ! 6) (plainText ! 7)) * Second,
       au_ClientShortId = take 8 (drop 8 plainText)\<rparr>)"

text \<open>
  The verdict, what the decrypted session id says of the client, and the guard. \<open>order1\<close> and \<open>order2\<close>
  are the iteration orders of the guard's maps, \<open>now\<close> is the time of the call.
\<close>

definition authenticateClientHello :: "auth_lib \<Rightarrow> gotime \<Rightarrow> bytes list \<Rightarrow> bytes list \<Rightarrow> clientHelloMsg \<Rightarrow> auth_config \<Rightarrow>
    ReplayGuard option \<Rightarrow> (bool \<times> auth_info option \<times> ReplayGuard option) may_panic" where
  "authenticateClientHello lib now order1 order2 ch cfg rg =
     (case reality_share (ch_keyShares ch) of
        None \<Rightarrow> Inr (False, None, rg)
      | Some peerPub \<Rightarrow>
          if al_X25519 lib (ac_PrivateKey cfg) peerPub = None then Inr (False, None, rg)
          else if length (ch_random ch) < 20 then Inl SliceBounds
          else case reality_key lib (ac_PrivateKey cfg) ch of
            None \<Rightarrow> Inr (False, None, rg)
          | Some authKey \<Rightarrow>
              if length (ch_random ch) \<noteq> 32 then Inl (PanicMsg ''crypto/cipher: incorrect nonce length given to GCM'')
              else case raw_Open (al_NewGCM lib authKey) (drop 20 (ch_random ch)) (session_ciphertext ch) (cleared_original ch) of
                None \<Rightarrow> Inr (False, None, rg)
              | Some plain \<Rightarrow>
                  let info = client_info authKey plain in
                  (case client_refused now cfg info of
                     Inl p \<Rightarrow> Inl p
                   | Inr True \<Rightarrow> Inr (False, Some info, rg)
                   | Inr False \<Rightarrow>
                       (case rg of
                          None \<Rightarrow> Inr (True, Some info, None)
                        | Some g \<Rightarrow>
                            (case CheckAndMark (UnixNano now) order1 order2 (take 20 (ch_random ch)) g of
                               (ok, g) \<Rightarrow> Inr (ok, Some info, Some g)))))"

text \<open>
  Phases 1 and 2 of \<open>Server\<close>: \<open>err\<close>, \<open>vers\<close> and \<open>clientHello\<close> are what \<open>readClientHello\<close> left. A client
  that is not admitted is handed to \<open>mirrorAfterFailedAuth\<close>.
\<close>

definition admit_client :: "auth_lib \<Rightarrow> gotime \<Rightarrow> bytes list \<Rightarrow> bytes list \<Rightarrow> 'e option \<Rightarrow> u16 \<Rightarrow> clientHelloMsg option \<Rightarrow>
    auth_config \<Rightarrow> ReplayGuard option \<Rightarrow> (bool \<times> auth_info option \<times> ReplayGuard option) may_panic" where
  "admit_client lib now order1 order2 err vers clientHello cfg rg =
     (case clientHello of
        None \<Rightarrow> Inr (False, None, rg)
      | Some ch \<Rightarrow>
          if err \<noteq> None \<or> vers \<noteq> VersionTLS13 \<or> \<not> ac_ServerNames cfg (ch_serverName ch) then Inr (False, None, rg)
          else authenticateClientHello lib now order1 order2 ch cfg rg)"

lemma version_outside_False:
  assumes "version_outside out ver limit = Inr False" "limit = Some v"
  shows "\<exists>a b. bigEndianUint24 ver = Inr a \<and> bigEndianUint24 v = Inr b \<and> \<not> out a b"
  using assms by (auto simp: version_outside_def split: sum.splits)

lemma client_refused_False:
  assumes "client_refused now cfg ci = Inr False"
  shows "ac_ShortIds cfg (au_ClientShortId ci)"
    "\<forall>v. ac_MinClientVer cfg = Some v \<longrightarrow> (\<exists>a b. bigEndianUint24 (au_ClientVer ci) = Inr a \<and> bigEndianUint24 v = Inr b \<and> b \<le> a)"
    "\<forall>v. ac_MaxClientVer cfg = Some v \<longrightarrow> (\<exists>a b. bigEndianUint24 (au_ClientVer ci) = Inr a \<and> bigEndianUint24 v = Inr b \<and> a \<le> b)"
    "let d = (if ac_MaxTimeDiff cfg = 0 then 90 * Second else ac_MaxTimeDiff cfg) in
     d < 0 \<or> duration_Abs (time_Sub now (au_ClientTime ci)) \<le> d"
proof -
  have v: "version_outside (<) (au_ClientVer ci) (ac_MinClientVer cfg) = Inr False"
      "version_outside (>) (au_ClientVer ci) (ac_MaxClientVer cfg) = Inr False"
    and r: "ac_ShortIds cfg (au_ClientShortId ci)"
      "let d = (if ac_MaxTimeDiff cfg = 0 then 90 * Second else ac_MaxTimeDiff cfg) in
       d < 0 \<or> duration_Abs (time_Sub now (au_ClientTime ci)) \<le> d"
    using assms unfolding client_refused_def Let_def by (auto split: sum.splits bool.splits)
  show "ac_ShortIds cfg (au_ClientShortId ci)"
    "let d = (if ac_MaxTimeDiff cfg = 0 then 90 * Second else ac_MaxTimeDiff cfg) in
     d < 0 \<or> duration_Abs (time_Sub now (au_ClientTime ci)) \<le> d" using r by blast+
  show "\<forall>v. ac_MinClientVer cfg = Some v \<longrightarrow> (\<exists>a b. bigEndianUint24 (au_ClientVer ci) = Inr a \<and> bigEndianUint24 v = Inr b \<and> b \<le> a)"
    "\<forall>v. ac_MaxClientVer cfg = Some v \<longrightarrow> (\<exists>a b. bigEndianUint24 (au_ClientVer ci) = Inr a \<and> bigEndianUint24 v = Inr b \<and> a \<le> b)"
    using version_outside_False [OF v(1)] version_outside_False [OF v(2)] by (force simp: not_less)+
qed

lemma cleared_original_seal:
  assumes "ch_original ch0 = Some o0" "71 \<le> length o0" "take 32 (drop 39 o0) = replicate 32 0" "length sid = 32"
    and "ch = ch0\<lparr>ch_sessionId := sid, ch_original := Some (take 39 o0 @ sid @ drop 71 o0)\<rparr>"
  shows "cleared_original ch = o0" "session_ciphertext ch = sid"
proof -
  have d: "drop 32 (drop 39 o0) = drop 71 o0" by simp
  have "o0 = take 39 o0 @ take 32 (drop 39 o0) @ drop 32 (drop 39 o0)" by (simp only: append_take_drop_id)
  then have "o0 = take 39 o0 @ replicate 32 0 @ drop 71 o0" unfolding d assms(3) .
  then show "cleared_original ch = o0" using assms by (simp add: cleared_original_def)
  show "session_ciphertext ch = sid" using assms by (simp add: session_ciphertext_def)
qed

lemma client_info_plain:
  assumes "length ver = 3" "length sid = 8"
  shows "client_info key (ver @ [0] @ be32 sec @ sid) =
    \<lparr>au_AuthKey = key, au_ClientVer = ver, au_ClientTime = unixEpoch + uint sec * Second, au_ClientShortId = sid\<rparr>"
proof -
  obtain v0 v1 v2 where v: "ver = [v0, v1, v2]" using assms(1) by (auto simp: length_Suc_conv eval_nat_numeral)
  show ?thesis using assms(2) by (simp add: client_info_def v be32_def of_be32_be32 Let_def)
qed


subsection \<open>Properties\<close>

text \<open>
  (C1) A client that knows the server's public key is let in. Let the client seal 16 bytes (version,
  a zero byte, Unix time, short id) under the key it shares with the server, with its ClientHello
  with an all-zero session id as additional data, and put the result into the session id. Then
  \<open>authenticateClientHello\<close> accepts it, and the connection knows the client's version, time and short
  id, provided that they pass the limits of the configuration and the replay guard admits it.
\<close>

theorem honest_client_authenticated:
  assumes "aead_laws (al_NewGCM lib authKey)" "raw_Overhead (al_NewGCM lib authKey) = 16"
    and "ch_original ch0 = Some o0" "71 \<le> length o0" "take 32 (drop 39 o0) = replicate 32 0"
    and "reality_key lib (ac_PrivateKey cfg) ch0 = Some authKey" "length (ch_random ch0) = 32"
    and "length ver = 3" "length sid = 8"
    and "sealed = raw_Seal (al_NewGCM lib authKey) (drop 20 (ch_random ch0)) (ver @ [0] @ be32 sec @ sid) o0"
    and "ch = ch0\<lparr>ch_sessionId := sealed, ch_original := Some (take 39 o0 @ sealed @ drop 71 o0)\<rparr>"
    and "info = \<lparr>au_AuthKey = authKey, au_ClientVer = ver, au_ClientTime = unixEpoch + uint sec * Second, au_ClientShortId = sid\<rparr>"
    and "client_refused now cfg info = Inr False"
    and "case rg of None \<Rightarrow> rg' = None
      | Some g \<Rightarrow> \<exists>g'. rg' = Some g' \<and> CheckAndMark (UnixNano now) o1 o2 (take 20 (ch_random ch0)) g = (True, g')"
  shows "authenticateClientHello lib now o1 o2 ch cfg rg = Inr (True, Some info, rg')"
proof -
  have sealed: "length sealed = 32"
    using aead_laws.seal_length [OF assms(1)] assms(2,8,9) by (simp add: assms(10) be32_def)
  note orig = cleared_original_seal [OF assms(3-5) sealed assms(11)]
  have key: "reality_key lib (ac_PrivateKey cfg) ch = Some authKey" and rnd: "ch_random ch = ch_random ch0"
    using assms(6) by (simp_all add: assms(11) reality_key_def)
  then obtain peerPub shared where share: "reality_share (ch_keyShares ch) = Some peerPub"
      "al_X25519 lib (ac_PrivateKey cfg) peerPub = Some shared"
    by (auto simp: reality_key_def bind_eq_Some_conv)
  have "raw_Open (al_NewGCM lib authKey) (drop 20 (ch_random ch)) sealed o0 = Some (ver @ [0] @ be32 sec @ sid)"
    unfolding rnd assms(10) by (rule aead_laws.open_seal [OF assms(1)])
  then show ?thesis
    using share key rnd assms(7,13,14) client_info_plain [OF assms(8,9)] orig
    by (auto simp: authenticateClientHello_def Let_def assms(12) split: option.splits)
qed

text \<open>A ClientHello with an X25519 share, keys that are their own sums, and the AEAD \<open>sum_aead\<close>.\<close>

definition sample_auth_lib :: auth_lib where
  "sample_auth_lib = \<lparr>al_X25519 = (\<lambda>priv pub. Some (map2 (XOR) priv pub)),
     al_HKDF_SHA256 = (\<lambda>secret salt info n. Some (take n secret)), al_NewGCM = (\<lambda>key. sum_aead)\<rparr>"

definition sample_auth_config :: auth_config where
  "sample_auth_config = \<lparr>ac_PrivateKey = replicate 32 1, ac_MinClientVer = Some [1, 0, 0], ac_MaxClientVer = None,
     ac_MaxTimeDiff = 0, ac_ShortIds = (\<lambda>sid. sid = replicate 8 3), ac_ServerNames = (\<lambda>name. name = ''a.example'')\<rparr>"

definition sample_client :: clientHelloMsg where
  "sample_client = (clientHelloMsg_zero (Some (replicate 100 0)))\<lparr>ch_random := replicate 32 5, ch_serverName := ''a.example'',
     ch_keyShares := [\<lparr>ks_group = 29, ks_data = replicate 32 9\<rparr>]\<rparr>"

theorem honest_client_authenticated_witness:
  "\<exists>ch info. length (ch_sessionId ch) = 32 \<and>
    authenticateClientHello sample_auth_lib (unixEpoch + 1000 * Second) [] [] ch sample_auth_config None =
      Inr (True, Some info, None) \<and> au_ClientShortId info = replicate 8 3"
proof -
  let ?key = "replicate 32 8"
  let ?info = "\<lparr>au_AuthKey = ?key, au_ClientVer = [1, 8, 0], au_ClientTime = unixEpoch + uint (950 :: u32) * Second,
    au_ClientShortId = replicate 8 3\<rparr>"
  let ?sealed = "raw_Seal sum_aead (drop 20 (ch_random sample_client)) ([1, 8, 0] @ [0] @ be32 950 @ replicate 8 3) (replicate 100 0)"
  let ?ch = "sample_client\<lparr>ch_sessionId := ?sealed,
    ch_original := Some (take 39 (replicate 100 0) @ ?sealed @ drop 71 (replicate 100 0))\<rparr>"
  have key: "reality_key sample_auth_lib (ac_PrivateKey sample_auth_config) sample_client = Some ?key"
    by (simp add: reality_key_def reality_share_def sample_client_def clientHelloMsg_zero_def sample_auth_lib_def
        sample_auth_config_def zip_replicate)
  have ok: "client_refused (unixEpoch + 1000 * Second) sample_auth_config ?info = Inr False"
    by (simp add: client_refused_def version_outside_def bigEndianUint24_def of_be24_def sample_auth_config_def
        duration_Abs_def time_Sub_def minDuration_def maxDuration_def Second_def)
  have lib: "al_NewGCM sample_auth_lib ?key = sum_aead" "raw_Overhead sum_aead = 16"
    by (simp_all add: sample_auth_lib_def sum_aead_def)
  have "authenticateClientHello sample_auth_lib (unixEpoch + 1000 * Second) [] [] ?ch sample_auth_config None =
      Inr (True, Some ?info, None)"
    by (rule honest_client_authenticated [where ?ch0.0 = sample_client and ?o0.0 = "replicate 100 0" and sealed = ?sealed,
          OF _ _ _ _ _ key _ _ _ _ refl refl ok])
      (simp_all add: lib sum.aead_laws_axioms sample_client_def clientHelloMsg_zero_def)
  moreover have "length ?sealed = 32" using sum.seal_length lib(2) by (simp add: be32_def)
  ultimately show ?thesis by (intro exI [of _ ?ch] exI [of _ ?info]) simp
qed


lemma authenticate_True:
  assumes "authenticateClientHello lib now o1 o2 ch cfg (Some g) = Inr (True, info, rg)"
  shows "\<exists>authKey plain g1. reality_key lib (ac_PrivateKey cfg) ch = Some authKey \<and> length (ch_random ch) = 32 \<and>
    raw_Open (al_NewGCM lib authKey) (drop 20 (ch_random ch)) (session_ciphertext ch) (cleared_original ch) = Some plain \<and>
    info = Some (client_info authKey plain) \<and> client_refused now cfg (client_info authKey plain) = Inr False \<and>
    rg = Some g1 \<and> CheckAndMark (UnixNano now) o1 o2 (take 20 (ch_random ch)) g = (True, g1)"
  using assms
  by (auto simp: authenticateClientHello_def Let_def split: option.splits if_splits sum.splits bool.splits prod.splits)

lemma admit_client_True:
  "admit_client lib now o1 o2 err vers hello cfg rg = Inr (True, info, rg') \<Longrightarrow>
   \<exists>ch. hello = Some ch \<and> err = None \<and> vers = VersionTLS13 \<and> ac_ServerNames cfg (ch_serverName ch) \<and>
     authenticateClientHello lib now o1 o2 ch cfg rg = Inr (True, info, rg')"
  by (auto simp: admit_client_def split: option.splits if_splits)

lemma CheckAndMark_True:
  assumes "CheckAndMark t o1 o2 p g = (True, g1)" "guard_ok g"
  shows "guard_ok g1 \<and> seen_at g1 p = Some t"
proof -
  obtain g' where g': "capacity_gate t o1 o2 g = (True, g')" "mark_shard t p g' = (True, g1)"
    using assms(1) by (auto simp: CheckAndMark_def split: prod.splits bool.splits)
  then have "guard_ok g'" using capacity_gate_ok [OF assms(2), of t o1 o2] by simp
  then show ?thesis using mark_shard_True [OF g'(2)] mark_shard_ok [of g' t p] g'(2) by simp
qed



text \<open>
  (C6) The quota of handshake slots. Whatever connections arrive, wait, give up, run and end, in any
  order: no source ever holds more than 250 slots, at most 1000 handshakes run, and the table holds
  for every source exactly the number of its connections that wait or run, so a slot is never lost
  or leaked, and the table is empty when no connection is left.
\<close>

theorem source_quota:
  assumes "fold admission_step evs \<lparr>ad_slots = Map.empty, ad_waiting = {#}, ad_running = {#}\<rparr> = s"
  shows "size (ad_running s) \<le> 1000 \<and>
    (\<forall>host. host \<noteq> [] \<longrightarrow> held s host \<le> 250 \<and>
      ad_slots s host = (if held s host = 0 then None else Some (int (held s host))))"
  using admission.run_inv [of "\<lparr>ad_slots = Map.empty, ad_waiting = {#}, ad_running = {#}\<rparr>" evs] assms
  by (simp add: admission_inv_def held_def)

theorem source_quota_witness:
  "\<exists>s. fold admission_step [Arrive ''a'', Enter ''a'', Arrive ''a'', Cancel ''a'']
      \<lparr>ad_slots = Map.empty, ad_waiting = {#}, ad_running = {#}\<rparr> = s \<and>
    held s ''a'' = 1 \<and> ad_slots s ''a'' = Some 1"
proof -
  let ?s = "fold admission_step [Arrive ''a'', Enter ''a'', Arrive ''a'', Cancel ''a'']
      \<lparr>ad_slots = Map.empty, ad_waiting = {#}, ad_running = {#}\<rparr>"
  have "held ?s ''a'' = 1" by (simp add: held_def handshakeAcquireSource_def slots_of_def)
  then show ?thesis using source_quota [OF refl, of "[Arrive ''a'', Enter ''a'', Arrive ''a'', Cancel ''a'']"] by simp
qed

text \<open>
  (C7) The throttle of failed authentications. Whatever failures arrive, at whatever times, the table
  never exceeds 10000 sources. As long as no more than 10000 different sources fail, the failures of
  every source fall into windows of one minute, a window starting at the first failure after the end
  of the one before; in every window the first twenty failures are mirrored and every later one is
  throttled, and no failure of another source makes a difference.
\<close>

theorem auth_fail_throttle:
  "fails_ok (fold (\<lambda>(now, a) entries. snd (authFailThrottled now a entries)) evs Map.empty) \<and>
   (card (host_of ` snd ` set evs) \<le> 10000 \<longrightarrow>
     throttle_verdicts host evs Map.empty =
       concat (map (\<lambda>w. map (\<lambda>k. k \<ge> 20) [0..<length w]) (fail_windows (fail_times host evs))))"
proof (intro conjI impI)
  show "fails_ok (fold (\<lambda>(now, a) entries. snd (authFailThrottled now a entries)) evs Map.empty)"
    using throttle.run_inv [of Map.empty evs] by (simp add: case_prod_unfold fails_ok_def)
  assume "card (host_of ` snd ` set evs) \<le> 10000"
  then have "known_sources evs Map.empty (host_of ` snd ` set evs)" by (simp add: known_sources_def)
  then show "throttle_verdicts host evs Map.empty =
      concat (map (\<lambda>w. map (\<lambda>k. k \<ge> 20) [0..<length w]) (fail_windows (fail_times host evs)))"
    using throttle_verdicts_fresh [of Map.empty host evs] by (simp add: window_verdicts_def)
qed

theorem auth_fail_throttle_witness:
  "throttle_verdicts ''h'' ((0, ''h:1'') # replicate 20 (Second, ''h:2'') @ [(62 * Second, ''h:3'')]) Map.empty =
     replicate 20 False @ [True, False]"
proof -
  let ?evs = "(0, ''h:1'') # replicate 20 (Second, ''h:2'') @ [(62 * Second, ''h:3'')]"
  have h: "host_of ''h:1'' = ''h''" "host_of ''h:2'' = ''h''" "host_of ''h:3'' = ''h''"
    by (simp_all add: host_of_def SplitHost_def LastIndexByte_def eval_nat_numeral)
  have t: "time_Sub Second 0 \<le> Minute" "\<not> time_Sub (62 * Second) 0 \<le> Minute"
    by (simp_all add: time_Sub_def Second_def Minute_def minDuration_def maxDuration_def)
  have "fail_times ''h'' ?evs = 0 # replicate 20 Second @ [62 * Second]"
    by (simp add: fail_times_def h filter_replicate)
  then have "fail_windows (fail_times ''h'' ?evs) = [0 # replicate 20 Second, [62 * Second]]"
    using t by (simp add: takeWhile_append dropWhile_append takeWhile_replicate dropWhile_replicate)
  moreover have "map (\<lambda>k. k \<ge> (20 :: nat)) [0..<21] = replicate 20 False @ [True]" by (simp add: upt_rec eval_nat_numeral)
  moreover have "[0..<Suc 0] = [0]" by simp
  moreover have "card (host_of ` snd ` set ?evs) \<le> 10000" by (simp add: h)
  ultimately show ?thesis
    using auth_fail_throttle [of ?evs "''h''"] by (simp del: upt_Suc throttle_verdicts.simps)
qed

end
