(* ===== verification/Sha2.thy ===== *)
theory Sha2
  imports Cryptobyte
begin

text \<open>
  The hash functions of the standard library that TLS 1.3 uses, SHA-256 and SHA-384 (FIPS 180-4),
  and HMAC (RFC 2104) and HKDF (RFC 5869) over any hash. A \<open>hash.Hash\<close> is the bytes written to it,
  so \<open>Sum(nil)\<close> is \<open>ha_Sum\<close> of them and a transcript is a byte list.
\<close>

unbundle bit_operations_syntax

subsection \<open>The hash interface\<close>

record hash_alg =
  ha_Sum :: "bytes \<Rightarrow> bytes"
  ha_Size :: nat
  ha_BlockSize :: nat

locale hash_laws =
  fixes h :: hash_alg
  assumes sum_length: "length (ha_Sum h x) = ha_Size h"
    and size_bounds: "0 < ha_Size h" "ha_Size h \<le> ha_BlockSize h" "ha_Size h < 256"

subsection \<open>SHA-2\<close>

definition be64 :: "u64 \<Rightarrow> bytes" where
  "be64 w = map (\<lambda>i. ucast (drop_bit (8 * i) w)) [7, 6, 5, 4, 3, 2, 1, 0]"

fun blocks :: "nat \<Rightarrow> nat \<Rightarrow> bytes \<Rightarrow> bytes list" where
  "blocks 0 n x = []"
| "blocks (Suc k) n x = take n x # blocks k n (drop n x)"

definition sha_Ch :: "'a::len word \<Rightarrow> 'a word \<Rightarrow> 'a word \<Rightarrow> 'a word" where
  "sha_Ch x y z = (x AND y) XOR (NOT x AND z)"

definition sha_Maj :: "'a::len word \<Rightarrow> 'a word \<Rightarrow> 'a word \<Rightarrow> 'a word" where
  "sha_Maj x y z = (x AND y) XOR (x AND z) XOR (y AND z)"

record 'a sha_params =
  sp_Sigma0 :: "'a \<Rightarrow> 'a"
  sp_Sigma1 :: "'a \<Rightarrow> 'a"
  sp_sigma0 :: "'a \<Rightarrow> 'a"
  sp_sigma1 :: "'a \<Rightarrow> 'a"
  sp_K :: "'a list"

type_synonym 'a sha_state = "'a \<times> 'a \<times> 'a \<times> 'a \<times> 'a \<times> 'a \<times> 'a \<times> 'a"

text \<open>The message schedule, newest word first.\<close>

fun sha_schedule :: "'a::len word sha_params \<Rightarrow> nat \<Rightarrow> 'a word list \<Rightarrow> 'a word list" where
  "sha_schedule p 0 w = rev w"
| "sha_schedule p (Suc n) w =
     sha_schedule p n ((sp_sigma1 p (w ! 1) + w ! 6 + sp_sigma0 p (w ! 14) + w ! 15) # w)"

fun sha_round :: "'a::len word sha_params \<Rightarrow> 'a word \<times> 'a word \<Rightarrow> 'a word sha_state \<Rightarrow> 'a word sha_state" where
  "sha_round p (k, w) (a, b, c, d, e, f, g, h) =
     (let t1 = h + sp_Sigma1 p e + sha_Ch e f g + k + w;
          t2 = sp_Sigma0 p a + sha_Maj a b c
      in (t1 + t2, a, b, c, d + t1, e, f, g))"

fun sha_add :: "'a::len word sha_state \<Rightarrow> 'a word sha_state \<Rightarrow> 'a word sha_state" where
  "sha_add (a, b, c, d, e, f, g, h) (a', b', c', d', e', f', g', h') =
     (a + a', b + b', c + c', d + d', e + e', f + f', g + g', h + h')"

definition sha_block :: "'a::len word sha_params \<Rightarrow> 'a word list \<Rightarrow> 'a word sha_state \<Rightarrow> 'a word sha_state" where
  "sha_block p w s = sha_add s (fold (sha_round p) (zip (sp_K p) (sha_schedule p (length (sp_K p) - 16) (rev w))) s)"

definition sha_pad :: "nat \<Rightarrow> nat \<Rightarrow> bytes \<Rightarrow> bytes" where
  "sha_pad blockSize lenSize x =
     (let used = (length x + 1 + lenSize) mod blockSize
      in x @ [0x80] @ replicate ((blockSize - used) mod blockSize + (lenSize - 8)) 0 @ be64 (of_nat (8 * length x)))"

definition word_of_be :: "bytes \<Rightarrow> 'a::len word" where
  "word_of_be b = foldl (\<lambda>acc x. push_bit 8 acc OR ucast x) 0 b"

text \<open>
  The constants are the leading bits of the fractional parts of roots of the first primes:
  \<open>int_root k n b r\<close> finds the \<open>k\<close>-th root of \<open>n\<close> rounded down, bit by bit from \<open>b\<close> downwards, and
  \<open>root_word k w p\<close> is the first \<open>w\<close> bits after the point of the \<open>k\<close>-th root of \<open>p\<close>.
\<close>

fun int_root :: "nat \<Rightarrow> int \<Rightarrow> nat \<Rightarrow> int \<Rightarrow> int" where
  "int_root k n 0 r = r"
| "int_root k n (Suc b) r = int_root k n b (if (r + 2 ^ b) ^ k \<le> n then r + 2 ^ b else r)"

definition root_word :: "nat \<Rightarrow> nat \<Rightarrow> int \<Rightarrow> int" where
  "root_word k w p = int_root k (p * 2 ^ (k * w)) (w + 9) 0 mod 2 ^ w"

definition sha_primes :: "int list" where
  "sha_primes = filter (\<lambda>p. list_all (\<lambda>d. p mod d \<noteq> 0) [2..p - 1]) [2..409]"

definition state_of :: "'a list \<Rightarrow> 'a sha_state" where
  "state_of xs = (xs ! 0, xs ! 1, xs ! 2, xs ! 3, xs ! 4, xs ! 5, xs ! 6, xs ! 7)"

lemma int_root_bounds:
  assumes "r ^ k \<le> n" "n < (r + 2 ^ b) ^ k"
  shows "int_root k n b r ^ k \<le> n \<and> n < (int_root k n b r + 1) ^ k"
  using assms
proof (induction b arbitrary: r)
  case (Suc b)
  have "r + 2 ^ Suc b = (r + 2 ^ b) + 2 ^ b" by simp
  then show ?case using Suc.IH [of "r + 2 ^ b"] Suc.IH [of r] Suc.prems
    by (cases "(r + 2 ^ b) ^ k \<le> n") (simp_all add: algebra_simps)
qed simp

definition sha256_params :: "u32 sha_params" where
  "sha256_params = \<lparr>
     sp_Sigma0 = (\<lambda>x. word_rotr 2 x XOR word_rotr 13 x XOR word_rotr 22 x),
     sp_Sigma1 = (\<lambda>x. word_rotr 6 x XOR word_rotr 11 x XOR word_rotr 25 x),
     sp_sigma0 = (\<lambda>x. word_rotr 7 x XOR word_rotr 18 x XOR drop_bit 3 x),
     sp_sigma1 = (\<lambda>x. word_rotr 17 x XOR word_rotr 19 x XOR drop_bit 10 x),
     sp_K = map (\<lambda>p. of_int (root_word 3 32 p)) (take 64 sha_primes)\<rparr>"

definition sha256_init :: "u32 sha_state" where
  "sha256_init = state_of (map (\<lambda>p. of_int (root_word 2 32 p)) (take 8 sha_primes))"

fun sha256_bytes :: "u32 sha_state \<Rightarrow> bytes" where
  "sha256_bytes (a, b, c, d, e, f, g, h) = be32 a @ be32 b @ be32 c @ be32 d @ be32 e @ be32 f @ be32 g @ be32 h"

definition sha256_sum :: "bytes \<Rightarrow> bytes" where
  "sha256_sum x =
     (let padded = sha_pad 64 8 x
      in sha256_bytes (fold (\<lambda>b. sha_block sha256_params (map word_of_be (blocks 16 4 b)))
           (blocks (length padded div 64) 64 padded) sha256_init))"

definition sha512_params :: "u64 sha_params" where
  "sha512_params = \<lparr>
     sp_Sigma0 = (\<lambda>x. word_rotr 28 x XOR word_rotr 34 x XOR word_rotr 39 x),
     sp_Sigma1 = (\<lambda>x. word_rotr 14 x XOR word_rotr 18 x XOR word_rotr 41 x),
     sp_sigma0 = (\<lambda>x. word_rotr 1 x XOR word_rotr 8 x XOR drop_bit 7 x),
     sp_sigma1 = (\<lambda>x. word_rotr 19 x XOR word_rotr 61 x XOR drop_bit 6 x),
     sp_K = map (\<lambda>p. of_int (root_word 3 64 p)) (take 80 sha_primes)\<rparr>"

definition sha384_init :: "u64 sha_state" where
  "sha384_init = state_of (map (\<lambda>p. of_int (root_word 2 64 p)) (take 8 (drop 8 sha_primes)))"

fun sha512_bytes :: "u64 sha_state \<Rightarrow> bytes" where
  "sha512_bytes (a, b, c, d, e, f, g, h) = be64 a @ be64 b @ be64 c @ be64 d @ be64 e @ be64 f @ be64 g @ be64 h"

definition sha384_sum :: "bytes \<Rightarrow> bytes" where
  "sha384_sum x =
     (let padded = sha_pad 128 16 x
      in take 48 (sha512_bytes (fold (\<lambda>b. sha_block sha512_params (map word_of_be (blocks 16 8 b)))
           (blocks (length padded div 128) 128 padded) sha384_init)))"

definition SHA256 :: hash_alg where
  "SHA256 = \<lparr>ha_Sum = sha256_sum, ha_Size = 32, ha_BlockSize = 64\<rparr>"

definition SHA384 :: hash_alg where
  "SHA384 = \<lparr>ha_Sum = sha384_sum, ha_Size = 48, ha_BlockSize = 128\<rparr>"

interpretation sha256: hash_laws SHA256
proof
  have "length (sha256_bytes s) = 32" for s by (cases s rule: sha256_bytes.cases) (simp add: be32_def)
  then show "length (ha_Sum SHA256 x) = ha_Size SHA256" for x
    by (simp add: SHA256_def sha256_sum_def Let_def)
qed (simp_all add: SHA256_def)

interpretation sha384: hash_laws SHA384
proof
  have "length (sha512_bytes s) = 64" for s by (cases s rule: sha512_bytes.cases) (simp add: be64_def)
  then show "length (ha_Sum SHA384 x) = ha_Size SHA384" for x
    by (simp add: SHA384_def sha384_sum_def Let_def)
qed (simp_all add: SHA384_def)

subsection \<open>HMAC\<close>

definition hmac_pad :: "hash_alg \<Rightarrow> bytes \<Rightarrow> bytes" where
  "hmac_pad h key =
     (let key = (if length key > ha_BlockSize h then ha_Sum h key else key)
      in key @ replicate (ha_BlockSize h - length key) 0)"

definition hmac :: "hash_alg \<Rightarrow> bytes \<Rightarrow> bytes \<Rightarrow> bytes" where
  "hmac h key data =
     ha_Sum h (map ((XOR) 0x5c) (hmac_pad h key) @ ha_Sum h (map ((XOR) 0x36) (hmac_pad h key) @ data))"

context hash_laws
begin

lemma hmac_length [simp]: "length (hmac h key data) = ha_Size h"
  by (simp add: hmac_def sum_length)

end

subsection \<open>HKDF\<close>

definition hkdf_Extract :: "hash_alg \<Rightarrow> bytes \<Rightarrow> bytes option \<Rightarrow> bytes" where
  "hkdf_Extract h secret salt = hmac h (case salt of None \<Rightarrow> replicate (ha_Size h) 0 | Some s \<Rightarrow> s) secret"

text \<open>The loop of \<open>hkdf.Expand\<close>; its counter is a byte, and the loop panics before it wraps round.\<close>

function expand_loop :: "hash_alg \<Rightarrow> bytes \<Rightarrow> bytes \<Rightarrow> nat \<Rightarrow> nat \<Rightarrow> bytes \<Rightarrow> bytes \<Rightarrow> bytes may_panic" where
  "expand_loop h prk info n counter buf out =
     (if length out < n then
        if counter \<ge> 255 then Inl (PanicMsg ''hkdf: counter overflow'')
        else let counter = Suc counter;
                 buf = hmac h prk (buf @ info @ [of_nat counter])
             in expand_loop h prk info n counter buf (out @ take (n - length out) buf)
      else Inr out)"
  by pat_completeness auto

termination
  by (relation "measure (\<lambda>(h, prk, info, n, counter, buf, out). 255 - counter)") auto

declare expand_loop.simps [simp del]

definition hkdf_Expand :: "hash_alg \<Rightarrow> bytes \<Rightarrow> bytes \<Rightarrow> nat \<Rightarrow> bytes option may_panic" where
  "hkdf_Expand h prk info n =
     (if n > ha_Size h * 255 then Inr None
      else map_sum id Some (expand_loop h prk info n 0 [] []))"

context hash_laws
begin

text \<open>With a hash of the right size the loop gives what RFC 5869 defines, and never overflows.\<close>

lemma expand_loop_length:
  "\<lbrakk>length out = min n (counter * ha_Size h); n \<le> 255 * ha_Size h; counter \<le> 255\<rbrakk> \<Longrightarrow>
    \<exists>b. expand_loop h prk info n counter buf out = Inr b \<and> length b = n"
proof (induction "255 - counter" arbitrary: counter buf out)
  case 0
  then show ?case by (subst expand_loop.simps) simp
next
  case (Suc k)
  show ?case
  proof (cases "length out < n")
    case True
    let ?buf = "hmac h prk (buf @ info @ [of_nat (Suc counter)])"
    have "length (out @ take (n - length out) ?buf) = min n (Suc counter * ha_Size h)"
      using True Suc.prems(1) by (auto simp: min_def split: if_splits)
    then show ?thesis
      using Suc.hyps(1) [of "Suc counter" "out @ take (n - length out) ?buf" ?buf] Suc.hyps(2) Suc.prems True
      by (simp add: expand_loop.simps [of h prk info n counter] Let_def)
  next
    case False
    then show ?thesis using Suc.prems by (simp add: expand_loop.simps [of h prk info n counter])
  qed
qed

lemma hkdf_Expand_length:
  "\<exists>b. hkdf_Expand h prk info n = Inr b \<and> (case b of None \<Rightarrow> n > 255 * ha_Size h | Some x \<Rightarrow> n \<le> 255 * ha_Size h \<and> length x = n)"
  using expand_loop_length [of "[]" n 0 prk info "[]"] by (auto simp: hkdf_Expand_def)

end

end
