(* ===== verification/Key_Schedule.thy ===== *)
theory Key_Schedule
  imports Sha2 Record_Codec
begin

text \<open>
  The key derivations: \<open>src/tls13/tls13.go\<close> and \<open>src/key_schedule.go\<close> for TLS 1.3,
  \<open>src/tls12/tls12.go\<close> and \<open>src/prf.go\<close> for the versions before it. Hashes, HMAC and HKDF are
  those of \<open>Sha2\<close>; a function that takes a hash is a function of a \<^typ>\<open>hash_alg\<close>.

  Shown here: the two loops of P_hash compute the definition of the RFC; the encoding of a TLS 1.3
  label is injective, so derivations with different labels, contexts or lengths use different
  inputs; exactly when \<open>ExpandLabel\<close> panics and how many bytes it returns.
\<close>

subsection \<open>TLS 1.3\<close>

definition hkdf_label :: "string \<Rightarrow> bytes \<Rightarrow> nat \<Rightarrow> bytes" where
  "hkdf_label label context len =
     be16 (of_nat len) @ [of_nat (length (''tls13 '' @ label))] @ string_to_bytes (''tls13 '' @ label) @
     [of_nat (length context)] @ context"

definition ExpandLabel :: "hash_alg \<Rightarrow> bytes \<Rightarrow> string \<Rightarrow> bytes \<Rightarrow> nat \<Rightarrow> bytes may_panic" where
  "ExpandLabel h secret label context len =
     (if length (''tls13 '' @ label) > 255 \<or> length context > 255
      then Inl (PanicMsg ''tls13: label or context too long'')
      else map_sum id (\<lambda>b. case b of None \<Rightarrow> [] | Some b \<Rightarrow> b) (hkdf_Expand h secret (hkdf_label label context len) len))"

definition extract_secret :: "hash_alg \<Rightarrow> bytes option \<Rightarrow> bytes option \<Rightarrow> bytes" where
  "extract_secret h newSecret currentSecret =
     hkdf_Extract h (case newSecret of None \<Rightarrow> replicate (ha_Size h) 0 | Some s \<Rightarrow> s) currentSecret"

definition deriveSecret :: "hash_alg \<Rightarrow> bytes \<Rightarrow> string \<Rightarrow> bytes option \<Rightarrow> bytes may_panic" where
  "deriveSecret h secret label transcript =
     ExpandLabel h secret label (ha_Sum h (case transcript of None \<Rightarrow> [] | Some t \<Rightarrow> t)) (ha_Size h)"

abbreviation (input) resumptionBinderLabel :: string where "resumptionBinderLabel \<equiv> ''res binder''"
abbreviation (input) clientEarlyTrafficLabel :: string where "clientEarlyTrafficLabel \<equiv> ''c e traffic''"
abbreviation (input) clientHandshakeTrafficLabel :: string where "clientHandshakeTrafficLabel \<equiv> ''c hs traffic''"
abbreviation (input) serverHandshakeTrafficLabel :: string where "serverHandshakeTrafficLabel \<equiv> ''s hs traffic''"
abbreviation (input) clientApplicationTrafficLabel :: string where "clientApplicationTrafficLabel \<equiv> ''c ap traffic''"
abbreviation (input) serverApplicationTrafficLabel :: string where "serverApplicationTrafficLabel \<equiv> ''s ap traffic''"
abbreviation (input) earlyExporterLabel :: string where "earlyExporterLabel \<equiv> ''e exp master''"
abbreviation (input) exporterLabel :: string where "exporterLabel \<equiv> ''exp master''"
abbreviation (input) resumptionLabel :: string where "resumptionLabel \<equiv> ''res master''"

text \<open>The four secrets of the schedule, each with the hash it was made with.\<close>

record EarlySecret =
  es_secret :: bytes
  es_hash :: hash_alg

record HandshakeSecret =
  hs_secret :: bytes
  hs_hash :: hash_alg

record MasterSecret =
  ms_secret :: bytes
  ms_hash :: hash_alg

record ExporterMasterSecret =
  xs_secret :: bytes
  xs_hash :: hash_alg

definition NewEarlySecret :: "hash_alg \<Rightarrow> bytes option \<Rightarrow> EarlySecret" where
  "NewEarlySecret h psk = \<lparr>es_secret = extract_secret h psk None, es_hash = h\<rparr>"

definition ResumptionBinderKey :: "EarlySecret \<Rightarrow> bytes may_panic" where
  "ResumptionBinderKey s = deriveSecret (es_hash s) (es_secret s) resumptionBinderLabel None"

definition ClientEarlyTrafficSecret :: "EarlySecret \<Rightarrow> bytes \<Rightarrow> bytes may_panic" where
  "ClientEarlyTrafficSecret s transcript = deriveSecret (es_hash s) (es_secret s) clientEarlyTrafficLabel (Some transcript)"

definition EarlySecret_HandshakeSecret :: "EarlySecret \<Rightarrow> bytes option \<Rightarrow> HandshakeSecret may_panic" where
  "EarlySecret_HandshakeSecret s sharedSecret =
     map_sum id (\<lambda>derived. \<lparr>hs_secret = extract_secret (es_hash s) sharedSecret (Some derived), hs_hash = es_hash s\<rparr>)
       (deriveSecret (es_hash s) (es_secret s) ''derived'' None)"

definition ClientHandshakeTrafficSecret :: "HandshakeSecret \<Rightarrow> bytes \<Rightarrow> bytes may_panic" where
  "ClientHandshakeTrafficSecret s transcript =
     deriveSecret (hs_hash s) (hs_secret s) clientHandshakeTrafficLabel (Some transcript)"

definition ServerHandshakeTrafficSecret :: "HandshakeSecret \<Rightarrow> bytes \<Rightarrow> bytes may_panic" where
  "ServerHandshakeTrafficSecret s transcript =
     deriveSecret (hs_hash s) (hs_secret s) serverHandshakeTrafficLabel (Some transcript)"

definition HandshakeSecret_MasterSecret :: "HandshakeSecret \<Rightarrow> MasterSecret may_panic" where
  "HandshakeSecret_MasterSecret s =
     map_sum id (\<lambda>derived. \<lparr>ms_secret = extract_secret (hs_hash s) None (Some derived), ms_hash = hs_hash s\<rparr>)
       (deriveSecret (hs_hash s) (hs_secret s) ''derived'' None)"

definition ClientApplicationTrafficSecret :: "MasterSecret \<Rightarrow> bytes \<Rightarrow> bytes may_panic" where
  "ClientApplicationTrafficSecret s transcript =
     deriveSecret (ms_hash s) (ms_secret s) clientApplicationTrafficLabel (Some transcript)"

definition ServerApplicationTrafficSecret :: "MasterSecret \<Rightarrow> bytes \<Rightarrow> bytes may_panic" where
  "ServerApplicationTrafficSecret s transcript =
     deriveSecret (ms_hash s) (ms_secret s) serverApplicationTrafficLabel (Some transcript)"

definition ResumptionMasterSecret :: "MasterSecret \<Rightarrow> bytes \<Rightarrow> bytes may_panic" where
  "ResumptionMasterSecret s transcript = deriveSecret (ms_hash s) (ms_secret s) resumptionLabel (Some transcript)"

definition MasterSecret_ExporterMasterSecret :: "MasterSecret \<Rightarrow> bytes \<Rightarrow> ExporterMasterSecret may_panic" where
  "MasterSecret_ExporterMasterSecret s transcript =
     map_sum id (\<lambda>secret. \<lparr>xs_secret = secret, xs_hash = ms_hash s\<rparr>)
       (deriveSecret (ms_hash s) (ms_secret s) exporterLabel (Some transcript))"

definition EarlyExporterMasterSecret :: "EarlySecret \<Rightarrow> bytes \<Rightarrow> ExporterMasterSecret may_panic" where
  "EarlyExporterMasterSecret s transcript =
     map_sum id (\<lambda>secret. \<lparr>xs_secret = secret, xs_hash = es_hash s\<rparr>)
       (deriveSecret (es_hash s) (es_secret s) earlyExporterLabel (Some transcript))"

definition Exporter :: "ExporterMasterSecret \<Rightarrow> string \<Rightarrow> bytes \<Rightarrow> nat \<Rightarrow> bytes may_panic" where
  "Exporter s label context len =
     (case deriveSecret (xs_hash s) (xs_secret s) label None of
        Inl p \<Rightarrow> Inl p
      | Inr secret \<Rightarrow> ExpandLabel (xs_hash s) secret ''exporter'' (ha_Sum (xs_hash s) context) len)"

text \<open>
  \<open>key_schedule.go\<close>. A TLS 1.3 suite is its key length, its hash and the constructor of its AEAD, one
  of the three of \<open>cipher_suites.go\<close>.
\<close>

datatype suite_aead = aeadAESGCM | aeadAESGCMTLS13 | aeadChaCha20Poly1305

record cipherSuiteTLS13 =
  s13_id :: u16
  s13_keyLen :: nat
  s13_aead :: suite_aead
  s13_hash :: hash_alg

abbreviation (input) aeadNonceLength :: nat where "aeadNonceLength \<equiv> 12"

definition nextTrafficSecret :: "cipherSuiteTLS13 \<Rightarrow> bytes \<Rightarrow> bytes may_panic" where
  "nextTrafficSecret c trafficSecret =
     ExpandLabel (s13_hash c) trafficSecret ''traffic upd'' [] (ha_Size (s13_hash c))"

definition trafficKey :: "cipherSuiteTLS13 \<Rightarrow> bytes \<Rightarrow> (bytes \<times> bytes) may_panic" where
  "trafficKey c trafficSecret =
     (case ExpandLabel (s13_hash c) trafficSecret ''key'' [] (s13_keyLen c) of
        Inl p \<Rightarrow> Inl p
      | Inr key \<Rightarrow> map_sum id (\<lambda>iv. (key, iv)) (ExpandLabel (s13_hash c) trafficSecret ''iv'' [] aeadNonceLength))"

definition finishedHash13 :: "cipherSuiteTLS13 \<Rightarrow> bytes \<Rightarrow> bytes \<Rightarrow> bytes may_panic" where
  "finishedHash13 c baseKey transcript =
     map_sum id (\<lambda>finishedKey. hmac (s13_hash c) finishedKey (ha_Sum (s13_hash c) transcript))
       (ExpandLabel (s13_hash c) baseKey ''finished'' [] (ha_Size (s13_hash c)))"

text \<open>The function that \<open>exportKeyingMaterial\<close> returns, with the exporter secret it closes over.\<close>

definition exportKeyingMaterial :: "MasterSecret \<Rightarrow> bytes \<Rightarrow>
    (string \<Rightarrow> bytes \<Rightarrow> nat \<Rightarrow> (string + bytes) may_panic) may_panic" where
  "exportKeyingMaterial s transcript =
     map_sum id (\<lambda>exp label context len. map_sum id Inr (Exporter exp label context len))
       (MasterSecret_ExporterMasterSecret s transcript)"

subsection \<open>P_hash\<close>

text \<open>
  The loop of \<open>tls12.pHash\<close>, which advances the slice \<open>result\<close>; \<open>k\<close> is the length left of it, and
  what the loop writes there is its value. An empty digest would keep it from advancing; the loop
  then never ends.
\<close>

partial_function (option) pHash12_loop :: "hash_alg \<Rightarrow> bytes \<Rightarrow> bytes \<Rightarrow> bytes \<Rightarrow> nat \<Rightarrow> bytes option" where
  "pHash12_loop h secret seed a k =
     (if k > 0 then
        let b = hmac h secret (a @ seed);
            n = min k (length b)
        in Option.bind (pHash12_loop h secret seed (hmac h secret a) (k - n)) (\<lambda>rest. Some (take n b @ rest))
      else Some [])"

definition pHash12 :: "hash_alg \<Rightarrow> bytes \<Rightarrow> bytes \<Rightarrow> nat \<Rightarrow> bytes option" where
  "pHash12 h secret seed keyLen = pHash12_loop h secret seed (hmac h secret seed) keyLen"

definition PRF :: "hash_alg \<Rightarrow> bytes \<Rightarrow> string \<Rightarrow> bytes \<Rightarrow> nat \<Rightarrow> bytes option" where
  "PRF h secret label seed keyLen = pHash12 h secret (string_to_bytes label @ seed) keyLen"

text \<open>
  The loop of \<open>pHash\<close> in \<open>prf.go\<close>, which writes into \<open>result\<close> at the index \<open>j\<close>; \<open>copy\<close> stops at
  the end of \<open>result\<close>.
\<close>

definition copy_at :: "nat \<Rightarrow> bytes \<Rightarrow> bytes \<Rightarrow> bytes" where
  "copy_at j b result = take j result @ take (length result - j) b @ drop (j + length b) result"

partial_function (option) pHash_loop :: "hash_alg \<Rightarrow> bytes \<Rightarrow> bytes \<Rightarrow> bytes \<Rightarrow> nat \<Rightarrow> bytes \<Rightarrow> bytes option" where
  "pHash_loop h secret seed a j result =
     (if j < length result then
        let b = hmac h secret (a @ seed)
        in pHash_loop h secret seed (hmac h secret a) (j + length b) (copy_at j b result)
      else Some result)"

definition pHash :: "hash_alg \<Rightarrow> bytes \<Rightarrow> bytes \<Rightarrow> nat \<Rightarrow> bytes option" where
  "pHash h secret seed n = pHash_loop h secret seed (hmac h secret seed) 0 (replicate n 0)"

text \<open>RFC 5246, section 5: \<open>A(0) = seed\<close>, \<open>A(i) = HMAC(secret, A(i-1))\<close>, and P_hash is the
  concatenation of \<open>HMAC(secret, A(i) + seed)\<close> from \<open>i = 1\<close> on.\<close>

fun rfc_A :: "hash_alg \<Rightarrow> bytes \<Rightarrow> bytes \<Rightarrow> nat \<Rightarrow> bytes" where
  "rfc_A h secret seed 0 = seed"
| "rfc_A h secret seed (Suc i) = hmac h secret (rfc_A h secret seed i)"

definition rfc_P_hash :: "hash_alg \<Rightarrow> bytes \<Rightarrow> bytes \<Rightarrow> nat \<Rightarrow> bytes" where
  "rfc_P_hash h secret seed n =
     take n (concat (map (\<lambda>i. hmac h secret (rfc_A h secret seed (Suc i) @ seed)) [0..<n]))"

subsection \<open>Before TLS 1.3\<close>

definition splitPreMasterSecret :: "bytes \<Rightarrow> bytes \<times> bytes" where
  "splitPreMasterSecret secret = (take ((length secret + 1) div 2) secret, drop (length secret div 2) secret)"

text \<open>The hashes of the old versions and the version's choice of them.\<close>

record prf_lib =
  pl_SHA1 :: hash_alg
  pl_MD5 :: hash_alg

definition prf10 :: "prf_lib \<Rightarrow> bytes \<Rightarrow> string \<Rightarrow> bytes \<Rightarrow> nat \<Rightarrow> bytes option" where
  "prf10 lib secret label seed keyLen =
     (let labelAndSeed = string_to_bytes label @ seed;
          (s1, s2) = splitPreMasterSecret secret
      in case pHash (pl_MD5 lib) s1 labelAndSeed keyLen of
           None \<Rightarrow> None
         | Some result \<Rightarrow> map_option (\<lambda>result2. map2 (XOR) result result2) (pHash (pl_SHA1 lib) s2 labelAndSeed keyLen))"

definition prf12 :: "hash_alg \<Rightarrow> bytes \<Rightarrow> string \<Rightarrow> bytes \<Rightarrow> nat \<Rightarrow> bytes option" where
  "prf12 h secret label seed keyLen = PRF h secret label seed keyLen"

abbreviation (input) masterSecretLength :: nat where "masterSecretLength \<equiv> 48"
abbreviation (input) finishedVerifyLength :: nat where "finishedVerifyLength \<equiv> 12"
abbreviation (input) masterSecretLabel :: string where "masterSecretLabel \<equiv> ''master secret''"
abbreviation (input) extendedMasterSecretLabel :: string where "extendedMasterSecretLabel \<equiv> ''extended master secret''"
abbreviation (input) keyExpansionLabel :: string where "keyExpansionLabel \<equiv> ''key expansion''"
abbreviation (input) clientFinishedLabel :: string where "clientFinishedLabel \<equiv> ''client finished''"
abbreviation (input) serverFinishedLabel :: string where "serverFinishedLabel \<equiv> ''server finished''"

type_synonym prfFunc = "bytes \<Rightarrow> string \<Rightarrow> bytes \<Rightarrow> nat \<Rightarrow> bytes option"

text \<open>\<open>sha384\<close> is the flag \<open>suiteSHA384\<close> of the suite; \<open>crypto.Hash(0)\<close> is \<^term>\<open>None\<close>.\<close>

definition prfAndHashForVersion :: "prf_lib \<Rightarrow> u16 \<Rightarrow> bool \<Rightarrow> (prfFunc \<times> hash_alg option) may_panic" where
  "prfAndHashForVersion lib version sha384 =
     (if version = VersionTLS10 \<or> version = VersionTLS11 then Inr (prf10 lib, None)
      else if version = VersionTLS12 then
        if sha384 then Inr (prf12 SHA384, Some SHA384) else Inr (prf12 SHA256, Some SHA256)
      else Inl (PanicMsg ''unknown version''))"

definition prfForVersion :: "prf_lib \<Rightarrow> u16 \<Rightarrow> bool \<Rightarrow> prfFunc may_panic" where
  "prfForVersion lib version sha384 = map_sum id fst (prfAndHashForVersion lib version sha384)"

definition masterFromPreMasterSecret :: "prf_lib \<Rightarrow> u16 \<Rightarrow> bool \<Rightarrow> bytes \<Rightarrow> bytes \<Rightarrow> bytes \<Rightarrow> bytes option may_panic" where
  "masterFromPreMasterSecret lib version sha384 preMasterSecret clientRandom serverRandom =
     map_sum id (\<lambda>prf. prf preMasterSecret masterSecretLabel (clientRandom @ serverRandom) masterSecretLength)
       (prfForVersion lib version sha384)"

definition tls12_MasterSecret :: "hash_alg \<Rightarrow> bytes \<Rightarrow> bytes \<Rightarrow> bytes option" where
  "tls12_MasterSecret h preMasterSecret transcript =
     PRF h preMasterSecret extendedMasterSecretLabel transcript masterSecretLength"

definition extMasterFromPreMasterSecret :: "prf_lib \<Rightarrow> u16 \<Rightarrow> bool \<Rightarrow> bytes \<Rightarrow> bytes \<Rightarrow> bytes option may_panic" where
  "extMasterFromPreMasterSecret lib version sha384 preMasterSecret transcript =
     map_sum id (\<lambda>(prf, hash). case hash of
         Some h \<Rightarrow> if version = VersionTLS12 then tls12_MasterSecret h preMasterSecret transcript
                   else prf preMasterSecret extendedMasterSecretLabel transcript masterSecretLength
       | None \<Rightarrow> prf preMasterSecret extendedMasterSecretLabel transcript masterSecretLength)
       (prfAndHashForVersion lib version sha384)"

text \<open>The six parts of the key block, in the order of the code.\<close>

record connection_keys =
  ck_clientMAC :: bytes
  ck_serverMAC :: bytes
  ck_clientKey :: bytes
  ck_serverKey :: bytes
  ck_clientIV :: bytes
  ck_serverIV :: bytes

definition cut_keys :: "bytes \<Rightarrow> nat \<Rightarrow> nat \<Rightarrow> nat \<Rightarrow> connection_keys" where
  "cut_keys keyMaterial macLen keyLen ivLen =
     (let clientMAC = take macLen keyMaterial; keyMaterial = drop macLen keyMaterial;
          serverMAC = take macLen keyMaterial; keyMaterial = drop macLen keyMaterial;
          clientKey = take keyLen keyMaterial; keyMaterial = drop keyLen keyMaterial;
          serverKey = take keyLen keyMaterial; keyMaterial = drop keyLen keyMaterial;
          clientIV = take ivLen keyMaterial; keyMaterial = drop ivLen keyMaterial;
          serverIV = take ivLen keyMaterial
      in \<lparr>ck_clientMAC = clientMAC, ck_serverMAC = serverMAC, ck_clientKey = clientKey, ck_serverKey = serverKey,
          ck_clientIV = clientIV, ck_serverIV = serverIV\<rparr>)"

definition keysFromMasterSecret :: "prf_lib \<Rightarrow> u16 \<Rightarrow> bool \<Rightarrow> bytes \<Rightarrow> bytes \<Rightarrow> bytes \<Rightarrow> nat \<Rightarrow> nat \<Rightarrow> nat \<Rightarrow>
    connection_keys option may_panic" where
  "keysFromMasterSecret lib version sha384 masterSecret clientRandom serverRandom macLen keyLen ivLen =
     map_sum id (\<lambda>prf. map_option (\<lambda>keyMaterial. cut_keys keyMaterial macLen keyLen ivLen)
         (prf masterSecret keyExpansionLabel (serverRandom @ clientRandom) (2 * macLen + 2 * keyLen + 2 * ivLen)))
       (prfForVersion lib version sha384)"

text \<open>The running hash of the handshake messages.\<close>

record finishedHash =
  fh_client :: bytes
  fh_server :: bytes
  fh_clientMD5 :: "bytes option"
  fh_serverMD5 :: "bytes option"
  fh_buffer :: "bytes option"
  fh_version :: u16
  fh_prf :: prfFunc
  fh_hash :: "hash_alg option"

definition newFinishedHash :: "prf_lib \<Rightarrow> u16 \<Rightarrow> bool \<Rightarrow> finishedHash may_panic" where
  "newFinishedHash lib version sha384 =
     map_sum id (\<lambda>(prf, hash).
        \<lparr>fh_client = [], fh_server = [],
         fh_clientMD5 = (if hash \<noteq> None then None else Some []), fh_serverMD5 = (if hash \<noteq> None then None else Some []),
         fh_buffer = (if version \<ge> VersionTLS12 then Some [] else None),
         fh_version = version, fh_prf = prf, fh_hash = hash\<rparr>)
       (prfAndHashForVersion lib version sha384)"

definition finishedHash_Write :: "finishedHash \<Rightarrow> bytes \<Rightarrow> finishedHash may_panic" where
  "finishedHash_Write h msg =
     (let h = h\<lparr>fh_client := fh_client h @ msg, fh_server := fh_server h @ msg\<rparr> in
      if fh_version h < VersionTLS12 \<and> (fh_clientMD5 h = None \<or> fh_serverMD5 h = None) then Inl NilDeref
      else let h = (if fh_version h < VersionTLS12
                    then h\<lparr>fh_clientMD5 := map_option (\<lambda>x. x @ msg) (fh_clientMD5 h),
                           fh_serverMD5 := map_option (\<lambda>x. x @ msg) (fh_serverMD5 h)\<rparr> else h)
           in Inr (h\<lparr>fh_buffer := map_option (\<lambda>x. x @ msg) (fh_buffer h)\<rparr>))"

definition finishedHash_Sum :: "prf_lib \<Rightarrow> finishedHash \<Rightarrow> bytes may_panic" where
  "finishedHash_Sum lib h =
     (let client = ha_Sum (case fh_hash h of Some a \<Rightarrow> a | None \<Rightarrow> pl_SHA1 lib) (fh_client h) in
      if fh_version h \<ge> VersionTLS12 then Inr client
      else case fh_clientMD5 h of
             None \<Rightarrow> Inl NilDeref
           | Some m \<Rightarrow> Inr (ha_Sum (pl_MD5 lib) m @ client))"

definition clientSum :: "prf_lib \<Rightarrow> finishedHash \<Rightarrow> bytes \<Rightarrow> bytes option may_panic" where
  "clientSum lib h masterSecret =
     map_sum id (\<lambda>sum. fh_prf h masterSecret clientFinishedLabel sum finishedVerifyLength) (finishedHash_Sum lib h)"

definition serverSum :: "prf_lib \<Rightarrow> finishedHash \<Rightarrow> bytes \<Rightarrow> bytes option may_panic" where
  "serverSum lib h masterSecret =
     map_sum id (\<lambda>sum. fh_prf h masterSecret serverFinishedLabel sum finishedVerifyLength) (finishedHash_Sum lib h)"

abbreviation (input) signatureEd25519 :: u8 where "signatureEd25519 \<equiv> 228"
abbreviation (input) signatureECDSA :: u8 where "signatureECDSA \<equiv> 227"

definition hashForClientCertificate :: "prf_lib \<Rightarrow> finishedHash \<Rightarrow> u8 \<Rightarrow> hash_alg \<Rightarrow> bytes may_panic" where
  "hashForClientCertificate lib h sigType hashAlg =
     (if (fh_version h \<ge> VersionTLS12 \<or> sigType = signatureEd25519) \<and> fh_buffer h = None then
        Inl (PanicMsg ''tls: handshake hash for a client certificate requested after discarding the handshake buffer'')
      else if sigType = signatureEd25519 then Inr (the (fh_buffer h))
      else if fh_version h \<ge> VersionTLS12 then Inr (ha_Sum hashAlg (the (fh_buffer h)))
      else if sigType = signatureECDSA
      then Inr (ha_Sum (case fh_hash h of Some a \<Rightarrow> a | None \<Rightarrow> pl_SHA1 lib) (fh_server h))
      else finishedHash_Sum lib h)"

definition discardHandshakeBuffer :: "finishedHash \<Rightarrow> finishedHash" where
  "discardHandshakeBuffer h = h\<lparr>fh_buffer := None\<rparr>"

text \<open>The exporter of RFC 5705; \<open>context\<close> may be nil.\<close>

definition ekmFromMasterSecret :: "prf_lib \<Rightarrow> u16 \<Rightarrow> bool \<Rightarrow> bytes \<Rightarrow> bytes \<Rightarrow> bytes \<Rightarrow>
    string \<Rightarrow> bytes option \<Rightarrow> nat \<Rightarrow> (string + bytes option) may_panic" where
  "ekmFromMasterSecret lib version sha384 masterSecret clientRandom serverRandom label context len =
     (if label \<in> {clientFinishedLabel, serverFinishedLabel, masterSecretLabel, keyExpansionLabel} then
        Inr (Inl (''crypto/tls: reserved ExportKeyingMaterial label: '' @ label))
      else
        let seed = clientRandom @ serverRandom in
        if (case context of Some x \<Rightarrow> length x \<ge> 65536 | None \<Rightarrow> False) then
          Inr (Inl ''crypto/tls: ExportKeyingMaterial context too long'')
        else
          let seed = (case context of None \<Rightarrow> seed | Some x \<Rightarrow> seed @ be16 (of_nat (length x)) @ x)
          in map_sum id (\<lambda>prf. Inr (prf masterSecret label seed len)) (prfForVersion lib version sha384))"

subsection \<open>P_hash is that of the RFC\<close>

definition p_blocks :: "hash_alg \<Rightarrow> bytes \<Rightarrow> bytes \<Rightarrow> nat \<Rightarrow> nat \<Rightarrow> bytes" where
  "p_blocks h secret seed i m = concat (map (\<lambda>j. hmac h secret (rfc_A h secret seed (Suc j) @ seed)) [i..<i + m])"

lemma p_blocks_Suc:
  "p_blocks h secret seed i (Suc m) = hmac h secret (rfc_A h secret seed (Suc i) @ seed) @ p_blocks h secret seed (Suc i) m"
proof -
  have "[i..<i + Suc m] = i # [Suc i..<Suc i + m]" by (simp only: upt_rec [of i]) simp
  then show ?thesis by (simp only: p_blocks_def list.map concat.simps)
qed

lemma p_blocks_add:
  "p_blocks h secret seed i (m + k) = p_blocks h secret seed i m @ p_blocks h secret seed (i + m) k"
  using upt_add_eq_append [of i "i + m" k] by (simp add: p_blocks_def add.assoc)

context hash_laws
begin

lemma p_blocks_length: "length (p_blocks h secret seed i m) = m * ha_Size h"
  by (simp add: p_blocks_def length_concat comp_def sum_list_triv)

lemma p_blocks_prefix:
  assumes "m \<le> m'"
  shows "take m (p_blocks h secret seed i m') = take m (p_blocks h secret seed i m)"
proof -
  have "m \<le> m * ha_Size h" using size_bounds by simp
  then show ?thesis
    using p_blocks_add [of h secret seed i m "m' - m"] assms by (simp add: p_blocks_length)
qed

text \<open>One turn of either loop, in terms of the blocks still to come.\<close>

lemma p_blocks_step:
  assumes "0 < k" "b = hmac h secret (rfc_A h secret seed (Suc i) @ seed)"
  shows "take k (p_blocks h secret seed i k) =
    take k b @ take (k - ha_Size h) (p_blocks h secret seed (Suc i) (k - ha_Size h))"
proof -
  have "take k (p_blocks h secret seed i k) = take k b @ take (k - ha_Size h) (p_blocks h secret seed (Suc i) (k - 1))"
    using assms p_blocks_Suc [of h secret seed i "k - 1"] by simp
  then show ?thesis using p_blocks_prefix [of "k - ha_Size h" "k - 1" secret seed "Suc i"] size_bounds by simp
qed

lemma pHash12_loop_blocks:
  "pHash12_loop h secret seed (rfc_A h secret seed (Suc i)) k = Some (take k (p_blocks h secret seed i k))"
proof (induction k arbitrary: i rule: less_induct)
  case (less k)
  let ?b = "hmac h secret (rfc_A h secret seed (Suc i) @ seed)"
  show ?case
  proof (cases "k = 0")
    case True
    then show ?thesis by (simp add: pHash12_loop.simps)
  next
    case False
    have "pHash12_loop h secret seed (rfc_A h secret seed (Suc (Suc i))) (k - min k (ha_Size h)) =
        Some (take (k - ha_Size h) (p_blocks h secret seed (Suc i) (k - ha_Size h)))"
      using less.IH [of "k - min k (ha_Size h)" "Suc i"] False size_bounds by (simp add: min_def)
    then show ?thesis
      using False p_blocks_step [of k ?b secret seed i]
      by (subst pHash12_loop.simps) (auto simp: Let_def min_def split: if_splits)
  qed
qed

lemma pHash_loop_blocks:
  "pHash_loop h secret seed (rfc_A h secret seed (Suc i)) j result =
    Some (take j result @ take (length result - j) (p_blocks h secret seed i (length result - j)))"
proof (induction "length result - j" arbitrary: i j result rule: less_induct)
  case less
  let ?b = "hmac h secret (rfc_A h secret seed (Suc i) @ seed)"
  show ?case
  proof (cases "j < length result")
    case False
    then show ?thesis by (subst pHash_loop.simps) simp
  next
    case True
    have len: "length (copy_at j ?b result) = length result"
      using True by (simp add: copy_at_def)
    have pre: "take (j + ha_Size h) (copy_at j ?b result) = take j result @ take (length result - j) ?b"
      using True by (cases "ha_Size h \<le> length result - j") (simp_all add: copy_at_def min_def)
    have "pHash_loop h secret seed (rfc_A h secret seed (Suc (Suc i))) (j + ha_Size h) (copy_at j ?b result) =
        Some (take (j + ha_Size h) (copy_at j ?b result) @
          take (length result - j - ha_Size h) (p_blocks h secret seed (Suc i) (length result - j - ha_Size h)))"
      using less [of "copy_at j ?b result" "j + ha_Size h" "Suc i"] len True size_bounds by simp
    then show ?thesis
      using True pre p_blocks_step [of "length result - j" ?b secret seed i]
      by (subst pHash_loop.simps) (simp add: Let_def)
  qed
qed

lemma p_hash_rfc:
  "pHash12 h secret seed n = Some (rfc_P_hash h secret seed n)"
  "pHash h secret seed n = Some (rfc_P_hash h secret seed n)"
  "length (rfc_P_hash h secret seed n) = n"
proof -
  have "n \<le> n * ha_Size h" using size_bounds by simp
  then show "length (rfc_P_hash h secret seed n) = n"
    using p_blocks_length [of secret seed 0 n] by (simp add: rfc_P_hash_def p_blocks_def)
  show "pHash12 h secret seed n = Some (rfc_P_hash h secret seed n)"
    using pHash12_loop_blocks [of secret seed 0 n] by (simp add: pHash12_def rfc_P_hash_def p_blocks_def)
  show "pHash h secret seed n = Some (rfc_P_hash h secret seed n)"
    using pHash_loop_blocks [of secret seed 0 0 "replicate n 0"] by (simp add: pHash_def rfc_P_hash_def p_blocks_def)
qed

end

subsection \<open>Labels\<close>

lemma hkdf_label_inject:
  assumes "hkdf_label l c n = hkdf_label l' c' n'"
    and "length l \<le> 249" "length c \<le> 255" "n < 65536" "length l' \<le> 249" "length c' \<le> 255" "n' < 65536"
  shows "l = l' \<and> c = c' \<and> n = n'"
proof -
  have b: "be16 (of_nat n) = be16 (of_nat n')" and t: "of_nat (length l + 6) = (of_nat (length l' + 6) :: u8)"
    and r: "string_to_bytes l @ [of_nat (length c)] @ c = string_to_bytes l' @ [of_nat (length c')] @ c'"
    using assms(1) by (simp_all add: hkdf_label_def be16_def string_to_bytes_def add.commute)
  have u: "unat (of_nat (length l + 6) :: u8) = length l + 6" "unat (of_nat (length l' + 6) :: u8) = length l' + 6"
    using assms(2,5) by (simp_all add: unat_of_nat del: of_nat_add)
  have "length l + 6 = length l' + 6" using trans [OF sym [OF u(1) [unfolded t]] u(2)] .
  then have "length l = length l'" by simp
  then have "string_to_bytes l = string_to_bytes l'" "c = c'"
    using r append_eq_append_conv [of "string_to_bytes l" "string_to_bytes l'"] by simp_all
  moreover obtain x y where xy: "be16 (of_nat n) = [x, y]" by (simp add: be16_def)
  have "n = n'"
    using of_be16_length [OF assms(4) xy] of_be16_length [OF assms(7) trans [OF sym [OF b] xy]] by simp
  moreover have "l = l'" using arg_cong [OF calculation(1), of bytes_to_string] by simp
  ultimately show ?thesis by simp
qed

context hash_laws
begin

lemma ExpandLabel_cases:
  "ExpandLabel h secret l c n =
    (if length l > 249 \<or> length c > 255 then Inl (PanicMsg ''tls13: label or context too long'')
     else Inr (case hkdf_Expand h secret (hkdf_label l c n) n of Inr (Some b) \<Rightarrow> b | _ \<Rightarrow> []))"
  using hkdf_Expand_length [of secret "hkdf_label l c n" n]
  by (auto simp: ExpandLabel_def split: option.splits)

lemma ExpandLabel_length:
  assumes "length l \<le> 249" "length c \<le> 255"
  shows "\<exists>b. ExpandLabel h secret l c n = Inr b \<and> length b = (if n \<le> 255 * ha_Size h then n else 0)"
  using hkdf_Expand_length [of secret "hkdf_label l c n" n] assms
  by (auto simp: ExpandLabel_cases split: option.splits)

text \<open>With the labels of the package no derivation panics, and each secret has the length of the hash.\<close>

lemma deriveSecret_length:
  assumes "length l \<le> 249"
  shows "\<exists>b. deriveSecret h secret l t = Inr b \<and> length b = ha_Size h"
  using ExpandLabel_length [OF assms, of "ha_Sum h (case t of None \<Rightarrow> [] | Some t \<Rightarrow> t)" secret "ha_Size h"] size_bounds
  by (simp add: deriveSecret_def sum_length)

end

subsection \<open>The hash of the handshake messages\<close>

fun write_all :: "finishedHash \<Rightarrow> bytes list \<Rightarrow> finishedHash may_panic" where
  "write_all h [] = Inr h"
| "write_all h (m # ms) = (case finishedHash_Write h m of Inl p \<Rightarrow> Inl p | Inr h \<Rightarrow> write_all h ms)"

definition hash_of_messages :: "bytes \<Rightarrow> u16 \<Rightarrow> finishedHash \<Rightarrow> bool" where
  "hash_of_messages msgs v h \<longleftrightarrow> fh_client h = msgs \<and> fh_server h = msgs \<and> fh_version h = v \<and>
     (v < VersionTLS12 \<longrightarrow> fh_clientMD5 h = Some msgs \<and> fh_serverMD5 h = Some msgs)"

lemma write_all_messages:
  assumes "hash_of_messages msgs v h"
  shows "\<exists>h'. write_all h ms = Inr h' \<and> hash_of_messages (msgs @ concat ms) v h' \<and>
    fh_prf h' = fh_prf h \<and> fh_hash h' = fh_hash h \<and> fh_buffer h' = map_option (\<lambda>b. b @ concat ms) (fh_buffer h)"
  using assms
proof (induction ms arbitrary: msgs h)
  case Nil
  then show ?case by (cases "fh_buffer h") simp_all
next
  case (Cons m ms)
  have "\<exists>h1. finishedHash_Write h m = Inr h1 \<and> hash_of_messages (msgs @ m) v h1 \<and>
      fh_prf h1 = fh_prf h \<and> fh_hash h1 = fh_hash h \<and> fh_buffer h1 = map_option (\<lambda>b. b @ m) (fh_buffer h)"
    using Cons.prems by (auto simp: hash_of_messages_def finishedHash_Write_def Let_def)
  then obtain h1 where h1: "finishedHash_Write h m = Inr h1" "hash_of_messages (msgs @ m) v h1"
      "fh_prf h1 = fh_prf h" "fh_hash h1 = fh_hash h" "fh_buffer h1 = map_option (\<lambda>b. b @ m) (fh_buffer h)" by blast
  show ?case using Cons.IH [OF h1(2)] h1 by (auto simp: option.map_comp comp_def)
qed

subsection \<open>Properties\<close>

text \<open>(C9)
  Both loops of P_hash, the one of \<open>tls12.go\<close> that advances a slice and the one of \<open>prf.go\<close> that
  writes at an index, end for every hash of positive size and compute the function of RFC 5246,
  cut to the length asked for.
\<close>

theorem p_hash_correct:
  assumes "hash_laws h"
  shows "pHash12 h secret seed n = Some (rfc_P_hash h secret seed n) \<and>
    pHash h secret seed n = Some (rfc_P_hash h secret seed n) \<and> length (rfc_P_hash h secret seed n) = n"
  using hash_laws.p_hash_rfc [OF assms] by blast

theorem p_hash_correct_witness:
  "\<exists>b. pHash12 SHA256 [1, 2, 3] [4] 48 = Some b \<and> pHash SHA256 [1, 2, 3] [4] 48 = Some b \<and> length b = 48"
  using p_hash_correct [OF sha256.hash_laws_axioms, of "[1, 2, 3]" "[4]" 48] by blast

text \<open>(C8)
  Labels of TLS 1.3. \<open>ExpandLabel\<close> panics exactly for a label of more than 249 bytes or a context of
  more than 255. Otherwise it returns as many bytes as were asked for, or none if that is more than
  255 digests, and the HKDF input determines label, context and length: two derivations from a
  secret use the same input only if all three agree.
\<close>

theorem expand_label_separates:
  assumes "hash_laws h"
  shows "(ExpandLabel h secret l c n = Inl p \<longleftrightarrow>
      (length l > 249 \<or> length c > 255) \<and> p = PanicMsg ''tls13: label or context too long'') \<and>
    (length l \<le> 249 \<and> length c \<le> 255 \<longrightarrow>
      (\<exists>b. ExpandLabel h secret l c n = Inr b \<and> length b = (if n \<le> 255 * ha_Size h then n else 0)) \<and>
      (\<forall>l' c' n'. length l' \<le> 249 \<and> length c' \<le> 255 \<and> n < 65536 \<and> n' < 65536 \<and>
        hkdf_label l c n = hkdf_label l' c' n' \<longrightarrow> l = l' \<and> c = c' \<and> n = n'))"
proof (intro conjI impI allI)
  show "ExpandLabel h secret l c n = Inl p \<longleftrightarrow>
      (length l > 249 \<or> length c > 255) \<and> p = PanicMsg ''tls13: label or context too long''"
    unfolding hash_laws.ExpandLabel_cases [OF assms] by auto
  assume ok: "length l \<le> 249 \<and> length c \<le> 255"
  then show "\<exists>b. ExpandLabel h secret l c n = Inr b \<and> length b = (if n \<le> 255 * ha_Size h then n else 0)"
    using hash_laws.ExpandLabel_length [OF assms] by blast
  fix l' c' n'
  assume "length l' \<le> 249 \<and> length c' \<le> 255 \<and> n < 65536 \<and> n' < 65536 \<and> hkdf_label l c n = hkdf_label l' c' n'"
  then have "l = l' \<and> c = c' \<and> n = n'" using hkdf_label_inject [of l c n l' c' n'] ok by blast
  then show "l = l'" "c = c'" "n = n'" by blast+
qed

theorem expand_label_separates_witness:
  "(\<exists>b. ExpandLabel SHA256 [1] ''key'' [] 16 = Inr b \<and> length b = 16) \<and>
   hkdf_label ''key'' [] 16 \<noteq> hkdf_label ''iv'' [] 12 \<and>
   ExpandLabel SHA256 [1] ''exporter'' [] 8161 = Inr []"
proof -
  have k: "hkdf_label ''key'' [] 16 \<noteq> hkdf_label ''iv'' [] 12"
    using conjunct2 [OF conjunct2 [OF expand_label_separates [OF sha256.hash_laws_axioms, of "[1]" "''key''" "[]" 16],
        rule_format], rule_format, of "''iv''" "[]" 12] by auto
  have s: "ha_Size SHA256 = 32" by (simp add: SHA256_def)
  have "\<exists>b. ExpandLabel SHA256 [1] ''key'' [] 16 = Inr b \<and> length b = 16"
    using expand_label_separates [OF sha256.hash_laws_axioms, of "[1]" "''key''" "[]" 16] s by simp
  moreover have "ExpandLabel SHA256 [1] ''exporter'' [] 8161 = Inr []"
    using expand_label_separates [OF sha256.hash_laws_axioms, of "[1]" "''exporter''" "[]" 8161] s by simp
  ultimately show ?thesis using k by blast
qed

text \<open>(C10)
  The hash of the handshake messages. For a version before TLS 1.3, writing the messages one by one
  never panics and depends only on their concatenation: the sum is the hash of all of them, before
  TLS 1.2 the MD5 and the SHA-1 hash one after the other. The signature of a client certificate is
  over the buffered messages, and asking for it panics exactly if the buffer it needs is gone.
\<close>

theorem finished_hash_messages:
  assumes "v = VersionTLS10 \<or> v = VersionTLS11 \<or> v = VersionTLS12"
  shows "\<exists>h0 h. newFinishedHash lib v sha384 = Inr h0 \<and> write_all h0 msgs = Inr h \<and>
    finishedHash_Sum lib h = Inr (if v = VersionTLS12 then ha_Sum (if sha384 then SHA384 else SHA256) (concat msgs)
      else ha_Sum (pl_MD5 lib) (concat msgs) @ ha_Sum (pl_SHA1 lib) (concat msgs)) \<and>
    (v = VersionTLS12 \<longrightarrow> hashForClientCertificate lib h t a =
      Inr (if t = signatureEd25519 then concat msgs else ha_Sum a (concat msgs))) \<and>
    ((\<exists>p. hashForClientCertificate lib (discardHandshakeBuffer h) t a = Inl p) \<longleftrightarrow>
      v = VersionTLS12 \<or> t = signatureEd25519)"
proof -
  obtain h0 where h0: "newFinishedHash lib v sha384 = Inr h0" "hash_of_messages [] v h0"
      "fh_hash h0 = (if v = VersionTLS12 then Some (if sha384 then SHA384 else SHA256) else None)"
      "fh_buffer h0 = (if v = VersionTLS12 then Some [] else None)"
    using assms by (cases sha384) (auto simp: newFinishedHash_def prfAndHashForVersion_def hash_of_messages_def)
  obtain h where h: "write_all h0 msgs = Inr h" "hash_of_messages (concat msgs) v h"
      "fh_hash h = fh_hash h0" "fh_buffer h = map_option (\<lambda>b. b @ concat msgs) (fh_buffer h0)"
    using write_all_messages [OF h0(2), of msgs] by auto
  have sum: "finishedHash_Sum lib h = Inr (if v = VersionTLS12 then ha_Sum (if sha384 then SHA384 else SHA256) (concat msgs)
      else ha_Sum (pl_MD5 lib) (concat msgs) @ ha_Sum (pl_SHA1 lib) (concat msgs))"
    using h h0 assms by (auto simp: finishedHash_Sum_def hash_of_messages_def Let_def)
  have cert: "v = VersionTLS12 \<longrightarrow> hashForClientCertificate lib h t a =
      Inr (if t = signatureEd25519 then concat msgs else ha_Sum a (concat msgs))"
    using h h0 by (auto simp: hashForClientCertificate_def hash_of_messages_def)
  have "(\<exists>p. hashForClientCertificate lib (discardHandshakeBuffer h) t a = Inl p) \<longleftrightarrow>
      v = VersionTLS12 \<or> t = signatureEd25519"
    using h(2) assms
    by (auto simp: hashForClientCertificate_def discardHandshakeBuffer_def finishedHash_Sum_def hash_of_messages_def Let_def)
  then show ?thesis using h0(1) h(1) sum cert by blast
qed

theorem finished_hash_messages_witness:
  "\<exists>h0 h. newFinishedHash \<lparr>pl_SHA1 = SHA256, pl_MD5 = SHA256\<rparr> VersionTLS12 False = Inr h0 \<and>
    write_all h0 [[1], [2, 3]] = Inr h \<and>
    finishedHash_Sum \<lparr>pl_SHA1 = SHA256, pl_MD5 = SHA256\<rparr> h = Inr (ha_Sum SHA256 [1, 2, 3])"
  using finished_hash_messages [of VersionTLS12 "\<lparr>pl_SHA1 = SHA256, pl_MD5 = SHA256\<rparr>" False "[[1], [2, 3]]"
      signatureECDSA SHA256] by auto

end
