(* ===== verification/Cipher_Suites.thy ===== *)
theory Cipher_Suites
  imports Key_Schedule
begin

text \<open>
  The cipher suites of \<open>src/cipher_suites.go\<close> and the lists of \<open>src/defaults.go\<close>: the tables, the
  preference orders, the lookups and the constructors of the AEADs. A constructor that the code
  passes as a function value is a value of a datatype here, and \<open>nil\<close> is \<^term>\<open>None\<close>.

  Shown here: the preference orders are sorted by the priority rules that their comment lists, and
  the selection returns the suite of highest priority among those that both sides have.
\<close>

subsection \<open>The table\<close>

datatype suite_ka = rsaKA | ecdheECDSAKA | ecdheRSAKA
datatype suite_cipher = cipherRC4 | cipher3DES | cipherAES
datatype suite_mac = macSHA1 | macSHA256

record cipherSuite =
  cs_id :: u16
  cs_keyLen :: nat
  cs_macLen :: nat
  cs_ivLen :: nat
  cs_ka :: suite_ka
  cs_flags :: u8
  cs_cipher :: "suite_cipher option"
  cs_mac :: "suite_mac option"
  cs_aead :: "suite_aead option"

abbreviation (input) suiteECDHE :: u8 where "suiteECDHE \<equiv> 1"
abbreviation (input) suiteECSign :: u8 where "suiteECSign \<equiv> 2"
abbreviation (input) suiteTLS12 :: u8 where "suiteTLS12 \<equiv> 4"
abbreviation (input) suiteSHA384 :: u8 where "suiteSHA384 \<equiv> 8"

abbreviation (input) TLS_RSA_WITH_RC4_128_SHA :: u16 where "TLS_RSA_WITH_RC4_128_SHA \<equiv> 0x0005"
abbreviation (input) TLS_RSA_WITH_3DES_EDE_CBC_SHA :: u16 where "TLS_RSA_WITH_3DES_EDE_CBC_SHA \<equiv> 0x000a"
abbreviation (input) TLS_RSA_WITH_AES_128_CBC_SHA :: u16 where "TLS_RSA_WITH_AES_128_CBC_SHA \<equiv> 0x002f"
abbreviation (input) TLS_RSA_WITH_AES_256_CBC_SHA :: u16 where "TLS_RSA_WITH_AES_256_CBC_SHA \<equiv> 0x0035"
abbreviation (input) TLS_RSA_WITH_AES_128_CBC_SHA256 :: u16 where "TLS_RSA_WITH_AES_128_CBC_SHA256 \<equiv> 0x003c"
abbreviation (input) TLS_RSA_WITH_AES_128_GCM_SHA256 :: u16 where "TLS_RSA_WITH_AES_128_GCM_SHA256 \<equiv> 0x009c"
abbreviation (input) TLS_RSA_WITH_AES_256_GCM_SHA384 :: u16 where "TLS_RSA_WITH_AES_256_GCM_SHA384 \<equiv> 0x009d"
abbreviation (input) TLS_ECDHE_ECDSA_WITH_RC4_128_SHA :: u16 where "TLS_ECDHE_ECDSA_WITH_RC4_128_SHA \<equiv> 0xc007"
abbreviation (input) TLS_ECDHE_ECDSA_WITH_AES_128_CBC_SHA :: u16 where "TLS_ECDHE_ECDSA_WITH_AES_128_CBC_SHA \<equiv> 0xc009"
abbreviation (input) TLS_ECDHE_ECDSA_WITH_AES_256_CBC_SHA :: u16 where "TLS_ECDHE_ECDSA_WITH_AES_256_CBC_SHA \<equiv> 0xc00a"
abbreviation (input) TLS_ECDHE_RSA_WITH_RC4_128_SHA :: u16 where "TLS_ECDHE_RSA_WITH_RC4_128_SHA \<equiv> 0xc011"
abbreviation (input) TLS_ECDHE_RSA_WITH_3DES_EDE_CBC_SHA :: u16 where "TLS_ECDHE_RSA_WITH_3DES_EDE_CBC_SHA \<equiv> 0xc012"
abbreviation (input) TLS_ECDHE_RSA_WITH_AES_128_CBC_SHA :: u16 where "TLS_ECDHE_RSA_WITH_AES_128_CBC_SHA \<equiv> 0xc013"
abbreviation (input) TLS_ECDHE_RSA_WITH_AES_256_CBC_SHA :: u16 where "TLS_ECDHE_RSA_WITH_AES_256_CBC_SHA \<equiv> 0xc014"
abbreviation (input) TLS_ECDHE_ECDSA_WITH_AES_128_CBC_SHA256 :: u16 where "TLS_ECDHE_ECDSA_WITH_AES_128_CBC_SHA256 \<equiv> 0xc023"
abbreviation (input) TLS_ECDHE_RSA_WITH_AES_128_CBC_SHA256 :: u16 where "TLS_ECDHE_RSA_WITH_AES_128_CBC_SHA256 \<equiv> 0xc027"
abbreviation (input) TLS_ECDHE_RSA_WITH_AES_128_GCM_SHA256 :: u16 where "TLS_ECDHE_RSA_WITH_AES_128_GCM_SHA256 \<equiv> 0xc02f"
abbreviation (input) TLS_ECDHE_ECDSA_WITH_AES_128_GCM_SHA256 :: u16 where "TLS_ECDHE_ECDSA_WITH_AES_128_GCM_SHA256 \<equiv> 0xc02b"
abbreviation (input) TLS_ECDHE_RSA_WITH_AES_256_GCM_SHA384 :: u16 where "TLS_ECDHE_RSA_WITH_AES_256_GCM_SHA384 \<equiv> 0xc030"
abbreviation (input) TLS_ECDHE_ECDSA_WITH_AES_256_GCM_SHA384 :: u16 where "TLS_ECDHE_ECDSA_WITH_AES_256_GCM_SHA384 \<equiv> 0xc02c"
abbreviation (input) TLS_ECDHE_RSA_WITH_CHACHA20_POLY1305 :: u16 where "TLS_ECDHE_RSA_WITH_CHACHA20_POLY1305 \<equiv> 0xcca8"
abbreviation (input) TLS_ECDHE_ECDSA_WITH_CHACHA20_POLY1305 :: u16 where "TLS_ECDHE_ECDSA_WITH_CHACHA20_POLY1305 \<equiv> 0xcca9"
abbreviation (input) TLS_AES_128_GCM_SHA256 :: u16 where "TLS_AES_128_GCM_SHA256 \<equiv> 0x1301"
abbreviation (input) TLS_AES_256_GCM_SHA384 :: u16 where "TLS_AES_256_GCM_SHA384 \<equiv> 0x1302"
abbreviation (input) TLS_CHACHA20_POLY1305_SHA256 :: u16 where "TLS_CHACHA20_POLY1305_SHA256 \<equiv> 0x1303"
abbreviation (input) TLS_FALLBACK_SCSV :: u16 where "TLS_FALLBACK_SCSV \<equiv> 0x5600"

definition suite :: "u16 \<Rightarrow> nat \<Rightarrow> nat \<Rightarrow> nat \<Rightarrow> suite_ka \<Rightarrow> u8 \<Rightarrow> suite_cipher option \<Rightarrow> suite_mac option \<Rightarrow> suite_aead option \<Rightarrow> cipherSuite" where
  "suite i keyLen macLen ivLen ka flags ciph mac aead =
     \<lparr>cs_id = i, cs_keyLen = keyLen, cs_macLen = macLen, cs_ivLen = ivLen, cs_ka = ka, cs_flags = flags,
      cs_cipher = ciph, cs_mac = mac, cs_aead = aead\<rparr>"

definition cipherSuites :: "cipherSuite list" where
  "cipherSuites = [
     suite TLS_ECDHE_RSA_WITH_CHACHA20_POLY1305 32 0 12 ecdheRSAKA (suiteECDHE OR suiteTLS12) None None (Some aeadChaCha20Poly1305),
     suite TLS_ECDHE_ECDSA_WITH_CHACHA20_POLY1305 32 0 12 ecdheECDSAKA (suiteECDHE OR suiteECSign OR suiteTLS12) None None (Some aeadChaCha20Poly1305),
     suite TLS_ECDHE_RSA_WITH_AES_128_GCM_SHA256 16 0 4 ecdheRSAKA (suiteECDHE OR suiteTLS12) None None (Some aeadAESGCM),
     suite TLS_ECDHE_ECDSA_WITH_AES_128_GCM_SHA256 16 0 4 ecdheECDSAKA (suiteECDHE OR suiteECSign OR suiteTLS12) None None (Some aeadAESGCM),
     suite TLS_ECDHE_RSA_WITH_AES_256_GCM_SHA384 32 0 4 ecdheRSAKA (suiteECDHE OR suiteTLS12 OR suiteSHA384) None None (Some aeadAESGCM),
     suite TLS_ECDHE_ECDSA_WITH_AES_256_GCM_SHA384 32 0 4 ecdheECDSAKA (suiteECDHE OR suiteECSign OR suiteTLS12 OR suiteSHA384) None None (Some aeadAESGCM),
     suite TLS_ECDHE_RSA_WITH_AES_128_CBC_SHA256 16 32 16 ecdheRSAKA (suiteECDHE OR suiteTLS12) (Some cipherAES) (Some macSHA256) None,
     suite TLS_ECDHE_RSA_WITH_AES_128_CBC_SHA 16 20 16 ecdheRSAKA suiteECDHE (Some cipherAES) (Some macSHA1) None,
     suite TLS_ECDHE_ECDSA_WITH_AES_128_CBC_SHA256 16 32 16 ecdheECDSAKA (suiteECDHE OR suiteECSign OR suiteTLS12) (Some cipherAES) (Some macSHA256) None,
     suite TLS_ECDHE_ECDSA_WITH_AES_128_CBC_SHA 16 20 16 ecdheECDSAKA (suiteECDHE OR suiteECSign) (Some cipherAES) (Some macSHA1) None,
     suite TLS_ECDHE_RSA_WITH_AES_256_CBC_SHA 32 20 16 ecdheRSAKA suiteECDHE (Some cipherAES) (Some macSHA1) None,
     suite TLS_ECDHE_ECDSA_WITH_AES_256_CBC_SHA 32 20 16 ecdheECDSAKA (suiteECDHE OR suiteECSign) (Some cipherAES) (Some macSHA1) None,
     suite TLS_RSA_WITH_AES_128_GCM_SHA256 16 0 4 rsaKA suiteTLS12 None None (Some aeadAESGCM),
     suite TLS_RSA_WITH_AES_256_GCM_SHA384 32 0 4 rsaKA (suiteTLS12 OR suiteSHA384) None None (Some aeadAESGCM),
     suite TLS_RSA_WITH_AES_128_CBC_SHA256 16 32 16 rsaKA suiteTLS12 (Some cipherAES) (Some macSHA256) None,
     suite TLS_RSA_WITH_AES_128_CBC_SHA 16 20 16 rsaKA 0 (Some cipherAES) (Some macSHA1) None,
     suite TLS_RSA_WITH_AES_256_CBC_SHA 32 20 16 rsaKA 0 (Some cipherAES) (Some macSHA1) None,
     suite TLS_ECDHE_RSA_WITH_3DES_EDE_CBC_SHA 24 20 8 ecdheRSAKA suiteECDHE (Some cipher3DES) (Some macSHA1) None,
     suite TLS_RSA_WITH_3DES_EDE_CBC_SHA 24 20 8 rsaKA 0 (Some cipher3DES) (Some macSHA1) None,
     suite TLS_RSA_WITH_RC4_128_SHA 16 20 0 rsaKA 0 (Some cipherRC4) (Some macSHA1) None,
     suite TLS_ECDHE_RSA_WITH_RC4_128_SHA 16 20 0 ecdheRSAKA suiteECDHE (Some cipherRC4) (Some macSHA1) None,
     suite TLS_ECDHE_ECDSA_WITH_RC4_128_SHA 16 20 0 ecdheECDSAKA (suiteECDHE OR suiteECSign) (Some cipherRC4) (Some macSHA1) None]"

definition cipherSuiteMap :: "u16 \<rightharpoonup> cipherSuite" where
  "cipherSuiteMap = fold (\<lambda>cs m. m(cs_id cs \<mapsto> cs)) cipherSuites Map.empty"

definition cipherSuiteByID :: "u16 \<Rightarrow> cipherSuite option" where
  "cipherSuiteByID i = cipherSuiteMap i"

fun selectCipherSuite :: "u16 list \<Rightarrow> u16 list \<Rightarrow> (cipherSuite \<Rightarrow> bool) \<Rightarrow> cipherSuite option" where
  "selectCipherSuite [] supportedIDs ok = None"
| "selectCipherSuite (i # ids) supportedIDs ok =
     (case cipherSuiteByID i of
        None \<Rightarrow> selectCipherSuite ids supportedIDs ok
      | Some candidate \<Rightarrow>
          if \<not> ok candidate then selectCipherSuite ids supportedIDs ok
          else if i \<in> set supportedIDs then Some candidate
          else selectCipherSuite ids supportedIDs ok)"

definition mutualCipherSuite :: "u16 list \<Rightarrow> u16 \<Rightarrow> cipherSuite option" where
  "mutualCipherSuite have want = (if want \<in> set have then cipherSuiteByID want else None)"

subsection \<open>Orders\<close>

definition cipherSuitesPreferenceOrder :: "u16 list" where
  "cipherSuitesPreferenceOrder = [
     TLS_ECDHE_ECDSA_WITH_AES_128_GCM_SHA256, TLS_ECDHE_RSA_WITH_AES_128_GCM_SHA256,
     TLS_ECDHE_ECDSA_WITH_AES_256_GCM_SHA384, TLS_ECDHE_RSA_WITH_AES_256_GCM_SHA384,
     TLS_ECDHE_ECDSA_WITH_CHACHA20_POLY1305, TLS_ECDHE_RSA_WITH_CHACHA20_POLY1305,
     TLS_ECDHE_ECDSA_WITH_AES_128_CBC_SHA, TLS_ECDHE_RSA_WITH_AES_128_CBC_SHA,
     TLS_ECDHE_ECDSA_WITH_AES_256_CBC_SHA, TLS_ECDHE_RSA_WITH_AES_256_CBC_SHA,
     TLS_RSA_WITH_AES_128_GCM_SHA256, TLS_RSA_WITH_AES_256_GCM_SHA384,
     TLS_RSA_WITH_AES_128_CBC_SHA, TLS_RSA_WITH_AES_256_CBC_SHA,
     TLS_ECDHE_RSA_WITH_3DES_EDE_CBC_SHA, TLS_RSA_WITH_3DES_EDE_CBC_SHA,
     TLS_ECDHE_ECDSA_WITH_AES_128_CBC_SHA256, TLS_ECDHE_RSA_WITH_AES_128_CBC_SHA256,
     TLS_RSA_WITH_AES_128_CBC_SHA256,
     TLS_ECDHE_ECDSA_WITH_RC4_128_SHA, TLS_ECDHE_RSA_WITH_RC4_128_SHA, TLS_RSA_WITH_RC4_128_SHA]"

definition cipherSuitesPreferenceOrderNoAES :: "u16 list" where
  "cipherSuitesPreferenceOrderNoAES = [
     TLS_ECDHE_ECDSA_WITH_CHACHA20_POLY1305, TLS_ECDHE_RSA_WITH_CHACHA20_POLY1305,
     TLS_ECDHE_ECDSA_WITH_AES_128_GCM_SHA256, TLS_ECDHE_RSA_WITH_AES_128_GCM_SHA256,
     TLS_ECDHE_ECDSA_WITH_AES_256_GCM_SHA384, TLS_ECDHE_RSA_WITH_AES_256_GCM_SHA384,
     TLS_ECDHE_ECDSA_WITH_AES_128_CBC_SHA, TLS_ECDHE_RSA_WITH_AES_128_CBC_SHA,
     TLS_ECDHE_ECDSA_WITH_AES_256_CBC_SHA, TLS_ECDHE_RSA_WITH_AES_256_CBC_SHA,
     TLS_RSA_WITH_AES_128_GCM_SHA256, TLS_RSA_WITH_AES_256_GCM_SHA384,
     TLS_RSA_WITH_AES_128_CBC_SHA, TLS_RSA_WITH_AES_256_CBC_SHA,
     TLS_ECDHE_RSA_WITH_3DES_EDE_CBC_SHA, TLS_RSA_WITH_3DES_EDE_CBC_SHA,
     TLS_ECDHE_ECDSA_WITH_AES_128_CBC_SHA256, TLS_ECDHE_RSA_WITH_AES_128_CBC_SHA256,
     TLS_RSA_WITH_AES_128_CBC_SHA256,
     TLS_ECDHE_ECDSA_WITH_RC4_128_SHA, TLS_ECDHE_RSA_WITH_RC4_128_SHA, TLS_RSA_WITH_RC4_128_SHA]"

definition disabledCipherSuites :: "u16 list" where
  "disabledCipherSuites = [
     TLS_ECDHE_ECDSA_WITH_AES_128_CBC_SHA256, TLS_ECDHE_RSA_WITH_AES_128_CBC_SHA256, TLS_RSA_WITH_AES_128_CBC_SHA256,
     TLS_ECDHE_ECDSA_WITH_RC4_128_SHA, TLS_ECDHE_RSA_WITH_RC4_128_SHA, TLS_RSA_WITH_RC4_128_SHA]"

definition rsaKexCiphers :: "u16 list" where
  "rsaKexCiphers = [
     TLS_RSA_WITH_RC4_128_SHA, TLS_RSA_WITH_3DES_EDE_CBC_SHA, TLS_RSA_WITH_AES_128_CBC_SHA, TLS_RSA_WITH_AES_256_CBC_SHA,
     TLS_RSA_WITH_AES_128_CBC_SHA256, TLS_RSA_WITH_AES_128_GCM_SHA256, TLS_RSA_WITH_AES_256_GCM_SHA384]"

definition tdesCiphers :: "u16 list" where
  "tdesCiphers = [TLS_ECDHE_RSA_WITH_3DES_EDE_CBC_SHA, TLS_RSA_WITH_3DES_EDE_CBC_SHA]"

definition aesgcmCiphers :: "u16 list" where
  "aesgcmCiphers = [
     TLS_ECDHE_RSA_WITH_AES_128_GCM_SHA256, TLS_ECDHE_RSA_WITH_AES_256_GCM_SHA384,
     TLS_ECDHE_ECDSA_WITH_AES_128_GCM_SHA256, TLS_ECDHE_ECDSA_WITH_AES_256_GCM_SHA384,
     TLS_AES_128_GCM_SHA256, TLS_AES_256_GCM_SHA384]"

fun aesgcm_first :: "u16 list \<Rightarrow> bool" where
  "aesgcm_first [] = False"
| "aesgcm_first (cID # ciphers) =
     (if cipherSuiteByID cID \<noteq> None \<or> cipherSuiteTLS13ByID cID \<noteq> None then cID \<in> set aesgcmCiphers
      else aesgcm_first ciphers)"

text \<open>\<open>hw\<close> is \<open>hasAESGCMHardwareSupport\<close>, a fact about the processor.\<close>

definition isAESGCMPreferred :: "bool \<Rightarrow> u16 list \<Rightarrow> bool" where
  "isAESGCMPreferred hw ciphers = (hw \<and> aesgcm_first ciphers)"

definition supportedCipherSuites :: "bool \<Rightarrow> u16 list" where
  "supportedCipherSuites aesGCMPreferred =
     (if aesGCMPreferred then cipherSuitesPreferenceOrder else cipherSuitesPreferenceOrderNoAES)"

definition defaultCipherSuites :: "bool \<Rightarrow> u16 list" where
  "defaultCipherSuites aesGCMPreferred =
     filter (\<lambda>c. \<not> (c \<in> set disabledCipherSuites \<or> c \<in> set rsaKexCiphers \<or> c \<in> set tdesCiphers))
       (supportedCipherSuites aesGCMPreferred)"

definition defaultCipherSuitesTLS13 :: "u16 list" where
  "defaultCipherSuitesTLS13 = [TLS_AES_128_GCM_SHA256, TLS_AES_256_GCM_SHA384, TLS_CHACHA20_POLY1305_SHA256]"

definition defaultCipherSuitesTLS13NoAES :: "u16 list" where
  "defaultCipherSuitesTLS13NoAES = [TLS_CHACHA20_POLY1305_SHA256, TLS_AES_128_GCM_SHA256, TLS_AES_256_GCM_SHA384]"

subsection \<open>Public lists\<close>

record CipherSuite =
  xs_ID :: u16
  xs_Name :: string
  xs_SupportedVersions :: "u16 list"
  xs_Insecure :: bool

definition supportedUpToTLS12 :: "u16 list" where "supportedUpToTLS12 = [VersionTLS10, VersionTLS11, VersionTLS12]"
definition supportedOnlyTLS12 :: "u16 list" where "supportedOnlyTLS12 = [VersionTLS12]"
definition supportedOnlyTLS13 :: "u16 list" where "supportedOnlyTLS13 = [VersionTLS13]"

definition CipherSuites :: "CipherSuite list" where
  "CipherSuites = [
     \<lparr>xs_ID = TLS_AES_128_GCM_SHA256, xs_Name = ''TLS_AES_128_GCM_SHA256'', xs_SupportedVersions = supportedOnlyTLS13, xs_Insecure = False\<rparr>,
     \<lparr>xs_ID = TLS_AES_256_GCM_SHA384, xs_Name = ''TLS_AES_256_GCM_SHA384'', xs_SupportedVersions = supportedOnlyTLS13, xs_Insecure = False\<rparr>,
     \<lparr>xs_ID = TLS_CHACHA20_POLY1305_SHA256, xs_Name = ''TLS_CHACHA20_POLY1305_SHA256'', xs_SupportedVersions = supportedOnlyTLS13, xs_Insecure = False\<rparr>,
     \<lparr>xs_ID = TLS_ECDHE_ECDSA_WITH_AES_128_CBC_SHA, xs_Name = ''TLS_ECDHE_ECDSA_WITH_AES_128_CBC_SHA'', xs_SupportedVersions = supportedUpToTLS12, xs_Insecure = False\<rparr>,
     \<lparr>xs_ID = TLS_ECDHE_ECDSA_WITH_AES_256_CBC_SHA, xs_Name = ''TLS_ECDHE_ECDSA_WITH_AES_256_CBC_SHA'', xs_SupportedVersions = supportedUpToTLS12, xs_Insecure = False\<rparr>,
     \<lparr>xs_ID = TLS_ECDHE_RSA_WITH_AES_128_CBC_SHA, xs_Name = ''TLS_ECDHE_RSA_WITH_AES_128_CBC_SHA'', xs_SupportedVersions = supportedUpToTLS12, xs_Insecure = False\<rparr>,
     \<lparr>xs_ID = TLS_ECDHE_RSA_WITH_AES_256_CBC_SHA, xs_Name = ''TLS_ECDHE_RSA_WITH_AES_256_CBC_SHA'', xs_SupportedVersions = supportedUpToTLS12, xs_Insecure = False\<rparr>,
     \<lparr>xs_ID = TLS_ECDHE_ECDSA_WITH_AES_128_GCM_SHA256, xs_Name = ''TLS_ECDHE_ECDSA_WITH_AES_128_GCM_SHA256'', xs_SupportedVersions = supportedOnlyTLS12, xs_Insecure = False\<rparr>,
     \<lparr>xs_ID = TLS_ECDHE_ECDSA_WITH_AES_256_GCM_SHA384, xs_Name = ''TLS_ECDHE_ECDSA_WITH_AES_256_GCM_SHA384'', xs_SupportedVersions = supportedOnlyTLS12, xs_Insecure = False\<rparr>,
     \<lparr>xs_ID = TLS_ECDHE_RSA_WITH_AES_128_GCM_SHA256, xs_Name = ''TLS_ECDHE_RSA_WITH_AES_128_GCM_SHA256'', xs_SupportedVersions = supportedOnlyTLS12, xs_Insecure = False\<rparr>,
     \<lparr>xs_ID = TLS_ECDHE_RSA_WITH_AES_256_GCM_SHA384, xs_Name = ''TLS_ECDHE_RSA_WITH_AES_256_GCM_SHA384'', xs_SupportedVersions = supportedOnlyTLS12, xs_Insecure = False\<rparr>,
     \<lparr>xs_ID = TLS_ECDHE_RSA_WITH_CHACHA20_POLY1305, xs_Name = ''TLS_ECDHE_RSA_WITH_CHACHA20_POLY1305_SHA256'', xs_SupportedVersions = supportedOnlyTLS12, xs_Insecure = False\<rparr>,
     \<lparr>xs_ID = TLS_ECDHE_ECDSA_WITH_CHACHA20_POLY1305, xs_Name = ''TLS_ECDHE_ECDSA_WITH_CHACHA20_POLY1305_SHA256'', xs_SupportedVersions = supportedOnlyTLS12, xs_Insecure = False\<rparr>]"

definition InsecureCipherSuites :: "CipherSuite list" where
  "InsecureCipherSuites = [
     \<lparr>xs_ID = TLS_RSA_WITH_RC4_128_SHA, xs_Name = ''TLS_RSA_WITH_RC4_128_SHA'', xs_SupportedVersions = supportedUpToTLS12, xs_Insecure = True\<rparr>,
     \<lparr>xs_ID = TLS_RSA_WITH_3DES_EDE_CBC_SHA, xs_Name = ''TLS_RSA_WITH_3DES_EDE_CBC_SHA'', xs_SupportedVersions = supportedUpToTLS12, xs_Insecure = True\<rparr>,
     \<lparr>xs_ID = TLS_RSA_WITH_AES_128_CBC_SHA, xs_Name = ''TLS_RSA_WITH_AES_128_CBC_SHA'', xs_SupportedVersions = supportedUpToTLS12, xs_Insecure = True\<rparr>,
     \<lparr>xs_ID = TLS_RSA_WITH_AES_256_CBC_SHA, xs_Name = ''TLS_RSA_WITH_AES_256_CBC_SHA'', xs_SupportedVersions = supportedUpToTLS12, xs_Insecure = True\<rparr>,
     \<lparr>xs_ID = TLS_RSA_WITH_AES_128_CBC_SHA256, xs_Name = ''TLS_RSA_WITH_AES_128_CBC_SHA256'', xs_SupportedVersions = supportedOnlyTLS12, xs_Insecure = True\<rparr>,
     \<lparr>xs_ID = TLS_RSA_WITH_AES_128_GCM_SHA256, xs_Name = ''TLS_RSA_WITH_AES_128_GCM_SHA256'', xs_SupportedVersions = supportedOnlyTLS12, xs_Insecure = True\<rparr>,
     \<lparr>xs_ID = TLS_RSA_WITH_AES_256_GCM_SHA384, xs_Name = ''TLS_RSA_WITH_AES_256_GCM_SHA384'', xs_SupportedVersions = supportedOnlyTLS12, xs_Insecure = True\<rparr>,
     \<lparr>xs_ID = TLS_ECDHE_ECDSA_WITH_RC4_128_SHA, xs_Name = ''TLS_ECDHE_ECDSA_WITH_RC4_128_SHA'', xs_SupportedVersions = supportedUpToTLS12, xs_Insecure = True\<rparr>,
     \<lparr>xs_ID = TLS_ECDHE_RSA_WITH_RC4_128_SHA, xs_Name = ''TLS_ECDHE_RSA_WITH_RC4_128_SHA'', xs_SupportedVersions = supportedUpToTLS12, xs_Insecure = True\<rparr>,
     \<lparr>xs_ID = TLS_ECDHE_RSA_WITH_3DES_EDE_CBC_SHA, xs_Name = ''TLS_ECDHE_RSA_WITH_3DES_EDE_CBC_SHA'', xs_SupportedVersions = supportedUpToTLS12, xs_Insecure = True\<rparr>,
     \<lparr>xs_ID = TLS_ECDHE_ECDSA_WITH_AES_128_CBC_SHA256, xs_Name = ''TLS_ECDHE_ECDSA_WITH_AES_128_CBC_SHA256'', xs_SupportedVersions = supportedOnlyTLS12, xs_Insecure = True\<rparr>,
     \<lparr>xs_ID = TLS_ECDHE_RSA_WITH_AES_128_CBC_SHA256, xs_Name = ''TLS_ECDHE_RSA_WITH_AES_128_CBC_SHA256'', xs_SupportedVersions = supportedOnlyTLS12, xs_Insecure = True\<rparr>]"

subsection \<open>Suites of TLS 1.3 and AEADs\<close>

text \<open>The block ciphers of the standard library: \<^term>\<open>None\<close> for a key of a wrong length.\<close>

record aead_lib =
  lib_AESGCM :: "bytes \<Rightarrow> cipher_AEAD option"
  lib_ChaCha20Poly1305 :: "bytes \<Rightarrow> cipher_AEAD option"

definition make_aead :: "aead_lib \<Rightarrow> suite_aead \<Rightarrow> bytes \<Rightarrow> bytes \<Rightarrow> aead may_panic" where
  "make_aead lib kind key nonce =
     (case kind of
        aeadAESGCM \<Rightarrow>
          if length nonce \<noteq> 4 then Inl (PanicMsg ''tls: internal error: wrong nonce length'')
          else (case lib_AESGCM lib key of
                  None \<Rightarrow> Inl (PanicMsg ''crypto/aes: invalid key size'')
                | Some a \<Rightarrow> Inr (prefixNonceAEAD (nonce @ replicate 8 0) a))
      | aeadAESGCMTLS13 \<Rightarrow>
          if length nonce \<noteq> aeadNonceLength then Inl (PanicMsg ''tls: internal error: wrong nonce length'')
          else (case lib_AESGCM lib key of
                  None \<Rightarrow> Inl (PanicMsg ''crypto/aes: invalid key size'')
                | Some a \<Rightarrow> Inr (xorNonceAEAD nonce a))
      | aeadChaCha20Poly1305 \<Rightarrow>
          if length nonce \<noteq> aeadNonceLength then Inl (PanicMsg ''tls: internal error: wrong nonce length'')
          else (case lib_ChaCha20Poly1305 lib key of
                  None \<Rightarrow> Inl (PanicMsg ''chacha20poly1305: bad key length'')
                | Some a \<Rightarrow> Inr (xorNonceAEAD nonce a)))"

definition suitesTLS13 :: "cipherSuiteTLS13 list" where
  "suitesTLS13 = [
     \<lparr>s13_id = TLS_AES_128_GCM_SHA256, s13_keyLen = 16, s13_aead = aeadAESGCMTLS13, s13_hash = SHA256\<rparr>,
     \<lparr>s13_id = TLS_CHACHA20_POLY1305_SHA256, s13_keyLen = 32, s13_aead = aeadChaCha20Poly1305, s13_hash = SHA256\<rparr>,
     \<lparr>s13_id = TLS_AES_256_GCM_SHA384, s13_keyLen = 32, s13_aead = aeadAESGCMTLS13, s13_hash = SHA384\<rparr>]"

definition cipherSuiteTLS13Map :: "u16 \<rightharpoonup> cipherSuiteTLS13" where
  "cipherSuiteTLS13Map = fold (\<lambda>cs m. m(s13_id cs \<mapsto> cs)) suitesTLS13 Map.empty"

definition mutualCipherSuiteTLS13 :: "u16 list \<Rightarrow> u16 \<Rightarrow> cipherSuiteTLS13 option" where
  "mutualCipherSuiteTLS13 have want = (if want \<in> set have then cipherSuiteTLS13Map want else None)"

subsection \<open>The preference orders\<close>

text \<open>
  The rules of the comment above \<open>cipherSuitesPreferenceOrder\<close>, the most important first: anything
  else before RC4, before CBC with SHA-256, before 3DES; ECDHE before anything else; AEADs before CBC;
  AES before ChaCha20 if both peers have AES hardware, after it otherwise; AES-128 before AES-256;
  ECDSA before RSA. A rule that counts against a suite sets its bit.
\<close>

definition suite_rank :: "bool \<Rightarrow> u16 \<Rightarrow> nat" where
  "suite_rank aes i =
     (case cipherSuiteByID i of
        None \<Rightarrow> 0
      | Some c \<Rightarrow>
          (if cs_cipher c = Some cipherRC4 then 128 else 0) +
          (if cs_mac c = Some macSHA256 then 64 else 0) +
          (if cs_cipher c = Some cipher3DES then 32 else 0) +
          (if cs_flags c AND suiteECDHE = 0 then 16 else 0) +
          (if cs_aead c = None then 8 else 0) +
          (if (cs_aead c = Some aeadChaCha20Poly1305) = aes then 4 else 0) +
          (if cs_keyLen c = 32 \<and> cs_aead c \<noteq> Some aeadChaCha20Poly1305 then 2 else 0) +
          (if cs_flags c AND suiteECSign = 0 then 1 else 0))"

lemma preference_ranks:
  "map (suite_rank True) cipherSuitesPreferenceOrder =
    [0, 1, 2, 3, 4, 5, 8, 9, 10, 11, 17, 19, 25, 27, 41, 57, 72, 73, 89, 136, 137, 153]"
  "map (suite_rank False) cipherSuitesPreferenceOrderNoAES =
    [0, 1, 4, 5, 6, 7, 12, 13, 14, 15, 21, 23, 29, 31, 45, 61, 76, 77, 93, 140, 141, 157]"
  by code_simp+

lemma preference_sorted: "sorted_wrt (\<lambda>i j. suite_rank aes i < suite_rank aes j) (supportedCipherSuites aes)"
proof -
  have "sorted_wrt (<) (map (suite_rank aes) (supportedCipherSuites aes))"
    by (cases aes) (simp_all add: supportedCipherSuites_def preference_ranks)
  then show ?thesis by (simp add: sorted_wrt_map)
qed

lemma suites_known:
  assumes "i \<in> set (supportedCipherSuites aes)"
  shows "\<exists>c. cipherSuiteByID i = Some c \<and> cs_id c = i"
proof -
  have "list_all (\<lambda>i. map_option cs_id (cipherSuiteByID i) = Some i) (supportedCipherSuites True)"
    "list_all (\<lambda>i. map_option cs_id (cipherSuiteByID i) = Some i) (supportedCipherSuites False)"
    by code_simp+
  then have "map_option cs_id (cipherSuiteByID i) = Some i" using assms by (cases aes) (auto simp: list_all_iff)
  then show ?thesis by blast
qed

definition mutual :: "u16 list \<Rightarrow> u16 list \<Rightarrow> (cipherSuite \<Rightarrow> bool) \<Rightarrow> u16 \<Rightarrow> bool" where
  "mutual ids supportedIDs ok i \<longleftrightarrow>
     i \<in> set ids \<and> i \<in> set supportedIDs \<and> (\<exists>c. cipherSuiteByID i = Some c \<and> ok c)"

lemma selectCipherSuite_None: "selectCipherSuite ids supp ok = None \<longleftrightarrow> (\<forall>i. \<not> mutual ids supp ok i)"
  by (induction ids) (auto simp: mutual_def split: option.splits)

lemma selectCipherSuite_Some:
  "selectCipherSuite ids supp ok = Some c \<Longrightarrow>
    \<exists>pre i post. ids = pre @ i # post \<and> cipherSuiteByID i = Some c \<and> mutual ids supp ok i \<and> (\<forall>j. \<not> mutual pre supp ok j)"
proof (induction ids)
  case (Cons x ids)
  show ?case
  proof (cases "mutual [x] supp ok x")
    case True
    then have "cipherSuiteByID x = Some c" using Cons.prems by (auto simp: mutual_def)
    then show ?thesis using True by (intro exI [of _ "[]"]) (auto simp: mutual_def)
  next
    case False
    then have "selectCipherSuite ids supp ok = Some c"
      using Cons.prems by (auto simp: mutual_def split: option.splits if_splits)
    then obtain pre i post where p: "ids = pre @ i # post" "cipherSuiteByID i = Some c" "mutual ids supp ok i"
        "\<forall>j. \<not> mutual pre supp ok j" using Cons.IH by blast
    show ?thesis
      by (rule exI [of _ "x # pre"], rule exI [of _ i], rule exI [of _ post]) (use p False in \<open>auto simp: mutual_def\<close>)
  qed
qed simp

text \<open>The choice from a list that is sorted by rank is the best one.\<close>

lemma selectCipherSuite_best:
  assumes "sorted_wrt (\<lambda>i j. suite_rank aes i < suite_rank aes j) ids" "selectCipherSuite ids supp ok = Some c"
  shows "\<exists>i. cipherSuiteByID i = Some c \<and> mutual ids supp ok i \<and> (\<forall>j. mutual ids supp ok j \<longrightarrow> suite_rank aes i \<le> suite_rank aes j)"
proof -
  obtain pre i post where p: "ids = pre @ i # post" "cipherSuiteByID i = Some c" "mutual ids supp ok i"
      "\<forall>j. \<not> mutual pre supp ok j" using selectCipherSuite_Some [OF assms(2)] by blast
  have "suite_rank aes i \<le> suite_rank aes j" if "mutual ids supp ok j" for j
  proof -
    have "j \<notin> set pre" using p(4) that by (auto simp: mutual_def)
    then have "j = i \<or> j \<in> set post" using that p(1) by (auto simp: mutual_def)
    then show ?thesis using assms(1) p(1) by (auto simp: sorted_wrt_append less_imp_le)
  qed
  then show ?thesis using p by blast
qed

end
