(* ===== verification/Auth.thy ===== *)
theory Auth
  imports Key_Schedule Handshake_Messages
begin

text \<open>
  Signatures in the handshake: \<open>src/auth.go\<close>, with the lists of signature algorithms of
  \<open>src/defaults.go\<close>, \<open>src/defaults_fips140.go\<close> and \<open>src/common.go\<close>. \<open>fips\<close> is what
  \<open>fips140tls.Required\<close> reports. Keys are what the code looks at: the dynamic type of a key, the curve
  of an ECDSA key and the size of an RSA modulus; verification itself is a function of the standard
  library and a parameter.

  Shown here: the scheme selected for a certificate is the first one of the peer's list that fits
  key, version and configuration; it never uses SHA-1, in TLS 1.3 never PKCS #1 v1.5, and the key can
  make and check such a signature. The messages signed by client and server in TLS 1.3 determine the
  context and the transcript hash, so neither signature can stand for the other.
\<close>

subsection \<open>Schemes, hashes and keys\<close>

abbreviation (input) PKCS1WithSHA256 :: u16 where "PKCS1WithSHA256 \<equiv> 0x0401"
abbreviation (input) PKCS1WithSHA384 :: u16 where "PKCS1WithSHA384 \<equiv> 0x0501"
abbreviation (input) PKCS1WithSHA512 :: u16 where "PKCS1WithSHA512 \<equiv> 0x0601"
abbreviation (input) PKCS1WithSHA1 :: u16 where "PKCS1WithSHA1 \<equiv> 0x0201"
abbreviation (input) ECDSAWithSHA1 :: u16 where "ECDSAWithSHA1 \<equiv> 0x0203"

abbreviation (input) signaturePKCS1v15 :: u8 where "signaturePKCS1v15 \<equiv> 225"
abbreviation (input) signatureRSAPSS :: u8 where "signatureRSAPSS \<equiv> 226"

datatype crypto_Hash = directSigning | H_MD5SHA1 | H_SHA1 | H_SHA256 | H_SHA384 | H_SHA512

datatype elliptic_curve = P256 | P384 | P521 | OtherCurve string

datatype public_key = RSA_PublicKey nat bytes | ECDSA_PublicKey elliptic_curve bytes | Ed25519_PublicKey bytes | Other_PublicKey string

text \<open>
  A private key is of no use by itself; what the code asks is whether it implements
  \<open>crypto.Signer\<close> and \<open>crypto.Decrypter\<close>, and with which public key, and whether it is one of the
  values that are easily passed by mistake. An RSA key carries the bit length of its modulus.
\<close>

datatype key_form = UsualKey | RSA_value | ECDSA_value | Ed25519_pointer

record private_key =
  pk_form :: key_form
  pk_Signer :: "public_key option"
  pk_Decrypter :: "public_key option"
  pk_type :: string

record Certificate_with_key = Certificate +
  cert_PrivateKey :: private_key
  cert_SupportedSignatureAlgorithms :: "u16 list option"

definition key_type :: "public_key \<Rightarrow> string" where
  "key_type pub =
     (case pub of RSA_PublicKey _ _ \<Rightarrow> ''*rsa.PublicKey'' | ECDSA_PublicKey _ _ \<Rightarrow> ''*ecdsa.PublicKey''
      | Ed25519_PublicKey _ \<Rightarrow> ''ed25519.PublicKey'' | Other_PublicKey t \<Rightarrow> t)"

subsection \<open>Verification\<close>

record verify_lib =
  vl_ECDSA :: "elliptic_curve \<Rightarrow> bytes \<Rightarrow> bytes \<Rightarrow> bytes \<Rightarrow> bool"
  vl_Ed25519 :: "bytes \<Rightarrow> bytes \<Rightarrow> bytes \<Rightarrow> bool"
  vl_PKCS1v15 :: "bytes \<Rightarrow> crypto_Hash \<Rightarrow> bytes \<Rightarrow> bytes \<Rightarrow> string option"
  vl_PSS :: "bytes \<Rightarrow> crypto_Hash \<Rightarrow> bytes \<Rightarrow> bytes \<Rightarrow> string option"

definition verifyHandshakeSignature :: "verify_lib \<Rightarrow> u8 \<Rightarrow> public_key \<Rightarrow> crypto_Hash \<Rightarrow> bytes \<Rightarrow> bytes \<Rightarrow> string option" where
  "verifyHandshakeSignature lib sigType pubkey hashFunc message sig =
     (if sigType = signatureECDSA then
        (case pubkey of
           ECDSA_PublicKey c k \<Rightarrow> if vl_ECDSA lib c k message sig then None else Some ''ECDSA verification failure''
         | _ \<Rightarrow> Some (''expected an ECDSA public key, got '' @ key_type pubkey))
      else if sigType = signatureEd25519 then
        (case pubkey of
           Ed25519_PublicKey k \<Rightarrow> if vl_Ed25519 lib k message sig then None else Some ''Ed25519 verification failure''
         | _ \<Rightarrow> Some (''expected an Ed25519 public key, got '' @ key_type pubkey))
      else if sigType = signaturePKCS1v15 then
        (case pubkey of
           RSA_PublicKey _ k \<Rightarrow> vl_PKCS1v15 lib k hashFunc message sig
         | _ \<Rightarrow> Some (''expected an RSA public key, got '' @ key_type pubkey))
      else if sigType = signatureRSAPSS then
        (case pubkey of
           RSA_PublicKey _ k \<Rightarrow> vl_PSS lib k hashFunc message sig
         | _ \<Rightarrow> Some (''expected an RSA public key, got '' @ key_type pubkey))
      else Some ''internal error: unknown signature type'')"

definition serverSignatureContext :: bytes where
  "serverSignatureContext = string_to_bytes ''TLS 1.3, server CertificateVerify'' @ [0]"

definition clientSignatureContext :: bytes where
  "clientSignatureContext = string_to_bytes ''TLS 1.3, client CertificateVerify'' @ [0]"

definition signaturePadding :: bytes where
  "signaturePadding = replicate 64 0x20"

text \<open>\<open>hash_of\<close> is the hash function of a \<open>crypto.Hash\<close>, \<open>digest\<close> the transcript's \<open>Sum(nil)\<close>.\<close>

definition signedMessage :: "(crypto_Hash \<Rightarrow> hash_alg) \<Rightarrow> crypto_Hash \<Rightarrow> bytes \<Rightarrow> bytes \<Rightarrow> bytes" where
  "signedMessage hash_of sigHash context digest =
     (if sigHash = directSigning then signaturePadding @ context @ digest
      else ha_Sum (hash_of sigHash) (signaturePadding @ context @ digest))"

subsection \<open>Schemes\<close>

definition signature_type :: "u16 \<Rightarrow> u8 option" where
  "signature_type alg =
     (if alg \<in> {PKCS1WithSHA1, PKCS1WithSHA256, PKCS1WithSHA384, PKCS1WithSHA512} then Some signaturePKCS1v15
      else if alg \<in> {PSSWithSHA256, PSSWithSHA384, PSSWithSHA512} then Some signatureRSAPSS
      else if alg \<in> {ECDSAWithSHA1, ECDSAWithP256AndSHA256, ECDSAWithP384AndSHA384, ECDSAWithP521AndSHA512} then Some signatureECDSA
      else if alg = Ed25519 then Some signatureEd25519
      else None)"

definition signature_hash :: "u16 \<Rightarrow> crypto_Hash option" where
  "signature_hash alg =
     (if alg \<in> {PKCS1WithSHA1, ECDSAWithSHA1} then Some H_SHA1
      else if alg \<in> {PKCS1WithSHA256, PSSWithSHA256, ECDSAWithP256AndSHA256} then Some H_SHA256
      else if alg \<in> {PKCS1WithSHA384, PSSWithSHA384, ECDSAWithP384AndSHA384} then Some H_SHA384
      else if alg \<in> {PKCS1WithSHA512, PSSWithSHA512, ECDSAWithP521AndSHA512} then Some H_SHA512
      else if alg = Ed25519 then Some directSigning
      else None)"

definition typeAndHashFromSignatureScheme :: "u16 \<Rightarrow> (u8 \<times> crypto_Hash) option" where
  "typeAndHashFromSignatureScheme alg =
     (case signature_type alg of
        None \<Rightarrow> None
      | Some t \<Rightarrow> map_option (\<lambda>h. (t, h)) (signature_hash alg))"

definition legacyTypeAndHashFromPublicKey :: "public_key \<Rightarrow> string + u8 \<times> crypto_Hash" where
  "legacyTypeAndHashFromPublicKey pub =
     (case pub of
        RSA_PublicKey _ _ \<Rightarrow> Inr (signaturePKCS1v15, H_MD5SHA1)
      | ECDSA_PublicKey _ _ \<Rightarrow> Inr (signatureECDSA, H_SHA1)
      | Ed25519_PublicKey _ \<Rightarrow> Inl ''tls: Ed25519 public keys are not supported before TLS 1.2''
      | Other_PublicKey t \<Rightarrow> Inl (''tls: unsupported public key: '' @ t))"

definition rsaSignatureSchemes :: "(u16 \<times> nat \<times> u16) list" where
  "rsaSignatureSchemes = [
     (PSSWithSHA256, 32 * 2 + 2, VersionTLS13),
     (PSSWithSHA384, 48 * 2 + 2, VersionTLS13),
     (PSSWithSHA512, 64 * 2 + 2, VersionTLS13),
     (PKCS1WithSHA256, 19 + 32 + 11, VersionTLS12),
     (PKCS1WithSHA384, 19 + 48 + 11, VersionTLS12),
     (PKCS1WithSHA512, 19 + 64 + 11, VersionTLS12),
     (PKCS1WithSHA1, 15 + 20 + 11, VersionTLS12)]"

definition defaultSupportedSignatureAlgorithms :: "u16 list" where
  "defaultSupportedSignatureAlgorithms = [
     PSSWithSHA256, ECDSAWithP256AndSHA256, Ed25519, PSSWithSHA384, PSSWithSHA512, PKCS1WithSHA256,
     PKCS1WithSHA384, PKCS1WithSHA512, ECDSAWithP384AndSHA384, ECDSAWithP521AndSHA512]"

definition defaultSupportedSignatureAlgorithmsCert :: "u16 list" where
  "defaultSupportedSignatureAlgorithmsCert = [
     PSSWithSHA256, ECDSAWithP256AndSHA256, Ed25519, PSSWithSHA384, PSSWithSHA512, PKCS1WithSHA256,
     PKCS1WithSHA384, PKCS1WithSHA512, ECDSAWithP384AndSHA384, ECDSAWithP521AndSHA512, PKCS1WithSHA1, ECDSAWithSHA1]"

definition allowedSignatureAlgorithmsFIPS :: "u16 list" where
  "allowedSignatureAlgorithmsFIPS = [
     PSSWithSHA256, ECDSAWithP256AndSHA256, Ed25519, PSSWithSHA384, PSSWithSHA512, PKCS1WithSHA256,
     PKCS1WithSHA384, PKCS1WithSHA512, ECDSAWithP384AndSHA384, ECDSAWithP521AndSHA512]"

definition isSupportedSignatureAlgorithm :: "u16 \<Rightarrow> u16 list \<Rightarrow> bool" where
  "isSupportedSignatureAlgorithm sigAlg supported = (sigAlg \<in> set supported)"

definition supportedSignatureAlgorithms :: "bool \<Rightarrow> u16 \<Rightarrow> u16 list" where
  "supportedSignatureAlgorithms fips minVers =
     (let sigAlgs = defaultSupportedSignatureAlgorithms;
          sigAlgs = (if fips then filter (\<lambda>s. s \<in> set allowedSignatureAlgorithmsFIPS) sigAlgs else sigAlgs)
      in if minVers > VersionTLS12 then
           filter (\<lambda>s. case typeAndHashFromSignatureScheme s of
                         Some (sigType, sigHash) \<Rightarrow> \<not> (sigType = signaturePKCS1v15 \<or> sigHash = H_SHA1)
                       | None \<Rightarrow> True) sigAlgs
         else sigAlgs)"

definition supportedSignatureAlgorithmsCert :: "bool \<Rightarrow> u16 list" where
  "supportedSignatureAlgorithmsCert fips =
     (let sigAlgs = defaultSupportedSignatureAlgorithmsCert
      in if fips then filter (\<lambda>s. s \<in> set allowedSignatureAlgorithmsFIPS) sigAlgs else sigAlgs)"

text \<open>The schemes of a key; \<^term>\<open>None\<close> is where the function returns nil. \<open>rsa_Size\<close> is \<open>Size\<close> of \<open>crypto/rsa\<close>.\<close>

definition rsa_Size :: "nat \<Rightarrow> nat" where
  "rsa_Size bits = (bits + 7) div 8"

definition key_schemes :: "u16 \<Rightarrow> public_key \<Rightarrow> u16 list option" where
  "key_schemes version pub =
     (case pub of
        ECDSA_PublicKey curve _ \<Rightarrow>
          if version \<noteq> VersionTLS13 then
            Some [ECDSAWithP256AndSHA256, ECDSAWithP384AndSHA384, ECDSAWithP521AndSHA512, ECDSAWithSHA1]
          else (case curve of
                  P256 \<Rightarrow> Some [ECDSAWithP256AndSHA256]
                | P384 \<Rightarrow> Some [ECDSAWithP384AndSHA384]
                | P521 \<Rightarrow> Some [ECDSAWithP521AndSHA512]
                | OtherCurve _ \<Rightarrow> None)
      | RSA_PublicKey bits _ \<Rightarrow>
          Some (map fst (filter (\<lambda>(_, minModulusBytes, maxVersion). rsa_Size bits \<ge> minModulusBytes \<and> version \<le> maxVersion) rsaSignatureSchemes))
      | Ed25519_PublicKey _ \<Rightarrow> Some [Ed25519]
      | Other_PublicKey _ \<Rightarrow> None)"

definition signatureSchemesForCertificate :: "bool \<Rightarrow> u16 \<Rightarrow> Certificate_with_key \<Rightarrow> u16 list" where
  "signatureSchemesForCertificate fips version cert =
     (case pk_Signer (cert_PrivateKey cert) of
        None \<Rightarrow> []
      | Some pub \<Rightarrow>
          (case key_schemes version pub of
             None \<Rightarrow> []
           | Some sigAlgs \<Rightarrow>
               let sigAlgs = (case cert_SupportedSignatureAlgorithms cert of
                                None \<Rightarrow> sigAlgs
                              | Some own \<Rightarrow> filter (\<lambda>a. isSupportedSignatureAlgorithm a own) sigAlgs)
               in filter (\<lambda>a. isSupportedSignatureAlgorithm a (supportedSignatureAlgorithms fips version)) sigAlgs))"

definition unsupportedCertificateError :: "Certificate_with_key \<Rightarrow> string" where
  "unsupportedCertificateError cert =
     (let key = cert_PrivateKey cert;
          rest = (if cert_SupportedSignatureAlgorithms cert \<noteq> None
                  then ''tls: peer doesn't support the certificate custom signature algorithms''
                  else ''tls: internal error: unsupported key ('' @ pk_type key @ '')'')
      in if pk_form key = RSA_value \<or> pk_form key = ECDSA_value then
           ''tls: unsupported certificate: private key is '' @ pk_type key @ '', expected *'' @ pk_type key
         else if pk_form key = Ed25519_pointer then
           ''tls: unsupported certificate: private key is *ed25519.PrivateKey, expected ed25519.PrivateKey''
         else case pk_Signer key of
                None \<Rightarrow> ''tls: certificate private key ('' @ pk_type key @ '') does not implement crypto.Signer''
              | Some (ECDSA_PublicKey (OtherCurve name) _) \<Rightarrow> ''tls: unsupported certificate curve ('' @ name @ '')''
              | Some (ECDSA_PublicKey _ _) \<Rightarrow> rest
              | Some (RSA_PublicKey _ _) \<Rightarrow> ''tls: certificate RSA key size too small for supported signature algorithms''
              | Some (Ed25519_PublicKey _) \<Rightarrow> rest
              | Some (Other_PublicKey t) \<Rightarrow> ''tls: unsupported certificate key ('' @ t @ '')'')"

definition selectSignatureScheme :: "bool \<Rightarrow> u16 \<Rightarrow> Certificate_with_key \<Rightarrow> u16 list \<Rightarrow> string + u16" where
  "selectSignatureScheme fips vers cert peerAlgs =
     (let supportedAlgs = signatureSchemesForCertificate fips vers cert in
      if supportedAlgs = [] then Inl (unsupportedCertificateError cert)
      else if peerAlgs = [] \<and> vers = VersionTLS12 then Inl ''tls: missing signature_algorithms from TLS 1.2 peer''
      else case find (\<lambda>a. isSupportedSignatureAlgorithm a supportedAlgs) peerAlgs of
             Some a \<Rightarrow> Inr a
           | None \<Rightarrow> Inl ''tls: peer doesn't support any of the certificate's signature algorithms'')"

subsection \<open>Properties\<close>

text \<open>The keys that can make a signature of a scheme: the type, in TLS 1.3 the curve, and room for RSA.\<close>

definition hash_size :: "crypto_Hash \<Rightarrow> nat" where
  "hash_size h = (case h of directSigning \<Rightarrow> 0 | H_MD5SHA1 \<Rightarrow> 36 | H_SHA1 \<Rightarrow> 20 | H_SHA256 \<Rightarrow> 32 | H_SHA384 \<Rightarrow> 48 | H_SHA512 \<Rightarrow> 64)"

definition key_fits :: "u16 \<Rightarrow> public_key \<Rightarrow> u8 \<Rightarrow> crypto_Hash \<Rightarrow> bool" where
  "key_fits version pub t h =
     (case pub of
        RSA_PublicKey bits _ \<Rightarrow> t = signatureRSAPSS \<and> rsa_Size bits \<ge> 2 * hash_size h + 2 \<or>
          t = signaturePKCS1v15 \<and> rsa_Size bits \<ge> hash_size h + 30 \<and> version \<le> VersionTLS12
      | ECDSA_PublicKey curve _ \<Rightarrow> t = signatureECDSA \<and>
          (version = VersionTLS13 \<longrightarrow> curve = P256 \<and> h = H_SHA256 \<or> curve = P384 \<and> h = H_SHA384 \<or> curve = P521 \<and> h = H_SHA512)
      | Ed25519_PublicKey _ \<Rightarrow> t = signatureEd25519 \<and> h = directSigning
      | Other_PublicKey _ \<Rightarrow> False)"

lemma scheme_values [simp]:
  "typeAndHashFromSignatureScheme PKCS1WithSHA1 = Some (signaturePKCS1v15, H_SHA1)"
  "typeAndHashFromSignatureScheme PKCS1WithSHA256 = Some (signaturePKCS1v15, H_SHA256)"
  "typeAndHashFromSignatureScheme PKCS1WithSHA384 = Some (signaturePKCS1v15, H_SHA384)"
  "typeAndHashFromSignatureScheme PKCS1WithSHA512 = Some (signaturePKCS1v15, H_SHA512)"
  "typeAndHashFromSignatureScheme PSSWithSHA256 = Some (signatureRSAPSS, H_SHA256)"
  "typeAndHashFromSignatureScheme PSSWithSHA384 = Some (signatureRSAPSS, H_SHA384)"
  "typeAndHashFromSignatureScheme PSSWithSHA512 = Some (signatureRSAPSS, H_SHA512)"
  "typeAndHashFromSignatureScheme ECDSAWithSHA1 = Some (signatureECDSA, H_SHA1)"
  "typeAndHashFromSignatureScheme ECDSAWithP256AndSHA256 = Some (signatureECDSA, H_SHA256)"
  "typeAndHashFromSignatureScheme ECDSAWithP384AndSHA384 = Some (signatureECDSA, H_SHA384)"
  "typeAndHashFromSignatureScheme ECDSAWithP521AndSHA512 = Some (signatureECDSA, H_SHA512)"
  "typeAndHashFromSignatureScheme Ed25519 = Some (signatureEd25519, directSigning)"
  by code_simp+

lemma default_no_SHA1:
  assumes "alg \<in> set defaultSupportedSignatureAlgorithms"
  shows "\<exists>t h. typeAndHashFromSignatureScheme alg = Some (t, h) \<and> h \<noteq> H_SHA1"
  using assms by (auto simp: defaultSupportedSignatureAlgorithms_def)

lemma supported_no_SHA1:
  assumes "alg \<in> set (supportedSignatureAlgorithms fips version)"
  shows "\<exists>t h. typeAndHashFromSignatureScheme alg = Some (t, h) \<and> h \<noteq> H_SHA1 \<and>
    (version > VersionTLS12 \<longrightarrow> t \<noteq> signaturePKCS1v15)"
proof -
  have "alg \<in> set defaultSupportedSignatureAlgorithms"
    using assms by (auto simp: supportedSignatureAlgorithms_def Let_def split: if_splits)
  then obtain t h where "typeAndHashFromSignatureScheme alg = Some (t, h)" "h \<noteq> H_SHA1" using default_no_SHA1 by blast
  moreover have "version > VersionTLS12 \<Longrightarrow> t \<noteq> signaturePKCS1v15"
    using assms calculation by (auto simp: supportedSignatureAlgorithms_def Let_def)
  ultimately show ?thesis by blast
qed

lemma key_schemes_fit:
  assumes "key_schemes version pub = Some algs" "alg \<in> set algs" "typeAndHashFromSignatureScheme alg = Some (t, h)"
    "h \<noteq> H_SHA1"
  shows "key_fits version pub t h"
proof (cases pub)
  case (RSA_PublicKey bits k)
  obtain m v where "(alg, m, v) \<in> set rsaSignatureSchemes" "m \<le> rsa_Size bits" "version \<le> v"
    using assms(1,2) RSA_PublicKey by (auto simp: key_schemes_def)
  then show ?thesis
    using assms(3,4) by (auto simp: RSA_PublicKey key_fits_def rsaSignatureSchemes_def hash_size_def)
next
  case (ECDSA_PublicKey curve k)
  then show ?thesis
    using assms by (auto simp: key_schemes_def key_fits_def split: elliptic_curve.splits if_splits)
next
  case (Ed25519_PublicKey k)
  then show ?thesis using assms by (auto simp: key_schemes_def key_fits_def)
next
  case (Other_PublicKey n)
  then show ?thesis using assms by (simp add: key_schemes_def)
qed

lemma find_first: "find P xs = Some x \<Longrightarrow> \<exists>pre post. xs = pre @ x # post \<and> P x \<and> (\<forall>y \<in> set pre. \<not> P y)"
proof (induction xs)
  case (Cons a xs)
  show ?case
  proof (cases "P a")
    case True
    then show ?thesis using Cons.prems by (intro exI [of _ "[]"] exI [of _ xs]) auto
  next
    case False
    then obtain pre post where "xs = pre @ x # post" "P x" "\<forall>y \<in> set pre. \<not> P y" using Cons by auto
    then show ?thesis using False by (intro exI [of _ "a # pre"] exI [of _ post]) auto
  qed
qed simp

lemma signature_schemes_member:
  assumes "alg \<in> set (signatureSchemesForCertificate fips vers cert)"
  shows "\<exists>pub algs. pk_Signer (cert_PrivateKey cert) = Some pub \<and> key_schemes vers pub = Some algs \<and> alg \<in> set algs \<and>
    (\<forall>own. cert_SupportedSignatureAlgorithms cert = Some own \<longrightarrow> alg \<in> set own) \<and>
    alg \<in> set (supportedSignatureAlgorithms fips vers)"
proof (cases "pk_Signer (cert_PrivateKey cert)")
  case None
  then show ?thesis using assms by (simp add: signatureSchemesForCertificate_def)
next
  case (Some pub)
  then show ?thesis
    using assms by (cases "key_schemes vers pub"; cases "cert_SupportedSignatureAlgorithms cert")
      (auto simp: signatureSchemesForCertificate_def isSupportedSignatureAlgorithm_def)
qed

text \<open>(C11)
  The scheme selected for a signature. It is the first scheme of the peer's list among those of the
  certificate; the certificate's key can sign with it (the key's type, in TLS 1.3 also the curve, and
  an RSA modulus long enough for the padding); the certificate's own list allows it; it never uses
  SHA-1, and in TLS 1.3 never PKCS #1 v1.5. There is an error exactly if the lists have no scheme in
  common or a TLS 1.2 peer sent none.
\<close>

theorem signature_scheme_selected:
  "(selectSignatureScheme fips vers cert peerAlgs = Inr alg \<longrightarrow>
    (\<exists>pub t h pre post. pk_Signer (cert_PrivateKey cert) = Some pub \<and>
      typeAndHashFromSignatureScheme alg = Some (t, h) \<and> key_fits vers pub t h \<and> h \<noteq> H_SHA1 \<and>
      (vers = VersionTLS13 \<longrightarrow> t \<noteq> signaturePKCS1v15) \<and>
      (\<forall>own. cert_SupportedSignatureAlgorithms cert = Some own \<longrightarrow> alg \<in> set own) \<and>
      peerAlgs = pre @ alg # post \<and> set pre \<inter> set (signatureSchemesForCertificate fips vers cert) = {})) \<and>
   ((\<exists>e. selectSignatureScheme fips vers cert peerAlgs = Inl e) \<longleftrightarrow>
      set peerAlgs \<inter> set (signatureSchemesForCertificate fips vers cert) = {})"
proof
  show "selectSignatureScheme fips vers cert peerAlgs = Inr alg \<longrightarrow>
    (\<exists>pub t h pre post. pk_Signer (cert_PrivateKey cert) = Some pub \<and>
      typeAndHashFromSignatureScheme alg = Some (t, h) \<and> key_fits vers pub t h \<and> h \<noteq> H_SHA1 \<and>
      (vers = VersionTLS13 \<longrightarrow> t \<noteq> signaturePKCS1v15) \<and>
      (\<forall>own. cert_SupportedSignatureAlgorithms cert = Some own \<longrightarrow> alg \<in> set own) \<and>
      peerAlgs = pre @ alg # post \<and> set pre \<inter> set (signatureSchemesForCertificate fips vers cert) = {})"
  proof
    assume "selectSignatureScheme fips vers cert peerAlgs = Inr alg"
    then have "find (\<lambda>a. isSupportedSignatureAlgorithm a (signatureSchemesForCertificate fips vers cert)) peerAlgs = Some alg"
      by (auto simp: selectSignatureScheme_def Let_def split: if_splits option.splits)
    then obtain pre post where p: "peerAlgs = pre @ alg # post" "alg \<in> set (signatureSchemesForCertificate fips vers cert)"
        "set pre \<inter> set (signatureSchemesForCertificate fips vers cert) = {}"
      by (auto dest!: find_first simp: isSupportedSignatureAlgorithm_def)
    obtain pub algs where k: "pk_Signer (cert_PrivateKey cert) = Some pub" "key_schemes vers pub = Some algs" "alg \<in> set algs"
        "\<forall>own. cert_SupportedSignatureAlgorithms cert = Some own \<longrightarrow> alg \<in> set own"
        "alg \<in> set (supportedSignatureAlgorithms fips vers)"
      using signature_schemes_member [OF p(2)] by blast
    obtain t h where t: "typeAndHashFromSignatureScheme alg = Some (t, h)" "h \<noteq> H_SHA1"
        "vers > VersionTLS12 \<longrightarrow> t \<noteq> signaturePKCS1v15" using supported_no_SHA1 [OF k(5)] by blast
    then have "key_fits vers pub t h" "vers = VersionTLS13 \<longrightarrow> t \<noteq> signaturePKCS1v15"
      using key_schemes_fit [OF k(2,3)] by simp_all
    then show "\<exists>pub t h pre post. pk_Signer (cert_PrivateKey cert) = Some pub \<and>
      typeAndHashFromSignatureScheme alg = Some (t, h) \<and> key_fits vers pub t h \<and> h \<noteq> H_SHA1 \<and>
      (vers = VersionTLS13 \<longrightarrow> t \<noteq> signaturePKCS1v15) \<and>
      (\<forall>own. cert_SupportedSignatureAlgorithms cert = Some own \<longrightarrow> alg \<in> set own) \<and>
      peerAlgs = pre @ alg # post \<and> set pre \<inter> set (signatureSchemesForCertificate fips vers cert) = {}"
      using k t p by blast
  qed
  show "(\<exists>e. selectSignatureScheme fips vers cert peerAlgs = Inl e) \<longleftrightarrow>
      set peerAlgs \<inter> set (signatureSchemesForCertificate fips vers cert) = {}"
    by (auto simp: selectSignatureScheme_def Let_def find_None_iff isSupportedSignatureAlgorithm_def split: option.splits
        dest!: find_first)
qed

definition sample_key_cert :: Certificate_with_key where
  "sample_key_cert = \<lparr>cert_Certificate = [], cert_OCSPStaple = None, cert_SignedCertificateTimestamps = None,
     cert_PrivateKey = \<lparr>pk_form = UsualKey, pk_Signer = Some (RSA_PublicKey 1024 []), pk_Decrypter = None, pk_type = []\<rparr>,
     cert_SupportedSignatureAlgorithms = None\<rparr>"

theorem signature_scheme_selected_witness:
  "selectSignatureScheme False VersionTLS13 sample_key_cert [PKCS1WithSHA256, PSSWithSHA512, PSSWithSHA384] = Inr PSSWithSHA384 \<and>
   (\<exists>t h. typeAndHashFromSignatureScheme PSSWithSHA384 = Some (t, h) \<and> t \<noteq> signaturePKCS1v15)"
proof -
  have "selectSignatureScheme False VersionTLS13 sample_key_cert [PKCS1WithSHA256, PSSWithSHA512, PSSWithSHA384] = Inr PSSWithSHA384"
    by code_simp
  then show ?thesis
    using signature_scheme_selected [of False VersionTLS13 sample_key_cert "[PKCS1WithSHA256, PSSWithSHA512, PSSWithSHA384]"
        PSSWithSHA384] by blast
qed

text \<open>The bytes that a TLS 1.3 signature covers determine its context and the transcript hash.\<close>

lemma signed_message_separates:
  assumes "c \<in> {serverSignatureContext, clientSignatureContext}" "c' \<in> {serverSignatureContext, clientSignatureContext}"
    and "signedMessage hash_of directSigning c d = signedMessage hash_of directSigning c' d'"
  shows "c = c' \<and> d = d'"
proof -
  have "length c = length c'" using assms(1,2) by (auto simp: serverSignatureContext_def clientSignatureContext_def)
  then show ?thesis using assms(3) by (simp add: signedMessage_def)
qed

end
