(* ===== verification/Server_Handshake.thy ===== *)
theory Server_Handshake
  imports Conn_Handshake Cert_Plan Cipher_Suites Auth
begin

text \<open>
  The server's TLS 1.3 handshake as REALITY runs it (\<open>src/handshake_server_tls13.go\<close>): \<open>handshake\<close>
  takes the ServerHello of the target, replaces its key share, chooses and fills a certificate, and
  sends the flight with the record lengths borrowed from the target; \<open>readClientFinished\<close> ends it.

  The state \<open>hs13\<close> is \<open>serverHandshakeStateTLS13\<close> with the connection in it and the fields of \<open>Conn\<close>
  that only the handshake uses, and the process's destination metadata and cached plans. The functions of the standard library (X25519, ML-KEM, Ed25519), the
  callbacks of the configuration and the key log are fields of \<open>server_env\<close>.
\<close>

subsection \<open>State and environment\<close>

record EncryptedClientHelloKey =
  ek_Config :: bytes
  ek_PrivateKey :: bytes
  ek_SendAsRetry :: bool

record hs13 =
  h_c :: conn
  h_clientHello :: clientHelloMsg
  h_hello :: serverHelloMsg
  h_sentDummyCCS :: bool
  h_usingPSK :: bool
  h_earlyData :: bool
  h_suite :: "cipherSuiteTLS13 option"
  h_cert :: Certificate_with_key
  h_sigAlg :: u16
  h_earlySecret :: "EarlySecret option"
  h_sharedKey :: "bytes option"
  h_handshakeSecret :: "HandshakeSecret option"
  h_masterSecret :: "MasterSecret option"
  h_trafficSecret :: bytes
  h_transcript :: bytes
  h_clientFinished :: bytes
  h_echContext :: bool
  h_serverName :: string
  h_clientProtocol :: string
  h_AuthKey :: bytes
  h_amortizeProfile :: "RealityProfile option"
  h_resumptionSecret :: bytes
  h_destMeta :: destMeta
  h_certPlans :: certPlanCache

text \<open>
  \<open>env_key\<close> is the private key that \<open>GenerateKey\<close> makes, \<^term>\<open>None\<close> if the random source fails.
  \<open>env_share_offset\<close> is where \<open>serverShare.data\<close> lies in \<open>hello.original\<close>, of which it is a part, and
  \<open>env_behind\<close> what the array holds behind \<open>original\<close>: cryptobyte returns slices of its input.
\<close>

record server_env =
  env_suites :: aead_lib
  env_key :: "bytes option"
  env_X25519_public :: "bytes \<Rightarrow> bytes"
  env_X25519 :: "bytes \<Rightarrow> bytes \<Rightarrow> bytes option"
  env_NewEncapsulationKey768 :: "bytes \<Rightarrow> bool"
  env_Encapsulate :: "bytes \<Rightarrow> bytes \<times> bytes"
  env_share_offset :: nat
  env_behind :: bytes
  env_Sign :: "u16 \<Rightarrow> bytes \<Rightarrow> string + bytes"
  env_hash :: "crypto_Hash \<Rightarrow> hash_alg"
  env_writeKeyLog :: "string \<Rightarrow> bytes \<Rightarrow> bytes \<Rightarrow> conn_error option"
  env_quicGetTransportParameters :: "conn \<Rightarrow> (conn_error + bytes) \<times> conn"
  env_ClientAuth :: int
  env_ClientCAs :: "bytes list option"
  env_fips :: bool
  env_EncryptedClientHelloKeys :: "clientHelloMsg \<Rightarrow> conn_error + EncryptedClientHelloKey list"
  env_Dest :: string
  env_ServerName :: string
  env_Mldsa65Key :: bytes
  env_certs :: cert_lib
  env_globals :: cert_globals
  env_clock :: gotime
  env_pooled :: "pooledHMAC option"
  env_plan_order :: "certPlanCacheKey list"

text \<open>One step of the handshake, and two steps with the error check between them.\<close>

type_synonym 's step = "'s \<Rightarrow> (conn_error option \<times> 's) may_panic"

definition and_then :: "'s step \<Rightarrow> 's step \<Rightarrow> 's step" where
  "and_then f g s =
     (case f s of Inl p \<Rightarrow> Inl p | Inr (Some e, s) \<Rightarrow> Inr (Some e, s) | Inr (None, s) \<Rightarrow> g s)"

text \<open>A computation that may panic and whose result goes into the state.\<close>

definition computing :: "('s \<Rightarrow> 'a may_panic) \<Rightarrow> ('a \<Rightarrow> 's \<Rightarrow> 's) \<Rightarrow> 's step" where
  "computing f put s = map_sum id (\<lambda>x. (None, put x s)) (f s)"

definition on_conn :: "(conn \<Rightarrow> (conn_error option \<times> conn) may_panic) \<Rightarrow> hs13 step" where
  "on_conn f s = map_sum id (\<lambda>(e, c). (e, s\<lparr>h_c := c\<rparr>)) (f (h_c s))"

definition write_msg :: "'b cryptobyte \<Rightarrow> (hs13 \<Rightarrow> handshakeMessage) \<Rightarrow> hs13 step" where
  "write_msg cb msg s =
     map_sum id (\<lambda>((_, e), transcript, c).
         (e, s\<lparr>h_c := c, h_transcript := (case transcript of Some t \<Rightarrow> t | None \<Rightarrow> h_transcript s)\<rparr>))
       (writeHandshakeRecord cb (h_c s) (msg s) (Some (h_transcript s)))"

definition key_log :: "server_env \<Rightarrow> string \<Rightarrow> (hs13 \<Rightarrow> bytes) \<Rightarrow> hs13 step" where
  "key_log env label secret s =
     (case env_writeKeyLog env label (ch_random (h_clientHello s)) (secret s) of
        None \<Rightarrow> Inr (None, s)
      | Some e \<Rightarrow> map_sum id (\<lambda>(_, c). (Some e, s\<lparr>h_c := c\<rparr>)) (sendAlert (h_c s) alertInternalError))"

text \<open>\<open>setTrafficSecret\<close> with the key schedule and the AEADs of the suite; the constructors may panic.\<close>

definition suite_set_secret :: "aead_lib \<Rightarrow> cipherSuiteTLS13 \<Rightarrow> nat \<Rightarrow> bytes \<Rightarrow> halfConn \<Rightarrow> halfConn may_panic" where
  "suite_set_secret lib st level secret hc =
     (case trafficKey st secret of
        Inl p \<Rightarrow> Inl p
      | Inr (key, iv) \<Rightarrow>
          map_sum id (\<lambda>a. setTrafficSecret hc (\<lambda>_. (key, iv)) (\<lambda>_ _. a) level secret)
            (make_aead lib (s13_aead st) key iv))"

abbreviation (input) QUICEncryptionLevelHandshake :: nat where "QUICEncryptionLevelHandshake \<equiv> 2"
abbreviation (input) QUICEncryptionLevelApplication :: nat where "QUICEncryptionLevelApplication \<equiv> 3"
abbreviation (input) alertIllegalParameter :: u8 where "alertIllegalParameter \<equiv> 47"
abbreviation (input) alertDecryptError :: u8 where "alertDecryptError \<equiv> 51"
abbreviation (input) alertHandshakeFailure :: u8 where "alertHandshakeFailure \<equiv> 40"

subsection \<open>Key exchange\<close>

definition peer_data :: "keyShare list \<Rightarrow> u16 \<Rightarrow> bytes" where
  "peer_data shares grp =
     (case find (\<lambda>ks. ks_group ks = grp) shares of Some ks \<Rightarrow> ks_data ks | None \<Rightarrow> [])"

text \<open>\<open>copy(hs.hello.serverShare.data, new)\<close>, which also changes \<open>hello.original\<close>.\<close>

definition patch_share :: "nat \<Rightarrow> bytes \<Rightarrow> serverHelloMsg \<Rightarrow> serverHelloMsg" where
  "patch_share off new hello =
     (let data = copy_at 0 new (ks_data (sh_serverShare hello)) in
      hello\<lparr>sh_serverShare := (sh_serverShare hello)\<lparr>ks_data := data\<rparr>,
            sh_original := map_option (overwrite off data) (sh_original hello)\<rparr>)"

text \<open>\<open>serverShare.data[:32]\<close>: a slice may grow up to the end of its array.\<close>

definition share_prefix :: "nat \<Rightarrow> bytes \<Rightarrow> serverHelloMsg \<Rightarrow> bytes may_panic" where
  "share_prefix off behind hello =
     (let room = (case sh_original hello of Some b \<Rightarrow> drop off b | None \<Rightarrow> []) @ behind in
      if length (ks_data (sh_serverShare hello)) \<ge> 32 then Inr (take 32 (ks_data (sh_serverShare hello)))
      else if length room \<ge> 32 then Inr (take 32 room)
      else Inl SliceBounds)"

abbreviation (input) EncapsulationKeySize768 :: nat where "EncapsulationKeySize768 \<equiv> 1184"

text \<open>The hybrid part: ML-KEM's secret goes in front of the X25519 one, its ciphertext in front of the key.\<close>

definition mlkem_exchange :: "server_env \<Rightarrow> bytes \<Rightarrow> hs13 step" where
  "mlkem_exchange env peerData s =
     (let ek = take EncapsulationKeySize768 peerData in
      if \<not> env_NewEncapsulationKey768 env ek then
        on_conn (\<lambda>c. alert_error c alertIllegalParameter ''tls: invalid X25519MLKEM768 client key share'') s
      else
        let (mlkemSharedSecret, ciphertext) = env_Encapsulate env ek;
            s = s\<lparr>h_sharedKey := Some (mlkemSharedSecret @ (case h_sharedKey s of Some k \<Rightarrow> k | None \<Rightarrow> []))\<rparr>
        in case share_prefix (env_share_offset env) (env_behind env) (h_hello s) of
             Inl p \<Rightarrow> Inl p
           | Inr pre \<Rightarrow> Inr (None, s\<lparr>h_hello := patch_share (env_share_offset env) (ciphertext @ pre) (h_hello s)\<rparr>))"

definition key_exchange :: "server_env \<Rightarrow> hs13 step" where
  "key_exchange env s =
     (case cipherSuiteTLS13Map (sh_cipherSuite (h_hello s)) of
        None \<Rightarrow> Inl NilDeref
      | Some st \<Rightarrow>
          let s = s\<lparr>h_suite := Some st, h_c := (h_c s)\<lparr>c_cipherSuite := s13_id st\<rparr>, h_transcript := []\<rparr>;
              grp = ks_group (sh_serverShare (h_hello s));
              peerData = peer_data (ch_keyShares (h_clientHello s)) grp
          in if grp = X25519MLKEM768 \<and> length peerData < EncapsulationKeySize768 then Inl SliceBounds
          else let peerPub = (if grp = X25519MLKEM768 then drop EncapsulationKeySize768 peerData else peerData) in
          (case env_key env of
             None \<Rightarrow> Inl NilDeref
           | Some key \<Rightarrow>
               if length peerPub \<noteq> 32 then Inl NilDeref
               else
                 let s = s\<lparr>h_hello := patch_share (env_share_offset env) (env_X25519_public env key) (h_hello s),
                           h_sharedKey := env_X25519 env key peerPub\<rparr>
                 in and_then (if grp = X25519MLKEM768 then mlkem_exchange env peerData else (\<lambda>s. Inr (None, s)))
                      (\<lambda>s. Inr (None, s\<lparr>h_serverName := ch_serverName (h_clientHello s)\<rparr>)) s))"

subsection \<open>The certificate\<close>

definition cert_mode :: "halfConn \<Rightarrow> u8" where
  "cert_mode out =
     (if hc_handshakeLen out ! 2 > 512 then RecordModeCoalesced
      else if hc_handshakeBuf out \<noteq> None then RecordModeCoalesced else RecordModeSplit)"

definition cert_dest :: "server_env \<Rightarrow> clientHelloMsg \<Rightarrow> string" where
  "cert_dest env ch =
     (let dest = (if env_Dest env = [] then env_ServerName env else env_Dest env)
      in if dest = [] then ch_serverName ch else dest)"

definition cert_budget :: "server_env \<Rightarrow> hs13 \<Rightarrow> int" where
  "cert_budget env s =
     (let out = c_out (h_c s) in
      if cert_mode out = RecordModeSplit then hc_handshakeLen out ! 3
      else CoalescedCertBudgetForDest (hc_handshakeLen out ! 2) (cert_dest env (h_clientHello s)) (h_destMeta s))"

text \<open>The plan, or the fallback where the plan would not fit.\<close>

definition guard_plan :: "cert_lib \<Rightarrow> cert_globals \<Rightarrow> bool \<Rightarrow> u8 \<Rightarrow> int \<Rightarrow> CertPlan option \<Rightarrow> CertPlan option" where
  "guard_plan lib g mldsa mode budget plan =
     (if plan \<noteq> None \<and> budget > 0 then
        if mode = RecordModeSplit \<and> \<not> certPlanFitsBudget plan budget then fallbackCertPlan lib g mldsa
        else if mode = RecordModeCoalesced \<and> \<not> certPlanFitsInnerBudget plan budget then fallbackCertPlan lib g mldsa
        else plan
      else plan)"

definition choose_plan :: "server_env \<Rightarrow> hs13 \<Rightarrow> CertPlan option \<times> certPlanCache" where
  "choose_plan env s =
     (let mldsa = (length (env_Mldsa65Key env) > 0);
          mode = cert_mode (c_out (h_c s));
          dest = cert_dest env (h_clientHello s);
          meta = ResolveDestCertMeta (h_amortizeProfile s) dest (ch_serverName (h_clientHello s)) (h_destMeta s);
          budget = cert_budget env s;
          (plan, cache) = GetCertPlanWithMeta (env_certs env) (env_globals env) (env_clock env) (env_plan_order env)
            budget mldsa mode dest meta (ShapeHintFromMeta meta) (h_destMeta s) (h_certPlans s)
      in (guard_plan (env_certs env) (env_globals env) mldsa mode budget plan, cache))"

text \<open>The path without a plan: the certificates that \<open>init\<close> made.\<close>

definition historical_cert :: "server_env \<Rightarrow> hs13 \<Rightarrow> (string + bytes list) may_panic" where
  "historical_cert env s =
     (let g = env_globals env; lib = env_certs env;
          mldsa = (length (env_Mldsa65Key env) > 0);
          cert = (if mldsa then cg_signedCertMldsa65 g else cg_signedCert g)
      in if length (cg_ed25519Priv g) < 32 \<or> length cert < 64 then Inl SliceBounds
         else
           let h = \<lparr>ph_key = h_AuthKey s, ph_written = drop 32 (cg_ed25519Priv g)\<rparr>;
               cert = overwrite (length cert - 64) (hmac_Sum lib h) cert
           in if mldsa then
                let h = h\<lparr>ph_written := ph_written h @
                      (case ch_original (h_clientHello s) of Some b \<Rightarrow> b | None \<Rightarrow> []) @
                      (case sh_original (h_hello s) of Some b \<Rightarrow> b | None \<Rightarrow> [])\<rparr>
                in case cl_UnmarshalBinaryPrivateKey lib (env_Mldsa65Key env) of
                     None \<Rightarrow> Inr (Inl ''REALITY: invalid Mldsa65Key'')
                   | Some priv \<Rightarrow>
                       if length cert < 126 + mldsa65SigSize then Inl SliceBounds
                       else Inr (Inr [overwrite 126 (cl_SignTo lib priv (hmac_Sum lib h)) cert])
              else Inr (Inr [cert]))"

definition put_cert :: "cert_globals \<Rightarrow> bytes list \<Rightarrow> hs13 \<Rightarrow> hs13" where
  "put_cert g chain s =
     s\<lparr>h_cert := \<lparr>cert_Certificate = chain, cert_OCSPStaple = None, cert_SignedCertificateTimestamps = None,
          cert_PrivateKey = \<lparr>pk_form = UsualKey, pk_Signer = Some (Ed25519_PublicKey (drop 32 (cg_ed25519Priv g))), pk_Decrypter = None,
            pk_type = ''ed25519.PrivateKey''\<rparr>,
          cert_SupportedSignatureAlgorithms = None\<rparr>,
       h_sigAlg := Ed25519\<rparr>"

definition choose_cert :: "server_env \<Rightarrow> CertPlan option \<Rightarrow> hs13 step" where
  "choose_cert env plan s =
     (case (if plan = None then historical_cert env s
            else map_sum id (map_sum (\<lambda>e. ''REALITY: materialize cert: '' @ e) id) (MaterializeCert (env_certs env) (env_globals env) (env_pooled env) plan (h_AuthKey s) (env_Mldsa65Key env)
                   (case ch_original (h_clientHello s) of Some b \<Rightarrow> b | None \<Rightarrow> [])
                   (case sh_original (h_hello s) of Some b \<Rightarrow> b | None \<Rightarrow> []))) of
        Inl p \<Rightarrow> Inl p
      | Inr (Inl e) \<Rightarrow> Inr (Some (ErrorMsg e), s)
      | Inr (Inr chain) \<Rightarrow> Inr (None, put_cert (env_globals env) chain s))"

subsection \<open>The server's flight\<close>

definition sendDummyChangeCipherSpec :: "hs13 step" where
  "sendDummyChangeCipherSpec s =
     (if c_quic (h_c s) \<noteq> None then Inr (None, s)
      else if h_sentDummyCCS s then Inr (None, s)
      else on_conn writeChangeCipherRecord (s\<lparr>h_sentDummyCCS := True\<rparr>))"

text \<open>The confirmation of an accepted Encrypted ClientHello, in the last bytes of the random.\<close>

definition put_random_tail :: "bytes \<Rightarrow> serverHelloMsg \<Rightarrow> serverHelloMsg" where
  "put_random_tail new hello =
     hello\<lparr>sh_random := overwrite 24 new (sh_random hello), sh_original := map_option (overwrite 30 new) (sh_original hello)\<rparr>"

definition ech_confirmation :: "'b cryptobyte \<Rightarrow> cipherSuiteTLS13 \<Rightarrow> hs13 step" where
  "ech_confirmation cb st s =
     (if \<not> h_echContext s then Inr (None, s)
      else
        let s = s\<lparr>h_hello := put_random_tail (replicate 8 0) (h_hello s)\<rparr>;
            echTranscript = h_transcript s @ (case ch_original (h_clientHello s) of Some b \<Rightarrow> b | None \<Rightarrow> [])
        in case transcriptMsg cb (ServerHello (h_hello s)) echTranscript of
             None \<Rightarrow> Inr (Some (ErrorMsg ''marshal''), s)
           | Some echTranscript \<Rightarrow>
               let prk = hkdf_Extract (s13_hash st) (ch_random (h_clientHello s)) None in
               computing (\<lambda>s. ExpandLabel (s13_hash st) prk ''ech accept confirmation'' (ha_Sum (s13_hash st) echTranscript) 8)
                 (\<lambda>acceptConfirmation s. s\<lparr>h_hello := put_random_tail acceptConfirmation (h_hello s)\<rparr>) s)"

definition add_client_hello :: "'b cryptobyte \<Rightarrow> hs13 step" where
  "add_client_hello cb s =
     (case transcriptMsg cb (ClientHello (h_clientHello s)) (h_transcript s) of
        None \<Rightarrow> Inr (Some (ErrorMsg ''marshal''), s)
      | Some t \<Rightarrow> Inr (None, s\<lparr>h_transcript := t\<rparr>))"

definition send_hello :: "hs13 step" where
  "send_hello s =
     (let original = (case sh_original (h_hello s) of Some b \<Rightarrow> b | None \<Rightarrow> []) in
      on_conn (\<lambda>c. map_sum id (\<lambda>((_, e), c). (e, c)) (writeRecord c recordTypeHandshake original))
        (s\<lparr>h_transcript := h_transcript s @ original\<rparr>))"

definition derive_handshake_secret :: "cipherSuiteTLS13 \<Rightarrow> hs13 step" where
  "derive_handshake_secret st =
     computing (\<lambda>s. EarlySecret_HandshakeSecret
         (case h_earlySecret s of Some es \<Rightarrow> es | None \<Rightarrow> NewEarlySecret (s13_hash st) None) (h_sharedKey s))
       (\<lambda>hsec s. s\<lparr>h_handshakeSecret := Some hsec\<rparr>)"

text \<open>\<open>c.sendAlert(alertUnexpectedMessage)\<close> with the result ignored, and the secrets for QUIC.\<close>

definition quic_secrets :: "cipherSuiteTLS13 \<Rightarrow> nat \<Rightarrow> bytes \<Rightarrow> bytes option \<Rightarrow> hs13 step" where
  "quic_secrets st level writeSecret readSecret s =
     (if c_quic (h_c s) = None then Inr (None, s)
      else case (if c_hand (h_c s) \<noteq> [] then map_sum id snd (sendAlert (h_c s) alertUnexpectedMessage) else Inr (h_c s)) of
             Inl p \<Rightarrow> Inl p
           | Inr c \<Rightarrow>
               let c = quicSetWriteSecret c level (s13_id st) writeSecret;
                   c = (case readSecret of Some r \<Rightarrow> quicSetReadSecret c level (s13_id st) r | None \<Rightarrow> c)
               in Inr (None, s\<lparr>h_c := c\<rparr>))"

definition handshake_secrets :: "server_env \<Rightarrow> cipherSuiteTLS13 \<Rightarrow> hs13 step" where
  "handshake_secrets env st s =
     (case h_handshakeSecret s of
        None \<Rightarrow> Inl NilDeref
      | Some hsec \<Rightarrow>
          (case ClientHandshakeTrafficSecret hsec (h_transcript s) of
             Inl p \<Rightarrow> Inl p
           | Inr clientSecret \<Rightarrow>
               (case suite_set_secret (env_suites env) st QUICEncryptionLevelHandshake clientSecret (c_in (h_c s)) of
                  Inl p \<Rightarrow> Inl p
                | Inr inn \<Rightarrow>
                    (case ServerHandshakeTrafficSecret hsec (h_transcript s) of
                       Inl p \<Rightarrow> Inl p
                     | Inr serverSecret \<Rightarrow>
                         (case suite_set_secret (env_suites env) st QUICEncryptionLevelHandshake serverSecret (c_out (h_c s)) of
                            Inl p \<Rightarrow> Inl p
                          | Inr out \<Rightarrow>
                              and_then (quic_secrets st QUICEncryptionLevelHandshake serverSecret (Some clientSecret))
                                (and_then (key_log env ''CLIENT_HANDSHAKE_TRAFFIC_SECRET'' (\<lambda>_. clientSecret))
                                  (key_log env ''SERVER_HANDSHAKE_TRAFFIC_SECRET'' (\<lambda>_. serverSecret)))
                                (s\<lparr>h_c := (h_c s)\<lparr>c_in := inn, c_out := out\<rparr>\<rparr>))))))"

text \<open>\<open>buildRetryConfigList\<close> of \<open>ech.go\<close>: \<open>nil\<close> without a retry configuration, an error if it is too long.\<close>

definition buildRetryConfigList :: "'b cryptobyte \<Rightarrow> EncryptedClientHelloKey list \<Rightarrow> bytes option" where
  "buildRetryConfigList cb keys =
     (if filter ek_SendAsRetry keys = [] then Some []
      else Bytes cb (AddUint16LengthPrefixed cb (NewBuilder cb)
             (\<lambda>b. fold (\<lambda>k b. AddBytes cb b (ek_Config k)) (filter ek_SendAsRetry keys) b)))"

definition send_encrypted_extensions :: "server_env \<Rightarrow> 'b cryptobyte \<Rightarrow> hs13 step" where
  "send_encrypted_extensions env cb s =
     (let ee = \<lparr>ee_alpnProtocol = h_clientProtocol s, ee_quicTransportParameters = None, ee_earlyData = False, ee_echRetryConfigs = []\<rparr>;
          (params, c) = (if c_quic (h_c s) = None then (Inr None, h_c s)
                         else map_prod (map_sum id Some) id (env_quicGetTransportParameters env (h_c s)));
          s = s\<lparr>h_c := c\<rparr>
      in case params of
           Inl e \<Rightarrow> Inr (Some e, s)
         | Inr p \<Rightarrow>
             let ee = (if c_quic c = None then ee else ee\<lparr>ee_quicTransportParameters := p, ee_earlyData := h_earlyData s\<rparr>) in
             (case env_EncryptedClientHelloKeys env (h_clientHello s) of
                Inl e \<Rightarrow> map_sum id (\<lambda>(_, c). (Some e, s\<lparr>h_c := c\<rparr>)) (sendAlert c alertInternalError)
              | Inr echKeys \<Rightarrow>
                  if echKeys \<noteq> [] \<and> ch_encryptedClientHello (h_clientHello s) \<noteq> [] \<and> \<not> h_echContext s then
                    (case buildRetryConfigList cb echKeys of
                       None \<Rightarrow> on_conn (\<lambda>c. alert_error c alertInternalError ''marshal'') s
                     | Some configs \<Rightarrow> write_msg cb (\<lambda>_. EncryptedExtensions (ee\<lparr>ee_echRetryConfigs := configs\<rparr>)) s)
                  else write_msg cb (\<lambda>_. EncryptedExtensions ee) s))"

definition sendServerParameters :: "server_env \<Rightarrow> 'b cryptobyte \<Rightarrow> hs13 step" where
  "sendServerParameters env cb s =
     (case h_suite s of
        None \<Rightarrow> Inl NilDeref
      | Some st \<Rightarrow>
          and_then (ech_confirmation cb st) (and_then (add_client_hello cb) (and_then send_hello
            (and_then sendDummyChangeCipherSpec (and_then (derive_handshake_secret st) (and_then (handshake_secrets env st)
              (send_encrypted_extensions env cb)))))) s)"

definition requestClientCert :: "server_env \<Rightarrow> hs13 \<Rightarrow> bool" where
  "requestClientCert env s = (env_ClientAuth env \<ge> 1 \<and> \<not> h_usingPSK s)"

definition send_cert_request :: "server_env \<Rightarrow> 'b cryptobyte \<Rightarrow> hs13 step" where
  "send_cert_request env cb s =
     (if requestClientCert env s then
        write_msg cb (\<lambda>s. CertificateRequestTLS13 \<lparr>cr13_ocspStapling = True, cr13_scts = True,
          cr13_supportedSignatureAlgorithms = supportedSignatureAlgorithms (env_fips env) (c_vers (h_c s)),
          cr13_supportedSignatureAlgorithmsCert = supportedSignatureAlgorithmsCert (env_fips env),
          cr13_certificateAuthorities = (case env_ClientCAs env of Some subjects \<Rightarrow> subjects | None \<Rightarrow> [])\<rparr>) s
      else Inr (None, s))"

definition cert_message :: "hs13 \<Rightarrow> handshakeMessage" where
  "cert_message s =
     CertificateTLS13 \<lparr>c13_certificate = \<lparr>cert_Certificate = cert_Certificate (h_cert s), cert_OCSPStaple = cert_OCSPStaple (h_cert s),
          cert_SignedCertificateTimestamps = cert_SignedCertificateTimestamps (h_cert s)\<rparr>,
        c13_ocspStapling = (ch_ocspStapling (h_clientHello s) \<and> (case cert_OCSPStaple (h_cert s) of Some b \<Rightarrow> b \<noteq> [] | None \<Rightarrow> False)),
        c13_scts = (ch_scts (h_clientHello s) \<and> (case cert_SignedCertificateTimestamps (h_cert s) of Some b \<Rightarrow> b \<noteq> [] | None \<Rightarrow> False))\<rparr>"

definition send_cert_verify :: "server_env \<Rightarrow> 'b cryptobyte \<Rightarrow> hs13 step" where
  "send_cert_verify env cb s =
     (case typeAndHashFromSignatureScheme (h_sigAlg s) of
        None \<Rightarrow> on_conn (\<lambda>c. sendAlert c alertInternalError) s
      | Some (sigType, sigHash) \<Rightarrow>
          (case h_suite s of
             None \<Rightarrow> Inl NilDeref
           | Some st \<Rightarrow>
               if pk_Signer (cert_PrivateKey (h_cert s)) = None then Inl (PanicMsg ''interface conversion'') else
               let message = signedMessage (env_hash env) sigHash serverSignatureContext (ha_Sum (s13_hash st) (h_transcript s)) in
               (case env_Sign env (h_sigAlg s) message of
                  Inl e \<Rightarrow>
                    let small = (case pk_Signer (cert_PrivateKey (h_cert s)) of
                                   Some (RSA_PublicKey bits _) \<Rightarrow> sigType = signatureRSAPSS \<and> bits div 8 < hash_size sigHash * 2 + 2
                                 | _ \<Rightarrow> False)
                    in on_conn (\<lambda>c. alert_error c (if small then alertHandshakeFailure else alertInternalError)
                         (''tls: failed to sign handshake: '' @ e)) s
                | Inr sig \<Rightarrow>
                    write_msg cb (\<lambda>s. CertificateVerify \<lparr>cv_hasSignatureAlgorithm = True, cv_signatureAlgorithm = h_sigAlg s,
                      cv_signature = sig\<rparr>) s)))"

definition sendServerCertificate :: "server_env \<Rightarrow> 'b cryptobyte \<Rightarrow> hs13 step" where
  "sendServerCertificate env cb s =
     (if h_usingPSK s then Inr (None, s)
      else and_then (send_cert_request env cb) (and_then (write_msg cb cert_message) (send_cert_verify env cb)) s)"

definition shouldSendSessionTickets :: bool where
  "shouldSendSessionTickets = False"

definition sendSessionTickets :: "'b cryptobyte \<Rightarrow> hs13 step \<Rightarrow> hs13 step" where
  "sendSessionTickets cb sendSessionTicket s =
     (case h_suite s of
        None \<Rightarrow> Inl NilDeref
      | Some st \<Rightarrow>
          (case finishedHash13 st (hc_trafficSecret (c_in (h_c s))) (h_transcript s) of
             Inl p \<Rightarrow> Inl p
           | Inr clientFinished \<Rightarrow>
               let s = s\<lparr>h_clientFinished := clientFinished\<rparr> in
               (case transcriptMsg cb (Finished clientFinished) (h_transcript s) of
                  None \<Rightarrow> Inr (Some (ErrorMsg ''marshal''), s)
                | Some t \<Rightarrow>
                    let s = s\<lparr>h_transcript := t\<rparr> in
                    (case h_masterSecret s of
                       None \<Rightarrow> Inl NilDeref
                     | Some ms \<Rightarrow>
                         and_then (computing (\<lambda>s. ResumptionMasterSecret ms t) (\<lambda>r s. s\<lparr>h_resumptionSecret := r\<rparr>))
                           (\<lambda>s. if \<not> shouldSendSessionTickets then Inr (None, s) else sendSessionTicket s) s))))"

definition send_finished :: "'b cryptobyte \<Rightarrow> cipherSuiteTLS13 \<Rightarrow> hs13 step" where
  "send_finished cb st s =
     (case finishedHash13 st (hc_trafficSecret (c_out (h_c s))) (h_transcript s) of
        Inl p \<Rightarrow> Inl p
      | Inr verifyData \<Rightarrow> write_msg cb (\<lambda>_. Finished verifyData) s)"

definition application_secrets :: "server_env \<Rightarrow> cipherSuiteTLS13 \<Rightarrow> hs13 step" where
  "application_secrets env st s =
     (case h_handshakeSecret s of
        None \<Rightarrow> Inl NilDeref
      | Some hsec \<Rightarrow>
          (case HandshakeSecret_MasterSecret hsec of
             Inl p \<Rightarrow> Inl p
           | Inr ms \<Rightarrow>
               (case ClientApplicationTrafficSecret ms (h_transcript s) of
                  Inl p \<Rightarrow> Inl p
                | Inr trafficSecret \<Rightarrow>
                    (case ServerApplicationTrafficSecret ms (h_transcript s) of
                       Inl p \<Rightarrow> Inl p
                     | Inr serverSecret \<Rightarrow>
                         (case suite_set_secret (env_suites env) st QUICEncryptionLevelApplication serverSecret (c_out (h_c s)) of
                            Inl p \<Rightarrow> Inl p
                          | Inr out \<Rightarrow>
                              and_then (quic_secrets st QUICEncryptionLevelApplication serverSecret None)
                                (and_then (key_log env ''CLIENT_TRAFFIC_SECRET_0'' h_trafficSecret)
                                  (key_log env ''SERVER_TRAFFIC_SECRET_0'' (\<lambda>_. serverSecret)))
                                (s\<lparr>h_masterSecret := Some ms, h_trafficSecret := trafficSecret,
                                   h_c := (h_c s)\<lparr>c_out := out\<rparr>\<rparr>))))))"

text \<open>The exporter \<open>c.ekm\<close> is a function that nothing here calls; making it may panic.\<close>

definition sendServerFinished :: "server_env \<Rightarrow> 'b cryptobyte \<Rightarrow> hs13 step \<Rightarrow> hs13 step" where
  "sendServerFinished env cb sendSessionTicket s =
     (case h_suite s of
        None \<Rightarrow> Inl NilDeref
      | Some st \<Rightarrow>
          and_then (send_finished cb st) (and_then (application_secrets env st)
            (and_then (computing (\<lambda>s. exportKeyingMaterial (the (h_masterSecret s)) (h_transcript s)) (\<lambda>_ s. s))
              (\<lambda>s. if \<not> requestClientCert env s then sendSessionTickets cb sendSessionTicket s else Inr (None, s)))) s)"

subsection \<open>The handshake\<close>

definition send_flight :: "server_env \<Rightarrow> 'b cryptobyte \<Rightarrow> hs13 step \<Rightarrow> hs13 step" where
  "send_flight env cb sendSessionTicket =
     and_then (sendServerParameters env cb) (and_then (sendServerCertificate env cb) (sendServerFinished env cb sendSessionTicket))"

definition handshake13 :: "server_env \<Rightarrow> 'b cryptobyte \<Rightarrow> hs13 step \<Rightarrow> hs13 step" where
  "handshake13 env cb sendSessionTicket s =
     (case cg_initErr (env_globals env) of
        Some e \<Rightarrow> Inr (Some (ErrorMsg e), s)
      | None \<Rightarrow>
          and_then (key_exchange env)
            (and_then (\<lambda>s. let (plan, cache) = choose_plan env s in choose_cert env plan (s\<lparr>h_certPlans := cache\<rparr>))
              (and_then (\<lambda>s. Inr (None, s\<lparr>h_c := (h_c s)\<lparr>c_buffering := True\<rparr>\<rparr>))
                (and_then (send_flight env cb sendSessionTicket)
                  (on_conn (\<lambda>c. Inr (map_prod snd id (flush c))))))) s)"

definition readClientFinished :: "server_env \<Rightarrow> 'b cryptobyte \<Rightarrow> hs13 step" where
  "readClientFinished env cb s =
     (case readHandshake cb (h_c s) None of
        Inl p \<Rightarrow> Inl p
      | Inr (Inl (Some e), c) \<Rightarrow> Inr (Some e, s\<lparr>h_c := c\<rparr>)
      | Inr (Inr (Finished verifyData, _), c) \<Rightarrow>
          if h_clientFinished s \<noteq> verifyData then
            on_conn (\<lambda>c. alert_error c alertDecryptError ''tls: invalid client finished hash'') (s\<lparr>h_c := c\<rparr>)
          else (case h_suite s of
                  None \<Rightarrow> Inl NilDeref
                | Some st \<Rightarrow>
                    map_sum id (\<lambda>inn. (None, s\<lparr>h_c := c\<lparr>c_in := inn\<rparr>\<rparr>))
                      (suite_set_secret (env_suites env) st QUICEncryptionLevelApplication (h_trafficSecret s) (c_in c)))
      | Inr (_, c) \<Rightarrow>
          on_conn (\<lambda>c. alert_error c alertUnexpectedMessage ''tls: received unexpected handshake message'') (s\<lparr>h_c := c\<rparr>))"

end
