(* ===== verification/Server_Flight.thy ===== *)
theory Server_Flight
  imports Server_Handshake Conn_Transfer Capture
begin

text \<open>
  What the server's handshake (\<open>src/handshake_server_tls13.go\<close>) puts on the wire: the key share in the
  target's ServerHello, the records with the target's lengths, and what a client that holds the same
  secrets reads from them.
\<close>

subsection \<open>Records into the buffer\<close>

text \<open>A connection in the handshake: TLS 1.3 over a plain transport, with buffered writes.\<close>

definition buffered :: "conn \<Rightarrow> bool" where
  "buffered c \<longleftrightarrow> c_quic c = None \<and> c_vers c = VersionTLS13 \<and> c_buffering c"

lemma buffered_updates [simp]:
  "buffered (c\<lparr>c_out := out\<rparr>) = buffered c" "buffered (c\<lparr>c_in := inn\<rparr>) = buffered c"
  "buffered (c\<lparr>c_sendBuf := b\<rparr>) = buffered c" "buffered (c\<lparr>c_rand := r\<rparr>) = buffered c"
  by (simp_all add: buffered_def)

abbreviation (input) header13 :: "u8 \<Rightarrow> bytes \<Rightarrow> bytes" where
  "header13 typ data \<equiv> [typ, 3, 3, of_nat (length data div 256), of_nat (length data)]"

lemma write_buffered:
  assumes "buffered c" "data \<noteq> []" "length data \<le> maxPlaintext" "typ \<noteq> recordTypeApplicationData"
    and enc: "encrypt (c_out c) (header13 typ data) data (c_rand c) = Inr (res, out, rand)"
  shows "writeRecordLocked c typ data =
    (case res of
       Inl e \<Rightarrow> Inr ((0, Some e), c\<lparr>c_out := out, c_rand := rand\<rparr>)
     | Inr rcd \<Rightarrow> Inr ((length data, None), c\<lparr>c_out := out, c_rand := rand, c_sendBuf := c_sendBuf c @ rcd\<rparr>))"
proof -
  have b: "c_quic c = None" "c_vers c = VersionTLS13" "c_buffering c" using assms(1) by (simp_all add: buffered_def)
  have "maxPayloadSizeForWrite c typ = Inr (int maxPlaintext, c)" using assms(4) by (simp add: maxPayloadSizeForWrite_def)
  moreover have "write_loop typ [] n c = Inr ((n, None), c)" for n c by (simp add: write_loop.simps)
  ultimately have "write_loop typ data 0 c = (case res of
       Inl e \<Rightarrow> Inr ((0, Some e), c\<lparr>c_out := out, c_rand := rand\<rparr>)
     | Inr rcd \<Rightarrow> Inr ((length data, None), c\<lparr>c_out := out, c_rand := rand, c_sendBuf := c_sendBuf c @ rcd\<rparr>))"
    using assms(2,3) enc b
    by (subst write_loop.simps) (simp add: record_header_tls13 conn_write_def split: sum.split)
  then show ?thesis using b
    by (simp add: writeRecordLocked_def write_record_body_def split: sum.split)
qed

lemma write_plain:
  assumes "buffered c" "data \<noteq> []" "length data \<le> maxPlaintext" "typ \<noteq> recordTypeApplicationData"
    and "hc_cipher (c_out c) = None"
  shows "writeRecordLocked c typ data =
    Inr ((length data, None), c\<lparr>c_sendBuf := c_sendBuf c @ header13 typ data @ data\<rparr>)"
proof -
  have "encrypt (c_out c) (header13 typ data) data (c_rand c) = Inr (Inr (header13 typ data @ data), c_out c, c_rand c)"
    using assms(5) by (simp add: encrypt_def)
  from write_buffered [OF assms(1-4) this] show ?thesis by simp
qed

subsection \<open>A message in its slot\<close>

text \<open>A message of \<open>n\<close> bytes fits the record length \<open>r\<close> of the target, without too much padding.\<close>

definition fits_record :: "int \<Rightarrow> nat \<Rightarrow> bool" where
  "fits_record r n \<longleftrightarrow> 22 + int n \<le> r \<and> r \<le> 22 + int n + 8192 \<and> r \<le> 22 + int maxPlaintext"

text \<open>The peer opens records one after the other.\<close>

fun opens :: "halfConn \<Rightarrow> bytes list \<Rightarrow> ((bytes \<times> u8) list \<times> halfConn) option" where
  "opens inn [] = Some ([], inn)"
| "opens inn (r # rs) =
     (case decrypt inn r of Inr (Inr x, inn) \<Rightarrow> map_option (map_prod ((#) x) id) (opens inn rs) | _ \<Rightarrow> None)"

lemma opens_snoc:
  "opens inn rs = Some (xs, inn1) \<Longrightarrow> decrypt inn1 r = Inr (Inr x, inn2) \<Longrightarrow> opens inn (rs @ [r]) = Some (xs @ [x], inn2)"
  by (induction inn rs arbitrary: xs rule: opens.induct) (auto split: sum.splits prod.splits)

definition loaded :: "conn \<Rightarrow> bool" where
  "loaded c \<longleftrightarrow> buffered c \<and> hc_handshakeBuf (c_out c) = None \<and> hc_handshakeLen (c_out c) ! 1 \<noteq> 0"

lemma write_slot:
  assumes a: "aead_laws a" "raw_Overhead a = 16" "tls13_peers a (c_out c) inn"
    and c: "loaded c" "seq_value (hc_seq (c_out c)) < 2 ^ 64 - 1"
    and msg: "msg_marshal cb msg = Some data" "data \<noteq> []" "handshake_slot (data ! 0) = Some i" "data ! 0 \<noteq> typeNewSessionTicket"
    and fits: "fits_record (hc_handshakeLen (c_out c) ! i) (length data)"
  obtains rcd out' inn' where
    "writeHandshakeRecord cb c msg (Some t) =
       Inr ((length data, None), Some (t @ data), c\<lparr>c_out := out', c_sendBuf := c_sendBuf c @ rcd\<rparr>)"
    "int (length rcd) = hc_handshakeLen (c_out c) ! i"
    "decrypt inn rcd = Inr (Inr (data, recordTypeHandshake), inn')" "tls13_peers a out' inn'"
    "out' = (c_out c)\<lparr>hc_handshakeLen := (hc_handshakeLen (c_out c))[i := 0], hc_cipher := hc_cipher out', hc_seq := hc_seq out'\<rparr>"
    "seq_value (hc_seq out') = seq_value (hc_seq (c_out c)) + 1"
proof -
  let ?hdr = "header13 recordTypeHandshake data"
  have len: "length data \<le> maxPlaintext" using fits by (simp add: fits_record_def)
  obtain rcd out' inn' where enc: "encrypt (c_out c) ?hdr data (c_rand c) = Inr (Inr rcd, out', c_rand c)"
    and rec: "int (length rcd) = hc_handshakeLen (c_out c) ! i"
      "decrypt inn rcd = Inr (Inr (data, recordTypeHandshake), inn')" "tls13_peers a out' inn'"
      "out' = (c_out c)\<lparr>hc_handshakeLen := (hc_handshakeLen (c_out c))[i := 0], hc_cipher := hc_cipher out', hc_seq := hc_seq out'\<rparr>"
      "seq_value (hc_seq out') = seq_value (hc_seq (c_out c)) + 1"
    using target_record [OF a(1,3) _ _ _ msg(2,3) _ c(2) refl, of ?hdr "c_rand c"] msg(4) c(1) fits a(2)
    by (auto simp: loaded_def fits_record_def)
  have "writeRecordLocked c recordTypeHandshake data =
      Inr ((length data, None), c\<lparr>c_out := out', c_sendBuf := c_sendBuf c @ rcd\<rparr>)"
    using write_buffered [OF _ msg(2) len _ enc] c(1) by (simp add: loaded_def)
  then have "writeHandshakeRecord cb c msg (Some t) =
      Inr ((length data, None), Some (t @ data), c\<lparr>c_out := out', c_sendBuf := c_sendBuf c @ rcd\<rparr>)"
    using msg(1) c(1) by (simp add: writeHandshakeRecord_def gather_handshake_def loaded_def)
  then show thesis using that rec by blast
qed

subsection \<open>Secrets\<close>

lemma and_then_ok [simp]: "f s = Inr (None, s') \<Longrightarrow> and_then f g s = g s'"
  by (simp add: and_then_def)

lemma and_then_err: "f s = Inr (Some e, s') \<Longrightarrow> and_then f g s = Inr (Some e, s')"
  by (simp add: and_then_def)

text \<open>AEADs for the key lengths of the suites, with a tag of 16 bytes.\<close>

definition lawful_suites :: "aead_lib \<Rightarrow> bool" where
  "lawful_suites lib \<longleftrightarrow> (\<forall>key. (length key \<in> {16, 32} \<longrightarrow> (\<exists>a. lib_AESGCM lib key = Some a \<and> aead_laws a \<and> raw_Overhead a = 16)) \<and>
     (length key = 32 \<longrightarrow> (\<exists>a. lib_ChaCha20Poly1305 lib key = Some a \<and> aead_laws a \<and> raw_Overhead a = 16)))"

lemma suite_hash: "st \<in> set suitesTLS13 \<Longrightarrow> hash_laws (s13_hash st)"
  using sha256.hash_laws_axioms sha384.hash_laws_axioms by (auto simp: suitesTLS13_def)

lemma suite_known: "cipherSuiteTLS13Map i = Some st \<Longrightarrow> st \<in> set suitesTLS13 \<and> s13_id st = i"
  by (auto simp: cipherSuiteTLS13Map_def suitesTLS13_def split: if_splits)

lemma suite_sizes:
  assumes "st \<in> set suitesTLS13"
  shows "ha_Size (s13_hash st) \<in> {32, 48}" "s13_keyLen st \<in> {16, 32}"
    "s13_aead st = aeadAESGCMTLS13 \<or> s13_aead st = aeadChaCha20Poly1305 \<and> s13_keyLen st = 32"
  using assms by (auto simp: suitesTLS13_def SHA256_def SHA384_def)

lemma suite_trafficKey:
  assumes "st \<in> set suitesTLS13"
  obtains key iv where "trafficKey st secret = Inr (key, iv)" "length key = s13_keyLen st" "length iv = 12"
proof -
  have "s13_keyLen st \<le> 255 * ha_Size (s13_hash st)" "12 \<le> 255 * ha_Size (s13_hash st)"
    using suite_sizes [OF assms] by auto
  then show thesis
    using hash_laws.ExpandLabel_length [OF suite_hash [OF assms], of "''key''" "[]" secret "s13_keyLen st"]
      hash_laws.ExpandLabel_length [OF suite_hash [OF assms], of "''iv''" "[]" secret 12] that
    by (auto simp: trafficKey_def)
qed

text \<open>Both ends that set a secret are in step.\<close>

definition keyed :: "halfConn \<Rightarrow> nat \<Rightarrow> bytes \<Rightarrow> aead \<Rightarrow> halfConn" where
  "keyed hc level secret a =
     hc\<lparr>hc_trafficSecret := secret, hc_level := level, hc_cipher := Some (Aead a), hc_seq := replicate 8 0\<rparr>"

lemma suite_cipher_of:
  assumes "st \<in> set suitesTLS13" "lawful_suites lib"
  obtains a nm where "length nm = 12" "aead_laws a" "raw_Overhead a = 16"
    "\<And>level hc. suite_set_secret lib st level secret hc = Inr (keyed hc level secret (xorNonceAEAD nm a))"
proof -
  obtain key iv where k: "trafficKey st secret = Inr (key, iv)" "length key = s13_keyLen st" "length iv = 12"
    by (rule suite_trafficKey [OF assms(1)])
  have "\<exists>a. make_aead lib (s13_aead st) key iv = Inr (xorNonceAEAD iv a) \<and> aead_laws a \<and> raw_Overhead a = 16"
  proof (cases "s13_aead st = aeadAESGCMTLS13")
    case True
    moreover have "length key \<in> {16, 32}" using suite_sizes [OF assms(1)] k(2) by auto
    then obtain a where "lib_AESGCM lib key = Some a" "aead_laws a" "raw_Overhead a = 16"
      using assms(2) unfolding lawful_suites_def by blast
    ultimately show ?thesis using k(3) by (simp add: make_aead_def)
  next
    case False
    then have "s13_aead st = aeadChaCha20Poly1305" "length key = 32" using suite_sizes [OF assms(1)] k(2) by auto
    moreover from this obtain a where "lib_ChaCha20Poly1305 lib key = Some a" "aead_laws a" "raw_Overhead a = 16"
      using assms(2) unfolding lawful_suites_def by blast
    ultimately show ?thesis using k(3) by (simp add: make_aead_def)
  qed
  then show thesis using that [of iv] k
    by (auto simp: suite_set_secret_def setTrafficSecret_def keyed_def)
qed

lemma keyed_peers:
  assumes "length nm = 12" "hc_version out = VersionTLS13" "hc_version inn = VersionTLS13" "hc_mac inn = None"
  shows "tls13_peers a (keyed out l s (xorNonceAEAD nm a)) (keyed inn l' s' (xorNonceAEAD nm a))"
  using assms by (simp add: keyed_def tls13_peers_def peers_def)

lemma keyed_seq: "seq_value (hc_seq (keyed hc l s a)) = 0"
  by (simp add: keyed_def seq_value_def numeral_eq_Suc)

lemma keyed_fields [simp]:
  "hc_handshakeLen (keyed hc l s a) = hc_handshakeLen hc" "hc_handshakeBuf (keyed hc l s a) = hc_handshakeBuf hc"
  "hc_trafficSecret (keyed hc l s a) = s" "hc_version (keyed hc l s a) = hc_version hc"
  by (simp_all add: keyed_def)

lemma finishedHash13_length:
  assumes "st \<in> set suitesTLS13"
  obtains d where "finishedHash13 st key t = Inr d" "length d = ha_Size (s13_hash st)"
proof -
  obtain k where "ExpandLabel (s13_hash st) key ''finished'' [] (ha_Size (s13_hash st)) = Inr k"
    using hash_laws.ExpandLabel_length [OF suite_hash [OF assms], of "''finished''" "[]" key] by auto
  then show thesis using that hash_laws.hmac_length [OF suite_hash [OF assms]] by (simp add: finishedHash13_def)
qed

lemma derive_ok: "hash_laws h \<Longrightarrow> length l \<le> 249 \<Longrightarrow> \<exists>b. deriveSecret h secret l t = Inr b"
  using hash_laws.deriveSecret_length by blast

subsection \<open>The messages\<close>

context cryptobyte_laws
begin

lemma finished_bytes:
  "length d < 256 ^ 3 \<Longrightarrow> finishedMsg_marshal cb d = Some (typeFinished # length_bytes 3 (length d) @ d)"
  by (simp add: finishedMsg_marshal_def builder Let_def)

lemma cert_verify_bytes:
  assumes "length sig < 65000"
  shows "certificateVerifyMsg_marshal cb \<lparr>cv_hasSignatureAlgorithm = True, cv_signatureAlgorithm = alg, cv_signature = sig\<rparr> =
    Some (typeCertificateVerify # length_bytes 3 (4 + length sig) @ be16 alg @ length_bytes 2 (length sig) @ sig)"
proof -
  have e: "Suc (Suc (Suc (Suc n))) = 4 + n" for n by simp
  show ?thesis using assms by (simp add: certificateVerifyMsg_marshal_def builder Let_def e)
qed

lemma marshal_types:
  "encryptedExtensionsMsg_marshal cb ee = Some b \<Longrightarrow> \<exists>r. b = typeEncryptedExtensions # r"
  "certificateMsgTLS13_marshal cb m = Some b \<Longrightarrow> \<exists>r. b = typeCertificate # r"
  by (auto simp: encryptedExtensionsMsg_marshal_def certificateMsgTLS13_marshal_def builder Let_def cat_eq_Some
      simp del: prefixed.simps cat.simps)

end

subsection \<open>Up to the handshake keys\<close>

text \<open>A server that asks for no certificate and uses neither Encrypted ClientHello nor a failing key log.\<close>

definition plain_env :: "server_env \<Rightarrow> bool" where
  "plain_env env \<longleftrightarrow> env_ClientAuth env < 1 \<and> (\<forall>l r x. env_writeKeyLog env l r x = None) \<and>
     (\<forall>ch. env_EncryptedClientHelloKeys env ch = Inr []) \<and> lawful_suites (env_suites env)"

text \<open>The handshake before the flight: ClientHello \<open>ch\<close>, ServerHello \<open>sh\<close>, nothing encrypted yet.\<close>

definition flight_ready :: "cipherSuiteTLS13 \<Rightarrow> bytes \<Rightarrow> bytes \<Rightarrow> hs13 \<Rightarrow> bool" where
  "flight_ready st ch sh s \<longleftrightarrow> h_suite s = Some st \<and> st \<in> set suitesTLS13 \<and> \<not> h_usingPSK s \<and> \<not> h_echContext s \<and>
     h_earlySecret s = None \<and> \<not> h_sentDummyCCS s \<and> h_transcript s = [] \<and>
     ch_original (h_clientHello s) = Some ch \<and> sh_original (h_hello s) = Some sh \<and>
     sh \<noteq> [] \<and> sh ! 0 = typeServerHello \<and> length sh \<le> maxPlaintext \<and>
     buffered (h_c s) \<and> hc_cipher (c_out (h_c s)) = None \<and> hc_version (c_out (h_c s)) = VersionTLS13 \<and>
     h_sigAlg s = Ed25519 \<and> pk_Signer (cert_PrivateKey (h_cert s)) \<noteq> None"

abbreviation (input) plain_record :: "u8 \<Rightarrow> bytes \<Rightarrow> bytes" where
  "plain_record typ data \<equiv> header13 typ data @ data"

lemma derive_secrets:
  assumes "st \<in> set suitesTLS13"
  obtains hsec where "EarlySecret_HandshakeSecret (NewEarlySecret (s13_hash st) None) shared = Inr hsec" "hs_hash hsec = s13_hash st"
proof -
  have h: "hash_laws (s13_hash st)" by (rule suite_hash [OF assms])
  obtain d where "deriveSecret (s13_hash st) (extract_secret (s13_hash st) None None) ''derived'' None = Inr d"
    using derive_ok [OF h, of "''derived''"] by force
  then show thesis using that by (simp add: EarlySecret_HandshakeSecret_def NewEarlySecret_def)
qed

lemma traffic_secrets:
  assumes "st \<in> set suitesTLS13" "hs_hash hsec = s13_hash st"
  obtains cs ss where "ClientHandshakeTrafficSecret hsec t = Inr cs" "ServerHandshakeTrafficSecret hsec t = Inr ss"
proof -
  have h: "hash_laws (hs_hash hsec)" using suite_hash [OF assms(1)] assms(2) by simp
  have "\<exists>b. ClientHandshakeTrafficSecret hsec t = Inr b" "\<exists>b. ServerHandshakeTrafficSecret hsec t = Inr b"
    unfolding ClientHandshakeTrafficSecret_def ServerHandshakeTrafficSecret_def by (rule derive_ok [OF h], simp)+
  then show thesis using that by blast
qed

lemma handshake_keys:
  assumes "plain_env env" "flight_ready st ch sh s"
  obtains hsec secret a nm inn where
    "EarlySecret_HandshakeSecret (NewEarlySecret (s13_hash st) None) (h_sharedKey s) = Inr hsec"
    "ServerHandshakeTrafficSecret hsec (ch @ sh) = Inr secret" "hs_hash hsec = s13_hash st"
    "length nm = 12" "aead_laws a" "raw_Overhead a = 16"
    "\<And>level hc. suite_set_secret (env_suites env) st level secret hc = Inr (keyed hc level secret (xorNonceAEAD nm a))"
    "sendServerParameters env cb s = send_encrypted_extensions env cb
       (s\<lparr>h_transcript := ch @ sh, h_sentDummyCCS := True, h_handshakeSecret := Some hsec,
          h_c := (h_c s)\<lparr>c_sendBuf := c_sendBuf (h_c s) @ plain_record recordTypeHandshake sh @ plain_record recordTypeChangeCipherSpec [1],
            c_in := inn, c_out := keyed (c_out (h_c s)) QUICEncryptionLevelHandshake secret (xorNonceAEAD nm a)\<rparr>\<rparr>)"
proof -
  note r = assms(2) [unfolded flight_ready_def]
  have st: "st \<in> set suitesTLS13" using r by blast
  obtain hsec where hsec: "EarlySecret_HandshakeSecret (NewEarlySecret (s13_hash st) None) (h_sharedKey s) = Inr hsec"
      "hs_hash hsec = s13_hash st" by (rule derive_secrets [OF st])
  obtain cs ss where sec: "ClientHandshakeTrafficSecret hsec (ch @ sh) = Inr cs" "ServerHandshakeTrafficSecret hsec (ch @ sh) = Inr ss"
    by (rule traffic_secrets [OF st hsec(2)])
  have lawful: "lawful_suites (env_suites env)" using assms(1) by (simp add: plain_env_def)
  obtain a nm where a: "length nm = 12" "aead_laws a" "raw_Overhead a = 16"
      "\<And>level hc. suite_set_secret (env_suites env) st level ss hc = Inr (keyed hc level ss (xorNonceAEAD nm a))"
    by (rule suite_cipher_of [OF st lawful, where secret = ss]) blast
  obtain a' nm' where a': "\<And>level hc. suite_set_secret (env_suites env) st level cs hc = Inr (keyed hc level cs (xorNonceAEAD nm' a'))"
    by (rule suite_cipher_of [OF st lawful, where secret = cs]) blast
  let ?c = "h_c s"
  let ?s1 = "s\<lparr>h_transcript := ch\<rparr>"
  let ?c2 = "?c\<lparr>c_sendBuf := c_sendBuf ?c @ plain_record recordTypeHandshake sh\<rparr>"
  let ?s2 = "s\<lparr>h_transcript := ch @ sh, h_c := ?c2\<rparr>"
  let ?c3 = "?c\<lparr>c_sendBuf := c_sendBuf ?c @ plain_record recordTypeHandshake sh @ plain_record recordTypeChangeCipherSpec [1]\<rparr>"
  let ?s3 = "s\<lparr>h_transcript := ch @ sh, h_sentDummyCCS := True, h_c := ?c3\<rparr>"
  let ?s4 = "?s3\<lparr>h_handshakeSecret := Some hsec\<rparr>"
  let ?c5 = "?c3\<lparr>c_in := keyed (c_in ?c) QUICEncryptionLevelHandshake cs (xorNonceAEAD nm' a'),
      c_out := keyed (c_out ?c) QUICEncryptionLevelHandshake ss (xorNonceAEAD nm a)\<rparr>"
  have 1: "ech_confirmation cb st s = Inr (None, s)" "add_client_hello cb s = Inr (None, ?s1)"
    using r by (simp_all add: ech_confirmation_def add_client_hello_def transcriptMsg_def clientHelloMsg_originalBytes_def)
  have "writeRecord ?c recordTypeHandshake sh = Inr ((length sh, None), ?c2)"
    using r write_plain [of ?c sh recordTypeHandshake]
    by (auto simp: writeRecord_def gather_handshake_def split: option.split)
  then have 2: "send_hello ?s1 = Inr (None, ?s2)"
    using r by (simp add: send_hello_def on_conn_def)
  have "writeRecordLocked ?c2 recordTypeChangeCipherSpec [1] = Inr ((1, None), ?c3)"
    using r write_plain [of ?c2 "[1]" recordTypeChangeCipherSpec] by simp
  then have 3: "sendDummyChangeCipherSpec ?s2 = Inr (None, ?s3)"
    using r by (simp add: sendDummyChangeCipherSpec_def on_conn_def writeChangeCipherRecord_def buffered_def)
  have 4: "derive_handshake_secret st ?s3 = Inr (None, ?s4)"
    using r hsec by (simp add: derive_handshake_secret_def computing_def)
  have 5: "handshake_secrets env st ?s4 = Inr (None, ?s4\<lparr>h_c := ?c5\<rparr>)"
    using r sec a(4) a' assms(1)
    by (simp add: handshake_secrets_def and_then_def quic_secrets_def key_log_def plain_env_def buffered_def)
  have "sendServerParameters env cb s = send_encrypted_extensions env cb (?s4\<lparr>h_c := ?c5\<rparr>)"
    using r 1 2 3 4 5 by (simp add: sendServerParameters_def)
  then show thesis using that [OF hsec(1) sec(2) hsec(2) a] by simp
qed

subsection \<open>The encrypted messages, one record each\<close>

text \<open>
  Before the message of slot \<open>i\<close>: the peer's half \<open>inn\<close> is in step, \<open>i - 2\<close> records are sent under these
  keys and the slots from \<open>i\<close> on still hold the lengths of the target.
\<close>

definition in_flight :: "cipher_AEAD \<Rightarrow> int list \<Rightarrow> nat \<Rightarrow> bytes \<Rightarrow> halfConn \<Rightarrow> hs13 \<Rightarrow> bool" where
  "in_flight a lens i secret inn s \<longleftrightarrow> loaded (h_c s) \<and> tls13_peers a (c_out (h_c s)) inn \<and>
     hc_trafficSecret (c_out (h_c s)) = secret \<and> seq_value (hc_seq (c_out (h_c s))) + 2 = i \<and>
     (\<forall>j \<ge> i. hc_handshakeLen (c_out (h_c s)) ! j = lens ! j)"

lemma send_in_flight:
  assumes a: "aead_laws a" "raw_Overhead a = 16" and s: "in_flight a lens i secret inn s"
    and msg: "msg_marshal cb (msg s) = Some data" "data = t # r" "handshake_slot t = Some i" "i \<le> 5"
    and fits: "fits_record (lens ! i) (length data)"
  obtains rcd out' inn' where
    "write_msg cb msg s = Inr (None, s\<lparr>h_c := (h_c s)\<lparr>c_out := out', c_sendBuf := c_sendBuf (h_c s) @ rcd\<rparr>,
       h_transcript := h_transcript s @ data\<rparr>)"
    "int (length rcd) = lens ! i" "decrypt inn rcd = Inr (Inr (data, recordTypeHandshake), inn')"
    "in_flight a lens (Suc i) secret inn' (s\<lparr>h_c := (h_c s)\<lparr>c_out := out', c_sendBuf := c_sendBuf (h_c s) @ rcd\<rparr>,
       h_transcript := h_transcript s @ data\<rparr>)"
proof -
  let ?c = "h_c s"
  have ld: "loaded ?c" "tls13_peers a (c_out ?c) inn" "hc_trafficSecret (c_out ?c) = secret"
      "seq_value (hc_seq (c_out ?c)) + 2 = i" "\<And>j. j \<ge> i \<Longrightarrow> hc_handshakeLen (c_out ?c) ! j = lens ! j"
    using s by (auto simp: in_flight_def)
  have i: "2 \<le> i" "t \<noteq> typeNewSessionTicket" using handshake_slot_cases [OF msg(3)] msg(4) by auto
  obtain rcd out' inn' where w: "writeHandshakeRecord cb ?c (msg s) (Some (h_transcript s)) =
       Inr ((length data, None), Some (h_transcript s @ data), ?c\<lparr>c_out := out', c_sendBuf := c_sendBuf ?c @ rcd\<rparr>)"
    and rec: "int (length rcd) = hc_handshakeLen (c_out ?c) ! i"
      "decrypt inn rcd = Inr (Inr (data, recordTypeHandshake), inn')" "tls13_peers a out' inn'"
    and out': "out' = (c_out ?c)\<lparr>hc_handshakeLen := (hc_handshakeLen (c_out ?c))[i := 0], hc_cipher := hc_cipher out', hc_seq := hc_seq out'\<rparr>"
      "seq_value (hc_seq out') = seq_value (hc_seq (c_out ?c)) + 1"
    by (rule write_slot [OF a ld(2,1) _ msg(1), of i "h_transcript s"]) (use ld(4,5) msg i fits in auto)
  have "hc_handshakeLen out' = (hc_handshakeLen (c_out ?c))[i := 0]" "hc_trafficSecret out' = secret"
      "hc_handshakeBuf out' = hc_handshakeBuf (c_out ?c)"
    using ld(3) by (subst out'(1), simp)+
  then have "in_flight a lens (Suc i) secret inn' (s\<lparr>h_c := ?c\<lparr>c_out := out', c_sendBuf := c_sendBuf ?c @ rcd\<rparr>,
       h_transcript := h_transcript s @ data\<rparr>)"
    using ld i rec(3) out'(2) by (auto simp: in_flight_def loaded_def)
  with that [OF _ _ rec(2)] w rec(1) ld(5) show thesis by (simp add: write_msg_def)
qed

text \<open>
  The flight after the messages \<open>msgs\<close>: the state \<open>s1\<close> with a record for each of them in the buffer, as
  long as the target's, and the messages in the transcript; a peer that starts with \<open>inn0\<close> has opened them.
\<close>

definition flight_at :: "cipher_AEAD \<Rightarrow> int list \<Rightarrow> bytes \<Rightarrow> halfConn \<Rightarrow> hs13 \<Rightarrow> bytes list \<Rightarrow> hs13 \<Rightarrow> bool" where
  "flight_at a lens secret inn0 s1 msgs s \<longleftrightarrow> (\<exists>records out inn.
     s = s1\<lparr>h_c := (h_c s1)\<lparr>c_out := out, c_sendBuf := c_sendBuf (h_c s1) @ concat records\<rparr>, h_transcript := h_transcript s1 @ concat msgs\<rparr> \<and>
     in_flight a lens (2 + length msgs) secret inn s \<and>
     map (\<lambda>r. int (length r)) records = map ((!) lens) [2..<2 + length msgs] \<and>
     opens inn0 records = Some (map (\<lambda>m. (m, recordTypeHandshake)) msgs, inn))"

lemma flight_start: "in_flight a lens 2 secret inn0 s1 \<Longrightarrow> flight_at a lens secret inn0 s1 [] s1"
  unfolding flight_at_def by (intro exI [of _ "[]"] exI [of _ "c_out (h_c s1)"] exI [of _ inn0]) simp

lemma flight_step:
  assumes a: "aead_laws a" "raw_Overhead a = 16" and f: "flight_at a lens secret inn0 s1 msgs s"
    and msg: "msg_marshal cb (msg s) = Some data" "data = t # r" "handshake_slot t = Some (2 + length msgs)" "length msgs \<le> 3"
    and fits: "fits_record (lens ! (2 + length msgs)) (length data)"
  shows "\<exists>s'. write_msg cb msg s = Inr (None, s') \<and> flight_at a lens secret inn0 s1 (msgs @ [data]) s'"
proof -
  obtain records out inn where s: "s = s1\<lparr>h_c := (h_c s1)\<lparr>c_out := out, c_sendBuf := c_sendBuf (h_c s1) @ concat records\<rparr>,
       h_transcript := h_transcript s1 @ concat msgs\<rparr>"
    and i: "in_flight a lens (2 + length msgs) secret inn s" "map (\<lambda>r. int (length r)) records = map ((!) lens) [2..<2 + length msgs]"
      "opens inn0 records = Some (map (\<lambda>m. (m, recordTypeHandshake)) msgs, inn)"
    using f by (auto simp: flight_at_def)
  let ?s' = "\<lambda>out' rcd. s\<lparr>h_c := (h_c s)\<lparr>c_out := out', c_sendBuf := c_sendBuf (h_c s) @ rcd\<rparr>, h_transcript := h_transcript s @ data\<rparr>"
  obtain rcd out' inn' where w: "write_msg cb msg s = Inr (None, ?s' out' rcd)"
    and rec: "int (length rcd) = lens ! (2 + length msgs)" "decrypt inn rcd = Inr (Inr (data, recordTypeHandshake), inn')"
      "in_flight a lens (Suc (2 + length msgs)) secret inn' (?s' out' rcd)"
    by (rule send_in_flight [OF a i(1), where cb = cb and msg = msg, OF msg(1-3) _ fits]) (use msg(4) in auto)
  have "flight_at a lens secret inn0 s1 (msgs @ [data]) (?s' out' rcd)"
    unfolding flight_at_def using s i rec opens_snoc [OF i(3) rec(2)]
    by (intro exI [of _ "records @ [rcd]"] exI [of _ out'] exI [of _ inn']) simp
  then show ?thesis using w by blast
qed

subsection \<open>After the Finished\<close>

lemma application_keys:
  assumes "plain_env env" "st \<in> set suitesTLS13" "h_suite s = Some st" "h_handshakeSecret s = Some hsec"
    "hs_hash hsec = s13_hash st" "c_quic (h_c s) = None" "cryptobyte_laws cb"
    and fin: "send_finished cb st s0 = Inr (None, s)" "h_suite s0 = Some st"
  obtains s' where "sendServerFinished env cb tick s0 = Inr (None, s')"
    "h_c s' = (h_c s)\<lparr>c_out := c_out (h_c s')\<rparr>" "h_suite s' = Some st"
    "finishedHash13 st (hc_trafficSecret (c_in (h_c s))) (h_transcript s) = Inr (h_clientFinished s')"
proof -
  have h: "hash_laws (hs_hash hsec)" using suite_hash [OF assms(2)] assms(5) by simp
  obtain ms where ms: "HandshakeSecret_MasterSecret hsec = Inr ms" "ms_hash ms = hs_hash hsec"
    using derive_ok [OF h, of "''derived''" "hs_secret hsec" None] by (auto simp: HandshakeSecret_MasterSecret_def)
  obtain ct where ct: "ClientApplicationTrafficSecret ms (h_transcript s) = Inr ct"
    using derive_ok [OF h, of "''c ap traffic''"] ms(2) by (force simp: ClientApplicationTrafficSecret_def)
  obtain sv where sv: "ServerApplicationTrafficSecret ms (h_transcript s) = Inr sv"
    using derive_ok [OF h, of "''s ap traffic''"] ms(2) by (force simp: ServerApplicationTrafficSecret_def)
  obtain ex where ex: "exportKeyingMaterial ms (h_transcript s) = Inr ex"
    using derive_ok [OF h, of "''exp master''" "ms_secret ms" "Some (h_transcript s)"] ms(2)
    by (auto simp: exportKeyingMaterial_def MasterSecret_ExporterMasterSecret_def)
  obtain vd where vd: "finishedHash13 st (hc_trafficSecret (c_in (h_c s))) (h_transcript s) = Inr vd"
      "length vd = ha_Size (s13_hash st)"
    by (rule finishedHash13_length [OF assms(2)])
  have "length vd < 256 ^ 3" using vd(2) suite_sizes(1) [OF assms(2)] by auto
  then obtain fm where fm: "finishedMsg_marshal cb vd = Some fm"
    using cryptobyte_laws.finished_bytes [OF assms(7)] by blast
  obtain rm where rm: "ResumptionMasterSecret ms (h_transcript s @ fm) = Inr rm"
    using derive_ok [OF h, of "''res master''"] ms(2) by (force simp: ResumptionMasterSecret_def)
  have lawful: "lawful_suites (env_suites env)" using assms(1) by (simp add: plain_env_def)
  obtain a nm where a: "\<And>level hc. suite_set_secret (env_suites env) st level sv hc = Inr (keyed hc level sv (xorNonceAEAD nm a))"
    by (rule suite_cipher_of [OF assms(2) lawful, where secret = sv]) blast
  let ?s1 = "s\<lparr>h_masterSecret := Some ms, h_trafficSecret := ct,
      h_c := (h_c s)\<lparr>c_out := keyed (c_out (h_c s)) QUICEncryptionLevelApplication sv (xorNonceAEAD nm a)\<rparr>\<rparr>"
  have 1: "application_secrets env st s = Inr (None, ?s1)"
    using assms ms ct sv a
    by (simp add: application_secrets_def and_then_def quic_secrets_def key_log_def plain_env_def)
  let ?s2 = "?s1\<lparr>h_clientFinished := vd, h_transcript := h_transcript s @ fm, h_resumptionSecret := rm\<rparr>"
  have 2: "sendSessionTickets cb tick ?s1 = Inr (None, ?s2)"
    using assms(3) vd(1) fm rm
    by (simp add: sendSessionTickets_def transcriptMsg_def and_then_def computing_def shouldSendSessionTickets_def)
  have "\<not> requestClientCert env ?s1" using assms(1) by (simp add: requestClientCert_def plain_env_def)
  then have "sendServerFinished env cb tick s0 = Inr (None, ?s2)"
    using fin 1 2 ex by (simp add: sendServerFinished_def computing_def)
  then show thesis by (rule that) (simp_all add: vd(1) assms(3))
qed

subsection \<open>The whole flight\<close>

definition plain_ee :: "hs13 \<Rightarrow> encryptedExtensionsMsg" where
  "plain_ee s = \<lparr>ee_alpnProtocol = h_clientProtocol s, ee_quicTransportParameters = None, ee_earlyData = False, ee_echRetryConfigs = []\<rparr>"

definition cv_bytes :: "bytes \<Rightarrow> bytes" where
  "cv_bytes sig = typeCertificateVerify # length_bytes 3 (4 + length sig) @ be16 Ed25519 @ length_bytes 2 (length sig) @ sig"

definition fin_bytes :: "bytes \<Rightarrow> bytes" where
  "fin_bytes vd = typeFinished # length_bytes 3 (length vd) @ vd"

text \<open>
  The messages of the flight: EncryptedExtensions \<open>ee\<close>, the Certificate \<open>cert\<close>, and the signature \<open>sig\<close>
  over the transcript up to it.
\<close>

definition flight_messages :: "'b cryptobyte \<Rightarrow> server_env \<Rightarrow> cipherSuiteTLS13 \<Rightarrow> bytes \<Rightarrow> hs13 \<Rightarrow> bytes \<Rightarrow> bytes \<Rightarrow> bytes \<Rightarrow> bool" where
  "flight_messages cb env st hellos s ee cert sig \<longleftrightarrow>
     encryptedExtensionsMsg_marshal cb (plain_ee s) = Some ee \<and> msg_marshal cb (cert_message s) = Some cert \<and>
     env_Sign env Ed25519 (signedMessage (env_hash env) directSigning serverSignatureContext
       (ha_Sum (s13_hash st) (hellos @ ee @ cert))) = Inr sig \<and> length sig = 64"

lemma send_ee:
  assumes "plain_env env" "c_quic (h_c s) = None"
  shows "send_encrypted_extensions env cb s = write_msg cb (\<lambda>_. EncryptedExtensions (plain_ee s)) s"
  using assms by (simp add: send_encrypted_extensions_def plain_env_def plain_ee_def)

lemma send_cv:
  assumes "h_suite s = Some st" "h_sigAlg s = Ed25519" "pk_Signer (cert_PrivateKey (h_cert s)) \<noteq> None"
    and "env_Sign env Ed25519 (signedMessage (env_hash env) directSigning serverSignatureContext (ha_Sum (s13_hash st) (h_transcript s))) = Inr sig"
  shows "send_cert_verify env cb s = write_msg cb (\<lambda>s. CertificateVerify \<lparr>cv_hasSignatureAlgorithm = True,
      cv_signatureAlgorithm = h_sigAlg s, cv_signature = sig\<rparr>) s"
  using assms by (auto simp: send_cert_verify_def)

lemma cert_message_cong:
  "cert_message (s\<lparr>h_c := c\<rparr>) = cert_message s" "cert_message (s\<lparr>h_transcript := t\<rparr>) = cert_message s"
  "cert_message (s\<lparr>h_sentDummyCCS := b\<rparr>) = cert_message s" "cert_message (s\<lparr>h_handshakeSecret := x\<rparr>) = cert_message s"
  by (simp_all add: cert_message_def)

text \<open>The four messages, each in its slot.\<close>

lemma flight_four:
  assumes cb: "cryptobyte_laws cb" and env: "plain_env env" and st: "st \<in> set suitesTLS13" and a: "aead_laws a" "raw_Overhead a = 16"
    and f1: "flight_at a lens secret inn0 s1 [] s1"
    and s1: "h_suite s1 = Some st" "h_sigAlg s1 = Ed25519" "pk_Signer (cert_PrivateKey (h_cert s1)) \<noteq> None" "\<not> h_usingPSK s1"
    and m: "flight_messages cb env st (h_transcript s1) s1 ee cert sig"
    and fits: "fits_record (lens ! 2) (length ee)" "fits_record (lens ! 3) (length cert)" "fits_record (lens ! 4) 72"
      "fits_record (lens ! 5) (4 + ha_Size (s13_hash st))"
  obtains s2 s4 s5 vd where "write_msg cb (\<lambda>_. EncryptedExtensions (plain_ee s1)) s1 = Inr (None, s2)"
    "sendServerCertificate env cb s2 = Inr (None, s4)" "send_finished cb st s4 = Inr (None, s5)" "h_suite s4 = Some st"
    "finishedHash13 st secret (h_transcript s1 @ ee @ cert @ cv_bytes sig) = Inr vd"
    "flight_at a lens secret inn0 s1 [ee, cert, cv_bytes sig, fin_bytes vd] s5"
proof -
  let ?at = "flight_at a lens secret inn0 s1"
  note step = flight_step [OF a, of lens secret inn0 s1]
  note m = m [unfolded flight_messages_def]
  have keep: "h_suite s' = Some st \<and> h_sigAlg s' = Ed25519 \<and> pk_Signer (cert_PrivateKey (h_cert s')) \<noteq> None \<and> \<not> h_usingPSK s' \<and>
      h_transcript s' = h_transcript s1 @ concat ms \<and> cert_message s' = cert_message s1 \<and> hc_trafficSecret (c_out (h_c s')) = secret"
    if "?at ms s'" for ms s'
    using that s1 by (auto simp: flight_at_def in_flight_def cert_message_cong)
  obtain t1 where t1: "ee = typeEncryptedExtensions # t1" using m cryptobyte_laws.marshal_types(1) [OF cb] by blast
  obtain s2 where w1: "write_msg cb (\<lambda>_. EncryptedExtensions (plain_ee s1)) s1 = Inr (None, s2)" and f2: "?at [ee] s2"
    using step [OF f1, where cb = cb and msg = "\<lambda>_. EncryptedExtensions (plain_ee s1)", OF _ t1] m fits(1)
    by (auto simp: handshake_slot_def)
  obtain t2 where t2: "cert = typeCertificate # t2" using m cryptobyte_laws.marshal_types(2) [OF cb] by (auto simp: cert_message_def)
  obtain s3 where w2: "write_msg cb cert_message s2 = Inr (None, s3)" and f3: "?at [ee, cert] s3"
    using step [OF f2, where cb = cb and msg = cert_message, OF _ t2] m keep [OF f2] fits(2)
    by (auto simp: handshake_slot_def)
  let ?cv = "\<lambda>s. CertificateVerify \<lparr>cv_hasSignatureAlgorithm = True, cv_signatureAlgorithm = h_sigAlg s, cv_signature = sig\<rparr>"
  have cv: "length (cv_bytes sig) = 72" "msg_marshal cb (?cv s3) = Some (cv_bytes sig)"
    using m keep [OF f3] cryptobyte_laws.cert_verify_bytes [OF cb, of sig] by (simp_all add: cv_bytes_def)
  obtain s4 where w3: "write_msg cb ?cv s3 = Inr (None, s4)" and f4: "?at [ee, cert, cv_bytes sig] s4"
    using step [OF f3, where cb = cb and msg = ?cv, OF cv(2) cv_bytes_def] fits(3) cv(1)
    by (auto simp: handshake_slot_def)
  obtain vd where vd: "finishedHash13 st secret (h_transcript s1 @ ee @ cert @ cv_bytes sig) = Inr vd" "length vd = ha_Size (s13_hash st)"
    by (rule finishedHash13_length [OF st])
  have vd3: "length vd < 256 ^ 3" using vd(2) suite_sizes(1) [OF st] by auto
  have fin: "length (fin_bytes vd) = 4 + ha_Size (s13_hash st)" "msg_marshal cb (Finished vd) = Some (fin_bytes vd)"
    using vd(2) cryptobyte_laws.finished_bytes [OF cb vd3] by (simp_all add: fin_bytes_def)
  obtain s5 where w4: "write_msg cb (\<lambda>_. Finished vd) s4 = Inr (None, s5)" and f5: "?at [ee, cert, cv_bytes sig, fin_bytes vd] s5"
    using step [OF f4, where cb = cb and msg = "\<lambda>_. Finished vd", OF fin(2) fin_bytes_def] fits(4) fin(1)
    by (auto simp: handshake_slot_def)
  have "send_cert_verify env cb s3 = write_msg cb ?cv s3"
    by (rule send_cv [of _ st]) (use keep [OF f3] m in simp_all)
  then have "sendServerCertificate env cb s2 = Inr (None, s4)"
    using keep [OF f2] w2 w3 env
    by (simp add: sendServerCertificate_def send_cert_request_def requestClientCert_def plain_env_def)
  moreover have "send_finished cb st s4 = Inr (None, s5)" using keep [OF f4] vd(1) w4 by (simp add: send_finished_def)
  ultimately show thesis using that w1 vd(1) f5 keep [OF f4] by blast
qed

text \<open>
  What comes before and after the encrypted messages: the state \<open>s1\<close> with the handshake keys, in which
  they are sent, and the end of the flight when they are.
\<close>

lemma flight_frame:
  assumes cb: "cryptobyte_laws cb" and env: "plain_env env" and rdy: "flight_ready st ch sh s"
  obtains hsec secret a nm s1 where
    "EarlySecret_HandshakeSecret (NewEarlySecret (s13_hash st) None) (h_sharedKey s) = Inr hsec"
    "ServerHandshakeTrafficSecret hsec (ch @ sh) = Inr secret"
    "aead_laws a" "raw_Overhead a = 16"
    "\<And>level hc. suite_set_secret (env_suites env) st level secret hc = Inr (keyed hc level secret (xorNonceAEAD nm a))"
    "\<And>level inn0. hc_version inn0 = VersionTLS13 \<Longrightarrow> hc_mac inn0 = None \<Longrightarrow>
       tls13_peers a (c_out (h_c s1)) (keyed inn0 level secret (xorNonceAEAD nm a))"
    "h_suite s1 = Some st" "h_sigAlg s1 = Ed25519" "pk_Signer (cert_PrivateKey (h_cert s1)) \<noteq> None" "\<not> h_usingPSK s1"
    "h_transcript s1 = ch @ sh" "plain_ee s1 = plain_ee s" "cert_message s1 = cert_message s"
    "buffered (h_c s1)" "seq_value (hc_seq (c_out (h_c s1))) = 0" "hc_trafficSecret (c_out (h_c s1)) = secret"
    "hc_handshakeBuf (c_out (h_c s1)) = hc_handshakeBuf (c_out (h_c s))" "hc_handshakeLen (c_out (h_c s1)) = hc_handshakeLen (c_out (h_c s))"
    "\<And>s2 s4 s5 out buf t. write_msg cb (\<lambda>_. EncryptedExtensions (plain_ee s1)) s1 = Inr (None, s2) \<Longrightarrow>
       sendServerCertificate env cb s2 = Inr (None, s4) \<Longrightarrow> send_finished cb st s4 = Inr (None, s5) \<Longrightarrow> h_suite s4 = Some st \<Longrightarrow>
       s5 = s1\<lparr>h_c := (h_c s1)\<lparr>c_out := out, c_sendBuf := c_sendBuf (h_c s1) @ buf\<rparr>, h_transcript := t\<rparr> \<Longrightarrow>
       \<exists>s'. send_flight env cb tick s = Inr (None, s') \<and>
         h_c s' = (h_c s)\<lparr>c_in := c_in (h_c s'), c_out := c_out (h_c s'), c_sendBuf := c_sendBuf (h_c s) @
           plain_record recordTypeHandshake sh @ plain_record recordTypeChangeCipherSpec [1] @ buf\<rparr> \<and> h_suite s' = Some st \<and>
         finishedHash13 st (hc_trafficSecret (c_in (h_c s'))) t = Inr (h_clientFinished s')"
proof -
  note r = rdy [unfolded flight_ready_def]
  have st: "st \<in> set suitesTLS13" and q: "c_quic (h_c s) = None" using r by (auto simp: buffered_def)
  obtain hsec secret a nm inn1 where k:
      "EarlySecret_HandshakeSecret (NewEarlySecret (s13_hash st) None) (h_sharedKey s) = Inr hsec"
      "ServerHandshakeTrafficSecret hsec (ch @ sh) = Inr secret" "hs_hash hsec = s13_hash st"
    and a: "length nm = 12" "aead_laws a" "raw_Overhead a = 16"
      "\<And>level hc. suite_set_secret (env_suites env) st level secret hc = Inr (keyed hc level secret (xorNonceAEAD nm a))"
    and p: "sendServerParameters env cb s = send_encrypted_extensions env cb
       (s\<lparr>h_transcript := ch @ sh, h_sentDummyCCS := True, h_handshakeSecret := Some hsec,
          h_c := (h_c s)\<lparr>c_sendBuf := c_sendBuf (h_c s) @ plain_record recordTypeHandshake sh @ plain_record recordTypeChangeCipherSpec [1],
            c_in := inn1, c_out := keyed (c_out (h_c s)) QUICEncryptionLevelHandshake secret (xorNonceAEAD nm a)\<rparr>\<rparr>)"
    by (rule handshake_keys [OF env rdy, where cb = cb]) blast
  define s1 where "s1 = s\<lparr>h_transcript := ch @ sh, h_sentDummyCCS := True, h_handshakeSecret := Some hsec,
          h_c := (h_c s)\<lparr>c_sendBuf := c_sendBuf (h_c s) @ plain_record recordTypeHandshake sh @ plain_record recordTypeChangeCipherSpec [1],
            c_in := inn1, c_out := keyed (c_out (h_c s)) QUICEncryptionLevelHandshake secret (xorNonceAEAD nm a)\<rparr>\<rparr>"
  have s1: "h_suite s1 = Some st" "h_sigAlg s1 = Ed25519" "pk_Signer (cert_PrivateKey (h_cert s1)) \<noteq> None" "\<not> h_usingPSK s1"
      "h_transcript s1 = ch @ sh" "plain_ee s1 = plain_ee s" "cert_message s1 = cert_message s"
      "buffered (h_c s1)" "seq_value (hc_seq (c_out (h_c s1))) = 0" "hc_trafficSecret (c_out (h_c s1)) = secret"
      "hc_handshakeBuf (c_out (h_c s1)) = hc_handshakeBuf (c_out (h_c s))" "hc_handshakeLen (c_out (h_c s1)) = hc_handshakeLen (c_out (h_c s))"
      "h_handshakeSecret s1 = Some hsec" "c_quic (h_c s1) = None"
    using r q keyed_seq by (auto simp: s1_def plain_ee_def cert_message_cong)
  have peers: "tls13_peers a (c_out (h_c s1)) (keyed inn0 level secret (xorNonceAEAD nm a))"
    if "hc_version inn0 = VersionTLS13" "hc_mac inn0 = None" for inn0 level
    using keyed_peers [OF a(1), of "c_out (h_c s)" inn0] r that by (simp add: s1_def)
  have ends: "\<exists>s'. send_flight env cb tick s = Inr (None, s') \<and>
         h_c s' = (h_c s)\<lparr>c_in := c_in (h_c s'), c_out := c_out (h_c s'), c_sendBuf := c_sendBuf (h_c s) @
           plain_record recordTypeHandshake sh @ plain_record recordTypeChangeCipherSpec [1] @ buf\<rparr> \<and> h_suite s' = Some st \<and>
         finishedHash13 st (hc_trafficSecret (c_in (h_c s'))) t = Inr (h_clientFinished s')"
    if w: "write_msg cb (\<lambda>_. EncryptedExtensions (plain_ee s1)) s1 = Inr (None, s2)" "sendServerCertificate env cb s2 = Inr (None, s4)"
      "send_finished cb st s4 = Inr (None, s5)" "h_suite s4 = Some st"
      and s5: "s5 = s1\<lparr>h_c := (h_c s1)\<lparr>c_out := out, c_sendBuf := c_sendBuf (h_c s1) @ buf\<rparr>, h_transcript := t\<rparr>"
    for s2 s4 s5 out buf t
  proof -
    have p1: "sendServerParameters env cb s = Inr (None, s2)"
      using w(1) send_ee [OF env s1(14), of cb] by (simp only: p [folded s1_def])
    have k5: "h_suite s5 = Some st" "h_handshakeSecret s5 = Some hsec" "c_quic (h_c s5) = None" "h_transcript s5 = t"
      using s5 s1 by simp_all
    obtain s' where p4: "sendServerFinished env cb tick s4 = Inr (None, s')" "h_c s' = (h_c s5)\<lparr>c_out := c_out (h_c s')\<rparr>"
        "h_suite s' = Some st" "finishedHash13 st (hc_trafficSecret (c_in (h_c s5))) (h_transcript s5) = Inr (h_clientFinished s')"
      by (rule application_keys [OF env st k5(1,2) k(3) k5(3) cb w(3,4), where tick = tick]) blast
    have c5: "h_c s5 = (h_c s)\<lparr>c_in := inn1, c_out := out, c_sendBuf := c_sendBuf (h_c s) @
        plain_record recordTypeHandshake sh @ plain_record recordTypeChangeCipherSpec [1] @ buf\<rparr>"
      using s5 by (simp add: s1_def)
    have inn: "c_in (h_c s') = c_in (h_c s5)" by (subst p4(2)) simp
    have "h_c s' = (h_c s)\<lparr>c_in := c_in (h_c s'), c_out := c_out (h_c s'), c_sendBuf := c_sendBuf (h_c s) @
        plain_record recordTypeHandshake sh @ plain_record recordTypeChangeCipherSpec [1] @ buf\<rparr>"
      by (subst p4(2)) (simp add: inn c5)
    then show ?thesis using p1 w(2) p4 k5(4) inn by (intro exI [of _ s']) (simp add: send_flight_def)
  qed
  show thesis by (rule that [OF k(1,2) a(2-4) peers s1(1-12) ends])
qed

lemma flight_split:
  assumes cb: "cryptobyte_laws cb" and env: "plain_env env" and rdy: "flight_ready st ch sh s"
    and out: "hc_handshakeBuf (c_out (h_c s)) = None" "hc_handshakeLen (c_out (h_c s)) = lens" "lens ! 1 \<noteq> 0"
    and msgs: "flight_messages cb env st (ch @ sh) s ee cert sig"
    and fits: "fits_record (lens ! 2) (length ee)" "fits_record (lens ! 3) (length cert)" "fits_record (lens ! 4) 72"
      "fits_record (lens ! 5) (4 + ha_Size (s13_hash st))"
    and client: "hc_version inn0 = VersionTLS13" "hc_mac inn0 = None"
  shows "\<exists>s' hsec secret vd records inn inn'.
    EarlySecret_HandshakeSecret (NewEarlySecret (s13_hash st) None) (h_sharedKey s) = Inr hsec \<and>
    ServerHandshakeTrafficSecret hsec (ch @ sh) = Inr secret \<and>
    finishedHash13 st secret (ch @ sh @ ee @ cert @ cv_bytes sig) = Inr vd \<and>
    send_flight env cb tick s = Inr (None, s') \<and>
    h_c s' = (h_c s)\<lparr>c_in := c_in (h_c s'), c_out := c_out (h_c s'), c_sendBuf := c_sendBuf (h_c s) @
      plain_record recordTypeHandshake sh @ plain_record recordTypeChangeCipherSpec [1] @ concat records\<rparr> \<and>
    map (\<lambda>r. int (length r)) records = [lens ! 2, lens ! 3, lens ! 4, lens ! 5] \<and>
    suite_set_secret (env_suites env) st level secret inn0 = Inr inn \<and>
    opens inn records = Some (map (\<lambda>m. (m, recordTypeHandshake)) [ee, cert, cv_bytes sig, fin_bytes vd], inn') \<and>
    h_suite s' = Some st \<and>
    finishedHash13 st (hc_trafficSecret (c_in (h_c s'))) (ch @ sh @ ee @ cert @ cv_bytes sig @ fin_bytes vd) = Inr (h_clientFinished s')"
proof -
  have st: "st \<in> set suitesTLS13" using rdy by (simp add: flight_ready_def)
  note m = msgs [unfolded flight_messages_def]
  obtain hsec secret a nm s1 where k: "EarlySecret_HandshakeSecret (NewEarlySecret (s13_hash st) None) (h_sharedKey s) = Inr hsec"
      "ServerHandshakeTrafficSecret hsec (ch @ sh) = Inr secret" "aead_laws a" "raw_Overhead a = 16"
      "\<And>level hc. suite_set_secret (env_suites env) st level secret hc = Inr (keyed hc level secret (xorNonceAEAD nm a))"
      "\<And>level inn0. hc_version inn0 = VersionTLS13 \<Longrightarrow> hc_mac inn0 = None \<Longrightarrow>
         tls13_peers a (c_out (h_c s1)) (keyed inn0 level secret (xorNonceAEAD nm a))"
    and s1: "h_suite s1 = Some st" "h_sigAlg s1 = Ed25519" "pk_Signer (cert_PrivateKey (h_cert s1)) \<noteq> None" "\<not> h_usingPSK s1"
      "h_transcript s1 = ch @ sh" "plain_ee s1 = plain_ee s" "cert_message s1 = cert_message s"
      "buffered (h_c s1)" "seq_value (hc_seq (c_out (h_c s1))) = 0" "hc_trafficSecret (c_out (h_c s1)) = secret"
      "hc_handshakeBuf (c_out (h_c s1)) = hc_handshakeBuf (c_out (h_c s))" "hc_handshakeLen (c_out (h_c s1)) = hc_handshakeLen (c_out (h_c s))"
    and ends: "\<And>s2 s4 s5 out buf t. write_msg cb (\<lambda>_. EncryptedExtensions (plain_ee s1)) s1 = Inr (None, s2) \<Longrightarrow>
       sendServerCertificate env cb s2 = Inr (None, s4) \<Longrightarrow> send_finished cb st s4 = Inr (None, s5) \<Longrightarrow> h_suite s4 = Some st \<Longrightarrow>
       s5 = s1\<lparr>h_c := (h_c s1)\<lparr>c_out := out, c_sendBuf := c_sendBuf (h_c s1) @ buf\<rparr>, h_transcript := t\<rparr> \<Longrightarrow>
       \<exists>s'. send_flight env cb tick s = Inr (None, s') \<and>
         h_c s' = (h_c s)\<lparr>c_in := c_in (h_c s'), c_out := c_out (h_c s'), c_sendBuf := c_sendBuf (h_c s) @
           plain_record recordTypeHandshake sh @ plain_record recordTypeChangeCipherSpec [1] @ buf\<rparr> \<and> h_suite s' = Some st \<and>
         finishedHash13 st (hc_trafficSecret (c_in (h_c s'))) t = Inr (h_clientFinished s')"
    by (rule flight_frame [OF cb env rdy, where tick = tick]) blast
  let ?inn = "keyed inn0 level secret (xorNonceAEAD nm a)"
  have f1: "flight_at a lens secret ?inn s1 [] s1"
    using s1 out k(6) [OF client] by (intro flight_start) (simp add: in_flight_def loaded_def)
  have m1: "flight_messages cb env st (h_transcript s1) s1 ee cert sig" using m s1 by (simp add: flight_messages_def)
  obtain s2 s4 s5 vd where w: "write_msg cb (\<lambda>_. EncryptedExtensions (plain_ee s1)) s1 = Inr (None, s2)"
      "sendServerCertificate env cb s2 = Inr (None, s4)" "send_finished cb st s4 = Inr (None, s5)" "h_suite s4 = Some st"
      and vd: "finishedHash13 st secret (h_transcript s1 @ ee @ cert @ cv_bytes sig) = Inr vd"
      and f5: "flight_at a lens secret ?inn s1 [ee, cert, cv_bytes sig, fin_bytes vd] s5"
    by (rule flight_four [OF cb env st k(3,4) f1 s1(1-4) m1 fits]) blast
  obtain records out inn where r5: "s5 = s1\<lparr>h_c := (h_c s1)\<lparr>c_out := out, c_sendBuf := c_sendBuf (h_c s1) @ concat records\<rparr>,
       h_transcript := h_transcript s1 @ concat [ee, cert, cv_bytes sig, fin_bytes vd]\<rparr>"
      "map (\<lambda>r. int (length r)) records = map ((!) lens) [2..<2 + length [ee, cert, cv_bytes sig, fin_bytes vd]]"
      "opens ?inn records = Some (map (\<lambda>m. (m, recordTypeHandshake)) [ee, cert, cv_bytes sig, fin_bytes vd], inn)"
    using f5 unfolding flight_at_def by blast
  have "[2..<6] = [2, 3, 4, 5 :: nat]" by (simp add: upt_rec)
  then have lengths: "map (\<lambda>r. int (length r)) records = [lens ! 2, lens ! 3, lens ! 4, lens ! 5]" using r5(2) by simp
  from ends [OF w r5(1)] obtain s' where "send_flight env cb tick s = Inr (None, s')" "h_suite s' = Some st"
      "h_c s' = (h_c s)\<lparr>c_in := c_in (h_c s'), c_out := c_out (h_c s'), c_sendBuf := c_sendBuf (h_c s) @
         plain_record recordTypeHandshake sh @ plain_record recordTypeChangeCipherSpec [1] @ concat records\<rparr>"
      "finishedHash13 st (hc_trafficSecret (c_in (h_c s'))) (ch @ sh @ ee @ cert @ cv_bytes sig @ fin_bytes vd) = Inr (h_clientFinished s')"
    using s1(5) by auto
  then show ?thesis using k(1,2,5) vd lengths r5(3) s1(5)
    by (intro exI [of _ s'] exI [of _ hsec] exI [of _ secret] exI [of _ vd] exI [of _ records] exI [of _ ?inn] exI [of _ inn]) simp
qed

subsection \<open>The flight in one record\<close>

lemma write_gather:
  assumes "hc_handshakeBuf (c_out (h_c s)) = Some buf" "msg_marshal cb (msg s) = Some data" "data = t # r"
    "t \<noteq> typeServerHello" "t \<noteq> typeFinished"
  shows "write_msg cb msg s = Inr (None, s\<lparr>h_c := (h_c s)\<lparr>c_out := (c_out (h_c s))\<lparr>hc_handshakeBuf := Some (buf @ data)\<rparr>\<rparr>,
    h_transcript := h_transcript s @ data\<rparr>)"
  using assms by (simp add: write_msg_def writeHandshakeRecord_def gather_handshake_def)

lemma write_gathered:
  assumes a: "aead_laws a" "raw_Overhead a = 16" "tls13_peers a (c_out (h_c s)) inn" "buffered (h_c s)"
    and seq: "seq_value (hc_seq (c_out (h_c s))) < 2 ^ 64 - 1"
    and out: "hc_handshakeBuf (c_out (h_c s)) = Some (typeEncryptedExtensions # buf)" "hc_handshakeLen (c_out (h_c s)) ! 1 \<noteq> 0"
    and msg: "msg_marshal cb (msg s) = Some (typeFinished # r)"
    and fits: "fits_record (hc_handshakeLen (c_out (h_c s)) ! 2) (length ((typeEncryptedExtensions # buf) @ typeFinished # r))"
  obtains rcd out' inn' where
    "write_msg cb msg s = Inr (None, s\<lparr>h_c := (h_c s)\<lparr>c_out := out', c_sendBuf := c_sendBuf (h_c s) @ rcd\<rparr>,
       h_transcript := h_transcript s @ typeFinished # r\<rparr>)"
    "int (length rcd) = hc_handshakeLen (c_out (h_c s)) ! 2"
    "decrypt inn rcd = Inr (Inr ((typeEncryptedExtensions # buf) @ typeFinished # r, recordTypeHandshake), inn')"
proof -
  let ?c = "(h_c s)\<lparr>c_out := (c_out (h_c s))\<lparr>hc_handshakeBuf := None\<rparr>\<rparr>"
  let ?data = "(typeEncryptedExtensions # buf) @ typeFinished # r"
  let ?hdr = "header13 recordTypeHandshake ?data"
  have peers: "tls13_peers a (c_out ?c) inn" using a(3) by (simp add: tls13_peers_def peers_def)
  have slot: "handshake_slot (?data ! 0) = Some 2" by (simp add: handshake_slot_def)
  have len: "length ?data \<le> maxPlaintext" using fits by (simp add: fits_record_def)
  obtain rcd out' inn' where enc: "encrypt (c_out ?c) ?hdr ?data (c_rand ?c) = Inr (Inr rcd, out', c_rand ?c)"
    and rec: "int (length rcd) = hc_handshakeLen (c_out (h_c s)) ! 2" "decrypt inn rcd = Inr (Inr (?data, recordTypeHandshake), inn')"
    using target_record [OF a(1) peers _ _ _ _ slot _ _ refl, of ?hdr "c_rand ?c"] fits a(2) seq out(2)
    by (auto simp: fits_record_def)
  have "writeRecordLocked ?c recordTypeHandshake ?data = Inr ((length ?data, None), ?c\<lparr>c_out := out', c_sendBuf := c_sendBuf ?c @ rcd\<rparr>)"
    using write_buffered [OF _ _ len _ enc] a(4) by simp
  then have "write_msg cb msg s = Inr (None, s\<lparr>h_c := (h_c s)\<lparr>c_out := out', c_sendBuf := c_sendBuf (h_c s) @ rcd\<rparr>,
       h_transcript := h_transcript s @ typeFinished # r\<rparr>)"
    using msg out(1) by (simp add: write_msg_def writeHandshakeRecord_def gather_handshake_def)
  then show thesis using that rec by blast
qed

lemma gather_four:
  assumes cb: "cryptobyte_laws cb" and env: "plain_env env" and st: "st \<in> set suitesTLS13" and a: "aead_laws a" "raw_Overhead a = 16"
    and s1: "h_suite s1 = Some st" "h_sigAlg s1 = Ed25519" "pk_Signer (cert_PrivateKey (h_cert s1)) \<noteq> None" "\<not> h_usingPSK s1"
    and out: "tls13_peers a (c_out (h_c s1)) inn" "buffered (h_c s1)" "seq_value (hc_seq (c_out (h_c s1))) = 0"
      "hc_handshakeBuf (c_out (h_c s1)) = Some []" "hc_handshakeLen (c_out (h_c s1)) ! 1 \<noteq> 0" "hc_trafficSecret (c_out (h_c s1)) = secret"
    and m: "flight_messages cb env st (h_transcript s1) s1 ee cert sig"
    and fits: "fits_record (hc_handshakeLen (c_out (h_c s1)) ! 2) (length ee + length cert + 76 + ha_Size (s13_hash st))"
  obtains s2 s4 s5 vd rcd inn' out' where "write_msg cb (\<lambda>_. EncryptedExtensions (plain_ee s1)) s1 = Inr (None, s2)"
    "sendServerCertificate env cb s2 = Inr (None, s4)" "send_finished cb st s4 = Inr (None, s5)" "h_suite s4 = Some st"
    "finishedHash13 st secret (h_transcript s1 @ ee @ cert @ cv_bytes sig) = Inr vd"
    "s5 = s1\<lparr>h_c := (h_c s1)\<lparr>c_out := out', c_sendBuf := c_sendBuf (h_c s1) @ rcd\<rparr>,
       h_transcript := h_transcript s1 @ ee @ cert @ cv_bytes sig @ fin_bytes vd\<rparr>"
    "int (length rcd) = hc_handshakeLen (c_out (h_c s1)) ! 2"
    "decrypt inn rcd = Inr (Inr (ee @ cert @ cv_bytes sig @ fin_bytes vd, recordTypeHandshake), inn')"
proof -
  note m = m [unfolded flight_messages_def]
  let ?s = "\<lambda>b. s1\<lparr>h_c := (h_c s1)\<lparr>c_out := (c_out (h_c s1))\<lparr>hc_handshakeBuf := Some b\<rparr>\<rparr>, h_transcript := h_transcript s1 @ b\<rparr>"
  have keep: "h_suite (?s b) = Some st" "h_sigAlg (?s b) = Ed25519" "cert_message (?s b) = cert_message s1" for b
    using s1 by (simp_all add: cert_message_cong)
  obtain t1 where t1: "ee = typeEncryptedExtensions # t1" using m cryptobyte_laws.marshal_types(1) [OF cb] by blast
  obtain t2 where t2: "cert = typeCertificate # t2" using m cryptobyte_laws.marshal_types(2) [OF cb] by (auto simp: cert_message_def)
  let ?cv = "\<lambda>s. CertificateVerify \<lparr>cv_hasSignatureAlgorithm = True, cv_signatureAlgorithm = h_sigAlg s, cv_signature = sig\<rparr>"
  have cv: "length (cv_bytes sig) = 72" "msg_marshal cb (?cv (?s b)) = Some (cv_bytes sig)" for b
    using m s1 cryptobyte_laws.cert_verify_bytes [OF cb, of sig] by (simp_all add: cv_bytes_def)
  have w1: "write_msg cb (\<lambda>_. EncryptedExtensions (plain_ee s1)) s1 = Inr (None, ?s ee)"
    using write_gather [of s1 "[]" cb "\<lambda>_. EncryptedExtensions (plain_ee s1)", OF out(4) _ t1] m by simp
  have w2: "write_msg cb cert_message (?s ee) = Inr (None, ?s (ee @ cert))"
    using write_gather [of "?s ee" ee cb cert_message, OF _ _ t2] m keep by simp
  have w3: "write_msg cb ?cv (?s (ee @ cert)) = Inr (None, ?s (ee @ cert @ cv_bytes sig))"
    using write_gather [of "?s (ee @ cert)" "ee @ cert" cb ?cv, OF _ cv(2) cv_bytes_def] by simp
  have "send_cert_verify env cb (?s (ee @ cert)) = write_msg cb ?cv (?s (ee @ cert))"
    by (rule send_cv [of _ st]) (use s1 m in simp_all)
  then have p2: "sendServerCertificate env cb (?s ee) = Inr (None, ?s (ee @ cert @ cv_bytes sig))"
    using w2 w3 env s1(4)
    by (simp add: sendServerCertificate_def send_cert_request_def requestClientCert_def plain_env_def)
  obtain vd where vd: "finishedHash13 st secret (h_transcript s1 @ ee @ cert @ cv_bytes sig) = Inr vd" "length vd = ha_Size (s13_hash st)"
    by (rule finishedHash13_length [OF st])
  have vd3: "length vd < 256 ^ 3" using vd(2) suite_sizes(1) [OF st] by auto
  have fin: "length (fin_bytes vd) = 4 + ha_Size (s13_hash st)" "msg_marshal cb (Finished vd) = Some (fin_bytes vd)"
    using vd(2) cryptobyte_laws.finished_bytes [OF cb vd3] by (simp_all add: fin_bytes_def)
  let ?s4 = "?s (ee @ cert @ cv_bytes sig)"
  have peers: "tls13_peers a (c_out (h_c ?s4)) inn" using out(1) by (simp add: tls13_peers_def peers_def)
  have g: "buffered (h_c ?s4)" "seq_value (hc_seq (c_out (h_c ?s4))) < 2 ^ 64 - 1"
      "hc_handshakeBuf (c_out (h_c ?s4)) = Some (typeEncryptedExtensions # t1 @ cert @ cv_bytes sig)"
      "hc_handshakeLen (c_out (h_c ?s4)) ! 1 \<noteq> 0" "msg_marshal cb (Finished vd) = Some (typeFinished # length_bytes 3 (length vd) @ vd)"
      "fits_record (hc_handshakeLen (c_out (h_c ?s4)) ! 2)
        (length ((typeEncryptedExtensions # t1 @ cert @ cv_bytes sig) @ typeFinished # length_bytes 3 (length vd) @ vd))"
    using out fin(2) t1 cv(1) vd(2) fits by (simp_all add: fin_bytes_def add.assoc)
  obtain rcd out' inn' where w4: "write_msg cb (\<lambda>_. Finished vd) ?s4 = Inr (None, ?s4\<lparr>h_c := (h_c ?s4)\<lparr>c_out := out',
        c_sendBuf := c_sendBuf (h_c ?s4) @ rcd\<rparr>, h_transcript := h_transcript ?s4 @ fin_bytes vd\<rparr>)"
    and rec: "int (length rcd) = hc_handshakeLen (c_out (h_c s1)) ! 2"
      "decrypt inn rcd = Inr (Inr (ee @ cert @ cv_bytes sig @ fin_bytes vd, recordTypeHandshake), inn')"
    by (rule write_gathered [OF a peers g(1-4), where cb = cb and msg = "\<lambda>_. Finished vd", OF g(5,6)])
      (simp add: fin_bytes_def t1)
  have p3: "send_finished cb st ?s4 = write_msg cb (\<lambda>_. Finished vd) ?s4" using out(6) vd(1) by (simp add: send_finished_def)
  show thesis using that [OF w1 p2 p3 [unfolded w4] _ vd(1) _ rec] s1 by simp
qed

subsection \<open>The key exchange\<close>

lemma copy_at_front: "length new \<le> length b \<Longrightarrow> copy_at 0 new b = new @ drop (length new) b"
  by (simp add: copy_at_def)

lemma overwrite_twice:
  "length old = length new \<Longrightarrow> off + length new \<le> length b \<Longrightarrow> overwrite off new (overwrite off old b) = overwrite off new b"
  by (simp add: overwrite_def)

lemma patch_share_fields [simp]:
  "sh_cipherSuite (patch_share off new hello) = sh_cipherSuite hello"
  "ks_group (sh_serverShare (patch_share off new hello)) = ks_group (sh_serverShare hello)"
  by (simp_all add: patch_share_def Let_def)

lemma patch_share_data:
  "length new \<le> length (ks_data (sh_serverShare hello)) \<Longrightarrow>
    ks_data (sh_serverShare (patch_share off new hello)) = new @ drop (length new) (ks_data (sh_serverShare hello))"
  by (simp add: patch_share_def copy_at_front Let_def)

lemma patch_share_original:
  "length new \<le> length (ks_data (sh_serverShare hello)) \<Longrightarrow> sh_original (patch_share off new hello) =
    map_option (overwrite off (new @ drop (length new) (ks_data (sh_serverShare hello)))) (sh_original hello)"
  by (simp add: patch_share_def copy_at_front Let_def)

text \<open>
  The server only makes X25519 keys and does not check what the target chose: where the client's share
  of the group in the ServerHello is no X25519 key, the public key is nil and the exchange panics.
\<close>

lemma key_exchange_other_group_panics:
  assumes "cipherSuiteTLS13Map (sh_cipherSuite (h_hello s)) = Some st" "env_key env = Some key"
    and "ks_group (sh_serverShare (h_hello s)) \<noteq> X25519MLKEM768"
    and "length (peer_data (ch_keyShares (h_clientHello s)) (ks_group (sh_serverShare (h_hello s)))) \<noteq> 32"
  shows "key_exchange env s = Inl NilDeref"
  using assms by (simp add: key_exchange_def Let_def)

text \<open>What the client computes from the share it reads in the ServerHello.\<close>

definition client_secret :: "server_env \<Rightarrow> (bytes \<Rightarrow> bytes) \<Rightarrow> bytes \<Rightarrow> bool \<Rightarrow> bytes \<Rightarrow> bytes option" where
  "client_secret env decapsulate ck hybrid share =
     (if hybrid then map_option (\<lambda>k. decapsulate (take 1088 share) @ k) (env_X25519 env ck (drop 1088 share))
      else env_X25519 env ck share)"

subsection \<open>The handshake\<close>

lemma handshake_frame:
  assumes "cg_initErr (env_globals env) = None" "key_exchange env s = Inr (None, s1)" "choose_plan env s1 = (Some plan, cache)"
    and "MaterializeCert (env_certs env) (env_globals env) (env_pooled env) (Some plan) (h_AuthKey s1) (env_Mldsa65Key env) ch sh = Inr (Inr chain)"
    and "ch_original (h_clientHello s1) = Some ch" "sh_original (h_hello s1) = Some sh"
    and s2: "s2 = put_cert (env_globals env) chain (s1\<lparr>h_certPlans := cache, h_c := (h_c s1)\<lparr>c_buffering := True\<rparr>\<rparr>)"
    and "send_flight env cb tick s2 = Inr (None, s3)" "c_writes (h_c s3) = []" "c_sendBuf (h_c s3) \<noteq> []"
  shows "handshake13 env cb tick s = Inr (None, s3\<lparr>h_c := (h_c s3)\<lparr>c_sent := c_sent (h_c s3) @ c_sendBuf (h_c s3),
    c_bytesSent := c_bytesSent (h_c s3) + length (c_sendBuf (h_c s3)), c_sendBuf := [], c_buffering := False\<rparr>\<rparr>)"
proof -
  have cert: "choose_cert env (Some plan) (s1\<lparr>h_certPlans := cache\<rparr>) = Inr (None, put_cert (env_globals env) chain (s1\<lparr>h_certPlans := cache\<rparr>))"
    using assms(4-6) by (simp add: choose_cert_def)
  have "(put_cert (env_globals env) chain (s1\<lparr>h_certPlans := cache\<rparr>))\<lparr>h_c :=
      (h_c (put_cert (env_globals env) chain (s1\<lparr>h_certPlans := cache\<rparr>)))\<lparr>c_buffering := True\<rparr>\<rparr> = s2"
    by (simp add: s2 put_cert_def)
  then show ?thesis using assms(1-3,8-10) cert
    by (simp add: handshake13_def and_then_def on_conn_def flush_def Let_def)
qed

lemma plan_certificate:
  assumes cb: "cryptobyte_laws cb"
    and "s2 = put_cert g (leaf # cp_ChainDERs plan) s1" "length leaf = length (cp_LeafDER plan)"
    and "cp_InnerMsgLen plan = estimateCertMsgLen (cp_LeafDER plan) (cp_ChainDERs plan)"
    and "msg_marshal cb (cert_message s2) = Some cert"
  shows "int (length cert) = cp_InnerMsgLen plan" "0 < cp_InnerMsgLen plan"
proof -
  have "cert_message s2 = CertificateTLS13 (chain_msg (leaf # cp_ChainDERs plan))"
    using assms(2) by (simp add: cert_message_def put_cert_def chain_msg_def)
  then show "int (length cert) = cp_InnerMsgLen plan"
    using cryptobyte_laws.chain_msg_length [OF cb, of leaf "cp_ChainDERs plan" cert] assms(3-5)
    by (simp add: estimateCertMsgLen_def)
  show "0 < cp_InnerMsgLen plan" using assms(4) estimate_pos by simp
qed

subsection \<open>A sample handshake\<close>

definition sample_env :: server_env where
  "sample_env = \<lparr>env_suites = \<lparr>lib_AESGCM = (\<lambda>key. Some sum_aead), lib_ChaCha20Poly1305 = (\<lambda>key. Some sum_aead)\<rparr>,
     env_key = Some (replicate 32 7), env_X25519_public = (\<lambda>k. k), env_X25519 = (\<lambda>k pub. Some (map2 (XOR) k pub)),
     env_NewEncapsulationKey768 = (\<lambda>ek. True), env_Encapsulate = (\<lambda>ek. (replicate 32 9, replicate 1088 8)),
     env_share_offset = 58, env_behind = [], env_Sign = (\<lambda>alg msg. Inr (replicate 64 4)), env_hash = (\<lambda>h. SHA256),
     env_writeKeyLog = (\<lambda>label r secret. None), env_quicGetTransportParameters = (\<lambda>c. (Inr [], c)),
     env_ClientAuth = 0, env_ClientCAs = None, env_fips = False, env_EncryptedClientHelloKeys = (\<lambda>ch. Inr []),
     env_Dest = ''a.example'', env_ServerName = [], env_Mldsa65Key = [], env_certs = sample_lib,
     env_globals = sample_globals, env_clock = 0, env_pooled = None, env_plan_order = []\<rparr>"

definition sample_plan :: CertPlan where
  "sample_plan = \<lparr>cp_LeafDER = replicate 300 48, cp_ChainDERs = [], cp_HMACOffset = 236, cp_HMACLen = 64,
     cp_MLDSAOffset = -1, cp_MLDSALen = 0, cp_InnerMsgLen = 313, cp_Mode = 0, cp_Budget = 900\<rparr>"

definition sample_hs :: "int list \<Rightarrow> bytes option \<Rightarrow> hs13" where
  "sample_hs lens buf = \<lparr>h_c = sample_conn\<lparr>c_out := idle_half\<lparr>hc_cipher := None, hc_handshakeLen := lens, hc_handshakeBuf := buf\<rparr>\<rparr>,
     h_clientHello = (clientHelloMsg_zero (Some (replicate 100 1)))\<lparr>ch_keyShares := [\<lparr>ks_group = X25519, ks_data = replicate 32 3\<rparr>]\<rparr>,
     h_hello = sample_server\<lparr>sh_original := Some sample_server_hello\<rparr>, h_sentDummyCCS = False, h_usingPSK = False,
     h_earlyData = False, h_suite = None, h_cert = \<lparr>cert_Certificate = [], cert_OCSPStaple = None, cert_SignedCertificateTimestamps = None,
       cert_PrivateKey = \<lparr>pk_form = UsualKey, pk_Signer = None, pk_Decrypter = None, pk_type = []\<rparr>, cert_SupportedSignatureAlgorithms = None\<rparr>,
     h_sigAlg = 0, h_earlySecret = None, h_sharedKey = None, h_handshakeSecret = None, h_masterSecret = None, h_trafficSecret = [],
     h_transcript = [], h_clientFinished = [], h_echContext = False, h_serverName = [], h_clientProtocol = ''h2'', h_AuthKey = replicate 32 6,
     h_amortizeProfile = None, h_resumptionSecret = [], h_destMeta = \<lparr>dm_certs = Map.empty, dm_ee = Map.empty\<rparr>,
     h_certPlans = [\<lparr>pk_budget = 900, pk_mldsa = False, pk_mode = RecordModeSplit, pk_chainN = 0, pk_padHint = 0, pk_metaFP = 0\<rparr> \<mapsto> sample_plan]\<rparr>"

lemma sample_plain_env: "plain_env sample_env"
  using sum.aead_laws_axioms by (simp add: plain_env_def sample_env_def lawful_suites_def sum_aead_def [THEN arg_cong, of raw_Overhead])

definition sample_hello' :: bytes where
  "sample_hello' = take 58 sample_server_hello @ replicate 32 7"

definition sample_hs1 :: "int list \<Rightarrow> bytes option \<Rightarrow> hs13" where
  "sample_hs1 lens buf = (let s = sample_hs lens buf in
     s\<lparr>h_suite := cipherSuiteTLS13Map 0x1301, h_c := (h_c s)\<lparr>c_cipherSuite := 0x1301\<rparr>,
       h_hello := (h_hello s)\<lparr>sh_serverShare := \<lparr>ks_group = X25519, ks_data = replicate 32 7\<rparr>, sh_original := Some sample_hello'\<rparr>,
       h_sharedKey := Some (replicate 32 4)\<rparr>)"

lemma sample_suite: "\<exists>st. cipherSuiteTLS13Map 0x1301 = Some st \<and> st \<in> set suitesTLS13 \<and> s13_id st = 0x1301 \<and> ha_Size (s13_hash st) = 32"
  by (simp add: cipherSuiteTLS13Map_def suitesTLS13_def SHA256_def)

lemma sample_key_exchange: "key_exchange sample_env (sample_hs lens buf) = Inr (None, sample_hs1 lens buf)"
  using sample_suite
  by (auto simp: key_exchange_def sample_hs_def sample_hs1_def sample_env_def sample_server_def serverHelloMsg_zero_def
      clientHelloMsg_zero_def peer_data_def patch_share_def copy_at_def overwrite_def sample_hello'_def sample_server_hello_def
      and_then_def Let_def zip_replicate)

abbreviation (input) sample_lens :: "int list" where "sample_lens \<equiv> [95, 6, 60, 900, 120, 90, 0]"

lemma sample_choose_plan:
  "choose_plan sample_env (sample_hs1 sample_lens None) = (Some sample_plan, h_certPlans (sample_hs1 sample_lens None))"
  by (simp add: choose_plan_def sample_env_def sample_hs1_def sample_hs_def cert_mode_def cert_dest_def cert_budget_def
      ResolveDestCertMeta_def GetDestCertMeta_def GetCertPlanWithMeta_def metaFingerprint_def ShapeHintFromMeta_def guard_plan_def
      certPlanFitsBudget_def plan_inner_def sample_plan_def Let_def clientHelloMsg_zero_def)

definition sample_leaf :: bytes where
  "sample_leaf = overwrite 236 (replicate 64 (sum_list (replicate 32 6 @ replicate 32 2))) (replicate 300 48)"

lemma sample_leaf_length: "length sample_leaf = 300"
  by (simp add: sample_leaf_def overwrite_def)

lemma sample_materialize:
  "MaterializeCert (env_certs sample_env) (env_globals sample_env) (env_pooled sample_env) (Some sample_plan)
     (h_AuthKey (sample_hs1 lens buf)) (env_Mldsa65Key sample_env) ch sh = Inr (Inr [sample_leaf])"
  by (simp add: MaterializeCert_def sample_env_def sample_plan_def sample_hs1_def sample_hs_def sample_globals_def sample_lib_def
      acquireHMACSHA512_def hmac_Sum_def sign_mldsa_def sample_leaf_def Let_def del: sum_list_append)

definition sample_hs2 :: "int list \<Rightarrow> bytes option \<Rightarrow> hs13" where
  "sample_hs2 lens buf = put_cert sample_globals [sample_leaf] ((sample_hs1 lens buf)\<lparr>h_c := (h_c (sample_hs1 lens buf))\<lparr>c_buffering := True\<rparr>\<rparr>)"

lemma sample_ready:
  "cipherSuiteTLS13Map 0x1301 = Some st \<Longrightarrow> flight_ready st (replicate 100 1) sample_hello' (sample_hs2 lens buf)"
  "c_sendBuf (h_c (sample_hs2 lens buf)) = []" "c_writes (h_c (sample_hs2 lens buf)) = []"
  "hc_handshakeBuf (c_out (h_c (sample_hs2 lens buf))) = buf" "hc_handshakeLen (c_out (h_c (sample_hs2 lens buf))) = lens"
  using sample_suite
  by (auto simp: flight_ready_def sample_hs2_def put_cert_def sample_hs1_def sample_hs_def sample_conn_def idle_half_def buffered_def
      clientHelloMsg_zero_def sample_hello'_def sample_server_hello_def Let_def)

lemma sample_messages:
  "\<exists>ee cert. flight_messages ref_cryptobyte sample_env st hellos (sample_hs2 lens buf) ee cert (replicate 64 4) \<and>
     length ee = 15 \<and> length cert = 313"
proof -
  have p: "h_clientProtocol (sample_hs2 lens buf) = ''h2''" by (simp add: sample_hs2_def put_cert_def sample_hs1_def sample_hs_def Let_def)
  have ee: "\<exists>ee. encryptedExtensionsMsg_marshal ref_cryptobyte (plain_ee (sample_hs2 lens buf)) = Some ee \<and> length ee = 15"
    by (simp add: ref.encrypted_marshal_bytes plain_ee_def p encrypted_ext_list_def x_if_def x_alpnProtocol_def
        string_to_bytes_def length_bytes_def be16_def be24_def)
  have "cert_message (sample_hs2 lens buf) = CertificateTLS13 (chain_msg [sample_leaf])"
    by (simp add: cert_message_def sample_hs2_def put_cert_def chain_msg_def)
  moreover have "\<exists>cert. certificateMsgTLS13_marshal ref_cryptobyte (chain_msg [sample_leaf]) = Some cert \<and> length cert = 313"
    by (simp add: certificateMsgTLS13_marshal_def chain_msg_def ref.builder ref.marshalCertificate_bytes cert_entry_def
        leaf_ext_list_def x_if_def sample_leaf_length length_bytes_def be16_def be24_def Let_def)
  ultimately have "\<exists>cert. msg_marshal ref_cryptobyte (cert_message (sample_hs2 lens buf)) = Some cert \<and> length cert = 313"
    by simp
  with ee show ?thesis by (auto simp: flight_messages_def sample_env_def)
qed

subsection \<open>Properties\<close>

text \<open>(C3)
  The server's handshake looks like the target's. Once keys are exchanged and a certificate plan that
  fits the target's Certificate record is made into a certificate, and if EncryptedExtensions,
  CertificateVerify and Finished fit the lengths of the target's records too, each with at most 8192
  bytes of padding, \<open>handshake\<close> sends exactly:
  the ServerHello, a change cipher spec, and four records, whose lengths are those of the target's
  records R2 to R5. A client that holds the server's handshake traffic secret opens them in order as
  EncryptedExtensions, the Certificate, the CertificateVerify with the server's signature, and a
  Finished over the transcript; and the server expects the client's Finished over the same
  transcript. (No client certificate is asked for, Encrypted ClientHello is not used.)
\<close>

theorem server_flight_matches_target:
  assumes cb: "cryptobyte_laws cb" and env: "plain_env env" "cg_initErr (env_globals env) = None"
    and kex: "key_exchange env s = Inr (None, s1)"
    and plan: "choose_plan env s1 = (Some plan, cache)" "certPlanFitsBudget (Some plan) (lens ! 3)"
      "cp_InnerMsgLen plan = estimateCertMsgLen (cp_LeafDER plan) (cp_ChainDERs plan)"
    and mat: "MaterializeCert (env_certs env) (env_globals env) (env_pooled env) (Some plan) (h_AuthKey s1) (env_Mldsa65Key env) ch sh =
      Inr (Inr (leaf # cp_ChainDERs plan))" "length leaf = length (cp_LeafDER plan)"
    and s2: "s2 = put_cert (env_globals env) (leaf # cp_ChainDERs plan) (s1\<lparr>h_certPlans := cache, h_c := (h_c s1)\<lparr>c_buffering := True\<rparr>\<rparr>)"
    and rdy: "flight_ready st ch sh s2" "c_sendBuf (h_c s2) = []" "c_writes (h_c s2) = []"
    and out: "hc_handshakeBuf (c_out (h_c s2)) = None" "hc_handshakeLen (c_out (h_c s2)) = lens" "lens ! 1 \<noteq> 0"
    and msgs: "flight_messages cb env st (ch @ sh) s2 ee cert sig"
    and fits: "fits_record (lens ! 2) (length ee)" "0 < lens ! 3" "lens ! 3 \<le> 22 + cp_InnerMsgLen plan + 8192" "lens ! 3 \<le> 22 + int maxPlaintext"
      "fits_record (lens ! 4) 72" "fits_record (lens ! 5) (4 + ha_Size (s13_hash st))"
    and client: "hc_version inn0 = VersionTLS13" "hc_mac inn0 = None"
  shows "\<exists>s' hsec secret vd records inn inn'. handshake13 env cb tick s = Inr (None, s') \<and>
    c_sent (h_c s') = c_sent (h_c s2) @ plain_record recordTypeHandshake sh @ plain_record recordTypeChangeCipherSpec [1] @ concat records \<and>
    map (\<lambda>r. int (length r)) records = [lens ! 2, lens ! 3, lens ! 4, lens ! 5] \<and>
    EarlySecret_HandshakeSecret (NewEarlySecret (s13_hash st) None) (h_sharedKey s1) = Inr hsec \<and>
    ServerHandshakeTrafficSecret hsec (ch @ sh) = Inr secret \<and>
    finishedHash13 st secret (ch @ sh @ ee @ cert @ cv_bytes sig) = Inr vd \<and>
    suite_set_secret (env_suites env) st level secret inn0 = Inr inn \<and>
    opens inn records = Some (map (\<lambda>m. (m, recordTypeHandshake)) [ee, cert, cv_bytes sig, fin_bytes vd], inn') \<and>
    finishedHash13 st (hc_trafficSecret (c_in (h_c s'))) (ch @ sh @ ee @ cert @ cv_bytes sig @ fin_bytes vd) = Inr (h_clientFinished s')"
proof -
  have "msg_marshal cb (cert_message s2) = Some cert" using msgs by (simp add: flight_messages_def)
  from plan_certificate [OF cb s2 mat(2) plan(3) this]
  have cert: "int (length cert) = cp_InnerMsgLen plan" "0 < cp_InnerMsgLen plan" by simp_all
  then have fits3: "fits_record (lens ! 3) (length cert)"
    using plan(2) fits(2-4) by (simp add: fits_record_def certPlanFitsBudget_def plan_inner_def)
  have hellos: "ch_original (h_clientHello s1) = Some ch" "sh_original (h_hello s1) = Some sh"
    using rdy(1) s2 by (simp_all add: flight_ready_def put_cert_def)
  have shared: "h_sharedKey s2 = h_sharedKey s1" by (simp add: s2 put_cert_def)
  obtain s3 hsec secret vd records inn inn' where f: "EarlySecret_HandshakeSecret (NewEarlySecret (s13_hash st) None) (h_sharedKey s2) = Inr hsec"
      "ServerHandshakeTrafficSecret hsec (ch @ sh) = Inr secret" "finishedHash13 st secret (ch @ sh @ ee @ cert @ cv_bytes sig) = Inr vd"
      "send_flight env cb tick s2 = Inr (None, s3)"
      "h_c s3 = (h_c s2)\<lparr>c_in := c_in (h_c s3), c_out := c_out (h_c s3), c_sendBuf := c_sendBuf (h_c s2) @
        plain_record recordTypeHandshake sh @ plain_record recordTypeChangeCipherSpec [1] @ concat records\<rparr>"
      "map (\<lambda>r. int (length r)) records = [lens ! 2, lens ! 3, lens ! 4, lens ! 5]"
      "suite_set_secret (env_suites env) st level secret inn0 = Inr inn"
      "opens inn records = Some (map (\<lambda>m. (m, recordTypeHandshake)) [ee, cert, cv_bytes sig, fin_bytes vd], inn')"
      "finishedHash13 st (hc_trafficSecret (c_in (h_c s3))) (ch @ sh @ ee @ cert @ cv_bytes sig @ fin_bytes vd) = Inr (h_clientFinished s3)"
    using flight_split [OF cb env(1) rdy(1) out msgs fits(1) fits3 fits(5,6) client, where tick = tick and level = level]
    by (elim exE conjE) (rule that)
  have c3: "c_writes (h_c s3) = []" "c_sent (h_c s3) = c_sent (h_c s2)" "c_sendBuf (h_c s3) =
      plain_record recordTypeHandshake sh @ plain_record recordTypeChangeCipherSpec [1] @ concat records"
    by (subst f(5), simp add: rdy(2,3))+
  then have "c_sendBuf (h_c s3) \<noteq> []" by simp
  from handshake_frame [OF env(2) kex plan(1) mat(1) hellos s2 f(4) c3(1) this] f c3(2,3) shared
  show ?thesis by (intro exI conjI) (assumption | simp)+
qed

theorem server_flight_matches_target_witness:
  "\<exists>s' records. handshake13 sample_env ref_cryptobyte (\<lambda>s. Inr (None, s)) (sample_hs sample_lens None) = Inr (None, s') \<and>
    c_sent (h_c s') = plain_record recordTypeHandshake sample_hello' @ plain_record recordTypeChangeCipherSpec [1] @ concat records \<and>
    map (\<lambda>r. int (length r)) records = [60, 900, 120, 90]"
proof -
  obtain st where st: "cipherSuiteTLS13Map 0x1301 = Some st" "ha_Size (s13_hash st) = 32" using sample_suite by blast
  let ?s1 = "sample_hs1 sample_lens None" and ?s2 = "sample_hs2 sample_lens None"
  obtain ee cert where m: "flight_messages ref_cryptobyte sample_env st (replicate 100 1 @ sample_hello') ?s2 ee cert (replicate 64 4)"
      "length ee = 15" "length cert = 313" using sample_messages by blast
  have s2: "?s2 = put_cert (env_globals sample_env) (sample_leaf # cp_ChainDERs sample_plan)
      (?s1\<lparr>h_certPlans := h_certPlans ?s1, h_c := (h_c ?s1)\<lparr>c_buffering := True\<rparr>\<rparr>)"
    by (simp add: sample_hs2_def sample_env_def sample_plan_def)
  have plan: "certPlanFitsBudget (Some sample_plan) (sample_lens ! 3)"
      "cp_InnerMsgLen sample_plan = estimateCertMsgLen (cp_LeafDER sample_plan) (cp_ChainDERs sample_plan)"
      "length sample_leaf = length (cp_LeafDER sample_plan)"
    by (simp_all add: certPlanFitsBudget_def plan_inner_def sample_plan_def estimateCertMsgLen_def sample_leaf_length)
  have mat: "MaterializeCert (env_certs sample_env) (env_globals sample_env) (env_pooled sample_env) (Some sample_plan)
     (h_AuthKey ?s1) (env_Mldsa65Key sample_env) (replicate 100 1) sample_hello' = Inr (Inr (sample_leaf # cp_ChainDERs sample_plan))"
    using sample_materialize by (simp add: sample_plan_def)
  have fits: "fits_record (sample_lens ! 2) (length ee)" "0 < sample_lens ! 3" "sample_lens ! 3 \<le> 22 + cp_InnerMsgLen sample_plan + 8192"
      "sample_lens ! 3 \<le> 22 + int maxPlaintext" "fits_record (sample_lens ! 4) 72" "fits_record (sample_lens ! 5) (4 + ha_Size (s13_hash st))"
    using m(2) st(2) by (simp_all add: fits_record_def sample_plan_def)
  have init: "cg_initErr (env_globals sample_env) = None" "sample_lens ! 1 \<noteq> 0" "hc_version idle_half = VersionTLS13" "hc_mac idle_half = None"
      "c_sent (h_c ?s2) = []"
    by (simp_all add: sample_env_def sample_globals_def idle_half_def sample_hs2_def put_cert_def sample_hs1_def sample_hs_def sample_conn_def Let_def)
  show ?thesis
    using server_flight_matches_target [OF ref.cryptobyte_laws_axioms sample_plain_env init(1) sample_key_exchange sample_choose_plan
        plan(1,2) mat plan(3) s2 sample_ready(1) [OF st(1)] sample_ready(2-5) init(2) m(1) fits init(3,4),
        where tick = "\<lambda>s. Inr (None, s)" and level = 2] init(5)
    by (elim exE conjE) (intro exI conjI, assumption, simp_all)
qed

text \<open>(C5)
  The flight of a target that sends everything behind the ServerHello in one record. With the buffer
  of the coalesced mode, and if they fit the record with at most 8192 bytes of padding,
  EncryptedExtensions, Certificate, CertificateVerify and Finished are sent as one record of exactly
  the target's length, which a client that holds the server's handshake
  traffic secret opens as the four messages one after the other; and the server expects the client's
  Finished over the same transcript. (No client certificate is asked for, Encrypted ClientHello is
  not used.)
\<close>

theorem coalesced_flight_in_one_record:
  assumes cb: "cryptobyte_laws cb" and env: "plain_env env" and rdy: "flight_ready st ch sh s"
    and out: "hc_handshakeBuf (c_out (h_c s)) = Some []" "hc_handshakeLen (c_out (h_c s)) = lens" "lens ! 1 \<noteq> 0"
    and msgs: "flight_messages cb env st (ch @ sh) s ee cert sig"
    and fits: "fits_record (lens ! 2) (length ee + length cert + 76 + ha_Size (s13_hash st))"
    and client: "hc_version inn0 = VersionTLS13" "hc_mac inn0 = None"
  shows "\<exists>s' hsec secret vd rcd inn inn'.
    EarlySecret_HandshakeSecret (NewEarlySecret (s13_hash st) None) (h_sharedKey s) = Inr hsec \<and>
    ServerHandshakeTrafficSecret hsec (ch @ sh) = Inr secret \<and>
    finishedHash13 st secret (ch @ sh @ ee @ cert @ cv_bytes sig) = Inr vd \<and>
    send_flight env cb tick s = Inr (None, s') \<and>
    h_c s' = (h_c s)\<lparr>c_in := c_in (h_c s'), c_out := c_out (h_c s'), c_sendBuf := c_sendBuf (h_c s) @
      plain_record recordTypeHandshake sh @ plain_record recordTypeChangeCipherSpec [1] @ rcd\<rparr> \<and>
    int (length rcd) = lens ! 2 \<and>
    suite_set_secret (env_suites env) st level secret inn0 = Inr inn \<and>
    opens inn [rcd] = Some ([(ee @ cert @ cv_bytes sig @ fin_bytes vd, recordTypeHandshake)], inn') \<and>
    h_suite s' = Some st \<and>
    finishedHash13 st (hc_trafficSecret (c_in (h_c s'))) (ch @ sh @ ee @ cert @ cv_bytes sig @ fin_bytes vd) = Inr (h_clientFinished s')"
proof -
  have st: "st \<in> set suitesTLS13" using rdy by (simp add: flight_ready_def)
  note m = msgs [unfolded flight_messages_def]
  obtain hsec secret a nm s1 where k: "EarlySecret_HandshakeSecret (NewEarlySecret (s13_hash st) None) (h_sharedKey s) = Inr hsec"
      "ServerHandshakeTrafficSecret hsec (ch @ sh) = Inr secret" "aead_laws a" "raw_Overhead a = 16"
      "\<And>level hc. suite_set_secret (env_suites env) st level secret hc = Inr (keyed hc level secret (xorNonceAEAD nm a))"
      "\<And>level inn0. hc_version inn0 = VersionTLS13 \<Longrightarrow> hc_mac inn0 = None \<Longrightarrow>
         tls13_peers a (c_out (h_c s1)) (keyed inn0 level secret (xorNonceAEAD nm a))"
    and s1: "h_suite s1 = Some st" "h_sigAlg s1 = Ed25519" "pk_Signer (cert_PrivateKey (h_cert s1)) \<noteq> None" "\<not> h_usingPSK s1"
      "h_transcript s1 = ch @ sh" "plain_ee s1 = plain_ee s" "cert_message s1 = cert_message s"
      "buffered (h_c s1)" "seq_value (hc_seq (c_out (h_c s1))) = 0" "hc_trafficSecret (c_out (h_c s1)) = secret"
      "hc_handshakeBuf (c_out (h_c s1)) = hc_handshakeBuf (c_out (h_c s))" "hc_handshakeLen (c_out (h_c s1)) = hc_handshakeLen (c_out (h_c s))"
    and ends: "\<And>s2 s4 s5 out buf t. write_msg cb (\<lambda>_. EncryptedExtensions (plain_ee s1)) s1 = Inr (None, s2) \<Longrightarrow>
       sendServerCertificate env cb s2 = Inr (None, s4) \<Longrightarrow> send_finished cb st s4 = Inr (None, s5) \<Longrightarrow> h_suite s4 = Some st \<Longrightarrow>
       s5 = s1\<lparr>h_c := (h_c s1)\<lparr>c_out := out, c_sendBuf := c_sendBuf (h_c s1) @ buf\<rparr>, h_transcript := t\<rparr> \<Longrightarrow>
       \<exists>s'. send_flight env cb tick s = Inr (None, s') \<and>
         h_c s' = (h_c s)\<lparr>c_in := c_in (h_c s'), c_out := c_out (h_c s'), c_sendBuf := c_sendBuf (h_c s) @
           plain_record recordTypeHandshake sh @ plain_record recordTypeChangeCipherSpec [1] @ buf\<rparr> \<and> h_suite s' = Some st \<and>
         finishedHash13 st (hc_trafficSecret (c_in (h_c s'))) t = Inr (h_clientFinished s')"
    by (rule flight_frame [OF cb env rdy, where tick = tick]) blast
  let ?inn = "keyed inn0 level secret (xorNonceAEAD nm a)"
  have m1: "flight_messages cb env st (h_transcript s1) s1 ee cert sig" using m s1 by (simp add: flight_messages_def)
  have o1: "hc_handshakeBuf (c_out (h_c s1)) = Some []" "hc_handshakeLen (c_out (h_c s1)) ! 1 \<noteq> 0"
      "fits_record (hc_handshakeLen (c_out (h_c s1)) ! 2) (length ee + length cert + 76 + ha_Size (s13_hash st))"
    using s1 out fits by simp_all
  obtain s2 s4 s5 vd rcd inn' out' where w: "write_msg cb (\<lambda>_. EncryptedExtensions (plain_ee s1)) s1 = Inr (None, s2)"
      "sendServerCertificate env cb s2 = Inr (None, s4)" "send_finished cb st s4 = Inr (None, s5)" "h_suite s4 = Some st"
      and vd: "finishedHash13 st secret (h_transcript s1 @ ee @ cert @ cv_bytes sig) = Inr vd"
      and r5: "s5 = s1\<lparr>h_c := (h_c s1)\<lparr>c_out := out', c_sendBuf := c_sendBuf (h_c s1) @ rcd\<rparr>,
         h_transcript := h_transcript s1 @ ee @ cert @ cv_bytes sig @ fin_bytes vd\<rparr>"
      and rec: "int (length rcd) = hc_handshakeLen (c_out (h_c s1)) ! 2"
        "decrypt ?inn rcd = Inr (Inr (ee @ cert @ cv_bytes sig @ fin_bytes vd, recordTypeHandshake), inn')"
    by (rule gather_four [OF cb env st k(3,4) s1(1-4) k(6) [OF client] s1(8,9) o1(1,2) s1(10) m1 o1(3)]) blast
  from ends [OF w r5] obtain s' where "send_flight env cb tick s = Inr (None, s')" "h_suite s' = Some st"
      "h_c s' = (h_c s)\<lparr>c_in := c_in (h_c s'), c_out := c_out (h_c s'), c_sendBuf := c_sendBuf (h_c s) @
         plain_record recordTypeHandshake sh @ plain_record recordTypeChangeCipherSpec [1] @ rcd\<rparr>"
      "finishedHash13 st (hc_trafficSecret (c_in (h_c s'))) (ch @ sh @ ee @ cert @ cv_bytes sig @ fin_bytes vd) = Inr (h_clientFinished s')"
    using s1(5) by auto
  then show ?thesis using k(1,2,5) vd rec s1(5,12) out(2)
    by (intro exI [of _ s'] exI [of _ hsec] exI [of _ secret] exI [of _ vd] exI [of _ rcd] exI [of _ ?inn] exI [of _ inn']) simp
qed

theorem coalesced_flight_in_one_record_witness:
  "\<exists>s' rcd. send_flight sample_env ref_cryptobyte (\<lambda>s. Inr (None, s)) (sample_hs2 [95, 6, 900, 0, 0, 0, 0] (Some [])) = Inr (None, s') \<and>
    c_sendBuf (h_c s') = plain_record recordTypeHandshake sample_hello' @ plain_record recordTypeChangeCipherSpec [1] @ rcd \<and>
    int (length rcd) = 900"
proof -
  let ?lens = "[95, 6, 900, 0, 0, 0, 0 :: int]" and ?s2 = "sample_hs2 [95, 6, 900, 0, 0, 0, 0] (Some [])"
  obtain st where st: "cipherSuiteTLS13Map 0x1301 = Some st" "ha_Size (s13_hash st) = 32" using sample_suite by blast
  obtain ee cert where m: "flight_messages ref_cryptobyte sample_env st (replicate 100 1 @ sample_hello') ?s2 ee cert (replicate 64 4)"
      "length ee = 15" "length cert = 313" using sample_messages by blast
  have fits: "fits_record (?lens ! 2) (length ee + length cert + 76 + ha_Size (s13_hash st))" "?lens ! 1 \<noteq> 0"
      "hc_version idle_half = VersionTLS13" "hc_mac idle_half = None"
    using m(2,3) st(2) by (simp_all add: fits_record_def idle_half_def)
  obtain s' rcd where f: "send_flight sample_env ref_cryptobyte (\<lambda>s. Inr (None, s)) ?s2 = Inr (None, s')"
      "h_c s' = (h_c ?s2)\<lparr>c_in := c_in (h_c s'), c_out := c_out (h_c s'), c_sendBuf := c_sendBuf (h_c ?s2) @
        plain_record recordTypeHandshake sample_hello' @ plain_record recordTypeChangeCipherSpec [1] @ rcd\<rparr>" "int (length rcd) = ?lens ! 2"
    using coalesced_flight_in_one_record [OF ref.cryptobyte_laws_axioms sample_plain_env sample_ready(1) [OF st(1)] sample_ready(4,5)
        fits(2) m(1) fits(1,3,4), where tick = "\<lambda>s. Inr (None, s)" and level = 2]
    by (elim exE conjE) (rule that)
  have "c_sendBuf (h_c s') = plain_record recordTypeHandshake sample_hello' @ plain_record recordTypeChangeCipherSpec [1] @ rcd"
    by (subst f(2)) (simp add: sample_ready(2))
  with f(1,3) show ?thesis by (intro exI conjI) (assumption, simp_all)
qed

text \<open>(C4)
  Key agreement through the target's ServerHello. The server knows no other message than the one the
  target sent; it writes its own share over the target's. For a client whose share is a public key of
  X25519, or an ML-KEM encapsulation key followed by one, the message keeps its length and changes only
  in the share, and the secret the client computes from the share it reads there is the server's shared
  key. X25519 and ML-KEM are assumed to agree, and the random source to work.
\<close>

theorem key_exchange_agrees:
  assumes suite: "cipherSuiteTLS13Map (sh_cipherSuite (h_hello s)) = Some st"
    and key: "env_key env = Some key" "length (env_X25519_public env key) = 32" "length (env_X25519_public env ck) = 32"
    and dh: "env_X25519 env key (env_X25519_public env ck) = Some k" "env_X25519 env ck (env_X25519_public env key) = Some k"
    and hybrid: "hybrid \<longleftrightarrow> ks_group (sh_serverShare (h_hello s)) = X25519MLKEM768"
    and peer: "peer_data (ch_keyShares (h_clientHello s)) (ks_group (sh_serverShare (h_hello s))) =
      (if hybrid then ek else []) @ env_X25519_public env ck" "length ek = 1184"
    and kem: "env_NewEncapsulationKey768 env ek" "env_Encapsulate env ek = (ss, ct)" "length ct = 1088" "decapsulate ct = ss"
    and share: "ks_data (sh_serverShare (h_hello s)) = d" "length d = (if hybrid then 1120 else 32)"
    and orig: "sh_original (h_hello s) = Some sh" "off = env_share_offset env" "off + length d \<le> length sh"
  shows "\<exists>s' sh' secret. key_exchange env s = Inr (None, s') \<and> sh_original (h_hello s') = Some sh' \<and> h_suite s' = Some st \<and>
    length sh' = length sh \<and> (\<forall>i < length sh. i < off \<or> off + length d \<le> i \<longrightarrow> sh' ! i = sh ! i) \<and>
    h_sharedKey s' = Some secret \<and> client_secret env decapsulate ck hybrid (take (length d) (drop off sh')) = Some secret"
proof -
  let ?pub = "env_X25519_public env key"
  let ?h1 = "patch_share off ?pub (h_hello s)"
  have d1: "ks_data (sh_serverShare ?h1) = ?pub @ drop 32 d" "sh_original ?h1 = Some (overwrite off (?pub @ drop 32 d) sh)"
    using key(2) share orig by (simp_all add: patch_share_data patch_share_original)
  show ?thesis
  proof (cases hybrid)
    case False
    let ?s' = "s\<lparr>h_suite := Some st, h_c := (h_c s)\<lparr>c_cipherSuite := s13_id st\<rparr>, h_transcript := [], h_hello := ?h1,
        h_sharedKey := Some k, h_serverName := ch_serverName (h_clientHello s)\<rparr>"
    have "key_exchange env s = Inr (None, ?s')"
      using False suite key dh hybrid peer orig by (simp add: key_exchange_def Let_def and_then_def)
    moreover have "length (overwrite off ?pub sh) = length sh" "take 32 (drop off (overwrite off ?pub sh)) = ?pub"
      using False share orig key(2) length_overwrite [of off ?pub sh] overwrite_slot [of off ?pub sh] by simp_all
    ultimately show ?thesis
      using False share orig key(2) dh(2) d1 overwrite_outside [of off ?pub sh]
      by (intro exI [of _ ?s'] exI [of _ "overwrite off ?pub sh"] exI [of _ k]) (simp add: client_secret_def)
  next
    case True
    let ?h2 = "patch_share off (ct @ ?pub) ?h1"
    have len: "length d = 1120" "length (ct @ ?pub) = 1120" using True share kem key by simp_all
    have d2: "sh_original ?h2 = Some (overwrite off (ct @ ?pub) sh)"
      using d1 len key(2) orig overwrite_twice [of "?pub @ drop 32 d" "ct @ ?pub" off sh] by (simp add: patch_share_original)
    let ?s' = "s\<lparr>h_suite := Some st, h_c := (h_c s)\<lparr>c_cipherSuite := s13_id st\<rparr>, h_transcript := [], h_hello := ?h2,
        h_sharedKey := Some (ss @ k), h_serverName := ch_serverName (h_clientHello s)\<rparr>"
    have pre: "share_prefix off (env_behind env) ?h1 = Inr ?pub"
      using d1 key(2) by (simp add: share_prefix_def)
    have "key_exchange env s = Inr (None, ?s')"
      using True suite key dh hybrid peer orig kem pre
      by (simp add: key_exchange_def Let_def and_then_def mlkem_exchange_def)
    moreover have "length (overwrite off (ct @ ?pub) sh) = length sh" "take 1120 (drop off (overwrite off (ct @ ?pub) sh)) = ct @ ?pub"
      using len orig length_overwrite [of off "ct @ ?pub" sh] overwrite_slot [of off "ct @ ?pub" sh] by simp_all
    ultimately show ?thesis
      using True len orig kem dh(2) d2 overwrite_outside [of off "ct @ ?pub" sh]
      by (intro exI [of _ ?s'] exI [of _ "overwrite off (ct @ ?pub) sh"] exI [of _ "ss @ k"]) (simp add: client_secret_def)
  qed
qed

theorem key_exchange_agrees_witness:
  "\<exists>s' sh'. key_exchange sample_env (sample_hs sample_lens None) = Inr (None, s') \<and> sh_original (h_hello s') = Some sh' \<and>
    length sh' = 90 \<and> h_sharedKey s' \<noteq> None \<and>
    client_secret sample_env (\<lambda>ct. replicate 32 9) (replicate 32 3) False (take 32 (drop 58 sh')) = h_sharedKey s'"
proof -
  let ?s = "sample_hs sample_lens None"
  obtain st where st: "cipherSuiteTLS13Map 0x1301 = Some st" using sample_suite by blast
  have h: "sh_cipherSuite (h_hello ?s) = 0x1301" "ks_group (sh_serverShare (h_hello ?s)) = X25519" "ks_data (sh_serverShare (h_hello ?s)) = replicate 32 9"
      "sh_original (h_hello ?s) = Some sample_server_hello" "peer_data (ch_keyShares (h_clientHello ?s)) X25519 = replicate 32 3"
      "length sample_server_hello = 90" "env_share_offset sample_env = 58"
    by (simp_all add: sample_hs_def sample_server_def sample_server_hello_def peer_data_def sample_env_def)
  have e: "env_key sample_env = Some (replicate 32 7)" "env_X25519_public sample_env k = k"
      "env_X25519 sample_env (replicate 32 a) (replicate 32 b) = Some (replicate 32 (a XOR b))"
      "env_NewEncapsulationKey768 sample_env ek" "env_Encapsulate sample_env ek = (replicate 32 9, replicate 1088 8)" for k a b ek
    by (simp_all add: sample_env_def zip_replicate)
  obtain s' sh' secret where "key_exchange sample_env ?s = Inr (None, s')" "sh_original (h_hello s') = Some sh'" "length sh' = 90"
      "h_sharedKey s' = Some secret"
      "client_secret sample_env (\<lambda>ct. replicate 32 9) (replicate 32 3) False (take 32 (drop 58 sh')) = Some secret"
    using key_exchange_agrees [of ?s st sample_env "replicate 32 7" "replicate 32 3" "replicate 32 4" False "replicate 1184 0"
        "replicate 32 9" "replicate 1088 8" "\<lambda>ct. replicate 32 9" "replicate 32 9" sample_server_hello 58] st h e
    by auto
  then show ?thesis by (intro exI [of _ s'] exI [of _ sh']) simp
qed

end
