(* ===== verification/Spec2Isabelle.thy ===== *)
theory Spec2Isabelle
  imports Cache_Evidence Handshake_Codec Conn_Transfer Conn_Handshake Cert_Plan Server_Auth Cipher_Suites Auth Server_Flight
begin

text \<open>
  \<^bold>\<open>A verification of the REALITY server.\<close>

  REALITY is a TLS 1.3 server that hides behind another site, the target. It reads a ClientHello,
  decides from it alone whether the client knows the server's key, and hands everybody else to the
  target. For a client it accepts it takes the target's own ServerHello, writes its key share into
  it, and sends a flight whose records have exactly the lengths of the target's, with a certificate
  it makes on the fly. What it learns of the target is kept in a cache, so that later handshakes
  skip part of the dialogue with the target (path L1) or all of it (path L2). The program is a fork
  of Go's \<^verbatim>\<open>crypto/tls\<close> with these parts added.

  \<^bold>\<open>Conventions.\<close> Every definition translates a function, a type or a part of a function under
  \<^verbatim>\<open>src/\<close> and has its name where Isabelle allows it. Go's sized integers are words of that width
  (\<open>u8\<close> to \<open>u64\<close>), \<^verbatim>\<open>int\<close> and \<^verbatim>\<open>time.Duration\<close> are integers, a byte slice is a list of bytes, and an
  option where the code tells nil from empty. State is passed explicitly, as records with the fields
  of the structs. An error is a value; a panic is the left side of \<open>'a may_panic\<close>, with the cause.
  Time, random bytes, the order of a map iteration and what the network delivers are arguments.
  Third-party code is a parameter: \<^verbatim>\<open>cryptobyte\<close> (locale \<open>cryptobyte_laws\<close>, interpreted on a reference
  implementation), AEADs (\<open>aead_laws\<close>), hash functions (\<open>hash_laws\<close>, interpreted on SHA-256 and SHA-384
  as defined in \<open>Sha2\<close>), X25519, ML-KEM, ML-DSA, x509, HMAC-SHA512 and the signers. Concurrent calls
  on shared state are interleavings of the atomic steps of the code; \<open>event_system\<close> of \<open>Prelude\<close> is
  the induction over them that the components share.

  \<^bold>\<open>Admission\<close> (\<open>Server_Auth\<close>, \<open>Replay_Guard\<close>: \<^verbatim>\<open>server_amortize.go\<close>, \<^verbatim>\<open>replay_guard.go\<close>). The first phases
  of \<^verbatim>\<open>Server\<close>, the quota of handshake slots per source, the throttle of failed authentications, and
  the guard against replays with its shards, eviction and collection. Shown: who knows the key gets
  in, and nobody else; a random is accepted once per window while the guard has room; quota, throttle
  and guard stay within their bounds for every sequence of events; a full guard makes progress.

  \<^bold>\<open>The server's handshake\<close> (\<open>Server_Handshake\<close>, \<open>Server_Flight\<close>: \<^verbatim>\<open>handshake_server_tls13.go\<close>). The
  handshake as steps on \<open>hs13\<close>: the key exchange through the target's ServerHello, the choice of the
  certificate, and the flight up to the client's Finished. Shown: client and server agree on the key,
  also in the hybrid with ML-KEM; the records that are sent have the target's lengths, split or
  coalesced, and open at a client with the same secrets as the messages of the flight.

  \<^bold>\<open>Certificates\<close> (\<open>Dest_Meta\<close>, \<open>Cert_Plan\<close>: \<^verbatim>\<open>dest_cert_meta.go\<close>, \<^verbatim>\<open>cert_plan.go\<close>). Plans that grow a
  chain towards the budget of the target's record, their cache, and the code that authenticates the
  server in the leaf. Shown: a plan fits if the minimal leaf does, the estimate of the message length
  is exact, the cache stays bounded, the code is in its slot; the ring buffer of sizes is the maximum
  of the last eight.

  \<^bold>\<open>The target's flight\<close> (\<open>Capture\<close>, \<open>Fidelity\<close>: \<^verbatim>\<open>server_amortize.go\<close>, \<^verbatim>\<open>probe_common.go\<close>,
  \<^verbatim>\<open>fidelity.go\<close>). The capture of record lengths, the validity of length vectors, and the state machine
  of a destination's capability. Shown: the capture measures a split flight however it is cut; a
  destination is mirrored for accepted clients only after three shape failures.

  \<^bold>\<open>The cache\<close> (\<open>Cache_Key\<close>, \<open>Amortize\<close>, \<open>Cache_Manager\<close>, \<open>Cache_Safety\<close>, \<open>Cache_Evidence\<close>:
  \<^verbatim>\<open>cache_key.go\<close>, \<^verbatim>\<open>amortize.go\<close>, \<^verbatim>\<open>cache_manager.go\<close>, \<^verbatim>\<open>amortize_cache.go\<close>, \<^verbatim>\<open>handlers.go\<close>). Keys, the
  class of a ClientHello, and every operation on the entries. Shown, over every sequence of calls:
  entries are well formed, the entry counter is accounted for, which entry is evicted and exactly
  when that panics, what the path L2 needs, quarantine, and the watermark of the persister.

  \<^bold>\<open>Records and connections\<close> (\<open>Record_Layer\<close>, \<open>Record_Codec\<close>, \<open>Conn\<close>, \<open>Conn_Reading\<close>, \<open>Conn_Transfer\<close>,
  \<open>Conn_Handshake\<close>: \<^verbatim>\<open>conn.go\<close>, \<^verbatim>\<open>quic.go\<close>). Encryption with the padding to the target's length, the
  record loops, alerts, key updates, and the handshake-level reading and writing. Shown: records open
  at a peer in step; the constant-time padding check is the reference; what one end writes the other
  reads, however the stream is cut; a read ends, with one of the outcomes its comment promises.

  \<^bold>\<open>Messages\<close> (\<open>Handshake_Types\<close>, \<open>Cryptobyte\<close>, \<open>Extensions\<close>, \<open>Client_Hello\<close>, \<open>Client_Hello_Codec\<close>,
  \<open>Server_Hello\<close>, \<open>Handshake_Messages\<close>, \<open>Handshake_Codec\<close>: \<^verbatim>\<open>handshake_messages.go\<close>). Every handshake
  message. Shown: what marshals is read back, no received bytes make a parser panic, and what an
  accepted ClientHello guarantees.

  \<^bold>\<open>Keys and suites\<close> (\<open>Sha2\<close>, \<open>Key_Schedule\<close>, \<open>Cipher_Suites\<close>, \<open>Auth\<close>: \<^verbatim>\<open>tls13/tls13.go\<close>,
  \<^verbatim>\<open>tls12/tls12.go\<close>, \<^verbatim>\<open>key_schedule.go\<close>, \<^verbatim>\<open>prf.go\<close>, \<^verbatim>\<open>cipher_suites.go\<close>, \<^verbatim>\<open>auth.go\<close>). Shown: labels are
  injective, the loops of P\_hash end and compute it, the running hash is that of the messages, and
  the signature scheme is the first that fits.

  \<^bold>\<open>Bounds and loops.\<close> Loops are recursive functions with termination proofs; the loops of the
  key derivation, which a hash of length zero would not leave, are partial functions that are proved
  to return. The loop of \<^verbatim>\<open>captureTargetRecords\<close> is bounded by the 64 reads of the code, the one of
  \<^verbatim>\<open>readRecordOrCCS\<close> by its limit of useless records.

  \<^bold>\<open>Not modelled.\<close> Sockets, deadlines, locks, mirroring and logging; the files of the persister; the
  timers and goroutines of refresh and probing; the client side, the server for TLS 1.2 and below and
  the session tickets of \<^verbatim>\<open>crypto/tls\<close>, which the REALITY server does not use; the decryption of an
  inner ClientHello and HPKE. The eviction at the replay guard's capacity gate is one step with the
  two loads around it. X25519, ML-KEM, x509 and the signatures are parameters whose documented
  behaviour is a hypothesis where it matters, and nothing is said of their security.
\<close>

end
